(* ===== verification/Prelude.thy ===== *)
theory Prelude
  imports
    Main
    "HOL-Library.Finite_Map"
    "HOL-Library.Char_ord"
    "HOL-Library.List_Lexorder"
    "HOL-Library.Sublist"
    "HOL-Library.Multiset"
    "HOL-Library.Word"
begin

text \<open>
  Shared vocabulary of the development: the Go types and standard-library functions the state
  engine uses (strings as byte sequences, maps as finite maps, 64-bit wrap-around, hexadecimal and
  base64 text), the \<^verbatim>\<open>named_theorems\<close> collections the component theories
  extend, and the generic lemmas on lists and finite maps they share.

  Go strings and byte slices are byte sequences; both are \<^typ>\<open>string\<close> here (a
  \<^typ>\<open>char\<close> is one byte), compared lexicographically by byte as Go's \<open><\<close> does. Case
  folding and white space follow the ASCII part of Go's Unicode tables.
\<close>

named_theorems op_defs \<open>definitions of the store operations\<close>
named_theorems save_rules \<open>what a commit or a rollback does to each part of the world\<close>
named_theorems frame_simps \<open>parts of the world an operation leaves alone\<close>

type_synonym bytes = string
type_synonym time = int  \<comment> \<open>nanoseconds since the Unix epoch\<close>
type_synonym 'v gomap = "(string, 'v) fmap"
type_synonym strmap = "string gomap"

section \<open>Strings\<close>

definition hasPrefix :: "string \<Rightarrow> string \<Rightarrow> bool" where
  "hasPrefix s p = prefix p s"

definition hasSuffix :: "string \<Rightarrow> string \<Rightarrow> bool" where
  "hasSuffix s p = suffix p s"

definition isSpace :: "char \<Rightarrow> bool" where
  "isSpace c = (let n = (of_char c :: nat) in n = 32 \<or> (9 \<le> n \<and> n \<le> 13))"

definition trimLeft :: "string \<Rightarrow> string" where
  "trimLeft = dropWhile isSpace"

definition trimSpace :: "string \<Rightarrow> string" where
  "trimSpace s = rev (dropWhile isSpace (rev (dropWhile isSpace s)))"

definition lowerChar :: "char \<Rightarrow> char" where
  "lowerChar c = (let n = (of_char c :: nat) in if 65 \<le> n \<and> n \<le> 90 then char_of (n + 32) else c)"

definition upperChar :: "char \<Rightarrow> char" where
  "upperChar c = (let n = (of_char c :: nat) in if 97 \<le> n \<and> n \<le> 122 then char_of (n - 32) else c)"

definition toLower :: "string \<Rightarrow> string" where
  "toLower = map lowerChar"

definition toUpper :: "string \<Rightarrow> string" where
  "toUpper = map upperChar"

definition equalFold :: "string \<Rightarrow> string \<Rightarrow> bool" where
  "equalFold a b = (toLower a = toLower b)"

text \<open>\<open>strings.Trim(s, cutset)\<close> with a one-character cutset, and \<open>strings.TrimSuffix\<close>.\<close>

definition trimChar :: "char \<Rightarrow> string \<Rightarrow> string" where
  "trimChar c s = rev (dropWhile ((=) c) (rev (dropWhile ((=) c) s)))"

definition trimSuffix :: "string \<Rightarrow> string \<Rightarrow> string" where
  "trimSuffix s p = (if suffix p s then take (length s - length p) s else s)"

text \<open>\<open>strings.Split\<close> and \<open>strings.SplitN\<close> with a one-character separator.\<close>

fun splitOn :: "char \<Rightarrow> string \<Rightarrow> string list" where
  "splitOn c [] = [[]]"
| "splitOn c (x # xs) =
     (if x = c then [] # splitOn c xs
      else (case splitOn c xs of [] \<Rightarrow> [[x]] | p # ps \<Rightarrow> (x # p) # ps))"

fun splitN :: "nat \<Rightarrow> char \<Rightarrow> string \<Rightarrow> string list" where
  "splitN 0 c s = []"
| "splitN (Suc 0) c s = [s]"
| "splitN (Suc (Suc n)) c s =
     (let p = takeWhile ((\<noteq>) c) s; r = dropWhile ((\<noteq>) c) s
      in case r of [] \<Rightarrow> [p] | _ # r' \<Rightarrow> p # splitN (Suc n) c r')"

lemma splitOn_not_Nil [simp]: "splitOn c s \<noteq> []"
  by (induction s) (auto split: list.splits)

lemma splitOn_no_sep: "p \<in> set (splitOn c s) \<Longrightarrow> c \<notin> set p"
  by (induction s arbitrary: p) (auto split: list.splits if_splits)

lemma trimSpace_Nil [simp]: "trimSpace [] = []"
  by (simp add: trimSpace_def)

lemma equalFold_refl [simp]: "equalFold s s"
  by (simp add: equalFold_def)

lemma toLower_length [simp]: "length (toLower s) = length s"
  by (simp add: toLower_def)

section \<open>Decimal text\<close>

definition digitChar :: "nat \<Rightarrow> char" where
  "digitChar d = char_of (48 + d)"

fun showNat :: "nat \<Rightarrow> string" where
  "showNat n = (if n < 10 then [digitChar n] else showNat (n div 10) @ [digitChar (n mod 10)])"

declare showNat.simps [simp del]

definition showInt :: "int \<Rightarrow> string" where
  "showInt i = (if i < 0 then CHR ''-'' # showNat (nat (- i)) else showNat (nat i))"

definition digitVal :: "char \<Rightarrow> nat option" where
  "digitVal c = (let n = (of_char c :: nat) in if 48 \<le> n \<and> n \<le> 57 then Some (n - 48) else None)"

fun readDigits :: "nat \<Rightarrow> string \<Rightarrow> nat \<times> string" where
  "readDigits acc [] = (acc, [])"
| "readDigits acc (c # cs) =
     (case digitVal c of None \<Rightarrow> (acc, c # cs) | Some d \<Rightarrow> readDigits (acc * 10 + d) cs)"

lemma of_char_digitChar: "d < 10 \<Longrightarrow> (of_char (digitChar d) :: nat) = 48 + d"
  by (simp add: digitChar_def)

lemma digitVal_digitChar [simp]: "d < 10 \<Longrightarrow> digitVal (digitChar d) = Some d"
  by (simp add: digitVal_def of_char_digitChar)

lemma readDigits_append:
  "readDigits acc (s @ t) =
     (if list_all (\<lambda>c. \<exists>d. digitVal c = Some d) s then readDigits (fst (readDigits acc s)) t
      else (fst (readDigits acc s), snd (readDigits acc s) @ t))"
  by (induction s arbitrary: acc) (auto split: option.splits)

lemma showNat_digits: "list_all (\<lambda>c. \<exists>d. digitVal c = Some d) (showNat n)"
proof (induction n rule: showNat.induct)
  case (1 n)
  then show ?case by (subst showNat.simps) auto
qed

lemma readDigits_showNat: "readDigits 0 (showNat n) = (n, [])"
proof (induction n rule: showNat.induct)
  case (1 n)
  show ?case
  proof (cases "n < 10")
    case True
    then show ?thesis by (simp add: showNat.simps [of n])
  next
    case False
    with 1 have "readDigits 0 (showNat (n div 10)) = (n div 10, [])" by simp
    with False show ?thesis
      by (simp add: showNat.simps [of n] readDigits_append showNat_digits)
  qed
qed

lemma showNat_inj: "showNat m = showNat n \<longleftrightarrow> m = n"
  by (metis readDigits_showNat fst_conv)

lemma showNat_not_Nil [simp]: "showNat n \<noteq> []"
  by (subst showNat.simps) simp

section \<open>Parsing integers\<close>

text \<open>
  \<open>strconv.Atoi\<close>: an optional sign and decimal digits, within the range of \<open>int64\<close>.
  \<open>sscanfInt\<close> is \<open>fmt.Sscanf(value, "%d", &n)\<close>: leading blanks (but no line break) are
  skipped and text after the digits is ignored.
\<close>

definition signedDigits :: "string \<Rightarrow> (int \<times> string) option" where
  "signedDigits s =
     (let neg = (case s of c # _ \<Rightarrow> c = CHR ''-'' | [] \<Rightarrow> False);
          t = (case s of c # cs \<Rightarrow> if c = CHR ''-'' \<or> c = CHR ''+'' then cs else s | [] \<Rightarrow> []);
          r = readDigits 0 t
      in if snd r = t then None
         else let v = (if neg then - int (fst r) else int (fst r))
              in if - (2 ^ 63) \<le> v \<and> v < 2 ^ 63 then Some (v, snd r) else None)"

definition atoi :: "string \<Rightarrow> int option" where
  "atoi s = (case signedDigits s of Some (v, []) \<Rightarrow> Some v | _ \<Rightarrow> None)"

definition isBlank :: "char \<Rightarrow> bool" where
  "isBlank c = (isSpace c \<and> c \<noteq> CHR 0x0A)"

definition sscanfInt :: "string \<Rightarrow> int option" where
  "sscanfInt s = map_option fst (signedDigits (dropWhile isBlank s))"

definition intValue :: "string \<Rightarrow> int \<Rightarrow> int" where
  "intValue value fallback = (case sscanfInt value of None \<Rightarrow> fallback | Some n \<Rightarrow> n)"

section \<open>Machine integers\<close>

text \<open>
  \<open>int64\<close> and \<open>int32\<close> arithmetic wraps around; \<open>duration_s n\<close> is Go's
  \<open>time.Duration(n) * time.Second\<close>, a product of two \<open>int64\<close> values.
\<close>

definition wrap64 :: "int \<Rightarrow> int" where
  "wrap64 x = (x + 2 ^ 63) mod 2 ^ 64 - 2 ^ 63"

definition wrap32 :: "int \<Rightarrow> int" where
  "wrap32 x = (x + 2 ^ 31) mod 2 ^ 32 - 2 ^ 31"

definition duration_s :: "int \<Rightarrow> int" where
  "duration_s n = wrap64 (n * 1000000000)"

lemma wrap64_id: "- (2 ^ 63) \<le> x \<Longrightarrow> x < 2 ^ 63 \<Longrightarrow> wrap64 x = x"
  by (simp add: wrap64_def)

lemma wrap32_id: "- (2 ^ 31) \<le> x \<Longrightarrow> x < 2 ^ 31 \<Longrightarrow> wrap32 x = x"
  by (simp add: wrap32_def)

lemma wrap64_range: "- (2 ^ 63) \<le> wrap64 x \<and> wrap64 x < 2 ^ 63"
  by (simp add: wrap64_def)

lemma duration_s_small: "0 \<le> n \<Longrightarrow> n \<le> 9223372036 \<Longrightarrow> duration_s n = n * 1000000000"
  by (simp add: duration_s_def wrap64_id)

section \<open>Hexadecimal text\<close>

definition hexDigit :: "nat \<Rightarrow> char" where
  "hexDigit d = (if d < 10 then char_of (48 + d) else char_of (87 + d))"

definition hexByte :: "char \<Rightarrow> string" where
  "hexByte c = (let n = (of_char c :: nat) in [hexDigit (n div 16), hexDigit (n mod 16)])"

definition hexEncode :: "bytes \<Rightarrow> string" where
  "hexEncode b = concat (map hexByte b)"

definition hexVal :: "char \<Rightarrow> nat option" where
  "hexVal c = (let n = (of_char c :: nat)
     in if 48 \<le> n \<and> n \<le> 57 then Some (n - 48)
        else if 97 \<le> n \<and> n \<le> 102 then Some (n - 87)
        else if 65 \<le> n \<and> n \<le> 70 then Some (n - 55) else None)"

fun hexDecode :: "string \<Rightarrow> bytes option" where
  "hexDecode [] = Some []"
| "hexDecode [c] = None"
| "hexDecode (c # d # s) =
     (case (hexVal c, hexVal d, hexDecode s) of
        (Some x, Some y, Some b) \<Rightarrow> Some (char_of (16 * x + y) # b)
      | _ \<Rightarrow> None)"

lemma hexVal_hexDigit: "d < 16 \<Longrightarrow> hexVal (hexDigit d) = Some d"
  by (auto simp: hexVal_def hexDigit_def)

lemma of_char_lt_256: "(of_char c :: nat) < 256"
  by (metis of_char_mod_256 mod_less_divisor zero_less_numeral)

lemma of_char_div_16: "(of_char c :: nat) div 16 < 16"
  by (rule less_mult_imp_div_less) (use of_char_lt_256 [of c] in simp)

lemma hexDecode_hexEncode: "hexDecode (hexEncode b) = Some b"
proof (induction b)
  case Nil
  show ?case by (simp add: hexEncode_def)
next
  case (Cons c b)
  have lt: "(of_char c :: nat) div 16 < 16" "(of_char c :: nat) mod 16 < 16"
    using of_char_div_16 [of c] by auto
  have eq: "16 * ((of_char c :: nat) div 16) + of_char c mod 16 = of_char c" by simp
  have "hexEncode (c # b) = hexByte c @ hexEncode b" by (simp add: hexEncode_def)
  with Cons lt show ?case by (simp add: hexByte_def Let_def hexVal_hexDigit eq)
qed

lemma hexEncode_inj: "hexEncode a = hexEncode b \<longleftrightarrow> a = b"
  by (metis hexDecode_hexEncode option.inject)

lemma hexEncode_length [simp]: "length (hexEncode b) = 2 * length b"
  by (induction b) (auto simp: hexEncode_def hexByte_def Let_def)

lemma hexEncode_Nil_iff [simp]: "hexEncode b = [] \<longleftrightarrow> b = []"
  by (metis hexEncode_length length_0_conv mult_eq_0_iff zero_neq_numeral)

lemma hexDigit_not_special: "d < 16 \<Longrightarrow> hexDigit d \<notin> {CHR ''.'', CHR ''/'', CHR 0x5C}"
  by (auto simp: hexDigit_def char_of_eq_iff take_bit_eq_mod)

lemma hexEncode_chars: "c \<in> set (hexEncode b) \<Longrightarrow> \<exists>d < 16. c = hexDigit d"
proof (induction b)
  case Nil
  then show ?case by (simp add: hexEncode_def)
next
  case (Cons a b)
  have lt: "(of_char a :: nat) div 16 < 16" "(of_char a :: nat) mod 16 < 16"
    using of_char_div_16 [of a] by auto
  from Cons.prems have "c \<in> set (hexByte a) \<or> c \<in> set (hexEncode b)"
    by (auto simp: hexEncode_def)
  then consider "c = hexDigit (of_char a div 16)" | "c = hexDigit (of_char a mod 16)"
    | "c \<in> set (hexEncode b)"
    by (auto simp: hexByte_def Let_def)
  then show ?case using lt Cons.IH by cases blast+
qed

lemma hexEncode_no_dot: "hd (hexEncode b @ [CHR ''0'']) \<noteq> CHR ''.''"
proof (cases b)
  case Nil
  then show ?thesis by (simp add: hexEncode_def)
next
  case (Cons c cs)
  from hexDigit_not_special [OF of_char_div_16 [of c]] Cons show ?thesis
    by (simp add: hexEncode_def hexByte_def Let_def)
qed

section \<open>Sequencing checks\<close>

text \<open>\<open>if err := a; err != nil { return err }; return b\<close>\<close>

definition errOr :: "'e option \<Rightarrow> 'e option \<Rightarrow> 'e option" where
  "errOr a b = (case a of Some e \<Rightarrow> Some e | None \<Rightarrow> b)"

lemma errOr_None_iff [simp]: "errOr a b = None \<longleftrightarrow> a = None \<and> b = None"
  by (simp add: errOr_def split: option.split)

section \<open>Lists and finite maps\<close>

text \<open>A Go map read of a missing key of a \<open>map[string]string\<close> gives the empty string.\<close>

definition fmget :: "strmap \<Rightarrow> string \<Rightarrow> string" where
  "fmget m k = (case fmlookup m k of None \<Rightarrow> [] | Some v \<Rightarrow> v)"

text \<open>The values of a map in key order, and \<open>len\<close> of a map.\<close>

definition fmvalues :: "('k::linorder, 'v) fmap \<Rightarrow> 'v list" where
  "fmvalues m = map snd (sorted_list_of_fmap m)"

definition fmkeys :: "('k::linorder, 'v) fmap \<Rightarrow> 'k list" where
  "fmkeys m = map fst (sorted_list_of_fmap m)"

definition fmnull :: "('k, 'v) fmap \<Rightarrow> bool" where
  "fmnull m = (fmdom m = {||})"

text \<open>Changing the value of one key where it is present: \<open>m[k].f = ...\<close> through a pointer.\<close>

definition fmmodify :: "'k \<Rightarrow> ('v \<Rightarrow> 'v) \<Rightarrow> ('k, 'v) fmap \<Rightarrow> ('k, 'v) fmap" where
  "fmmodify k f m = (case fmlookup m k of None \<Rightarrow> m | Some v \<Rightarrow> fmupd k (f v) m)"

lemma fmlookup_modify [simp]:
  "fmlookup (fmmodify k f m) x = (if x = k then map_option f (fmlookup m k) else fmlookup m x)"
  by (simp add: fmmodify_def split: option.split)

lemma fmnull_iff: "fmnull m \<longleftrightarrow> m = fmempty"
  unfolding fmnull_def by (metis fmap_ext fmdom_empty fmdom_notD fempty_iff)

lemma fmnull_lookup: "fmnull m \<longleftrightarrow> (\<forall>k. fmlookup m k = None)"
  by (metis fmap_ext fmempty_lookup fmnull_iff)

lemma fmdom_modify [simp]: "fmdom (fmmodify k f m) = fmdom m"
  by (auto simp: fmmodify_def fmdomI split: option.split intro: fset_eqI)

lemma set_fmkeys: "set (fmkeys m) = fset (fmdom m)"
proof -
  have "dom (map_of (sorted_list_of_fmap m)) = dom (fmlookup m)" by simp
  then show ?thesis
    unfolding fmkeys_def by (simp only: dom_map_of_conv_image_fst dom_fmlookup fmdom'_alt_def set_map)
qed

lemma fmkeys_eq: "fmkeys m = sorted_list_of_fset (fmdom m)"
  by (simp add: fmkeys_def sorted_list_of_fmap_def comp_def)

lemma sorted_fmkeys: "sorted (fmkeys m)"
  by (simp add: fmkeys_eq sorted_list_of_fset.rep_eq)

lemma distinct_fmkeys: "distinct (fmkeys m)"
  by (simp add: fmkeys_eq sorted_list_of_fset.rep_eq)

lemma in_fmkeys: "k \<in> set (fmkeys m) \<longleftrightarrow> (\<exists>v. fmlookup m k = Some v)"
  by (simp add: set_fmkeys fmlookup_dom_iff)

lemma fmvalues_eq: "fmvalues m = map (\<lambda>k. the (fmlookup m k)) (fmkeys m)"
  by (simp add: fmvalues_def fmkeys_eq sorted_list_of_fmap_def comp_def)

lemma set_fmvalues: "set (fmvalues m) = {v. \<exists>k. fmlookup m k = Some v}"
proof -
  have "v \<in> set (fmvalues m) \<longleftrightarrow> (\<exists>k. k \<in> set (fmkeys m) \<and> v = the (fmlookup m k))" for v
    by (auto simp: fmvalues_eq)
  then have "v \<in> set (fmvalues m) \<longleftrightarrow> (\<exists>k. fmlookup m k = Some v)" for v
    by (metis in_fmkeys option.sel)
  then show ?thesis by auto
qed

lemma fmpred_lookup: "fmpred P m \<longleftrightarrow> (\<forall>k v. fmlookup m k = Some v \<longrightarrow> P k v)"
  by (rule fmpred_iff)

lemma fmap_eqI: "(\<And>k. fmlookup m k = fmlookup n k) \<Longrightarrow> m = n"
  by (rule fmap_ext)

lemma sorted_wrt_less_iff: "sorted_wrt (<) xs \<longleftrightarrow> sorted xs \<and> distinct (xs :: 'a::linorder list)"
  by (rule strict_sorted_iff)

end
