(* ===== verification/State_Types.thy ===== *)
theory State_Types
  imports Prelude
begin

text \<open>
  The data model of \<^verbatim>\<open>internal/state\<close>: the error values, one record per Go
  struct, the \<open>snapshot\<close> that is the whole live state, and the JSON document it is
  persisted as.

  A struct that contains a map which may be absent in a stored document
  (\<open>Bucket.Objects\<close>, \<open>Queue.Attributes\<close>, \<open>Queue.Deduplication\<close>, ...) is a record
  with that map's type as a parameter: a finite map in the live state, an optional one in a document.
  Other nil maps and slices are identified with empty ones, as every reader of them does.
\<close>

section \<open>Errors\<close>

text \<open>
  The sentinel errors of the package, plus \<open>Wrap e msg\<close> for \<open>fmt.Errorf("%w: msg", e)\<close>,
  \<open>Join\<close> for \<open>errors.Join\<close>, \<open>ErrText\<close> for an anonymous \<open>errors.New\<close>,
  \<open>ErrOS\<close> for a failed system call.
  The text of \<open>Wrap\<close> keeps the constant part of the message.
\<close>

datatype error =
    ErrDataDirLocked | ErrStateCorrupt
  | ErrBucketNotFound | ErrBucketNotEmpty | ErrObjectNotFound
  | ErrMultipartUploadNotFound | ErrInvalidPart | ErrInvalidPartOrder | ErrEntityTooSmall
  | ErrQueueNotFound | ErrInvalidQueueAttribute | ErrMissingMessageParameter
  | ErrInvalidMessageParameter | ErrReceiptInvalid
  | ErrGCSBucketNotFound | ErrGCSBucketNotEmpty | ErrGCSObjectNotFound
  | ErrPubSubTopicNotFound | ErrPubSubSubscriptionNotFound
  | ErrDynamoTableNotFound | ErrDynamoTableExists | ErrDynamoConditionalCheckFailed
  | ErrDynamoValidation
  | ErrFirestoreDocumentNotFound | ErrSecretNotFound | ErrSecretVersionNotFound
  | ErrKMSInvalidName | ErrKMSKeyRingNotFound | ErrKMSCryptoKeyNotFound | ErrKMSKeyVersionMissing
  | ErrIAMServiceAccountNotFound
  | ErrSnapshotInvalidName | ErrSnapshotExists | ErrSnapshotNotFound | ErrSnapshotCorrupt
  | ErrSnapshotTargetDirty
  | ErrOS | ErrText string | Wrap error string | Join error error
  | GoPanic  \<comment> \<open>a nil dereference or a slice bound out of range: the Go program panics here\<close>

text \<open>\<open>errors.Is\<close>: follow the wrapping chain.\<close>

fun errors_Is :: "error \<Rightarrow> error \<Rightarrow> bool" where
  "errors_Is (Wrap e m) t = (Wrap e m = t \<or> errors_Is e t)"
| "errors_Is (Join a b) t = (Join a b = t \<or> errors_Is a t \<or> errors_Is b t)"
| "errors_Is e t = (e = t)"

section \<open>Structs of store.go\<close>

record Object =
  obj_Key :: string
  obj_ETag :: string
  obj_SHA256 :: string
  obj_Size :: int
  obj_LastModified :: time
  obj_ContentType :: string
  obj_Metadata :: strmap
  obj_File :: string

record Notification =
  nt_ID :: string
  nt_QueueARN :: string
  nt_Events :: "string list"
  nt_Prefix :: string
  nt_Suffix :: string

record 'objects Bucket_of =
  bk_Name :: string
  bk_CreatedAt :: time
  bk_Objects :: 'objects
  bk_Notifications :: "Notification list"

record MultipartPart =
  mp_PartNumber :: int
  mp_ETag :: string
  mp_SHA256 :: string
  mp_Size :: int
  mp_LastModified :: time
  mp_File :: string

record 'parts MultipartUpload_of =
  mu_ID :: string
  mu_Bucket :: string
  mu_Key :: string
  mu_CreatedAt :: time
  mu_ContentType :: string
  mu_Metadata :: strmap
  mu_Parts :: 'parts

record CompletedMultipartPart =
  cp_PartNumber :: int
  cp_ETag :: string

record MessageAttribute =
  ma_DataType :: string
  ma_StringValue :: string
  ma_BinaryValue :: bytes

record Message =
  msg_MessageID :: string
  msg_Body :: string
  msg_MD5OfBody :: string
  msg_SentAt :: time
  msg_VisibleAt :: time
  msg_ReceiptHandle :: string
  msg_ReceiveCount :: int
  msg_MessageGroupID :: string
  msg_MessageDeduplicationID :: string
  msg_SequenceNumber :: string
  msg_MessageAttributes :: "MessageAttribute gomap"

record DeduplicationRecord =
  dr_MessageID :: string
  dr_SequenceNumber :: string
  dr_ExpiresAt :: time

record ('attrs, 'dedup) Queue_of =
  q_Name :: string
  q_CreatedAt :: time
  q_Attributes :: 'attrs
  q_Messages :: "Message list"
  q_Deduplication :: 'dedup
  q_NextSequenceNumber :: "64 word"

record SendMessageOptions =
  so_MessageGroupID :: string
  so_MessageDeduplicationID :: string
  so_DelaySpecified :: bool

record redrivePolicy =
  rp_DeadLetterTargetARN :: string
  rp_MaxReceiveCount :: int

section \<open>Structs of dynamodb.go\<close>

text \<open>
  A DynamoDB attribute value: ten pointer or slice fields, of which a request may set any. Nested
  values occur in \<open>L\<close> and \<open>M\<close>.
\<close>

datatype DynamoAttributeValue = AV
  (av_B: "string option") (av_BOOL: "bool option") (av_BS: "string list option")
  (av_L: "DynamoAttributeValue list option") (av_M: "DynamoAttributeValue gomap option")
  (av_N: "string option") (av_NS: "string list option") (av_NULL: "bool option")
  (av_S: "string option") (av_SS: "string list option")

type_synonym DynamoItem = "DynamoAttributeValue gomap"

record DynamoKeySchemaElement =
  ks_AttributeName :: string
  ks_KeyType :: string

record DynamoAttributeDefinition =
  ad_AttributeName :: string
  ad_AttributeType :: string

record 'items DynamoTable_of =
  dt_Name :: string
  dt_CreatedAt :: time
  dt_Status :: string
  dt_BillingMode :: string
  dt_KeySchema :: "DynamoKeySchemaElement list"
  dt_AttributeDefinitions :: "DynamoAttributeDefinition list"
  dt_Items :: 'items

record DynamoWriteOperation =
  wo_Kind :: string
  wo_Table :: string
  wo_Item :: DynamoItem
  wo_Key :: DynamoItem

section \<open>Structs of gcp.go\<close>

record GCSObject =
  go_Name :: string
  go_Bucket :: string
  go_Size :: int
  go_SHA256 :: string
  go_ContentType :: string
  go_Metadata :: strmap
  go_ETag :: string
  go_MD5Hash :: string
  go_CRC32C :: string
  go_CreatedAt :: time
  go_UpdatedAt :: time
  go_Generation :: int
  go_Metageneration :: int
  go_File :: string

record 'objects GCSBucket_of =
  gb_Name :: string
  gb_Project :: string
  gb_Location :: string
  gb_StorageClass :: string
  gb_CreatedAt :: time
  gb_Objects :: 'objects

record PubSubTopic =
  pt_Name :: string
  pt_Labels :: strmap
  pt_CreatedAt :: time

record PubSubMessage =
  pm_MessageID :: string
  pm_Data :: bytes
  pm_Attributes :: strmap
  pm_OrderingKey :: string
  pm_PublishTime :: time
  pm_AckID :: string
  pm_VisibleAt :: time
  pm_DeliveryAttempt :: int

record PubSubSubscription =
  ps_Name :: string
  ps_Topic :: string
  ps_AckDeadlineSeconds :: int
  ps_DeadLetterTopic :: string
  ps_MaxDeliveryAttempts :: int
  ps_Labels :: strmap
  ps_EnableOrdering :: bool
  ps_CreatedAt :: time
  ps_Messages :: "PubSubMessage list"

section \<open>Structs of gcp\_services.go, kms.go, iam.go, fcm.go and vertex.go\<close>

record FirestoreDocument =
  fd_Name :: string
  fd_Proto :: bytes
  fd_CreateTime :: time
  fd_UpdateTime :: time

record SecretVersion =
  sv_Number :: int
  sv_Payload :: bytes
  sv_State :: string
  sv_CreateTime :: time

record Secret =
  sc_Name :: string
  sc_Labels :: strmap
  sc_CreateTime :: time
  sc_Versions :: "SecretVersion list"

record KMSKeyRing =
  kr_Name :: string
  kr_CreateTime :: time

record KMSKeyVersion =
  kv_Number :: int
  kv_Algorithm :: string
  kv_State :: string
  kv_KeyMaterial :: bytes
  kv_CreateTime :: time

record KMSCryptoKey =
  ck_Name :: string
  ck_Purpose :: string
  ck_Algorithm :: string
  ck_PrimaryVersion :: int
  ck_CreateTime :: time
  ck_Versions :: "KMSKeyVersion list"

record IAMServiceAccount =
  sa_Name :: string
  sa_KeyID :: string
  sa_PrivateKey :: bytes
  sa_CreateTime :: time

text \<open>A JSON value: a \<open>json.RawMessage\<close> up to the white space that re-encoding changes.\<close>

datatype json =
    JNull | JBool bool | JNum string | JStr string
  | JArr "json list" | JObj "(string \<times> json) list"

record FCMMessage =
  fm_Name :: string
  fm_Project :: string
  fm_ValidateOnly :: bool
  fm_Message :: json
  fm_CreatedAt :: time

record VertexGeneration =
  vg_Name :: string
  vg_Project :: string
  vg_Location :: string
  vg_Model :: string
  vg_Operation :: string
  vg_InputCharacters :: int
  vg_ToolCount :: int
  vg_CreatedAt :: time

section \<open>The live state and its stored document\<close>

type_synonym Bucket = "Object gomap Bucket_of"
type_synonym MultipartUpload = "(int, MultipartPart) fmap MultipartUpload_of"
type_synonym Queue = "(strmap, DeduplicationRecord gomap) Queue_of"
type_synonym DynamoTable = "DynamoItem gomap DynamoTable_of"
type_synonym GCSBucket = "GCSObject gomap GCSBucket_of"

record snapshot =
  Buckets :: "Bucket gomap"
  MultipartUploads :: "MultipartUpload gomap"
  Queues :: "Queue gomap"
  DynamoTables :: "DynamoTable gomap"
  GCSBuckets :: "GCSBucket gomap"
  PubSubTopics :: "PubSubTopic gomap"
  PubSubSubscriptions :: "PubSubSubscription gomap"
  FirestoreDocuments :: "FirestoreDocument gomap"
  Secrets :: "Secret gomap"
  KMSKeyRings :: "KMSKeyRing gomap"
  KMSCryptoKeys :: "KMSCryptoKey gomap"
  IAMServiceAccounts :: "IAMServiceAccount gomap"
  FCMMessages :: "FCMMessage list"
  VertexGenerations :: "VertexGeneration list"

definition emptySnapshot :: snapshot where
  "emptySnapshot = \<lparr>
     Buckets = fmempty, MultipartUploads = fmempty, Queues = fmempty, DynamoTables = fmempty,
     GCSBuckets = fmempty, PubSubTopics = fmempty, PubSubSubscriptions = fmempty,
     FirestoreDocuments = fmempty, Secrets = fmempty, KMSKeyRings = fmempty,
     KMSCryptoKeys = fmempty, IAMServiceAccounts = fmempty, FCMMessages = [],
     VertexGenerations = []\<rparr>"

text \<open>
  A decoded state document before validation: every resource map may be absent (\<open>nil\<close>), every
  entry may be a null pointer, and the inner maps may be absent.
\<close>

type_synonym BucketDoc = "Object gomap option Bucket_of"
type_synonym MultipartUploadDoc = "(int, MultipartPart) fmap option MultipartUpload_of"
type_synonym QueueDoc = "(strmap option, DeduplicationRecord gomap option) Queue_of"
type_synonym DynamoTableDoc = "DynamoItem gomap option DynamoTable_of"
type_synonym GCSBucketDoc = "GCSObject gomap option GCSBucket_of"
type_synonym 'a docmap = "'a option gomap option"

record state_doc =
  doc_Buckets :: "BucketDoc docmap"
  doc_MultipartUploads :: "MultipartUploadDoc docmap"
  doc_Queues :: "QueueDoc docmap"
  doc_DynamoTables :: "DynamoTableDoc docmap"
  doc_GCSBuckets :: "GCSBucketDoc docmap"
  doc_PubSubTopics :: "PubSubTopic docmap"
  doc_PubSubSubscriptions :: "PubSubSubscription docmap"
  doc_FirestoreDocuments :: "FirestoreDocument docmap"
  doc_Secrets :: "Secret docmap"
  doc_KMSKeyRings :: "KMSKeyRing docmap"
  doc_KMSCryptoKeys :: "KMSCryptoKey docmap"
  doc_IAMServiceAccounts :: "IAMServiceAccount docmap"
  doc_FCMMessages :: "FCMMessage list option"
  doc_VertexGenerations :: "VertexGeneration list option"

end
