(* ===== verification/Dynamo_Values.thy ===== *)
theory Dynamo_Values
  imports State_Types
begin

text \<open>
  DynamoDB attribute values: the custom JSON encoding (\<open>MarshalJSON\<close>), which keeps the first
  field that is set and fails on an empty value, and the cloning functions built on a JSON round
  trip. A value is represented on the wire by the value it decodes to.
\<close>

definition av_empty :: DynamoAttributeValue where
  "av_empty = AV None None None None None None None None None None"

definition av_of_S :: "string \<Rightarrow> DynamoAttributeValue" where
  "av_of_S s = AV None None None None None None None None (Some s) None"

definition av_of_N :: "string \<Rightarrow> DynamoAttributeValue" where
  "av_of_N s = AV None None None None None (Some s) None None None None"

text \<open>Whether \<open>MarshalJSON\<close> succeeds, and what the emitted text decodes to.\<close>

primrec av_ok :: "DynamoAttributeValue \<Rightarrow> bool" where
  "av_ok (AV b bo bs l m n ns nu s ss) =
     (if b \<noteq> None then True
      else if bo \<noteq> None then True
      else if bs \<noteq> None then True
      else case map_option (map av_ok) l of
        Some oks \<Rightarrow> list_all (\<lambda>x. x) oks
      | None \<Rightarrow>
        (case map_option (fmmap av_ok) m of
          Some oks \<Rightarrow> fmpred (\<lambda>_ x. x) oks
        | None \<Rightarrow> n \<noteq> None \<or> ns \<noteq> None \<or> nu \<noteq> None \<or> s \<noteq> None \<or> ss \<noteq> None))"

primrec av_wire :: "DynamoAttributeValue \<Rightarrow> DynamoAttributeValue" where
  "av_wire (AV b bo bs l m n ns nu s ss) =
     (if b \<noteq> None then AV b None None None None None None None None None
      else if bo \<noteq> None then AV None bo None None None None None None None None
      else if bs \<noteq> None then AV None None bs None None None None None None None
      else case map_option (map av_wire) l of
        Some l' \<Rightarrow> AV None None None (Some l') None None None None None None
      | None \<Rightarrow>
        (case map_option (fmmap av_wire) m of
          Some m' \<Rightarrow> AV None None None None (Some m') None None None None None
        | None \<Rightarrow>
          (if n \<noteq> None then AV None None None None None n None None None None
           else if ns \<noteq> None then AV None None None None None None ns None None None
           else if nu \<noteq> None then AV None None None None None None None nu None None
           else if s \<noteq> None then AV None None None None None None None None s None
           else AV None None None None None None None None None ss)))"

definition MarshalJSON :: "DynamoAttributeValue \<Rightarrow> error + DynamoAttributeValue" where
  "MarshalJSON v =
     (if av_ok v then Inr (av_wire v) else Inl (Wrap ErrDynamoValidation ''empty attribute value''))"

text \<open>
  \<open>cloneDynamoAttributeValue\<close> ignores the encoder's error: decoding the empty text fails and
  leaves the zero value.
\<close>

definition cloneDynamoAttributeValue :: "DynamoAttributeValue \<Rightarrow> DynamoAttributeValue" where
  "cloneDynamoAttributeValue v = (case MarshalJSON v of Inr w \<Rightarrow> w | Inl _ \<Rightarrow> av_empty)"

definition cloneDynamoItem :: "DynamoItem \<Rightarrow> DynamoItem" where
  "cloneDynamoItem item = fmmap cloneDynamoAttributeValue item"

definition cloneDynamoTable :: "DynamoTable \<Rightarrow> DynamoTable" where
  "cloneDynamoTable t = t\<lparr>dt_Items := fmmap cloneDynamoItem (dt_Items t)\<rparr>"

text \<open>A map that is \<open>nil\<close> and an empty one clone to equal maps: both are the empty map here.\<close>

lemma fmmap_cong_ran: "(\<And>x. x \<in> fmran' m \<Longrightarrow> f x = g x) \<Longrightarrow> fmmap f m = fmmap g m"
  by (rule fmap_ext) (auto simp: fmran'I intro!: option.map_cong)

lemma fmmap_fmmap: "fmmap f (fmmap g m) = fmmap (\<lambda>x. f (g x)) m"
  by (rule fmap_ext) (simp add: option.map_comp comp_def)

lemma fmpred_map_ran: "fmpred (\<lambda>_ x. x) (fmmap f m) \<longleftrightarrow> (\<forall>x \<in> fmran' m. f x)"
  unfolding fmpred_iff fmlookup_map by (metis (no_types, lifting) fmlookup_ran'_iff map_option_eq_Some)

lemma av_ok_wire: "av_ok (av_wire v) = av_ok v"
proof (induction v)
  case (AV b bo bs l m n ns nu s ss)
  have l: "(\<forall>x \<in> set l'. av_ok (av_wire x)) = (\<forall>x \<in> set l'. av_ok x)" if "l = Some l'" for l'
    using AV.IH(1) that by auto
  have m: "fmpred (\<lambda>_ x. x) (fmmap (\<lambda>x. av_ok (av_wire x)) m') = fmpred (\<lambda>_ x. x) (fmmap av_ok m')"
    if "m = Some m'" for m'
    using AV.IH(2) that by (simp only: fmpred_map_ran) auto
  show ?case
    by (cases l; cases m) (auto simp: l m list_all_iff fmmap_fmmap simp del: fmpred_map)
qed

lemma av_wire_idem: "av_wire (av_wire v) = av_wire v"
proof (induction v)
  case (AV b bo bs l m n ns nu s ss)
  have l: "map (\<lambda>x. av_wire (av_wire x)) l' = map av_wire l'" if "l = Some l'" for l'
    using AV.IH(1) that by auto
  have m: "fmmap (\<lambda>x. av_wire (av_wire x)) m' = fmmap av_wire m'" if "m = Some m'" for m'
    using AV.IH(2) that by (intro fmmap_cong_ran) auto
  show ?case
    by (cases l; cases m) (auto simp: l m fmmap_fmmap comp_def)
qed

lemma av_ok_empty [simp]: "\<not> av_ok av_empty"
  by (simp add: av_empty_def)

lemma av_ok_S [simp]: "av_ok (av_of_S s)" and av_wire_S [simp]: "av_wire (av_of_S s) = av_of_S s"
  by (simp_all add: av_of_S_def)

lemma av_ok_N [simp]: "av_ok (av_of_N s)" and av_wire_N [simp]: "av_wire (av_of_N s) = av_of_N s"
  by (simp_all add: av_of_N_def)

lemma clone_value_idem [simp]:
  "cloneDynamoAttributeValue (cloneDynamoAttributeValue v) = cloneDynamoAttributeValue v"
  by (simp add: cloneDynamoAttributeValue_def MarshalJSON_def av_ok_wire av_wire_idem)

lemma clone_value_ok: "av_ok v \<Longrightarrow> cloneDynamoAttributeValue v = av_wire v"
  by (simp add: cloneDynamoAttributeValue_def MarshalJSON_def)

lemma clone_item_idem [simp]: "cloneDynamoItem (cloneDynamoItem i) = cloneDynamoItem i"
  by (simp add: cloneDynamoItem_def fmmap_fmmap)

lemma fmlookup_clone_item [simp]:
  "fmlookup (cloneDynamoItem i) k = map_option cloneDynamoAttributeValue (fmlookup i k)"
  by (simp add: cloneDynamoItem_def)

text \<open>An item in stored form: what cloning it again gives back.\<close>

definition item_clean :: "DynamoItem \<Rightarrow> bool" where
  "item_clean i = (cloneDynamoItem i = i)"

definition item_ok :: "DynamoItem \<Rightarrow> bool" where
  "item_ok i = fmpred (\<lambda>_ v. av_ok v) i"

definition item_wire :: "DynamoItem \<Rightarrow> DynamoItem" where
  "item_wire i = fmmap av_wire i"

lemma item_clean_clone [simp]: "item_clean (cloneDynamoItem i)"
  by (simp add: item_clean_def)

lemma item_wire_clean: "item_clean i \<Longrightarrow> item_ok i \<Longrightarrow> item_wire i = i"
proof (rule fmap_eqI)
  fix k
  assume "item_clean i" "item_ok i"
  then have c: "fmlookup (cloneDynamoItem i) k = fmlookup i k" and
    o: "\<And>v. fmlookup i k = Some v \<Longrightarrow> av_ok v"
    by (auto simp: item_clean_def item_ok_def)
  show "fmlookup (item_wire i) k = fmlookup i k"
    using c o by (cases "fmlookup i k") (auto simp: item_wire_def clone_value_ok)
qed

lemma clone_item_ok: "item_ok i \<Longrightarrow> cloneDynamoItem i = item_wire i"
  by (rule fmap_eqI) (auto simp: item_wire_def item_ok_def clone_value_ok fmpred_iff intro!: option.map_cong)

end
