(* ===== verification/Documents.thy ===== *)
theory Documents
  imports Dynamo_Values
begin

text \<open>
  The stored form of the state: \<open>encodeSnapshot\<close> (\<open>json.MarshalIndent\<close> with the
  \<open>omitempty\<close> tags of the structs), decoding followed by \<open>normalizeSnapshot\<close>, and
  \<open>validateSnapshotStructure\<close>. A JSON text is represented by the document it denotes, so
  decoding an encoded text gives the document back; what the encoding drops (empty maps under
  \<open>omitempty\<close>, fields of an attribute value after the first) is modelled.
\<close>

section \<open>Encoding\<close>

text \<open>Maps with and without an \<open>omitempty\<close> tag.\<close>

definition doc_map :: "('a \<Rightarrow> 'b) \<Rightarrow> 'a gomap \<Rightarrow> 'b docmap" where
  "doc_map f m = Some (fmmap (\<lambda>v. Some (f v)) m)"

definition doc_map_omit :: "('a \<Rightarrow> 'b) \<Rightarrow> 'a gomap \<Rightarrow> 'b docmap" where
  "doc_map_omit f m = (if fmnull m then None else doc_map f m)"

definition bucketDoc :: "Bucket \<Rightarrow> BucketDoc" where
  "bucketDoc b = \<lparr>bk_Name = bk_Name b, bk_CreatedAt = bk_CreatedAt b,
     bk_Objects = Some (bk_Objects b), bk_Notifications = bk_Notifications b\<rparr>"

definition uploadDoc :: "MultipartUpload \<Rightarrow> MultipartUploadDoc" where
  "uploadDoc u = \<lparr>mu_ID = mu_ID u, mu_Bucket = mu_Bucket u, mu_Key = mu_Key u,
     mu_CreatedAt = mu_CreatedAt u, mu_ContentType = mu_ContentType u, mu_Metadata = mu_Metadata u,
     mu_Parts = Some (mu_Parts u)\<rparr>"

definition queueDoc :: "Queue \<Rightarrow> QueueDoc" where
  "queueDoc q = \<lparr>q_Name = q_Name q, q_CreatedAt = q_CreatedAt q,
     q_Attributes = Some (q_Attributes q), q_Messages = q_Messages q,
     q_Deduplication = (if fmnull (q_Deduplication q) then None else Some (q_Deduplication q)),
     q_NextSequenceNumber = q_NextSequenceNumber q\<rparr>"

definition tableDoc :: "DynamoTable \<Rightarrow> DynamoTableDoc" where
  "tableDoc t = \<lparr>dt_Name = dt_Name t, dt_CreatedAt = dt_CreatedAt t, dt_Status = dt_Status t,
     dt_BillingMode = dt_BillingMode t, dt_KeySchema = dt_KeySchema t,
     dt_AttributeDefinitions = dt_AttributeDefinitions t,
     dt_Items = Some (fmmap item_wire (dt_Items t))\<rparr>"

definition gcsBucketDoc :: "GCSBucket \<Rightarrow> GCSBucketDoc" where
  "gcsBucketDoc b = \<lparr>gb_Name = gb_Name b, gb_Project = gb_Project b, gb_Location = gb_Location b,
     gb_StorageClass = gb_StorageClass b, gb_CreatedAt = gb_CreatedAt b,
     gb_Objects = Some (gb_Objects b)\<rparr>"

definition snapshotDoc :: "snapshot \<Rightarrow> state_doc" where
  "snapshotDoc d = \<lparr>
     doc_Buckets = doc_map bucketDoc (Buckets d),
     doc_MultipartUploads = doc_map_omit uploadDoc (MultipartUploads d),
     doc_Queues = doc_map queueDoc (Queues d),
     doc_DynamoTables = doc_map_omit tableDoc (DynamoTables d),
     doc_GCSBuckets = doc_map_omit gcsBucketDoc (GCSBuckets d),
     doc_PubSubTopics = doc_map_omit (\<lambda>x. x) (PubSubTopics d),
     doc_PubSubSubscriptions = doc_map_omit (\<lambda>x. x) (PubSubSubscriptions d),
     doc_FirestoreDocuments = doc_map_omit (\<lambda>x. x) (FirestoreDocuments d),
     doc_Secrets = doc_map_omit (\<lambda>x. x) (Secrets d),
     doc_KMSKeyRings = doc_map_omit (\<lambda>x. x) (KMSKeyRings d),
     doc_KMSCryptoKeys = doc_map_omit (\<lambda>x. x) (KMSCryptoKeys d),
     doc_IAMServiceAccounts = doc_map_omit (\<lambda>x. x) (IAMServiceAccounts d),
     doc_FCMMessages = (if FCMMessages d = [] then None else Some (FCMMessages d)),
     doc_VertexGenerations = (if VertexGenerations d = [] then None else Some (VertexGenerations d))\<rparr>"

definition table_ok :: "DynamoTable \<Rightarrow> bool" where
  "table_ok t = fmpred (\<lambda>_ i. item_ok i) (dt_Items t)"

text \<open>Encoding fails when the custom encoder of some attribute value does.\<close>

definition encodeSnapshot :: "snapshot \<Rightarrow> state_doc option" where
  "encodeSnapshot d =
     (if fmpred (\<lambda>_ t. table_ok t) (DynamoTables d) then Some (snapshotDoc d) else None)"

section \<open>Decoding\<close>

text \<open>\<open>normalizeSnapshot\<close> replaces absent maps by empty ones, also inside the resources.\<close>

definition mapOr :: "('k, 'v) fmap option \<Rightarrow> ('k, 'v) fmap" where
  "mapOr m = (case m of None \<Rightarrow> fmempty | Some x \<Rightarrow> x)"

definition listOr :: "'a list option \<Rightarrow> 'a list" where
  "listOr m = (case m of None \<Rightarrow> [] | Some x \<Rightarrow> x)"

definition normBucket :: "BucketDoc \<Rightarrow> Bucket" where
  "normBucket b = \<lparr>bk_Name = bk_Name b, bk_CreatedAt = bk_CreatedAt b,
     bk_Objects = mapOr (bk_Objects b), bk_Notifications = bk_Notifications b\<rparr>"

definition normUpload :: "MultipartUploadDoc \<Rightarrow> MultipartUpload" where
  "normUpload u = \<lparr>mu_ID = mu_ID u, mu_Bucket = mu_Bucket u, mu_Key = mu_Key u,
     mu_CreatedAt = mu_CreatedAt u, mu_ContentType = mu_ContentType u, mu_Metadata = mu_Metadata u,
     mu_Parts = mapOr (mu_Parts u)\<rparr>"

definition normQueue :: "QueueDoc \<Rightarrow> Queue" where
  "normQueue q = \<lparr>q_Name = q_Name q, q_CreatedAt = q_CreatedAt q,
     q_Attributes = mapOr (q_Attributes q), q_Messages = q_Messages q,
     q_Deduplication = mapOr (q_Deduplication q),
     q_NextSequenceNumber = q_NextSequenceNumber q\<rparr>"

definition normTable :: "DynamoTableDoc \<Rightarrow> DynamoTable" where
  "normTable t = \<lparr>dt_Name = dt_Name t, dt_CreatedAt = dt_CreatedAt t, dt_Status = dt_Status t,
     dt_BillingMode = dt_BillingMode t, dt_KeySchema = dt_KeySchema t,
     dt_AttributeDefinitions = dt_AttributeDefinitions t,
     dt_Items = mapOr (dt_Items t)\<rparr>"

definition normGCSBucket :: "GCSBucketDoc \<Rightarrow> GCSBucket" where
  "normGCSBucket b = \<lparr>gb_Name = gb_Name b, gb_Project = gb_Project b, gb_Location = gb_Location b,
     gb_StorageClass = gb_StorageClass b, gb_CreatedAt = gb_CreatedAt b,
     gb_Objects = mapOr (gb_Objects b)\<rparr>"

text \<open>
  Null entries are excluded by \<open>validateSnapshotStructure\<close> before normalization; this
  conversion to non-null entries skips them.
\<close>

definition nonNull :: "('a \<Rightarrow> 'b) \<Rightarrow> 'a docmap \<Rightarrow> 'b gomap" where
  "nonNull f m =
     (let x = mapOr m
      in fmmap (\<lambda>v. f (the v)) (fmfilter (\<lambda>k. fmlookup x k \<noteq> Some None) x))"

definition normalizeSnapshot :: "state_doc \<Rightarrow> snapshot" where
  "normalizeSnapshot d = \<lparr>
     Buckets = nonNull normBucket (doc_Buckets d),
     MultipartUploads = nonNull normUpload (doc_MultipartUploads d),
     Queues = nonNull normQueue (doc_Queues d),
     DynamoTables = nonNull normTable (doc_DynamoTables d),
     GCSBuckets = nonNull normGCSBucket (doc_GCSBuckets d),
     PubSubTopics = nonNull (\<lambda>x. x) (doc_PubSubTopics d),
     PubSubSubscriptions = nonNull (\<lambda>x. x) (doc_PubSubSubscriptions d),
     FirestoreDocuments = nonNull (\<lambda>x. x) (doc_FirestoreDocuments d),
     Secrets = nonNull (\<lambda>x. x) (doc_Secrets d),
     KMSKeyRings = nonNull (\<lambda>x. x) (doc_KMSKeyRings d),
     KMSCryptoKeys = nonNull (\<lambda>x. x) (doc_KMSCryptoKeys d),
     IAMServiceAccounts = nonNull (\<lambda>x. x) (doc_IAMServiceAccounts d),
     FCMMessages = listOr (doc_FCMMessages d),
     VertexGenerations = listOr (doc_VertexGenerations d)\<rparr>"

section \<open>Validation\<close>

definition hasNull :: "'a docmap \<Rightarrow> bool" where
  "hasNull m = (\<not> fmpred (\<lambda>_ v. v \<noteq> None) (mapOr m))"

definition validateSnapshotStructure :: "state_doc \<Rightarrow> error option" where
  "validateSnapshotStructure d =
     (case filter snd
        [(''bucket'', hasNull (doc_Buckets d)),
         (''multipart upload'', hasNull (doc_MultipartUploads d)),
         (''queue'', hasNull (doc_Queues d)),
         (''DynamoDB table'', hasNull (doc_DynamoTables d)),
         (''GCS bucket'', hasNull (doc_GCSBuckets d)),
         (''Pub/Sub topic'', hasNull (doc_PubSubTopics d)),
         (''Pub/Sub subscription'', hasNull (doc_PubSubSubscriptions d)),
         (''Firestore document'', hasNull (doc_FirestoreDocuments d)),
         (''secret'', hasNull (doc_Secrets d)),
         (''KMS key ring'', hasNull (doc_KMSKeyRings d)),
         (''KMS crypto key'', hasNull (doc_KMSCryptoKeys d)),
         (''IAM service account'', hasNull (doc_IAMServiceAccounts d))] of
        [] \<Rightarrow> None
      | (kind, _) # _ \<Rightarrow> Some (ErrText (kind @ '' is null'')))"

section \<open>Round trip\<close>

lemma nonNull_doc_map: "(\<And>k v. fmlookup m k = Some v \<Longrightarrow> g (f v) = v) \<Longrightarrow> nonNull g (doc_map f m) = m"
proof (rule fmap_eqI)
  fix k
  assume *: "\<And>k v. fmlookup m k = Some v \<Longrightarrow> g (f v) = v"
  show "fmlookup (nonNull g (doc_map f m)) k = fmlookup m k"
    by (cases "fmlookup m k") (auto simp: nonNull_def doc_map_def mapOr_def *)
qed

lemma nonNull_doc_map_omit:
  "(\<And>k v. fmlookup m k = Some v \<Longrightarrow> g (f v) = v) \<Longrightarrow> nonNull g (doc_map_omit f m) = m"
proof (cases "fmnull m")
  case True
  then show ?thesis by (simp add: doc_map_omit_def nonNull_def mapOr_def fmnull_iff)
qed (simp add: doc_map_omit_def nonNull_doc_map)

lemma norm_bucketDoc [simp]: "normBucket (bucketDoc b) = b"
  by (simp add: normBucket_def bucketDoc_def mapOr_def)

lemma norm_uploadDoc [simp]: "normUpload (uploadDoc u) = u"
  by (simp add: normUpload_def uploadDoc_def mapOr_def)

lemma norm_queueDoc [simp]: "normQueue (queueDoc q) = q"
  by (simp add: normQueue_def queueDoc_def mapOr_def fmnull_iff)

lemma norm_gcsBucketDoc [simp]: "normGCSBucket (gcsBucketDoc b) = b"
  by (simp add: normGCSBucket_def gcsBucketDoc_def mapOr_def)

text \<open>A table whose items are all in stored form.\<close>

definition table_clean :: "DynamoTable \<Rightarrow> bool" where
  "table_clean t = fmpred (\<lambda>_ i. item_clean i) (dt_Items t)"

definition dynamo_clean :: "snapshot \<Rightarrow> bool" where
  "dynamo_clean d = fmpred (\<lambda>_ t. table_clean t) (DynamoTables d)"

lemma norm_tableDoc: "table_clean t \<Longrightarrow> table_ok t \<Longrightarrow> normTable (tableDoc t) = t"
proof -
  assume "table_clean t" "table_ok t"
  then have "fmmap item_wire (dt_Items t) = dt_Items t"
    by (intro fmap_eqI)
      (auto simp: table_clean_def table_ok_def fmpred_iff item_wire_clean split: option.split
        intro!: option.map_ident_strong)
  then show ?thesis by (simp add: normTable_def tableDoc_def mapOr_def)
qed

lemma decode_encode:
  assumes "encodeSnapshot d = Some raw" and "dynamo_clean d"
  shows "normalizeSnapshot raw = d"
proof -
  from assms have raw: "raw = snapshotDoc d" and ok: "fmpred (\<lambda>_ t. table_ok t) (DynamoTables d)"
    by (auto simp: encodeSnapshot_def split: if_splits)
  have t: "nonNull normTable (doc_map_omit tableDoc (DynamoTables d)) = DynamoTables d"
    using ok assms(2) by (intro nonNull_doc_map_omit) (auto simp: dynamo_clean_def intro!: norm_tableDoc)
  show ?thesis
    by (simp add: raw normalizeSnapshot_def snapshotDoc_def t nonNull_doc_map nonNull_doc_map_omit
        listOr_def)
qed

lemma hasNull_doc_map [simp]: "\<not> hasNull (doc_map f m)" "\<not> hasNull (doc_map_omit f m)"
  by (auto simp: hasNull_def doc_map_omit_def doc_map_def mapOr_def)

lemma encode_validates: "encodeSnapshot d = Some raw \<Longrightarrow> validateSnapshotStructure raw = None"
  by (auto simp: encodeSnapshot_def validateSnapshotStructure_def snapshotDoc_def split: if_splits)

lemma dynamo_clean_empty [simp]: "dynamo_clean emptySnapshot"
  by (simp add: dynamo_clean_def emptySnapshot_def)

lemma encode_empty [simp]: "encodeSnapshot emptySnapshot = Some (snapshotDoc emptySnapshot)"
  by (simp add: encodeSnapshot_def emptySnapshot_def)

end
