(* ===== verification/World.thy ===== *)
theory World
  imports Documents
begin

text \<open>
  The world an operation of the store runs in, and the commit protocol.

  A \<open>world\<close> holds the fields of \<open>Store\<close> (the live \<open>data\<close>, \<open>committedRaw\<close>,
  the integrity mode) and the part of the data directory the operations touch: \<open>state.json\<close>
  and the object directory. The environment \<open>env\<close> supplies what the program does not
  determine: the readings of the clock, the random bytes behind \<open>newID\<close>, the random part of
  temporary file names, which system calls fail, the digest functions, the JSON text syntax, the
  text form of a time stamp, the text of an encoded state and the document a text denotes. Counters in the world
  say how much of each supply has been used, so every run is a function of the environment, and a
  theorem for every environment is a theorem for every schedule of failures.
\<close>

datatype IntegrityMode = IntegrityModeStartup | IntegrityModeStrict

record env =
  e_now :: "nat \<Rightarrow> time"
  e_rand :: "nat \<Rightarrow> bytes"
  e_tmp :: "nat \<Rightarrow> string"
  e_fault :: "nat \<Rightarrow> bool"
  e_sha256 :: "bytes \<Rightarrow> bytes"
  e_md5 :: "bytes \<Rightarrow> bytes"
  e_crc32c :: "bytes \<Rightarrow> bytes"
  e_jsonParse :: "string \<Rightarrow> json option"
  e_jsonText :: "json \<Rightarrow> string"
  e_timeText :: "time \<Rightarrow> string"
  e_stateText :: "state_doc \<Rightarrow> bytes"
  e_stateParse :: "bytes \<Rightarrow> state_doc option"

abbreviation e_stateSize :: "env \<Rightarrow> state_doc \<Rightarrow> int" where
  "e_stateSize E doc \<equiv> int (length (e_stateText E doc))"

record world =
  w_data :: snapshot
  w_committedRaw :: "state_doc option"
  w_integrityMode :: IntegrityMode
  w_state_json :: "state_doc option"
  w_objects :: "bytes gomap"
  w_clock :: nat
  w_ids :: nat
  w_tmps :: nat
  w_sys :: nat

type_synonym 'a result = "(error + 'a) \<times> world"

section \<open>Clock and identifiers\<close>

definition now :: "env \<Rightarrow> world \<Rightarrow> time \<times> world" where
  "now E w = (e_now E (w_clock w), w\<lparr>w_clock := Suc (w_clock w)\<rparr>)"

text \<open>\<open>newID\<close>: sixteen random bytes with the version and variant bits of a UUID set.\<close>

definition uuid_mark :: "bytes \<Rightarrow> bytes" where
  "uuid_mark b =
     (let b1 = b[6 := char_of ((of_char (b ! 6) :: nat) mod 16 + 64)]
      in b1[8 := char_of ((of_char (b1 ! 8) :: nat) mod 64 + 128)])"

definition uuid_text :: "bytes \<Rightarrow> string" where
  "uuid_text b =
     hexEncode (take 4 b) @ ''-'' @ hexEncode (take 2 (drop 4 b)) @ ''-'' @
     hexEncode (take 2 (drop 6 b)) @ ''-'' @ hexEncode (take 2 (drop 8 b)) @ ''-'' @
     hexEncode (take 6 (drop 10 b))"

definition mint :: "env \<Rightarrow> nat \<Rightarrow> string" where
  "mint E n = uuid_text (uuid_mark (e_rand E n))"

definition newID :: "env \<Rightarrow> world \<Rightarrow> string \<times> world" where
  "newID E w = (mint E (w_ids w), w\<lparr>w_ids := Suc (w_ids w)\<rparr>)"

lemma mint_not_Nil [simp]: "mint E n \<noteq> []"
  by (simp add: mint_def uuid_text_def)

text \<open>
  What the code relies on: the identifiers drawn so far have not repeated. There are 122 random
  bits in an identifier, so this is a statement about a bounded number of draws.
\<close>

definition fresh_ids :: "env \<Rightarrow> nat \<Rightarrow> bool" where
  "fresh_ids E n \<longleftrightarrow> inj_on (mint E) {..<n}"

lemma mint_eq_iff: "fresh_ids E N \<Longrightarrow> m < N \<Longrightarrow> n < N \<Longrightarrow> mint E m = mint E n \<longleftrightarrow> m = n"
  by (auto simp: fresh_ids_def dest: inj_onD)

lemma fresh_ids_mono: "fresh_ids E m \<Longrightarrow> n \<le> m \<Longrightarrow> fresh_ids E n"
  unfolding fresh_ids_def by (rule inj_on_subset) auto

section \<open>System calls\<close>

datatype syscall =
    CreateTemp | Chmod | Write | Sync | Close | OpenDir | SyncDir | Rename | Remove
  | ReadDir | ReadFile | Lstat | Open | Fstat | ReadCopy | Mkdir | Flock | Truncate | Seek

text \<open>Run a sequence of system calls, stopping at the first that fails.\<close>

fun runSys :: "env \<Rightarrow> syscall list \<Rightarrow> world \<Rightarrow> bool \<times> world" where
  "runSys E [] w = (True, w)"
| "runSys E (c # cs) w =
     (if e_fault E (w_sys w) then (False, w\<lparr>w_sys := Suc (w_sys w)\<rparr>)
      else runSys E cs (w\<lparr>w_sys := Suc (w_sys w)\<rparr>))"

lemma runSys_frame:
  assumes "runSys E cs w = (ok, w')"
  shows "\<exists>n. w' = w\<lparr>w_sys := n\<rparr>"
  using assms
proof (induction cs arbitrary: w)
  case Nil
  then have "w' = w\<lparr>w_sys := w_sys w\<rparr>" by simp
  then show ?case by blast
next
  case (Cons c cs)
  then show ?case by (cases "e_fault E (w_sys w)") fastforce+
qed

lemma runSys_no_fault: "\<forall>n. \<not> e_fault E n \<Longrightarrow> runSys E cs w = (True, w\<lparr>w_sys := w_sys w + length cs\<rparr>)"
  by (induction cs arbitrary: w) auto

definition sysDone :: "env \<Rightarrow> syscall list \<Rightarrow> world \<Rightarrow> world" where
  "sysDone E cs w = snd (runSys E cs w)"

lemma sysDone_frame: "\<exists>n. sysDone E cs w = w\<lparr>w_sys := n\<rparr>"
  unfolding sysDone_def by (metis prod.collapse runSys_frame)

text \<open>\<open>os.Remove\<close> of a file of the object directory; its error is ignored by every caller.\<close>

definition removeFile :: "env \<Rightarrow> string \<Rightarrow> world \<Rightarrow> world" where
  "removeFile E f w =
     (case runSys E [Remove] w of
        (True, w') \<Rightarrow> w'\<lparr>w_objects := fmdrop f (w_objects w')\<rparr>
      | (False, w') \<Rightarrow> w')"

fun removeFiles :: "env \<Rightarrow> string list \<Rightarrow> world \<Rightarrow> world" where
  "removeFiles E [] w = w"
| "removeFiles E (f # fs) w = removeFiles E fs (removeFile E f w)"

section \<open>Commit and rollback\<close>

definition rollbackSaveLocked :: "error \<Rightarrow> world \<Rightarrow> error option \<times> world" where
  "rollbackSaveLocked e w =
     (case w_committedRaw w of
        None \<Rightarrow> (Some e, w)
      | Some raw \<Rightarrow> (Some e, w\<lparr>w_data := normalizeSnapshot raw\<rparr>))"

definition marshalError :: error where
  "marshalError = Wrap ErrDynamoValidation ''empty attribute value''"

text \<open>
  \<open>saveLocked\<close>: encode, write a temporary file, sync it and the directory, rename it over
  \<open>state.json\<close>. The rename is the commit point; the directory sync after it is best effort.
\<close>

definition saveLocked :: "env \<Rightarrow> world \<Rightarrow> error option \<times> world" where
  "saveLocked E w =
     (case encodeSnapshot (w_data w) of
        None \<Rightarrow> rollbackSaveLocked marshalError w
      | Some raw \<Rightarrow>
         (case runSys E [CreateTemp, Chmod, Write, Sync, Close, OpenDir, SyncDir, Rename] w of
            (False, w1) \<Rightarrow> rollbackSaveLocked ErrOS w1
          | (True, w1) \<Rightarrow>
              (None, sysDone E [OpenDir, SyncDir]
                       (w1\<lparr>w_state_json := Some raw, w_committedRaw := Some raw\<rparr>))))"

text \<open>The tail of most operations: save, and return the value or the error of the save.\<close>

definition saveThen :: "env \<Rightarrow> 'a \<Rightarrow> world \<Rightarrow> 'a result" where
  "saveThen E r w = (case saveLocked E w of (None, w') \<Rightarrow> (Inr r, w') | (Some e, w') \<Rightarrow> (Inl e, w'))"

abbreviation mutate :: "(snapshot \<Rightarrow> snapshot) \<Rightarrow> world \<Rightarrow> world" where
  "mutate f w \<equiv> w\<lparr>w_data := f (w_data w)\<rparr>"

section \<open>What a commit does\<close>

text \<open>
  The state that \<open>state.json\<close> denotes; a data directory without the file denotes the empty
  state.
\<close>

definition diskDoc :: "world \<Rightarrow> state_doc" where
  "diskDoc w = (case w_state_json w of None \<Rightarrow> snapshotDoc emptySnapshot | Some d \<Rightarrow> d)"

definition diskState :: "world \<Rightarrow> snapshot" where
  "diskState w = normalizeSnapshot (diskDoc w)"

text \<open>
  The live state may run ahead of the committed one in one respect: \<open>SendMessage\<close> drops
  expired deduplication records and, when the message is a duplicate, returns without saving.
  \<open>forgetDedup\<close> hides that field.
\<close>

definition forgetDedup :: "snapshot \<Rightarrow> snapshot" where
  "forgetDedup d = d\<lparr>Queues := fmmap (\<lambda>q. q\<lparr>q_Deduplication := fmempty\<rparr>) (Queues d)\<rparr>"

definition sameLive :: "snapshot \<Rightarrow> snapshot \<Rightarrow> bool" where
  "sameLive d d' = (forgetDedup d = forgetDedup d')"

lemma sameLive_refl [simp]: "sameLive d d"
  by (simp add: sameLive_def)

lemma sameLive_sym: "sameLive d d' \<Longrightarrow> sameLive d' d"
  by (simp add: sameLive_def)

lemma sameLive_trans: "sameLive a b \<Longrightarrow> sameLive b c \<Longrightarrow> sameLive a c"
  by (simp add: sameLive_def)

lemma sameLive_fields:
  assumes "sameLive d d'"
  shows "Buckets d = Buckets d'" "MultipartUploads d = MultipartUploads d'"
    "DynamoTables d = DynamoTables d'" "GCSBuckets d = GCSBuckets d'"
    "PubSubTopics d = PubSubTopics d'" "PubSubSubscriptions d = PubSubSubscriptions d'"
    "FirestoreDocuments d = FirestoreDocuments d'" "Secrets d = Secrets d'"
    "KMSKeyRings d = KMSKeyRings d'" "KMSCryptoKeys d = KMSCryptoKeys d'"
    "IAMServiceAccounts d = IAMServiceAccounts d'" "FCMMessages d = FCMMessages d'"
    "VertexGenerations d = VertexGenerations d'"
  using assms by (cases d; cases d'; simp add: sameLive_def forgetDedup_def)+

lemma sameLive_queue:
  assumes "sameLive d d'"
  shows "map_option (\<lambda>q. q\<lparr>q_Deduplication := fmempty\<rparr>) (fmlookup (Queues d) n) =
         map_option (\<lambda>q. q\<lparr>q_Deduplication := fmempty\<rparr>) (fmlookup (Queues d') n)"
proof -
  from assms have "Queues (forgetDedup d) = Queues (forgetDedup d')" by (simp add: sameLive_def)
  then show ?thesis by (simp add: forgetDedup_def) (metis fmlookup_map)
qed

text \<open>
  A durable world: \<open>committedRaw\<close> is what \<open>state.json\<close> holds, it denotes the live
  state and is its encoding.
\<close>

definition durable :: "world \<Rightarrow> bool" where
  "durable w \<longleftrightarrow>
     w_committedRaw w = Some (diskDoc w) \<and> sameLive (w_data w) (diskState w) \<and>
     encodeSnapshot (diskState w) = Some (diskDoc w) \<and> dynamo_clean (w_data w)"

lemma rollback_cases:
  assumes "rollbackSaveLocked e w = (r, w')"
  shows "r = Some e" and "\<exists>d. w' = w\<lparr>w_data := d\<rparr> \<and>
     d = (case w_committedRaw w of None \<Rightarrow> w_data w | Some raw \<Rightarrow> normalizeSnapshot raw)"
  using assms by (auto simp: rollbackSaveLocked_def split: option.splits)

text \<open>The two outcomes of a save, for every schedule of failing system calls.\<close>

lemma saveLocked_cases [consumes 1, case_names saved failed]:
  assumes "saveLocked E w = (r, w')"
  obtains n raw where "r = None" "encodeSnapshot (w_data w) = Some raw"
      "w' = w\<lparr>w_state_json := Some raw, w_committedRaw := Some raw, w_sys := n\<rparr>"
  | e n where "r = Some e"
      "w' = w\<lparr>w_data := (case w_committedRaw w of None \<Rightarrow> w_data w | Some raw \<Rightarrow> normalizeSnapshot raw),
              w_sys := n\<rparr>"
proof (cases "encodeSnapshot (w_data w)")
  case None
  with assms have "rollbackSaveLocked marshalError w = (r, w')" by (simp add: saveLocked_def)
  note rb = rollback_cases [OF this]
  have "w' = w\<lparr>w_data := (case w_committedRaw w of None \<Rightarrow> w_data w | Some raw \<Rightarrow> normalizeSnapshot raw),
      w_sys := w_sys w\<rparr>" using rb(2) by auto
  with rb(1) that(2) show ?thesis by blast
next
  case (Some raw)
  obtain ok w1 where run:
    "runSys E [CreateTemp, Chmod, Write, Sync, Close, OpenDir, SyncDir, Rename] w = (ok, w1)"
    by fastforce
  then obtain n where w1: "w1 = w\<lparr>w_sys := n\<rparr>" using runSys_frame by blast
  show ?thesis
  proof (cases ok)
    case True
    obtain k where "sysDone E [OpenDir, SyncDir]
        (w1\<lparr>w_state_json := Some raw, w_committedRaw := Some raw\<rparr>) =
        w1\<lparr>w_state_json := Some raw, w_committedRaw := Some raw, w_sys := k\<rparr>"
      using sysDone_frame by blast
    with assms Some run True w1 have "r = None"
      "w' = w\<lparr>w_state_json := Some raw, w_committedRaw := Some raw, w_sys := k\<rparr>"
      unfolding saveLocked_def by (auto simp del: runSys.simps)
    with Some that(1) show ?thesis by blast
  next
    case False
    with assms Some run have "rollbackSaveLocked ErrOS w1 = (r, w')"
      unfolding saveLocked_def by (simp del: runSys.simps)
    note rb = rollback_cases [OF this]
    have "w' = w\<lparr>w_data := (case w_committedRaw w of None \<Rightarrow> w_data w | Some raw \<Rightarrow> normalizeSnapshot raw),
        w_sys := n\<rparr>" using rb(2) w1 by (cases w) (auto split: option.splits)
    with rb(1) that(2) show ?thesis by blast
  qed
qed

text \<open>
  A save after a mutation of the live data: the commit leaves a durable world holding the new
  data, a failure a durable world holding the old.
\<close>

lemma saveLocked_commit:
  assumes dur: "durable w0" and w: "w = w0\<lparr>w_data := d\<rparr>" and clean: "dynamo_clean d"
    and save: "saveLocked E w = (r, w')"
  shows "durable w'"
    and "r = None \<Longrightarrow> w_data w' = d \<and> diskState w' = d"
    and "r = Some e \<Longrightarrow> sameLive (w_data w') (w_data w0) \<and> w_state_json w' = w_state_json w0"
    and "w_objects w' = w_objects w0 \<and> w_clock w' = w_clock w0 \<and> w_ids w' = w_ids w0 \<and>
         w_tmps w' = w_tmps w0 \<and> w_integrityMode w' = w_integrityMode w0"
proof -
  from save have "durable w' \<and> (r = None \<longrightarrow> w_data w' = d \<and> diskState w' = d) \<and>
    (r \<noteq> None \<longrightarrow> sameLive (w_data w') (w_data w0) \<and> w_state_json w' = w_state_json w0) \<and>
    w_objects w' = w_objects w0 \<and> w_clock w' = w_clock w0 \<and> w_ids w' = w_ids w0 \<and>
    w_tmps w' = w_tmps w0 \<and> w_integrityMode w' = w_integrityMode w0"
  proof (cases rule: saveLocked_cases)
    case (saved n raw)
    have "normalizeSnapshot raw = d" using saved(2) w clean decode_encode by simp
    with saved w clean show ?thesis by (simp add: durable_def diskState_def diskDoc_def)
  next
    case (failed e n)
    from dur have c: "w_committedRaw w0 = Some (diskDoc w0)"
      and en: "encodeSnapshot (diskState w0) = Some (diskDoc w0)" and l: "sameLive (w_data w0) (diskState w0)" and cl: "dynamo_clean (w_data w0)"
      by (auto simp: durable_def)
    have data: "w_data w' = diskState w0" and doc: "diskDoc w' = diskDoc w0"
      using failed w c by (simp_all add: diskState_def diskDoc_def)
    have "dynamo_clean (diskState w0)"
      using cl sameLive_fields(3) [OF l] by (simp add: dynamo_clean_def)
    with data doc failed w c l en show ?thesis
      by (simp add: durable_def diskState_def sameLive_sym)
  qed
  then show "durable w'" "r = None \<Longrightarrow> w_data w' = d \<and> diskState w' = d"
    "r = Some e \<Longrightarrow> sameLive (w_data w') (w_data w0) \<and> w_state_json w' = w_state_json w0"
    "w_objects w' = w_objects w0 \<and> w_clock w' = w_clock w0 \<and> w_ids w' = w_ids w0 \<and>
         w_tmps w' = w_tmps w0 \<and> w_integrityMode w' = w_integrityMode w0"
    by auto
qed

section \<open>The contract of a store operation\<close>

lemma durable_counters [simp]:
  "durable (w\<lparr>w_clock := c\<rparr>) = durable w" "durable (w\<lparr>w_ids := i\<rparr>) = durable w"
  "durable (w\<lparr>w_sys := n\<rparr>) = durable w" "durable (w\<lparr>w_tmps := k\<rparr>) = durable w"
  "durable (w\<lparr>w_objects := x\<rparr>) = durable w"
  by (simp_all add: durable_def diskState_def diskDoc_def)

lemma durable_sameLive:
  "durable w \<Longrightarrow> sameLive d (w_data w) \<Longrightarrow> durable (w\<lparr>w_data := d\<rparr>)"
  by (auto simp: durable_def diskState_def diskDoc_def dynamo_clean_def sameLive_fields
      dest: sameLive_trans)

text \<open>
  \<open>ahead w w'\<close>: some of the environment's supplies have been used and object files may have
  changed, nothing else.
\<close>

definition ahead :: "world \<Rightarrow> world \<Rightarrow> bool" where
  "ahead w w' \<longleftrightarrow>
     w_data w' = w_data w \<and> w_committedRaw w' = w_committedRaw w \<and>
     w_state_json w' = w_state_json w \<and> w_integrityMode w' = w_integrityMode w \<and>
     w_ids w \<le> w_ids w'"

lemma ahead_refl [simp]: "ahead w w"
  by (simp add: ahead_def)

lemma ahead_trans: "ahead a b \<Longrightarrow> ahead b c \<Longrightarrow> ahead a c"
  by (auto simp: ahead_def)

lemma ahead_counters [simp]:
  "ahead w (w'\<lparr>w_clock := c\<rparr>) = ahead w w'" "ahead w (w'\<lparr>w_sys := n\<rparr>) = ahead w w'"
  "ahead w (w'\<lparr>w_tmps := k\<rparr>) = ahead w w'" "ahead w (w'\<lparr>w_objects := x\<rparr>) = ahead w w'"
  by (simp_all add: ahead_def)

lemma ahead_ids: "ahead w w' \<Longrightarrow> w_ids w' \<le> i \<Longrightarrow> ahead w (w'\<lparr>w_ids := i\<rparr>)"
  by (simp add: ahead_def)

lemma ahead_durable: "ahead w w' \<Longrightarrow> durable w' = durable w"
  by (auto simp: ahead_def durable_def diskState_def diskDoc_def)

text \<open>
  The interface of an invariant of the store. It takes the number of identifiers minted so far, the
  object directory and the live data; it does not look at deduplication records (so that it
  survives a rollback) and is not falsified by minting identifiers.
  \<open>outcome\<close> is what an operation of the store promises of its result: the invariant holds
  again, and when it is an error the live state and \<open>state.json\<close> are as before.
\<close>

locale live_invariant =
  fixes inv :: "nat \<Rightarrow> bytes gomap \<Rightarrow> snapshot \<Rightarrow> bool"
  assumes inv_sameLive: "sameLive d d' \<Longrightarrow> inv n objs d \<Longrightarrow> inv n objs d'"
    and inv_ids: "inv n objs d \<Longrightarrow> n \<le> m \<Longrightarrow> inv m objs d"
begin

definition holds :: "world \<Rightarrow> bool" where
  "holds w \<longleftrightarrow> durable w \<and> inv (w_ids w) (w_objects w) (w_data w)"

definition outcome :: "world \<Rightarrow> 'a result \<Rightarrow> bool" where
  "outcome w out \<longleftrightarrow> holds (snd out) \<and>
     (\<forall>e. fst out = Inl e \<longrightarrow>
        sameLive (w_data (snd out)) (w_data w) \<and> w_state_json (snd out) = w_state_json w)"

lemma holds_durable: "holds w \<Longrightarrow> durable w"
  by (simp add: holds_def)

lemma holds_ahead:
  "holds w \<Longrightarrow> ahead w w' \<Longrightarrow> w_objects w' = w_objects w \<Longrightarrow> holds w'"
  using ahead_durable [of w w'] by (auto simp: holds_def ahead_def intro: inv_ids)

lemma holds_ahead_objects:
  "holds w \<Longrightarrow> ahead w w' \<Longrightarrow> inv (w_ids w) (w_objects w') (w_data w) \<Longrightarrow> holds w'"
  using ahead_durable [of w w'] by (auto simp: holds_def ahead_def intro: inv_ids)

lemma outcome_return: "holds w \<Longrightarrow> outcome w (r, w)"
  by (simp add: outcome_def)

lemma outcome_read:
  "holds w \<Longrightarrow> ahead w w' \<Longrightarrow> w_objects w' = w_objects w \<Longrightarrow> outcome w (r, w')"
  using holds_ahead [of w w'] by (simp add: outcome_def ahead_def)

lemma outcome_ahead: "holds w' \<Longrightarrow> ahead w w' \<Longrightarrow> outcome w (r, w')"
  by (simp add: outcome_def ahead_def)

lemma outcome_sameLive:
  "holds w \<Longrightarrow> ahead w w' \<Longrightarrow> w_objects w' = w_objects w \<Longrightarrow> sameLive d (w_data w) \<Longrightarrow>
   outcome w (Inr r, w'\<lparr>w_data := d\<rparr>)"
  using holds_ahead [of w w'] durable_sameLive [of w' d] inv_sameLive [OF sameLive_sym, of d "w_data w"]
  by (auto simp: outcome_def holds_def ahead_def)

text \<open>A save that follows a change of the live data.\<close>

lemma saveLocked_outcome:
  assumes old: "holds w1" and new: "inv (w_ids w1) (w_objects w1) d" "dynamo_clean d"
    and run: "saveLocked E (w1\<lparr>w_data := d\<rparr>) = (r, w')"
  shows "holds w'"
    and "r = None \<Longrightarrow> w_data w' = d \<and> diskState w' = d"
    and "r = Some e \<Longrightarrow> sameLive (w_data w') (w_data w1) \<and> w_state_json w' = w_state_json w1"
    and "w_objects w' = w_objects w1 \<and> w_clock w' = w_clock w1 \<and> w_ids w' = w_ids w1 \<and>
         w_tmps w' = w_tmps w1 \<and> w_integrityMode w' = w_integrityMode w1"
proof -
  from old have dur: "durable w1" and i: "inv (w_ids w1) (w_objects w1) (w_data w1)"
    by (auto simp: holds_def)
  note c = saveLocked_commit [OF dur refl new(2) run]
  have "inv (w_ids w1) (w_objects w1) (w_data w')"
  proof (cases r)
    case None
    with c(2) new(1) show ?thesis by simp
  next
    case (Some e)
    from c(3) [OF this] i show ?thesis using inv_sameLive sameLive_sym by blast
  qed
  with c(1,4) show "holds w'" by (simp add: holds_def)
qed (use saveLocked_commit [OF _ refl new(2) run] old holds_durable in blast)+

lemma saveThen_outcome:
  assumes old: "holds w1" and new: "inv (w_ids w1) (w_objects w1) d" "dynamo_clean d"
    and ah: "ahead w w1"
  shows "outcome w (saveThen E v (w1\<lparr>w_data := d\<rparr>))"
proof -
  obtain r w' where run: "saveLocked E (w1\<lparr>w_data := d\<rparr>) = (r, w')" by fastforce
  note c = saveLocked_outcome [OF old new run]
  show ?thesis using c(1) c(3) run ah
    by (cases r) (auto simp: saveThen_def outcome_def ahead_def)
qed

lemma outcome_save:
  assumes old: "holds w" and ah: "ahead w w1" "w_objects w1 = w_objects w"
    and new: "inv (w_ids w1) (w_objects w) d" "dynamo_clean d"
  shows "outcome w (saveThen E v (w1\<lparr>w_data := d\<rparr>))"
  using saveThen_outcome [OF holds_ahead [OF old ah], of d w E v] new ah by simp

lemma saveThen_success:
  assumes "saveThen E v w1 = (Inr r, w')" and "w1 = w\<lparr>w_data := d\<rparr>" and "durable w" and "dynamo_clean d"
  shows "r = v \<and> w_data w' = d \<and> diskState w' = d"
proof -
  from assms(1) have "r = v" and "saveLocked E w1 = (None, w')"
    by (auto simp: saveThen_def split: prod.splits option.splits)
  with saveLocked_commit(2) [OF assms(3,2,4)] show ?thesis by blast
qed

end

text \<open>
  What every operation of the store promises: it keeps the invariant, and when it returns an error
  the live state and \<open>state.json\<close> are as before.
\<close>

locale store_operation =
  fixes good :: "world \<Rightarrow> bool" and op :: "world \<Rightarrow> 'a result"
  assumes good_durable: "good w \<Longrightarrow> durable w"
    and keeps: "good w \<Longrightarrow> op w = (r, w') \<Longrightarrow> good w'"
    and atomic: "good w \<Longrightarrow> op w = (Inl e, w') \<Longrightarrow>
          sameLive (w_data w') (w_data w) \<and> w_state_json w' = w_state_json w"
begin

text \<open>A restart right after the operation, whether it succeeded or not, loses nothing.\<close>

lemma restart_agrees: "good w \<Longrightarrow> op w = (r, w') \<Longrightarrow> sameLive (diskState w') (w_data w')"
  using keeps [of w r w'] good_durable [of w'] by (simp add: durable_def sameLive_sym)

lemma failed_restart: "good w \<Longrightarrow> op w = (Inl e, w') \<Longrightarrow> diskState w' = diskState w"
  using atomic [of w e w'] by (simp add: diskState_def diskDoc_def)

end

context live_invariant
begin

text \<open>The same for an operation whose arguments meet a condition.\<close>

lemma store_operation_hypI:
  assumes "\<And>w. holds w \<Longrightarrow> H \<Longrightarrow> outcome w (op w)"
  shows "store_operation (\<lambda>w. holds w \<and> H) op"
proof
  fix w r w' e
  show "holds w \<and> H \<Longrightarrow> durable w" by (simp add: holds_durable)
  show "holds w \<and> H \<Longrightarrow> op w = (r, w') \<Longrightarrow> holds w' \<and> H"
    using assms [of w] by (simp add: outcome_def)
  show "holds w \<and> H \<Longrightarrow> op w = (Inl e, w') \<Longrightarrow>
      sameLive (w_data w') (w_data w) \<and> w_state_json w' = w_state_json w"
    using assms [of w] by (simp add: outcome_def)
qed

lemma store_operationI:
  assumes "\<And>w. holds w \<Longrightarrow> outcome w (op w)"
  shows "store_operation holds op"
proof
  fix w r w' e
  show "holds w \<Longrightarrow> durable w" by (rule holds_durable)
  show "holds w \<Longrightarrow> op w = (r, w') \<Longrightarrow> holds w'"
    using assms [of w] by (simp add: outcome_def)
  show "holds w \<Longrightarrow> op w = (Inl e, w') \<Longrightarrow>
      sameLive (w_data w') (w_data w) \<and> w_state_json w' = w_state_json w"
    using assms [of w] by (simp add: outcome_def)
qed

end

text \<open>Frames of the field updates every operation makes.\<close>

lemma dynamo_clean_frame [simp]:
  "dynamo_clean (d\<lparr>Buckets := b\<rparr>) = dynamo_clean d" "dynamo_clean (d\<lparr>MultipartUploads := m\<rparr>) = dynamo_clean d"
  "dynamo_clean (d\<lparr>Queues := q\<rparr>) = dynamo_clean d" "dynamo_clean (d\<lparr>GCSBuckets := g\<rparr>) = dynamo_clean d"
  "dynamo_clean (d\<lparr>PubSubTopics := t\<rparr>) = dynamo_clean d"
  "dynamo_clean (d\<lparr>PubSubSubscriptions := s\<rparr>) = dynamo_clean d"
  "dynamo_clean (d\<lparr>FirestoreDocuments := f\<rparr>) = dynamo_clean d" "dynamo_clean (d\<lparr>Secrets := c\<rparr>) = dynamo_clean d"
  "dynamo_clean (d\<lparr>KMSKeyRings := k\<rparr>) = dynamo_clean d" "dynamo_clean (d\<lparr>KMSCryptoKeys := y\<rparr>) = dynamo_clean d"
  "dynamo_clean (d\<lparr>IAMServiceAccounts := a\<rparr>) = dynamo_clean d" "dynamo_clean (d\<lparr>FCMMessages := x\<rparr>) = dynamo_clean d"
  "dynamo_clean (d\<lparr>VertexGenerations := v\<rparr>) = dynamo_clean d"
  by (simp_all add: dynamo_clean_def)

lemma durable_dynamo_clean: "durable w \<Longrightarrow> dynamo_clean (w_data w)"
  by (simp add: durable_def)

end
