(* ===== verification/Base64.thy ===== *)
theory Base64
  imports Prelude
begin

text \<open>
  \<open>encoding/base64\<close> as the state engine uses it: the standard alphabet with padding for digests
  (\<open>StdEncoding\<close>) and the URL alphabet without padding for page tokens
  (\<open>RawURLEncoding\<close>). Decoding skips line breaks and ignores the unused low bits of a final
  group, as the Go decoder does outside strict mode.
\<close>

definition b64Char :: "bool \<Rightarrow> nat \<Rightarrow> char" where
  "b64Char url n =
     (if n < 26 then char_of (65 + n) else if n < 52 then char_of (71 + n)
      else if n < 62 then char_of (n - 4)
      else if n = 62 then (if url then CHR ''-'' else CHR ''+'')
      else (if url then CHR ''_'' else CHR ''/''))"

definition b64Val :: "bool \<Rightarrow> char \<Rightarrow> nat option" where
  "b64Val url c =
     (let n = (of_char c :: nat)
      in if 65 \<le> n \<and> n \<le> 90 then Some (n - 65)
         else if 97 \<le> n \<and> n \<le> 122 then Some (n - 71)
         else if 48 \<le> n \<and> n \<le> 57 then Some (n + 4)
         else if c = (if url then CHR ''-'' else CHR ''+'') then Some 62
         else if c = (if url then CHR ''_'' else CHR ''/'') then Some 63
         else None)"

fun b64Encode :: "bool \<Rightarrow> bytes \<Rightarrow> string" where
  "b64Encode url [] = []"
| "b64Encode url [a] =
     [b64Char url (of_char a div 4), b64Char url (of_char a mod 4 * 16)]"
| "b64Encode url [a, b] =
     [b64Char url (of_char a div 4), b64Char url (of_char a mod 4 * 16 + of_char b div 16),
      b64Char url (of_char b mod 16 * 4)]"
| "b64Encode url (a # b # c # s) =
     [b64Char url (of_char a div 4), b64Char url (of_char a mod 4 * 16 + of_char b div 16),
      b64Char url (of_char b mod 16 * 4 + of_char c div 64), b64Char url (of_char c mod 64)]
     @ b64Encode url s"

text \<open>Padding to a multiple of four characters.\<close>

definition StdEncoding :: "bytes \<Rightarrow> string" where
  "StdEncoding b =
     b64Encode False b @ replicate ((3 - length b mod 3) mod 3) (CHR ''='')"

fun b64Decode :: "bool \<Rightarrow> string \<Rightarrow> bytes option" where
  "b64Decode url [] = Some []"
| "b64Decode url [p] = None"
| "b64Decode url [p, q] =
     (case (b64Val url p, b64Val url q) of
        (Some x, Some y) \<Rightarrow> Some [char_of (x * 4 + y div 16)] | _ \<Rightarrow> None)"
| "b64Decode url [p, q, r] =
     (case (b64Val url p, b64Val url q, b64Val url r) of
        (Some x, Some y, Some z) \<Rightarrow>
          Some [char_of (x * 4 + y div 16), char_of (y mod 16 * 16 + z div 4)] | _ \<Rightarrow> None)"
| "b64Decode url (p # q # r # t # s) =
     (case (b64Val url p, b64Val url q, b64Val url r, b64Val url t, b64Decode url s) of
        (Some x, Some y, Some z, Some u, Some b) \<Rightarrow>
          Some (char_of (x * 4 + y div 16) # char_of (y mod 16 * 16 + z div 4) #
                char_of (z mod 4 * 64 + u) # b)
      | _ \<Rightarrow> None)"

definition RawURLDecode :: "string \<Rightarrow> bytes option" where
  "RawURLDecode s = b64Decode True (filter (\<lambda>c. c \<noteq> CHR 0x0A \<and> c \<noteq> CHR 0x0D) s)"

lemma b64Val_b64Char: "n < 64 \<Longrightarrow> b64Val url (b64Char url n) = Some n"
  by (auto simp: b64Val_def b64Char_def Let_def)

lemma b64Char_no_break: "n < 64 \<Longrightarrow> b64Char url n \<noteq> CHR 0x0A \<and> b64Char url n \<noteq> CHR 0x0D"
  by (auto simp: b64Char_def char_of_eq_iff take_bit_eq_mod)

lemma byte_div_4: "(of_char c :: nat) div 4 < 64"
  by (rule less_mult_imp_div_less) (use of_char_lt_256 [of c] in simp)

lemma byte_div_64: "(of_char c :: nat) div 64 < 4"
  by (rule less_mult_imp_div_less) (use of_char_lt_256 [of c] in simp)

lemma b64_bounds:
  "(of_char a :: nat) mod 4 * 16 < 64" "(of_char a :: nat) mod 4 * 16 + of_char b div 16 < 64"
  "(of_char b :: nat) mod 16 * 4 < 64" "(of_char b :: nat) mod 16 * 4 + of_char c div 64 < 64"
  "(of_char c :: nat) mod 64 < 64"
proof -
  have m: "(of_char a :: nat) mod 4 < 4" "(of_char b :: nat) mod 16 < 16" by simp_all
  show "(of_char a :: nat) mod 4 * 16 < 64" "(of_char b :: nat) mod 16 * 4 < 64"
    "(of_char c :: nat) mod 64 < 64" using m by simp_all
  show "(of_char a :: nat) mod 4 * 16 + of_char b div 16 < 64"
    "(of_char b :: nat) mod 16 * 4 + of_char c div 64 < 64"
    using m of_char_div_16 [of b] byte_div_64 [of c] by linarith+
qed

lemma b64_regroup:
  "(of_char b :: nat) div 16 div 16 = 0" "(of_char b :: nat) div 16 mod 16 = of_char b div 16"
  "(of_char c :: nat) div 64 div 4 = 0" "(of_char c :: nat) div 64 mod 4 = of_char c div 64"
  using of_char_div_16 [of b] byte_div_64 [of c] by simp_all

lemmas b64_simps = b64Val_b64Char byte_div_4 b64_bounds b64_regroup

lemma b64Decode_b64Encode: "b64Decode url (b64Encode url b) = Some b"
  by (induction url b rule: b64Encode.induct) (simp_all add: b64_simps)

lemma b64Encode_no_break: "c \<in> set (b64Encode url b) \<Longrightarrow> c \<noteq> CHR 0x0A \<and> c \<noteq> CHR 0x0D"
  by (induction url b rule: b64Encode.induct) (auto simp: b64Char_no_break byte_div_4 b64_bounds)

lemma RawURLDecode_encode: "RawURLDecode (b64Encode True b) = Some b"
proof -
  have "filter (\<lambda>c. c \<noteq> CHR 0x0A \<and> c \<noteq> CHR 0x0D) (b64Encode True b) = b64Encode True b"
    using b64Encode_no_break by (auto intro!: filter_True)
  then show ?thesis by (simp add: RawURLDecode_def b64Decode_b64Encode)
qed

end
