(* ===== verification/Object_Files.thy ===== *)
theory Object_Files
  imports World Base64
begin

text \<open>
  Object bodies on disk: the content-addressed file names, the write path shared by the object
  stores (temporary file, sync, rename, directory sync), the read path in both integrity modes,
  and the invariant that every body the state refers to is present and matches its metadata.
\<close>

section \<open>File names\<close>

definition filePreimage :: "string \<Rightarrow> string \<Rightarrow> string \<Rightarrow> bytes \<Rightarrow> bytes" where
  "filePreimage namespace owner key h =
     namespace @ [CHR 0x00] @ owner @ [CHR 0x00] @ key @ [CHR 0x00] @ h"

definition generationObjectFile :: "env \<Rightarrow> string \<Rightarrow> string \<Rightarrow> string \<Rightarrow> bytes \<Rightarrow> string" where
  "generationObjectFile E namespace owner key h =
     hexEncode (e_sha256 E (filePreimage namespace owner key h))"

text \<open>
  \<open>filepath.Base(name) == name\<close> holds exactly for names without a separator, other than the
  empty one (whose base is a dot).
\<close>

definition validSnapshotObjectName :: "string \<Rightarrow> bool" where
  "validSnapshotObjectName name \<longleftrightarrow>
     name \<noteq> '''' \<and> name \<noteq> ''.'' \<and> name \<noteq> ''..'' \<and>
     CHR ''/'' \<notin> set name \<and> CHR 0x5C \<notin> set name"

section \<open>Writing a body\<close>

definition createTemp :: "env \<Rightarrow> string \<Rightarrow> world \<Rightarrow> string option \<times> world" where
  "createTemp E pattern w =
     (case runSys E [CreateTemp] w of
        (False, w1) \<Rightarrow> (None, w1)
      | (True, w1) \<Rightarrow>
         (let t = pattern @ e_tmp E (w_tmps w1)
          in (Some t, w1\<lparr>w_tmps := Suc (w_tmps w1), w_objects := fmupd t [] (w_objects w1)\<rparr>)))"

definition writeTemp :: "env \<Rightarrow> string \<Rightarrow> bytes \<Rightarrow> world \<Rightarrow> bool \<times> world" where
  "writeTemp E t body w =
     (case runSys E [Write] w of
        (True, w1) \<Rightarrow> (True, w1\<lparr>w_objects := fmupd t body (w_objects w1)\<rparr>)
      | (False, w1) \<Rightarrow> (False, w1))"

text \<open>Sync and close the temporary file, then rename it to its final name.\<close>

definition renameTemp :: "env \<Rightarrow> string \<Rightarrow> string \<Rightarrow> bytes \<Rightarrow> world \<Rightarrow> bool \<times> world" where
  "renameTemp E t file body w =
     (case runSys E [Sync, Close, Rename] w of
        (True, w1) \<Rightarrow> (True, w1\<lparr>w_objects := fmupd file body (fmdrop t (w_objects w1))\<rparr>)
      | (False, w1) \<Rightarrow> (False, w1))"

datatype publish_result = PubFailed | PubUnsynced | PubDone

text \<open>
  The body of \<open>PutObject\<close>, \<open>UploadMultipartPart\<close> and \<open>PutGCSObject\<close> up to the
  directory sync: \<open>PubFailed\<close> before the rename (the deferred \<open>os.Remove\<close> then deletes
  the temporary file), \<open>PubUnsynced\<close> when only the directory sync failed.
\<close>

definition publishObject :: "env \<Rightarrow> string \<Rightarrow> string \<Rightarrow> bytes \<Rightarrow> world \<Rightarrow> publish_result \<times> world" where
  "publishObject E pattern file body w =
     (case createTemp E pattern w of
        (None, w1) \<Rightarrow> (PubFailed, w1)
      | (Some t, w1) \<Rightarrow>
         (case writeTemp E t body w1 of
            (False, w2) \<Rightarrow> (PubFailed, removeFile E t w2)
          | (True, w2) \<Rightarrow>
             (case renameTemp E t file body w2 of
                (False, w3) \<Rightarrow> (PubFailed, removeFile E t w3)
              | (True, w3) \<Rightarrow>
                 (case runSys E [OpenDir, SyncDir] w3 of
                    (False, w4) \<Rightarrow> (PubUnsynced, w4)
                  | (True, w4) \<Rightarrow> (PubDone, w4)))))"

section \<open>Reading a body\<close>

definition requireMatchingSHA256 :: "string \<Rightarrow> string \<Rightarrow> error option" where
  "requireMatchingSHA256 expected actual =
     (if expected = '''' then Some (Wrap ErrStateCorrupt ''SHA-256 metadata is missing for object file'')
      else if \<not> equalFold expected actual then
        Some (Wrap ErrStateCorrupt ''SHA-256 mismatch for object file'')
      else None)"

text \<open>
  Opening a body for reading. In startup mode this is a plain \<open>os.Open\<close>; in strict mode the
  name, the file's presence and its size are checked first. The content is what the opened file
  yields; the file does not change while the store lock is held.
\<close>

definition openObjectFileForRead :: "env \<Rightarrow> string \<Rightarrow> int \<Rightarrow> world \<Rightarrow> bytes result" where
  "openObjectFileForRead E name sz w =
     (if w_integrityMode w \<noteq> IntegrityModeStrict then
        (case runSys E [Open] w of
           (False, w1) \<Rightarrow> (Inl ErrOS, w1)
         | (True, w1) \<Rightarrow>
            (case fmlookup (w_objects w1) name of None \<Rightarrow> (Inl ErrOS, w1) | Some b \<Rightarrow> (Inr b, w1)))
      else if \<not> validSnapshotObjectName name then
        (Inl (Wrap ErrStateCorrupt ''invalid object filename''), w)
      else
        (case runSys E [Lstat] w of
           (False, w1) \<Rightarrow> (Inl (Wrap ErrStateCorrupt ''object file is missing''), w1)
         | (True, w1) \<Rightarrow>
            (case fmlookup (w_objects w1) name of
               None \<Rightarrow> (Inl (Wrap ErrStateCorrupt ''object file is missing''), w1)
             | Some b \<Rightarrow>
                if int (length b) \<noteq> sz then
                  (Inl (Wrap ErrStateCorrupt ''invalid metadata for object file''), w1)
                else
                  (case runSys E [Open, Fstat] w1 of
                     (False, w2) \<Rightarrow> (Inl (Wrap ErrStateCorrupt ''open object file''), w2)
                   | (True, w2) \<Rightarrow> (Inr b, w2)))))"

definition readObjectBody :: "env \<Rightarrow> string \<Rightarrow> int \<Rightarrow> string \<Rightarrow> world \<Rightarrow> bytes result" where
  "readObjectBody E name sz sha w =
     (if w_integrityMode w \<noteq> IntegrityModeStrict then
        (case runSys E [ReadFile] w of
           (False, w1) \<Rightarrow> (Inl ErrOS, w1)
         | (True, w1) \<Rightarrow>
            (case fmlookup (w_objects w1) name of None \<Rightarrow> (Inl ErrOS, w1) | Some b \<Rightarrow> (Inr b, w1)))
      else
        (case openObjectFileForRead E name sz w of
           (Inl e, w1) \<Rightarrow> (Inl e, w1)
         | (Inr b, w1) \<Rightarrow>
            (case runSys E [ReadCopy, Close] w1 of
               (False, w2) \<Rightarrow> (Inl ErrOS, w2)
             | (True, w2) \<Rightarrow>
                (case requireMatchingSHA256 sha (hexEncode (e_sha256 E b)) of
                   Some e \<Rightarrow> (Inl e, w2)
                 | None \<Rightarrow> (Inr b, w2)))))"

section \<open>Frames\<close>

text \<open>A name that starts with a dot, as the patterns of all temporary object files do.\<close>

definition isTemp :: "string \<Rightarrow> bool" where
  "isTemp f = (\<exists>s. f = CHR ''.'' # s)"

lemma isTemp_append [simp]: "isTemp (CHR ''.'' # s)"
  by (simp add: isTemp_def)

lemma generationObjectFile_not_temp [simp]: "\<not> isTemp (generationObjectFile E n ow k h)"
  using hexEncode_no_dot [of "e_sha256 E (filePreimage n ow k h)"]
  by (auto simp: isTemp_def generationObjectFile_def)

text \<open>
  \<open>objectsOnly w w'\<close>: nothing but the object directory and the counters of the environment has
  changed.
\<close>

definition objectsOnly :: "world \<Rightarrow> world \<Rightarrow> bool" where
  "objectsOnly w w' \<longleftrightarrow>
     w_data w' = w_data w \<and> w_committedRaw w' = w_committedRaw w \<and>
     w_state_json w' = w_state_json w \<and> w_integrityMode w' = w_integrityMode w \<and>
     w_clock w' = w_clock w \<and> w_ids w' = w_ids w"

lemma objectsOnly_refl [simp]: "objectsOnly w w"
  by (simp add: objectsOnly_def)

lemma objectsOnly_trans: "objectsOnly a b \<Longrightarrow> objectsOnly b c \<Longrightarrow> objectsOnly a c"
  by (simp add: objectsOnly_def)

lemma runSys_objectsOnly:
  "runSys E cs w = (ok, w') \<Longrightarrow> objectsOnly w w' \<and> w_objects w' = w_objects w \<and> w_tmps w' = w_tmps w"
  using runSys_frame [of E cs w ok w'] by (auto simp: objectsOnly_def)

lemma removeFile_spec:
  "objectsOnly w (removeFile E f w) \<and>
   (w_objects (removeFile E f w) = w_objects w \<or> w_objects (removeFile E f w) = fmdrop f (w_objects w))"
proof -
  obtain ok w1 where r: "runSys E [Remove] w = (ok, w1)" by fastforce
  from runSys_objectsOnly [OF r] r show ?thesis
    unfolding removeFile_def by (cases ok) (auto simp: objectsOnly_def simp del: runSys.simps)
qed

lemma removeFile_lookup_other:
  "g \<noteq> f \<Longrightarrow> fmlookup (w_objects (removeFile E f w)) g = fmlookup (w_objects w) g"
  using removeFile_spec [of w E f] by auto

lemma removeFiles_objectsOnly: "objectsOnly w (removeFiles E fs w)"
proof (induction fs arbitrary: w)
  case (Cons f fs)
  then show ?case using removeFile_spec [of w E f] objectsOnly_trans by (simp, blast)
qed simp

lemma removeFiles_lookup_other:
  "g \<notin> set fs \<Longrightarrow> fmlookup (w_objects (removeFiles E fs w)) g = fmlookup (w_objects w) g"
proof (induction fs arbitrary: w)
  case (Cons f fs)
  then have "fmlookup (w_objects (removeFiles E fs (removeFile E f w))) g =
      fmlookup (w_objects (removeFile E f w)) g" by simp
  also have "\<dots> = fmlookup (w_objects w) g" using Cons.prems by (simp add: removeFile_lookup_other)
  finally show ?case by simp
qed simp

lemma createTemp_spec:
  assumes "createTemp E pat w = (r, w')"
  shows "objectsOnly w w'"
    and "r = None \<Longrightarrow> w_objects w' = w_objects w"
    and "r = Some t \<Longrightarrow> t = pat @ e_tmp E (w_tmps w) \<and> w_objects w' = fmupd t [] (w_objects w)"
proof -
  obtain ok w1 where s: "runSys E [CreateTemp] w = (ok, w1)" by fastforce
  note f = runSys_objectsOnly [OF s]
  show "objectsOnly w w'"
    "r = None \<Longrightarrow> w_objects w' = w_objects w"
    "r = Some t \<Longrightarrow> t = pat @ e_tmp E (w_tmps w) \<and> w_objects w' = fmupd t [] (w_objects w)"
    using assms s f unfolding createTemp_def
    by (cases ok; auto simp: Let_def objectsOnly_def simp del: runSys.simps)+
qed

lemma writeTemp_spec:
  assumes "writeTemp E t body w = (ok, w')"
  shows "objectsOnly w w' \<and> w_objects w' = (if ok then fmupd t body (w_objects w) else w_objects w)"
proof -
  obtain b w1 where s: "runSys E [Write] w = (b, w1)" by fastforce
  from assms s runSys_objectsOnly [OF s] show ?thesis unfolding writeTemp_def
    by (cases b) (auto simp: objectsOnly_def simp del: runSys.simps)
qed

lemma renameTemp_spec:
  assumes "renameTemp E t file body w = (ok, w')"
  shows "objectsOnly w w' \<and>
    w_objects w' = (if ok then fmupd file body (fmdrop t (w_objects w)) else w_objects w)"
proof -
  obtain b w1 where s: "runSys E [Sync, Close, Rename] w = (b, w1)" by fastforce
  from assms s runSys_objectsOnly [OF s] show ?thesis unfolding renameTemp_def
    by (cases b) (auto simp: objectsOnly_def simp del: runSys.simps)
qed

text \<open>
  Publishing touches no file other than its target and a temporary one, and when it gets past the
  rename the target holds the body.
\<close>

lemma publishObject_spec:
  assumes "publishObject E pat file body w = (r, w')" and pat: "isTemp pat" and "\<not> isTemp file"
  shows "objectsOnly w w'"
    and "\<not> isTemp g \<Longrightarrow> fmlookup (w_objects w') g =
           (if g = file \<and> r \<noteq> PubFailed then Some body else fmlookup (w_objects w) g)"
proof -
  obtain p where p: "pat = CHR ''.'' # p" using pat by (auto simp: isTemp_def)
  have all: "objectsOnly w w' \<and> (\<forall>g. \<not> isTemp g \<longrightarrow> fmlookup (w_objects w') g =
     (if g = file \<and> r \<noteq> PubFailed then Some body else fmlookup (w_objects w) g))"
  proof (cases "createTemp E pat w")
    case (Pair ot w1)
    note ct = createTemp_spec [OF Pair]
    show ?thesis
    proof (cases ot)
      case None
      with assms(1) Pair have "r = PubFailed" "w' = w1" by (auto simp: publishObject_def)
      with ct None show ?thesis by auto
    next
      case (Some t)
      with ct(3) p have t: "isTemp t" and o1: "w_objects w1 = fmupd t [] (w_objects w)" by auto
      obtain ok2 w2 where wr: "writeTemp E t body w1 = (ok2, w2)" by fastforce
      note ws = writeTemp_spec [OF wr]
      show ?thesis
      proof (cases ok2)
        case False
        with assms(1) Pair Some wr have "r = PubFailed" "w' = removeFile E t w2"
          by (auto simp: publishObject_def)
        with ws False o1 ct(1) t removeFile_spec [of w2 E t] show ?thesis
          by (auto simp: removeFile_lookup_other intro: objectsOnly_trans)
      next
        case True
        obtain ok3 w3 where rn: "renameTemp E t file body w2 = (ok3, w3)" by fastforce
        note rs = renameTemp_spec [OF rn]
        show ?thesis
        proof (cases ok3)
          case False
          with assms(1) Pair Some wr True rn have "r = PubFailed" "w' = removeFile E t w3"
            by (auto simp: publishObject_def)
          with ws rs False True o1 ct(1) t removeFile_spec [of w3 E t] show ?thesis
            by (auto simp: removeFile_lookup_other intro: objectsOnly_trans)
        next
          case ok: True
          obtain ok4 w4 where sy: "runSys E [OpenDir, SyncDir] w3 = (ok4, w4)" by fastforce
          with assms(1) Pair Some wr True rn ok have "r \<noteq> PubFailed" "w' = w4"
            by (auto simp: publishObject_def simp del: runSys.simps split: bool.splits)
          with ws rs ok True o1 ct(1) t runSys_objectsOnly [OF sy] show ?thesis
            by (auto intro: objectsOnly_trans)
        qed
      qed
    qed
  qed
  then show "objectsOnly w w'"
    and "\<not> isTemp g \<Longrightarrow> fmlookup (w_objects w') g =
           (if g = file \<and> r \<noteq> PubFailed then Some body else fmlookup (w_objects w) g)"
    by auto
qed

lemma readObjectBody_frame:
  assumes "readObjectBody E f n h w = (r, w')"
  shows "objectsOnly w w' \<and> w_objects w' = w_objects w"
proof -
  have *: "objectsOnly w w1 \<and> w_objects w1 = w_objects w"
    if "openObjectFileForRead E f n w = (q, w1)" for q w1
    using that unfolding openObjectFileForRead_def
    by (auto simp del: runSys.simps simp: split: if_splits prod.splits bool.splits option.splits
        dest!: runSys_objectsOnly intro: objectsOnly_trans)
  show ?thesis using assms unfolding readObjectBody_def
    by (auto simp del: runSys.simps split: if_splits prod.splits bool.splits option.splits sum.splits
        dest!: runSys_objectsOnly * intro: objectsOnly_trans)
qed

section \<open>Referenced bodies\<close>

text \<open>
  \<open>fileRef d ns owner key f n h c\<close>: the state refers, at the place \<open>(ns, owner, key)\<close>, to
  a body in file \<open>f\<close> of size \<open>n\<close> with SHA-256 text \<open>h\<close> and, for Cloud Storage, the CRC-32C text
  \<open>c\<close> (empty for the other services).
\<close>

inductive fileRef :: "snapshot \<Rightarrow> string \<Rightarrow> string \<Rightarrow> string \<Rightarrow> string \<Rightarrow> int \<Rightarrow> string \<Rightarrow> string \<Rightarrow> bool"
  for d where
  s3: "fmlookup (Buckets d) b = Some bk \<Longrightarrow> fmlookup (bk_Objects bk) k = Some x \<Longrightarrow>
       fileRef d ''s3'' b k (obj_File x) (obj_Size x) (obj_SHA256 x) ''''"
| multipart: "fmlookup (MultipartUploads d) u = Some up \<Longrightarrow> fmlookup (mu_Parts up) i = Some p \<Longrightarrow>
       fileRef d ''multipart'' u (showInt i) (mp_File p) (mp_Size p) (mp_SHA256 p) ''''"
| gcs: "fmlookup (GCSBuckets d) b = Some gb \<Longrightarrow> fmlookup (gb_Objects gb) k = Some y \<Longrightarrow>
       fileRef d ''gcs'' b k (go_File y) (go_Size y) (go_SHA256 y) (go_CRC32C y)"

inductive_cases fileRefE: "fileRef d ns ow k f n h c"

lemma fileRef_namespace: "fileRef d ns ow k f n h c \<Longrightarrow> ns \<in> {''s3'', ''multipart'', ''gcs''}"
  by (erule fileRefE) auto

lemma fileRef_cong:
  "Buckets d = Buckets d' \<Longrightarrow> MultipartUploads d = MultipartUploads d' \<Longrightarrow> GCSBuckets d = GCSBuckets d' \<Longrightarrow>
   fileRef d = fileRef d'"
  by (intro ext) (auto elim!: fileRefE intro: fileRef.intros)

lemma fileRef_sameLive: "sameLive d d' \<Longrightarrow> fileRef d = fileRef d'"
  by (rule fileRef_cong) (auto simp: sameLive_fields)

text \<open>
  What the content-addressed store relies on: digests are 32 bytes long and no two of the inputs
  hashed (the members of \<open>S\<close>) collide.
\<close>

definition digests_ok :: "env \<Rightarrow> bytes set \<Rightarrow> bool" where
  "digests_ok E S \<longleftrightarrow> (\<forall>b. length (e_sha256 E b) = 32) \<and> inj_on (e_sha256 E) S"

text \<open>\<open>fileAt E S ns ow k g\<close>: \<open>g\<close> is the file name of some content at a place.\<close>

definition fileAt :: "env \<Rightarrow> bytes set \<Rightarrow> string \<Rightarrow> string \<Rightarrow> string \<Rightarrow> string \<Rightarrow> bool" where
  "fileAt E S ns ow k g \<longleftrightarrow>
     (\<exists>h. g = generationObjectFile E ns ow k h \<and> filePreimage ns ow k h \<in> S \<and> length h = 32) \<and>
     CHR 0x00 \<notin> set ns \<and> CHR 0x00 \<notin> set ow"

text \<open>The body and its file name are among the inputs hashed.\<close>

definition hashable :: "env \<Rightarrow> bytes set \<Rightarrow> string \<Rightarrow> string \<Rightarrow> string \<Rightarrow> bytes \<Rightarrow> bool" where
  "hashable E S ns ow k body \<longleftrightarrow> body \<in> S \<and> filePreimage ns ow k (e_sha256 E body) \<in> S"

abbreviation bodyFile :: "env \<Rightarrow> string \<Rightarrow> string \<Rightarrow> string \<Rightarrow> bytes \<Rightarrow> string" where
  "bodyFile E ns ow k body \<equiv> generationObjectFile E ns ow k (e_sha256 E body)"

definition bodyOK :: "env \<Rightarrow> bytes set \<Rightarrow> bytes gomap \<Rightarrow>
    string \<Rightarrow> string \<Rightarrow> string \<Rightarrow> string \<Rightarrow> int \<Rightarrow> string \<Rightarrow> string \<Rightarrow> bool" where
  "bodyOK E S objs ns ow k f n h c \<longleftrightarrow> fileAt E S ns ow k f \<and>
     (\<exists>b. hashable E S ns ow k b \<and> fmlookup objs f = Some b \<and> n = int (length b) \<and> h = hexEncode (e_sha256 E b) \<and>
        f = generationObjectFile E ns ow k (e_sha256 E b) \<and>
        (c = '''' \<or> c = StdEncoding (e_crc32c E b)))"

definition bodiesOK :: "env \<Rightarrow> bytes set \<Rightarrow> snapshot \<Rightarrow> bytes gomap \<Rightarrow> bool" where
  "bodiesOK E S d objs \<longleftrightarrow>
     (\<forall>ns ow k f n h c. fileRef d ns ow k f n h c \<longrightarrow> bodyOK E S objs ns ow k f n h c)"

lemma bodiesOK_sameLive: "sameLive d d' \<Longrightarrow> bodiesOK E S d objs = bodiesOK E S d' objs"
  by (simp add: bodiesOK_def fileRef_sameLive)

lemma split_at_sep:
  assumes "a @ c # x = b @ c # y" and "c \<notin> set a" and "c \<notin> set b"
  shows "a = b \<and> x = y"
proof -
  have "takeWhile ((\<noteq>) c) (a @ c # x) = a" "takeWhile ((\<noteq>) c) (b @ c # y) = b"
    using assms(2,3) by (auto simp: takeWhile_append)
  with assms(1) have "a = b" by simp
  with assms(1) show ?thesis by simp
qed

lemma filePreimage_inj:
  assumes "filePreimage ns ow k h = filePreimage ns' ow' k' h'" and "length h = length h'"
    and "CHR 0x00 \<notin> set ns" "CHR 0x00 \<notin> set ns'" "CHR 0x00 \<notin> set ow" "CHR 0x00 \<notin> set ow'"
  shows "ns = ns' \<and> ow = ow' \<and> k = k' \<and> h = h'"
proof -
  from assms(1) have "ns @ CHR 0x00 # (ow @ CHR 0x00 # (k @ CHR 0x00 # h)) =
      ns' @ CHR 0x00 # (ow' @ CHR 0x00 # (k' @ CHR 0x00 # h'))" by (simp add: filePreimage_def)
  from split_at_sep [OF this assms(3,4)]
  have ns: "ns = ns'" and r: "ow @ CHR 0x00 # (k @ CHR 0x00 # h) = ow' @ CHR 0x00 # (k' @ CHR 0x00 # h')"
    by auto
  from split_at_sep [OF r assms(5,6)]
  have "ow = ow'" and "(k @ [CHR 0x00]) @ h = (k' @ [CHR 0x00]) @ h'" by auto
  with ns assms(2) show ?thesis by (simp only: append_eq_append_conv) auto
qed

text \<open>Files of different places have different names.\<close>

lemma fileAt_inj:
  assumes dig: "digests_ok E S" and a: "fileAt E S ns ow k f" and b: "fileAt E S ns' ow' k' f"
  shows "(ns, ow, k) = (ns', ow', k')"
proof -
  from a obtain h where h: "f = generationObjectFile E ns ow k h" "filePreimage ns ow k h \<in> S"
    "length h = 32" by (auto simp: fileAt_def)
  from b obtain h' where h': "f = generationObjectFile E ns' ow' k' h'" "filePreimage ns' ow' k' h' \<in> S"
    "length h' = 32" by (auto simp: fileAt_def)
  from h(1) h'(1) have "e_sha256 E (filePreimage ns ow k h) = e_sha256 E (filePreimage ns' ow' k' h')"
    by (simp add: generationObjectFile_def hexEncode_inj)
  with dig h(2) h'(2) have "filePreimage ns ow k h = filePreimage ns' ow' k' h'"
    by (auto simp: digests_ok_def dest: inj_onD)
  from filePreimage_inj [OF this] h(3) h'(3) a b show ?thesis by (auto simp: fileAt_def)
qed

lemma bodyOK_fileAt: "bodyOK E S objs ns ow k f n h c \<Longrightarrow> fileAt E S ns ow k f"
  by (simp add: bodyOK_def)

lemma fileAt_not_temp: "fileAt E S ns ow k f \<Longrightarrow> \<not> isTemp f"
  by (auto simp: fileAt_def)

lemma bodyOK_lookup_cong:
  "bodyOK E S objs ns ow k f n h c \<Longrightarrow> fmlookup objs' f = fmlookup objs f \<Longrightarrow> bodyOK E S objs' ns ow k f n h c"
  by (auto simp: bodyOK_def)

text \<open>
  The proof rule for operations that write or remove bodies: outside the places \<open>L\<close> the
  references are old ones, and the files written or removed belong to places in \<open>L\<close>.
\<close>

lemma bodiesOK_change:
  assumes dig: "digests_ok E S" and old: "bodiesOK E S d objs"
    and refs: "\<And>ns ow k f n h c. fileRef d' ns ow k f n h c \<Longrightarrow>
       (ns, ow, k) \<notin> L \<and> fileRef d ns ow k f n h c \<or> bodyOK E S objs' ns ow k f n h c"
    and same: "\<And>g. g \<notin> gone \<Longrightarrow> \<not> isTemp g \<Longrightarrow> fmlookup objs' g = fmlookup objs g"
    and gone: "\<And>g. g \<in> gone \<Longrightarrow> \<exists>(ns, ow, k) \<in> L. fileAt E S ns ow k g"
  shows "bodiesOK E S d' objs'"
  unfolding bodiesOK_def
proof (intro allI impI)
  fix ns ow k f n h c
  assume "fileRef d' ns ow k f n h c"
  with refs consider "(ns, ow, k) \<notin> L" "fileRef d ns ow k f n h c" | "bodyOK E S objs' ns ow k f n h c"
    by blast
  then show "bodyOK E S objs' ns ow k f n h c"
  proof cases
    case 1
    with old have b: "bodyOK E S objs ns ow k f n h c" by (auto simp: bodiesOK_def)
    note fa = bodyOK_fileAt [OF b]
    have "f \<notin> gone"
    proof
      assume "f \<in> gone"
      from gone [OF this] obtain ns' ow' k' where "(ns', ow', k') \<in> L" "fileAt E S ns' ow' k' f" by auto
      with fileAt_inj [OF dig fa] 1(1) show False by blast
    qed
    with same fileAt_not_temp [OF fa] have "fmlookup objs' f = fmlookup objs f" by blast
    with b show ?thesis by (rule bodyOK_lookup_cong)
  qed
qed

lemma fileRef_empty [simp]: "\<not> fileRef emptySnapshot ns ow k f n h c"
  by (auto simp: emptySnapshot_def elim!: fileRefE)

lemma bodiesOK_empty [simp]: "bodiesOK E S emptySnapshot objs"
  by (simp add: bodiesOK_def)

text \<open>
  Reading a body the invariant covers: with no failing system call, both modes return it; in strict
  mode whatever is returned has the recorded digest.
\<close>

lemma validName_hex: "h \<noteq> [] \<Longrightarrow> length h \<noteq> 1 \<Longrightarrow> length h \<noteq> 2 \<Longrightarrow> (\<forall>c \<in> set h. \<exists>d < 16. c = hexDigit d) \<Longrightarrow>
    validSnapshotObjectName h"
  using hexDigit_not_special by (fastforce simp: validSnapshotObjectName_def)

lemma generationObjectFile_valid:
  "length (e_sha256 E (filePreimage ns ow k h)) = 32 \<Longrightarrow>
   validSnapshotObjectName (generationObjectFile E ns ow k h)"
  unfolding generationObjectFile_def
  by (rule validName_hex) (auto dest: hexEncode_chars)

lemma readObjectBody_ok:
  assumes "digests_ok E S" "bodyOK E S (w_objects w) ns ow k f n h c" and nf: "\<forall>i. \<not> e_fault E i"
  shows "\<exists>b w'. fmlookup (w_objects w) f = Some b \<and> readObjectBody E f n h w = (Inr b, w')"
proof -
  from assms(2) obtain b where b: "fmlookup (w_objects w) f = Some b" "n = int (length b)"
    "h = hexEncode (e_sha256 E b)" "f = generationObjectFile E ns ow k (e_sha256 E b)"
    by (auto simp: bodyOK_def)
  have len: "length (e_sha256 E x) = 32" for x using assms(1) by (simp add: digests_ok_def)
  have v: "validSnapshotObjectName f" using b(4) len by (simp add: generationObjectFile_valid)
  have "h \<noteq> []" using b(3) len [of b] by auto
  then have m: "requireMatchingSHA256 h (hexEncode (e_sha256 E b)) = None"
    by (simp add: requireMatchingSHA256_def b(3))
  show ?thesis using b(1) v m nf
    by (auto simp: readObjectBody_def openObjectFileForRead_def b(2) runSys_no_fault)
qed

lemma readObjectBody_strict:
  assumes "readObjectBody E f n h w = (Inr b, w')" and "w_integrityMode w = IntegrityModeStrict"
  shows "int (length b) = n \<and> equalFold h (hexEncode (e_sha256 E b)) \<and> fmlookup (w_objects w) f = Some b"
proof -
  have *: "fmlookup (w_objects w) f = Some c \<and> int (length c) = n"
    if "openObjectFileForRead E f n w = (Inr c, w1)" for c w1
    using that assms(2) unfolding openObjectFileForRead_def
    by (auto simp del: runSys.simps split: if_splits prod.splits bool.splits option.splits
        dest!: runSys_objectsOnly)
  show ?thesis using assms unfolding readObjectBody_def
    by (auto simp del: runSys.simps simp: requireMatchingSHA256_def
        split: if_splits prod.splits bool.splits option.splits sum.splits dest!: *)
qed

end
