(* ===== verification/SQS.thy ===== *)
theory SQS
  imports World
begin

text \<open>
  The queue service (\<^verbatim>\<open>internal/state/store.go\<close>, lines 984 to 1499): queue
  creation and attributes with their validation, sending (FIFO deduplication and sequence
  numbers), receiving (visibility, FIFO group blocking, dead-letter redrive), deleting messages
  and changing their visibility.
\<close>

section \<open>Attributes\<close>

definition queueAttributeBool :: "strmap \<Rightarrow> string \<Rightarrow> bool \<Rightarrow> error + bool" where
  "queueAttributeBool attrs name fallback =
     (case fmlookup attrs name of
        None \<Rightarrow> Inr fallback
      | Some v \<Rightarrow>
         if toLower v = ''true'' then Inr True
         else if toLower v = ''false'' then Inr False
         else Inl (Wrap ErrInvalidQueueAttribute (name @ '' must be true or false'')))"

definition queueIsFIFO :: "Queue \<Rightarrow> bool" where
  "queueIsFIFO q \<longleftrightarrow>
     equalFold (fmget (q_Attributes q) ''FifoQueue'') ''true'' \<and> hasSuffix (q_Name q) ''.fifo''"

definition validateFIFOQueueAttributes :: "bool \<Rightarrow> strmap \<Rightarrow> strmap \<Rightarrow> error option" where
  "validateFIFOQueueAttributes fifo attrs current =
     (let currentScope = fmget current ''DeduplicationScope'';
          currentLimit = fmget current ''FifoThroughputLimit'';
          scope = (case fmlookup attrs ''DeduplicationScope'' of
                     Some v \<Rightarrow> v
                   | None \<Rightarrow> if currentScope \<noteq> '''' then currentScope else ''queue'');
          throughput = (case fmlookup attrs ''FifoThroughputLimit'' of
                     Some v \<Rightarrow> v
                   | None \<Rightarrow> if currentLimit \<noteq> '''' then currentLimit else ''perQueue'')
      in errOr
           (case fmlookup attrs ''ContentBasedDeduplication'' of
              None \<Rightarrow> None
            | Some _ \<Rightarrow>
               if \<not> fifo then
                 Some (Wrap ErrInvalidQueueAttribute ''ContentBasedDeduplication applies only to FIFO queues'')
               else (case queueAttributeBool attrs ''ContentBasedDeduplication'' False of
                       Inl e \<Rightarrow> Some e | Inr _ \<Rightarrow> None))
         (errOr
           (case fmlookup attrs ''DeduplicationScope'' of
              Some v \<Rightarrow>
                if \<not> fifo \<or> v \<noteq> ''queue'' \<and> v \<noteq> ''messageGroup'' then
                  Some (Wrap ErrInvalidQueueAttribute
                    ''DeduplicationScope must be queue or messageGroup on a FIFO queue'')
                else None
            | None \<Rightarrow> None)
         (errOr
           (case fmlookup attrs ''FifoThroughputLimit'' of
              Some v \<Rightarrow>
                if \<not> fifo \<or> v \<noteq> ''perQueue'' \<and> v \<noteq> ''perMessageGroupId'' then
                  Some (Wrap ErrInvalidQueueAttribute
                    ''FifoThroughputLimit must be perQueue or perMessageGroupId on a FIFO queue'')
                else None
            | None \<Rightarrow> None)
           (if throughput = ''perMessageGroupId'' \<and> scope \<noteq> ''messageGroup'' then
              Some (Wrap ErrInvalidQueueAttribute
                ''perMessageGroupId throughput requires messageGroup deduplication scope'')
            else None))))"

definition validateQueueCreation :: "string \<Rightarrow> strmap \<Rightarrow> error option" where
  "validateQueueCreation name attrs =
     (case queueAttributeBool attrs ''FifoQueue'' False of
        Inl e \<Rightarrow> Some e
      | Inr fifo \<Rightarrow>
         if fifo \<noteq> hasSuffix name ''.fifo'' then
           Some (Wrap ErrInvalidQueueAttribute
             ''FIFO queue names must end with .fifo and set FifoQueue to true'')
         else validateFIFOQueueAttributes fifo attrs fmempty)"

definition validateQueueAttributeMutation :: "Queue \<Rightarrow> strmap \<Rightarrow> error option" where
  "validateQueueAttributeMutation q attrs =
     (case fmlookup attrs ''FifoQueue'' of
        Some _ \<Rightarrow> Some (Wrap ErrInvalidQueueAttribute ''FifoQueue cannot be changed after queue creation'')
      | None \<Rightarrow> validateFIFOQueueAttributes (queueIsFIFO q) attrs (q_Attributes q))"

definition defaultAccountID :: string where
  "defaultAccountID = ''000000000000''"

definition queueNameFromARN :: "string \<Rightarrow> string" where
  "queueNameFromARN arn =
     (case splitN 6 (CHR '':'') arn of
        [p0, p1, p2, p3, p4, p5] \<Rightarrow>
          if p0 \<noteq> ''arn'' \<or> p2 \<noteq> ''sqs'' \<or> p3 \<noteq> ''us-east-1'' \<or> p4 \<noteq> defaultAccountID \<or> p5 = ''''
          then '''' else p5
      | _ \<Rightarrow> '''')"

text \<open>
  \<open>parseRedrivePolicy\<close>: \<open>json.Unmarshal\<close> matches member names without regard to case, the
  last occurrence wins, and a target that is neither a string nor null is an error. The receive
  count is an integer literal or a string that \<open>Atoi\<close> accepts.
\<close>

definition jsonMembers :: "string \<Rightarrow> (string \<times> json) list \<Rightarrow> json list" where
  "jsonMembers name ms = map snd (filter (\<lambda>(k, _). equalFold k name) ms)"

fun jsonStringMember :: "json list \<Rightarrow> string option" where
  "jsonStringMember [] = Some ''''"
| "jsonStringMember (v # vs) =
     (case (v, jsonStringMember vs) of
        (JStr s, Some t) \<Rightarrow> Some (if list_all ((=) JNull) vs then s else t)
      | (JNull, Some t) \<Rightarrow> Some t
      | _ \<Rightarrow> None)"

definition receiveCountOf :: "json list \<Rightarrow> int option" where
  "receiveCountOf vs =
     (if vs = [] then None
      else case last vs of JNum t \<Rightarrow> atoi t | JStr t \<Rightarrow> atoi t | JNull \<Rightarrow> Some 0 | _ \<Rightarrow> None)"

definition parseRedrivePolicy :: "env \<Rightarrow> string \<Rightarrow> error + redrivePolicy" where
  "parseRedrivePolicy E raw =
     (case e_jsonParse E raw of
        None \<Rightarrow> Inl (ErrText ''invalid JSON'')
      | Some doc \<Rightarrow>
         (case (case doc of JObj ms \<Rightarrow> Some ms | JNull \<Rightarrow> Some [] | _ \<Rightarrow> None) of
            None \<Rightarrow> Inl (ErrText ''cannot unmarshal into redrivePolicyJSON'')
          | Some ms \<Rightarrow>
             (case jsonStringMember (jsonMembers ''deadLetterTargetArn'' ms) of
                None \<Rightarrow> Inl (ErrText ''cannot unmarshal into string'')
              | Some arn \<Rightarrow>
                 if arn = '''' then Inl (ErrText ''deadLetterTargetArn is required'')
                 else (case receiveCountOf (jsonMembers ''maxReceiveCount'' ms) of
                         None \<Rightarrow> Inl (ErrText ''maxReceiveCount must be an integer'')
                       | Some cnt \<Rightarrow>
                          if cnt < 1 \<or> cnt > 1000 then
                            Inl (ErrText ''maxReceiveCount must be between 1 and 1000'')
                          else Inr \<lparr>rp_DeadLetterTargetARN = arn, rp_MaxReceiveCount = cnt\<rparr>))))"

definition validateQueueAttributesLocked :: "env \<Rightarrow> Queue gomap \<Rightarrow> string \<Rightarrow> strmap \<Rightarrow> error option" where
  "validateQueueAttributesLocked E queues sourceName attrs =
     (case fmlookup attrs ''RedrivePolicy'' of
        None \<Rightarrow> None
      | Some raw \<Rightarrow>
         if trimSpace raw = '''' then None
         else (case parseRedrivePolicy E raw of
                 Inl _ \<Rightarrow> Some (Wrap ErrInvalidQueueAttribute ''RedrivePolicy'')
               | Inr policy \<Rightarrow>
                  (let target = queueNameFromARN (rp_DeadLetterTargetARN policy)
                   in if target = '''' then
                        Some (Wrap ErrInvalidQueueAttribute ''RedrivePolicy deadLetterTargetArn is invalid'')
                      else if fmlookup queues target = None then
                        Some (Wrap ErrInvalidQueueAttribute ''dead-letter queue does not exist'')
                      else if target = sourceName then
                        Some (Wrap ErrInvalidQueueAttribute ''a queue cannot target itself'')
                      else if hasSuffix target ''.fifo'' \<noteq> hasSuffix sourceName ''.fifo'' then
                        Some (Wrap ErrInvalidQueueAttribute
                          ''source and dead-letter queues must have the same type'')
                      else None)))"

section \<open>Queues\<close>

text \<open>The attribute updates of \<open>CreateQueue\<close> and \<open>SetQueueAttributes\<close>.\<close>

definition blankRedrive :: "string \<Rightarrow> string \<Rightarrow> bool" where
  "blankRedrive k v = (k = ''RedrivePolicy'' \<and> trimSpace v = '''')"

definition defaultAttributes :: "string \<Rightarrow> strmap" where
  "defaultAttributes name =
     (let d = fmap_of_list [(''VisibilityTimeout'', ''30''), (''DelaySeconds'', ''0''),
                (''ReceiveMessageWaitTimeSeconds'', ''0''), (''MessageRetentionPeriod'', ''345600'')]
      in if hasSuffix name ''.fifo''
         then fmupd ''ContentBasedDeduplication'' ''false'' (fmupd ''FifoQueue'' ''true'' d) else d)"

definition overlayAttributes :: "strmap \<Rightarrow> strmap \<Rightarrow> strmap" where
  "overlayAttributes base attrs =
     base ++\<^sub>f fmfilter (\<lambda>k. \<not> blankRedrive k (fmget attrs k)) attrs"

definition replaceAttributes :: "strmap \<Rightarrow> strmap \<Rightarrow> strmap" where
  "replaceAttributes base attrs =
     (let merged = overlayAttributes base attrs
      in case fmlookup attrs ''RedrivePolicy'' of
           Some v \<Rightarrow> if trimSpace v = '''' then fmdrop ''RedrivePolicy'' merged else merged
         | None \<Rightarrow> merged)"

definition CreateQueue :: "env \<Rightarrow> string \<Rightarrow> strmap \<Rightarrow> world \<Rightarrow> Queue result" where
  "CreateQueue E name attrs w =
     (case fmlookup (Queues (w_data w)) name of
        Some q \<Rightarrow> (Inr q, w)
      | None \<Rightarrow>
         (case validateQueueCreation name attrs of
            Some e \<Rightarrow> (Inl e, w)
          | None \<Rightarrow>
             (case validateQueueAttributesLocked E (Queues (w_data w)) name attrs of
                Some e \<Rightarrow> (Inl e, w)
              | None \<Rightarrow>
                 (let (t, w1) = now E w;
                      q = \<lparr>q_Name = name, q_CreatedAt = t,
                           q_Attributes = overlayAttributes (defaultAttributes name) attrs,
                           q_Messages = [], q_Deduplication = fmempty, q_NextSequenceNumber = 0\<rparr>
                  in saveThen E q (mutate (\<lambda>d. d\<lparr>Queues := fmupd name q (Queues d)\<rparr>) w1)))))"

definition Queue_get :: "string \<Rightarrow> world \<Rightarrow> Queue result" where
  "Queue_get name w =
     (case fmlookup (Queues (w_data w)) name of
        None \<Rightarrow> (Inl ErrQueueNotFound, w) | Some q \<Rightarrow> (Inr q, w))"

definition ListQueues :: "string \<Rightarrow> world \<Rightarrow> Queue list" where
  "ListQueues pre w =
     sort_key q_Name (filter (\<lambda>q. hasPrefix (q_Name q) pre) (fmvalues (Queues (w_data w))))"

definition DeleteQueue :: "env \<Rightarrow> string \<Rightarrow> world \<Rightarrow> unit result" where
  "DeleteQueue E name w =
     (case fmlookup (Queues (w_data w)) name of
        None \<Rightarrow> (Inl ErrQueueNotFound, w)
      | Some _ \<Rightarrow> saveThen E () (mutate (\<lambda>d. d\<lparr>Queues := fmdrop name (Queues d)\<rparr>) w))"

abbreviation setQueue :: "string \<Rightarrow> Queue \<Rightarrow> world \<Rightarrow> world" where
  "setQueue name q w \<equiv> mutate (\<lambda>d. d\<lparr>Queues := fmupd name q (Queues d)\<rparr>) w"

definition PurgeQueue :: "env \<Rightarrow> string \<Rightarrow> world \<Rightarrow> unit result" where
  "PurgeQueue E name w =
     (case fmlookup (Queues (w_data w)) name of
        None \<Rightarrow> (Inl ErrQueueNotFound, w)
      | Some q \<Rightarrow> saveThen E () (setQueue name (q\<lparr>q_Messages := []\<rparr>) w))"

definition SetQueueAttributes :: "env \<Rightarrow> string \<Rightarrow> strmap \<Rightarrow> world \<Rightarrow> unit result" where
  "SetQueueAttributes E name attrs w =
     (case fmlookup (Queues (w_data w)) name of
        None \<Rightarrow> (Inl ErrQueueNotFound, w)
      | Some q \<Rightarrow>
         (case validateQueueAttributeMutation q attrs of
            Some e \<Rightarrow> (Inl e, w)
          | None \<Rightarrow>
             (case validateQueueAttributesLocked E (Queues (w_data w)) name attrs of
                Some e \<Rightarrow> (Inl e, w)
              | None \<Rightarrow>
                 saveThen E ()
                   (setQueue name (q\<lparr>q_Attributes := replaceAttributes (q_Attributes q) attrs\<rparr>) w))))"

section \<open>Sending\<close>

definition validFIFOIdentifier :: "string \<Rightarrow> bool" where
  "validFIFOIdentifier v \<longleftrightarrow>
     1 \<le> length v \<and> length v \<le> 128 \<and> list_all (\<lambda>c. 0x21 \<le> (of_char c :: nat) \<and> of_char c \<le> (0x7e :: nat)) v"

definition fifoDeduplicationKey :: "Queue \<Rightarrow> string \<Rightarrow> string \<Rightarrow> string" where
  "fifoDeduplicationKey q groupID deduplicationID =
     (if fmget (q_Attributes q) ''DeduplicationScope'' = ''messageGroup''
      then groupID @ [CHR 0x00] @ deduplicationID else deduplicationID)"

definition nextFIFOSequenceNumber :: "Queue \<Rightarrow> string \<times> Queue" where
  "nextFIFOSequenceNumber q =
     (let n = q_NextSequenceNumber q + 1
      in (showNat (unat n), q\<lparr>q_NextSequenceNumber := n\<rparr>))"

definition enqueueMessageLocked ::
  "env \<Rightarrow> Queue \<Rightarrow> string \<Rightarrow> MessageAttribute gomap \<Rightarrow> int \<Rightarrow> string \<Rightarrow> string \<Rightarrow> string \<Rightarrow> world
   \<Rightarrow> Message \<times> Queue \<times> world" where
  "enqueueMessageLocked E q body attrs delay groupID dedupID seq w =
     (let delay' = (if delay < 0 then 0 else delay);
          (mid, w1) = newID E w;
          (t1, w2) = now E w1;
          (t2, w3) = now E w2;
          m = \<lparr>msg_MessageID = mid, msg_Body = body, msg_MD5OfBody = hexEncode (e_md5 E body),
               msg_SentAt = t1, msg_VisibleAt = t2 + duration_s delay', msg_ReceiptHandle = '''',
               msg_ReceiveCount = 0, msg_MessageGroupID = groupID,
               msg_MessageDeduplicationID = dedupID, msg_SequenceNumber = seq,
               msg_MessageAttributes = attrs\<rparr>
      in (m, q\<lparr>q_Messages := q_Messages q @ [m]\<rparr>, w3))"

definition enqueueLocked ::
  "env \<Rightarrow> Queue \<Rightarrow> string \<Rightarrow> MessageAttribute gomap \<Rightarrow> int \<Rightarrow> world \<Rightarrow> Message \<times> Queue \<times> world" where
  "enqueueLocked E q body attrs delay w = enqueueMessageLocked E q body attrs delay '''' '''' '''' w"

definition dropExpired :: "time \<Rightarrow> DeduplicationRecord gomap \<Rightarrow> DeduplicationRecord gomap" where
  "dropExpired t m =
     fmfilter (\<lambda>k. case fmlookup m k of Some r \<Rightarrow> t < dr_ExpiresAt r | None \<Rightarrow> False) m"

definition fiveMinutes :: int where
  "fiveMinutes = 300000000000"

text \<open>The reply to a duplicate: the identifiers of the original message, no body.\<close>

definition duplicateReply :: "env \<Rightarrow> string \<Rightarrow> SendMessageOptions \<Rightarrow> DeduplicationRecord \<Rightarrow> Message" where
  "duplicateReply E body opts r =
     \<lparr>msg_MessageID = dr_MessageID r, msg_Body = '''', msg_MD5OfBody = hexEncode (e_md5 E body),
      msg_SentAt = 0, msg_VisibleAt = 0, msg_ReceiptHandle = '''', msg_ReceiveCount = 0,
      msg_MessageGroupID = so_MessageGroupID opts,
      msg_MessageDeduplicationID = so_MessageDeduplicationID opts,
      msg_SequenceNumber = dr_SequenceNumber r, msg_MessageAttributes = fmempty\<rparr>"

definition sendFIFO :: "env \<Rightarrow> string \<Rightarrow> Queue \<Rightarrow> string \<Rightarrow> MessageAttribute gomap \<Rightarrow> int \<Rightarrow>
    SendMessageOptions \<Rightarrow> world \<Rightarrow> Message result" where
  "sendFIFO E name q body attrs delay opts w =
     (let (t, w1) = now E w;
          q1 = q\<lparr>q_Deduplication := dropExpired t (q_Deduplication q)\<rparr>;
          key = fifoDeduplicationKey q1 (so_MessageGroupID opts) (so_MessageDeduplicationID opts)
      in case fmlookup (q_Deduplication q1) key of
           Some r \<Rightarrow> (Inr (duplicateReply E body opts r), setQueue name q1 w1)
         | None \<Rightarrow>
            (let (seq, q2) = nextFIFOSequenceNumber q1;
                 (m, q3, w2) = enqueueMessageLocked E q2 body attrs delay (so_MessageGroupID opts)
                                 (so_MessageDeduplicationID opts) seq w1;
                 q4 = q3\<lparr>q_Deduplication := fmupd key
                          \<lparr>dr_MessageID = msg_MessageID m, dr_SequenceNumber = seq,
                           dr_ExpiresAt = t + fiveMinutes\<rparr> (q_Deduplication q3)\<rparr>
             in saveThen E m (setQueue name q4 w2)))"

definition SendMessageWithOptions :: "env \<Rightarrow> string \<Rightarrow> string \<Rightarrow> MessageAttribute gomap \<Rightarrow> int \<Rightarrow>
    SendMessageOptions \<Rightarrow> world \<Rightarrow> Message result" where
  "SendMessageWithOptions E name body attrs delay0 opts w =
     (case fmlookup (Queues (w_data w)) name of
        None \<Rightarrow> (Inl ErrQueueNotFound, w)
      | Some q \<Rightarrow>
         (let delay = (if delay0 < 0 then intValue (fmget (q_Attributes q) ''DelaySeconds'') 0 else delay0);
              fifo = queueIsFIFO q
          in if delay < 0 \<or> delay > 900 then
               (Inl (Wrap ErrInvalidMessageParameter ''DelaySeconds must be between 0 and 900''), w)
             else if fifo \<and> so_DelaySpecified opts \<and> delay \<noteq> 0 then
               (Inl (Wrap ErrInvalidMessageParameter
                 ''DelaySeconds is not supported for individual FIFO messages''), w)
             else if \<not> fifo \<and> so_MessageDeduplicationID opts \<noteq> '''' then
               (Inl (Wrap ErrInvalidMessageParameter ''MessageDeduplicationId applies only to FIFO queues''), w)
             else if fifo then
               (if so_MessageGroupID opts = '''' then
                  (Inl (Wrap ErrMissingMessageParameter ''MessageGroupId is required for FIFO queues''), w)
                else if \<not> validFIFOIdentifier (so_MessageGroupID opts) then
                  (Inl (Wrap ErrInvalidMessageParameter
                    ''MessageGroupId must contain 1 to 128 supported characters''), w)
                else if so_MessageDeduplicationID opts = '''' \<and>
                        \<not> equalFold (fmget (q_Attributes q) ''ContentBasedDeduplication'') ''true'' then
                  (Inl (Wrap ErrMissingMessageParameter
                    ''MessageDeduplicationId is required when content-based deduplication is disabled''), w)
                else
                  (let opts' = (if so_MessageDeduplicationID opts = ''''
                                then opts\<lparr>so_MessageDeduplicationID := hexEncode (e_sha256 E body)\<rparr>
                                else opts)
                   in if \<not> validFIFOIdentifier (so_MessageDeduplicationID opts') then
                        (Inl (Wrap ErrInvalidMessageParameter
                          ''MessageDeduplicationId must contain 1 to 128 supported characters''), w)
                      else sendFIFO E name q body attrs delay opts' w))
             else
               (let (m, q', w1) = enqueueMessageLocked E q body attrs delay (so_MessageGroupID opts) '''' '''' w
                in saveThen E m (setQueue name q' w1))))"

definition SendMessage :: "env \<Rightarrow> string \<Rightarrow> string \<Rightarrow> MessageAttribute gomap \<Rightarrow> int \<Rightarrow> world \<Rightarrow> Message result" where
  "SendMessage E name body attrs delay w =
     SendMessageWithOptions E name body attrs delay
       \<lparr>so_MessageGroupID = '''', so_MessageDeduplicationID = '''', so_DelaySpecified = False\<rparr> w"

section \<open>Receiving\<close>

text \<open>
  The state of the receive loop: the messages handed out, the messages kept, the FIFO groups that
  are blocked, the dead-letter queue (as it is being filled), whether anything changed, and the
  number of identifiers used.
\<close>

record recv =
  rv_result :: "Message list"
  rv_remaining :: "Message list"
  rv_blocked :: "string list"
  rv_dlq :: "Queue option"
  rv_changed :: bool
  rv_ids :: nat

text \<open>Moving one message to the dead-letter queue.\<close>

definition deadLetter :: "time \<Rightarrow> Message \<Rightarrow> Queue \<Rightarrow> Queue" where
  "deadLetter t m dlq =
     (let m1 = m\<lparr>msg_ReceiptHandle := '''', msg_VisibleAt := t\<rparr>
      in if queueIsFIFO dlq then
           (let (seq, dlq1) = nextFIFOSequenceNumber dlq;
                m2 = m1\<lparr>msg_MessageDeduplicationID := msg_MessageID m1, msg_SequenceNumber := seq,
                       msg_SentAt := t\<rparr>;
                key = fifoDeduplicationKey dlq1 (msg_MessageGroupID m2) (msg_MessageDeduplicationID m2)
            in dlq1\<lparr>q_Deduplication := fmupd key
                      \<lparr>dr_MessageID = msg_MessageID m2, dr_SequenceNumber = seq,
                       dr_ExpiresAt = t + fiveMinutes\<rparr> (q_Deduplication dlq1),
                    q_Messages := q_Messages dlq1 @ [m2]\<rparr>)
         else dlq\<lparr>q_Messages := q_Messages dlq @ [m1]\<rparr>)"

definition deliver :: "env \<Rightarrow> time \<Rightarrow> int \<Rightarrow> nat \<Rightarrow> Message \<Rightarrow> Message" where
  "deliver E t visibility ids m =
     m\<lparr>msg_ReceiveCount := msg_ReceiveCount m + 1, msg_ReceiptHandle := mint E ids,
       msg_VisibleAt := t + duration_s visibility\<rparr>"

text \<open>One turn of the loop over the queue's messages.\<close>

definition recvStep :: "env \<Rightarrow> time \<Rightarrow> int \<Rightarrow> int \<Rightarrow> bool \<Rightarrow> int \<Rightarrow> Message \<Rightarrow> recv \<Rightarrow> recv" where
  "recvStep E t maxN visibility fifo maxReceive m s =
     (if fifo \<and> msg_MessageGroupID m \<in> set (rv_blocked s) then
        s\<lparr>rv_remaining := rv_remaining s @ [m]\<rparr>
      else if t < msg_VisibleAt m then
        s\<lparr>rv_remaining := rv_remaining s @ [m],
          rv_blocked := (if fifo then msg_MessageGroupID m # rv_blocked s else rv_blocked s)\<rparr>
      else if rv_dlq s \<noteq> None \<and> maxReceive \<le> msg_ReceiveCount m then
        s\<lparr>rv_dlq := map_option (deadLetter t m) (rv_dlq s), rv_changed := True\<rparr>
      else if int (length (rv_result s)) < maxN then
        (let m' = deliver E t visibility (rv_ids s) m
         in s\<lparr>rv_result := rv_result s @ [m'], rv_remaining := rv_remaining s @ [m'],
              rv_changed := True, rv_ids := Suc (rv_ids s)\<rparr>)
      else
        s\<lparr>rv_remaining := rv_remaining s @ [m],
          rv_blocked := (if fifo then msg_MessageGroupID m # rv_blocked s else rv_blocked s)\<rparr>)"

text \<open>The redrive policy in force: present and parsable.\<close>

definition activeRedrive :: "env \<Rightarrow> Queue \<Rightarrow> redrivePolicy option" where
  "activeRedrive E q =
     (let raw = fmget (q_Attributes q) ''RedrivePolicy''
      in if raw = '''' then None
         else case parseRedrivePolicy E raw of Inl _ \<Rightarrow> None | Inr p \<Rightarrow> Some p)"

definition deadLetterName :: "env \<Rightarrow> Queue \<Rightarrow> string option" where
  "deadLetterName E q = map_option (\<lambda>p. queueNameFromARN (rp_DeadLetterTargetARN p)) (activeRedrive E q)"

definition recvLoop :: "env \<Rightarrow> time \<Rightarrow> int \<Rightarrow> int \<Rightarrow> Queue \<Rightarrow> Queue option \<Rightarrow> nat \<Rightarrow> recv" where
  "recvLoop E t maxN visibility q dlq ids =
     fold (recvStep E t maxN visibility (queueIsFIFO q)
             (case activeRedrive E q of Some p \<Rightarrow> rp_MaxReceiveCount p | None \<Rightarrow> 0))
       (q_Messages q)
       \<lparr>rv_result = [], rv_remaining = [], rv_blocked = [], rv_dlq = dlq, rv_changed = False, rv_ids = ids\<rparr>"

definition clampMax :: "int \<Rightarrow> int" where
  "clampMax n = (if n < 1 then 1 else if n > 10 then 10 else n)"

text \<open>
  \<open>ReceiveMessages\<close>. When the dead-letter queue is the queue itself the two Go pointers are the
  same: what the loop appends to it is overwritten by the final \<open>q.Messages = remaining\<close>.
\<close>

definition ReceiveMessages :: "env \<Rightarrow> string \<Rightarrow> int \<Rightarrow> int \<Rightarrow> world \<Rightarrow> Message list result" where
  "ReceiveMessages E name maxN0 visibility0 w =
     (case fmlookup (Queues (w_data w)) name of
        None \<Rightarrow> (Inl ErrQueueNotFound, w)
      | Some q \<Rightarrow>
         (let maxN = clampMax maxN0;
              visibility = (if visibility0 < 0
                            then intValue (fmget (q_Attributes q) ''VisibilityTimeout'') 30 else visibility0);
              (t, w1) = now E w;
              dlqName = deadLetterName E q;
              dlq = Option.bind dlqName (fmlookup (Queues (w_data w)));
              s = recvLoop E t maxN visibility q dlq (w_ids w1);
              w2 = w1\<lparr>w_ids := rv_ids s\<rparr>;
              w3 = (case (dlqName, rv_dlq s) of
                      (Some dn, Some dq) \<Rightarrow>
                        if dn = name then setQueue name (dq\<lparr>q_Messages := rv_remaining s\<rparr>) w2
                        else setQueue name (q\<lparr>q_Messages := rv_remaining s\<rparr>) (setQueue dn dq w2)
                    | _ \<Rightarrow> setQueue name (q\<lparr>q_Messages := rv_remaining s\<rparr>) w2)
          in if rv_changed s then saveThen E (rv_result s) w3 else (Inr (rv_result s), w3)))"

section \<open>Acknowledging\<close>

text \<open>The loops of \<open>DeleteMessage\<close> and \<open>ChangeVisibility\<close> act on the first match.\<close>

fun removeFirst :: "('a \<Rightarrow> bool) \<Rightarrow> 'a list \<Rightarrow> 'a list option" where
  "removeFirst P [] = None"
| "removeFirst P (x # xs) = (if P x then Some xs else map_option (Cons x) (removeFirst P xs))"

fun updateFirst :: "('a \<Rightarrow> bool) \<Rightarrow> ('a \<Rightarrow> 'a) \<Rightarrow> 'a list \<Rightarrow> 'a list option" where
  "updateFirst P f [] = None"
| "updateFirst P f (x # xs) = (if P x then Some (f x # xs) else map_option (Cons x) (updateFirst P f xs))"

definition DeleteMessage :: "env \<Rightarrow> string \<Rightarrow> string \<Rightarrow> world \<Rightarrow> unit result" where
  "DeleteMessage E name receipt w =
     (case fmlookup (Queues (w_data w)) name of
        None \<Rightarrow> (Inl ErrQueueNotFound, w)
      | Some q \<Rightarrow>
         (case removeFirst (\<lambda>m. msg_ReceiptHandle m = receipt) (q_Messages q) of
            None \<Rightarrow> (Inl ErrReceiptInvalid, w)
          | Some ms \<Rightarrow> saveThen E () (setQueue name (q\<lparr>q_Messages := ms\<rparr>) w)))"

definition ChangeVisibility :: "env \<Rightarrow> string \<Rightarrow> string \<Rightarrow> int \<Rightarrow> world \<Rightarrow> unit result" where
  "ChangeVisibility E name receipt seconds w =
     (case fmlookup (Queues (w_data w)) name of
        None \<Rightarrow> (Inl ErrQueueNotFound, w)
      | Some q \<Rightarrow>
         (let (t, w1) = now E w
          in case updateFirst (\<lambda>m. msg_ReceiptHandle m = receipt)
                     (\<lambda>m. m\<lparr>msg_VisibleAt := t + duration_s seconds\<rparr>) (q_Messages q) of
               None \<Rightarrow> (Inl ErrReceiptInvalid, w)
             | Some ms \<Rightarrow> saveThen E () (setQueue name (q\<lparr>q_Messages := ms\<rparr>) w1)))"

section \<open>Reading attributes\<close>

definition delayedMsg :: "time \<Rightarrow> Message \<Rightarrow> bool" where
  "delayedMsg t m \<longleftrightarrow> msg_ReceiveCount m = 0 \<and> t < msg_VisibleAt m"

definition invisibleMsg :: "time \<Rightarrow> Message \<Rightarrow> bool" where
  "invisibleMsg t m \<longleftrightarrow> \<not> delayedMsg t m \<and> t < msg_VisibleAt m"

definition visibleMsg :: "time \<Rightarrow> Message \<Rightarrow> bool" where
  "visibleMsg t m \<longleftrightarrow> \<not> delayedMsg t m \<and> \<not> t < msg_VisibleAt m"

definition countMsgs :: "(Message \<Rightarrow> bool) \<Rightarrow> Message list \<Rightarrow> nat" where
  "countMsgs P ms = length (filter P ms)"

definition QueueAttributes :: "env \<Rightarrow> string \<Rightarrow> world \<Rightarrow> strmap result" where
  "QueueAttributes E name w =
     (case fmlookup (Queues (w_data w)) name of
        None \<Rightarrow> (Inl ErrQueueNotFound, w)
      | Some q \<Rightarrow>
         (let (t, w1) = now E w;
              created = showInt (q_CreatedAt q div 1000000000)
          in (Inr (fmupd ''ApproximateNumberOfMessagesNotVisible''
                     (showNat (countMsgs (invisibleMsg t) (q_Messages q)))
                  (fmupd ''ApproximateNumberOfMessagesDelayed''
                     (showNat (countMsgs (delayedMsg t) (q_Messages q)))
                  (fmupd ''ApproximateNumberOfMessages''
                     (showNat (countMsgs (visibleMsg t) (q_Messages q)))
                  (fmupd ''LastModifiedTimestamp'' created
                  (fmupd ''CreatedTimestamp'' created
                  (fmupd ''QueueArn'' (''arn:aws:sqs:us-east-1:'' @ defaultAccountID @ '':'' @ name)
                     (q_Attributes q))))))), w1)))"

end
