(* ===== verification/S3.thy ===== *)
theory S3
  imports Object_Files SQS
begin

text \<open>
  The object store (\<^verbatim>\<open>internal/state/store.go\<close>, lines 482 to 982): buckets,
  objects, listings, multipart uploads and the notifications that put a message into a queue for
  every object created.
\<close>

abbreviation setBucket :: "string \<Rightarrow> Bucket \<Rightarrow> world \<Rightarrow> world" where
  "setBucket name b w \<equiv> mutate (\<lambda>d. d\<lparr>Buckets := fmupd name b (Buckets d)\<rparr>) w"

section \<open>Buckets\<close>

definition CreateBucket :: "env \<Rightarrow> string \<Rightarrow> world \<Rightarrow> unit result" where
  "CreateBucket E name w =
     (case fmlookup (Buckets (w_data w)) name of
        Some _ \<Rightarrow> (Inr (), w)
      | None \<Rightarrow>
         (let (t, w1) = now E w
          in saveThen E () (setBucket name
               \<lparr>bk_Name = name, bk_CreatedAt = t, bk_Objects = fmempty, bk_Notifications = []\<rparr> w1)))"

definition DeleteBucket :: "env \<Rightarrow> string \<Rightarrow> world \<Rightarrow> unit result" where
  "DeleteBucket E name w =
     (case fmlookup (Buckets (w_data w)) name of
        None \<Rightarrow> (Inl ErrBucketNotFound, w)
      | Some b \<Rightarrow>
         if \<not> fmnull (bk_Objects b) then (Inl ErrBucketNotEmpty, w)
         else if list_ex (\<lambda>u. mu_Bucket u = name) (fmvalues (MultipartUploads (w_data w))) then
           (Inl ErrBucketNotEmpty, w)
         else saveThen E () (mutate (\<lambda>d. d\<lparr>Buckets := fmdrop name (Buckets d)\<rparr>) w))"

definition HasBucket :: "string \<Rightarrow> world \<Rightarrow> bool" where
  "HasBucket name w = (fmlookup (Buckets (w_data w)) name \<noteq> None)"

definition ListBuckets :: "world \<Rightarrow> Bucket list" where
  "ListBuckets w = sort_key bk_Name (fmvalues (Buckets (w_data w)))"

section \<open>Notifications\<close>

definition matchesObjectCreated :: "string list \<Rightarrow> string \<Rightarrow> bool" where
  "matchesObjectCreated events eventName =
     list_ex (\<lambda>ev. ev = ''s3:ObjectCreated:*'' \<or> ev = ''s3:'' @ eventName) events"

text \<open>The event document; \<open>json.Marshal\<close> of a map orders its members by name.\<close>

definition objectEvent :: "string \<Rightarrow> string \<Rightarrow> string \<Rightarrow> string \<Rightarrow> string \<Rightarrow> Object \<Rightarrow> json" where
  "objectEvent timeText eventName requestID configID bucketName x =
     JObj [(''Records'', JArr [JObj
       [(''awsRegion'', JStr ''us-east-1''),
        (''eventName'', JStr eventName),
        (''eventSource'', JStr ''aws:s3''),
        (''eventTime'', JStr timeText),
        (''eventVersion'', JStr ''2.1''),
        (''requestParameters'', JObj [(''sourceIPAddress'', JStr ''127.0.0.1'')]),
        (''responseElements'', JObj [(''x-amz-request-id'', JStr requestID)]),
        (''s3'', JObj
          [(''bucket'', JObj [(''arn'', JStr (''arn:aws:s3:::'' @ bucketName)), (''name'', JStr bucketName)]),
           (''configurationId'', JStr configID),
           (''object'', JObj [(''eTag'', JStr (obj_ETag x)), (''key'', JStr (obj_Key x)),
                              (''size'', JNum (showInt (obj_Size x)))]),
           (''s3SchemaVersion'', JStr ''1.0'')]),
        (''userIdentity'', JObj [(''principalId'', JStr defaultAccountID)])]])]"

definition notificationQueue :: "Notification \<Rightarrow> string" where
  "notificationQueue n = last (splitOn (CHR '':'') (nt_QueueARN n))"

definition notificationApplies :: "Object \<Rightarrow> string \<Rightarrow> Notification \<Rightarrow> bool" where
  "notificationApplies x eventName n \<longleftrightarrow>
     matchesObjectCreated (nt_Events n) eventName \<and> hasPrefix (obj_Key x) (nt_Prefix n) \<and>
     hasSuffix (obj_Key x) (nt_Suffix n)"

definition notifyOne :: "env \<Rightarrow> string \<Rightarrow> Object \<Rightarrow> string \<Rightarrow> Notification \<Rightarrow> world \<Rightarrow> world" where
  "notifyOne E bucketName x eventName n w =
     (if \<not> notificationApplies x eventName n then w
      else
        (let qn = notificationQueue n
         in case fmlookup (Queues (w_data w)) qn of
              None \<Rightarrow> w
            | Some q \<Rightarrow>
               (let (t, w1) = now E w;
                    (rid, w2) = newID E w1;
                    body = e_jsonText E (objectEvent (e_timeText E t) eventName rid (nt_ID n) bucketName x);
                    (_, q', w3) = enqueueLocked E q body fmempty 0 w2
                in setQueue qn q' w3)))"

text \<open>\<open>enqueueObjectEventLocked\<close> always returns a nil error.\<close>

definition enqueueObjectEventLocked :: "env \<Rightarrow> Bucket \<Rightarrow> Object \<Rightarrow> string \<Rightarrow> world \<Rightarrow> error option \<times> world" where
  "enqueueObjectEventLocked E b x eventName w =
     (None, fold (notifyOne E (bk_Name b) x eventName) (bk_Notifications b) w)"

definition SetNotifications :: "env \<Rightarrow> string \<Rightarrow> Notification list \<Rightarrow> world \<Rightarrow> unit result" where
  "SetNotifications E bucket ns w =
     (case fmlookup (Buckets (w_data w)) bucket of
        None \<Rightarrow> (Inl ErrBucketNotFound, w)
      | Some b \<Rightarrow>
         if list_ex (\<lambda>n. fmlookup (Queues (w_data w)) (notificationQueue n) = None) ns
         then (Inl ErrQueueNotFound, w)
         else saveThen E () (setBucket bucket (b\<lparr>bk_Notifications := ns\<rparr>) w))"

definition Notifications :: "string \<Rightarrow> world \<Rightarrow> Notification list result" where
  "Notifications bucket w =
     (case fmlookup (Buckets (w_data w)) bucket of
        None \<Rightarrow> (Inl ErrBucketNotFound, w) | Some b \<Rightarrow> (Inr (bk_Notifications b), w))"

section \<open>Objects\<close>

text \<open>
  The clean-up of a body file that was published but not committed: it is removed unless the
  committed state refers to the same file.
\<close>

definition discardNew :: "env \<Rightarrow> string option \<Rightarrow> string \<Rightarrow> world \<Rightarrow> world" where
  "discardNew E previous file w = (if previous = Some file then w else removeFile E file w)"

definition dropPrevious :: "env \<Rightarrow> string option \<Rightarrow> string \<Rightarrow> world \<Rightarrow> world" where
  "dropPrevious E previous file w =
     (case previous of
        Some p \<Rightarrow> if p \<noteq> file then removeFile E p w else w
      | None \<Rightarrow> w)"

definition dropPreviousSync :: "env \<Rightarrow> string option \<Rightarrow> string \<Rightarrow> world \<Rightarrow> world" where
  "dropPreviousSync E previous file w =
     (case previous of
        Some p \<Rightarrow> if p \<noteq> file then sysDone E [OpenDir, SyncDir] (removeFile E p w) else w
      | None \<Rightarrow> w)"

text \<open>The common end of \<open>PutObject\<close>: enqueue the event, save, and clean up.\<close>

definition PutObject :: "env \<Rightarrow> string \<Rightarrow> string \<Rightarrow> bytes \<Rightarrow> string \<Rightarrow> strmap \<Rightarrow> world \<Rightarrow> Object result" where
  "PutObject E bucket key body contentType metadata w =
     (case fmlookup (Buckets (w_data w)) bucket of
        None \<Rightarrow> (Inl ErrBucketNotFound, w)
      | Some b \<Rightarrow>
         (let previous = map_option obj_File (fmlookup (bk_Objects b) key);
              contentHash = e_sha256 E body;
              file = generationObjectFile E ''s3'' bucket key contentHash
          in case publishObject E ''.object-'' file body w of
               (PubFailed, w1) \<Rightarrow> (Inl ErrOS, w1)
             | (PubUnsynced, w1) \<Rightarrow> (Inl ErrOS, discardNew E previous file w1)
             | (PubDone, w1) \<Rightarrow>
                (let (t, w2) = now E w1;
                     x = \<lparr>obj_Key = key, obj_ETag = hexEncode (e_md5 E body),
                          obj_SHA256 = hexEncode contentHash, obj_Size = int (length body),
                          obj_LastModified = t, obj_ContentType = contentType,
                          obj_Metadata = metadata, obj_File = file\<rparr>;
                     b' = b\<lparr>bk_Objects := fmupd key x (bk_Objects b)\<rparr>;
                     w3 = setBucket bucket b' w2
                 in case enqueueObjectEventLocked E b' x ''ObjectCreated:Put'' w3 of
                      (Some e, w4) \<Rightarrow> (Inl e, discardNew E previous file (snd (rollbackSaveLocked e w4)))
                    | (None, w4) \<Rightarrow>
                       (case saveLocked E w4 of
                          (Some e, w5) \<Rightarrow> (Inl e, discardNew E previous file w5)
                        | (None, w5) \<Rightarrow> (Inr x, dropPreviousSync E previous file w5)))))"

definition GetObject :: "env \<Rightarrow> string \<Rightarrow> string \<Rightarrow> world \<Rightarrow> (Object \<times> bytes) result" where
  "GetObject E bucket key w =
     (case fmlookup (Buckets (w_data w)) bucket of
        None \<Rightarrow> (Inl ErrBucketNotFound, w)
      | Some b \<Rightarrow>
         (case fmlookup (bk_Objects b) key of
            None \<Rightarrow> (Inl ErrObjectNotFound, w)
          | Some x \<Rightarrow>
             (case readObjectBody E (obj_File x) (obj_Size x) (obj_SHA256 x) w of
                (Inl e, w1) \<Rightarrow> (Inl e, w1)
              | (Inr body, w1) \<Rightarrow> (Inr (x, body), w1))))"

definition DeleteObject :: "env \<Rightarrow> string \<Rightarrow> string \<Rightarrow> world \<Rightarrow> unit result" where
  "DeleteObject E bucket key w =
     (case fmlookup (Buckets (w_data w)) bucket of
        None \<Rightarrow> (Inl ErrBucketNotFound, w)
      | Some b \<Rightarrow>
         (case fmlookup (bk_Objects b) key of
            None \<Rightarrow> (Inr (), w)
          | Some x \<Rightarrow>
             (case saveLocked E (setBucket bucket (b\<lparr>bk_Objects := fmdrop key (bk_Objects b)\<rparr>) w) of
                (Some e, w1) \<Rightarrow> (Inl e, w1)
              | (None, w1) \<Rightarrow> (Inr (), removeFile E (obj_File x) w1))))"

text \<open>A negative limit is a slice bound out of range.\<close>

definition ListObjects :: "string \<Rightarrow> string \<Rightarrow> string \<Rightarrow> int \<Rightarrow> world \<Rightarrow> (Object list \<times> bool) result" where
  "ListObjects bucket pre after limit w =
     (case fmlookup (Buckets (w_data w)) bucket of
        None \<Rightarrow> (Inl ErrBucketNotFound, w)
      | Some b \<Rightarrow>
         (let keys = sort (filter (\<lambda>k. hasPrefix k pre \<and> after < k) (fmkeys (bk_Objects b)));
              truncated = (limit < int (length keys))
          in if truncated \<and> limit < 0 then (Inl GoPanic, w)
             else (let ks = (if truncated then take (nat limit) keys else keys)
                   in (Inr (map (\<lambda>k. the (fmlookup (bk_Objects b) k)) ks, truncated), w))))"

section \<open>Multipart uploads\<close>

abbreviation setUpload :: "string \<Rightarrow> MultipartUpload \<Rightarrow> world \<Rightarrow> world" where
  "setUpload i u w \<equiv> mutate (\<lambda>d. d\<lparr>MultipartUploads := fmupd i u (MultipartUploads d)\<rparr>) w"

definition CreateMultipartUpload ::
  "env \<Rightarrow> string \<Rightarrow> string \<Rightarrow> string \<Rightarrow> strmap \<Rightarrow> world \<Rightarrow> MultipartUpload result" where
  "CreateMultipartUpload E bucket key contentType metadata w =
     (case fmlookup (Buckets (w_data w)) bucket of
        None \<Rightarrow> (Inl ErrBucketNotFound, w)
      | Some _ \<Rightarrow>
         (let (i, w1) = newID E w;
              (t, w2) = now E w1;
              u = \<lparr>mu_ID = i, mu_Bucket = bucket, mu_Key = key, mu_CreatedAt = t,
                   mu_ContentType = contentType, mu_Metadata = metadata, mu_Parts = fmempty\<rparr>
          in saveThen E u (setUpload i u w2)))"

text \<open>The lookup every later multipart operation makes.\<close>

definition findUpload :: "string \<Rightarrow> string \<Rightarrow> string \<Rightarrow> snapshot \<Rightarrow> MultipartUpload option" where
  "findUpload bucket key uploadID d =
     (case fmlookup (MultipartUploads d) uploadID of
        None \<Rightarrow> None
      | Some u \<Rightarrow> if mu_Bucket u \<noteq> bucket \<or> mu_Key u \<noteq> key then None else Some u)"

definition UploadMultipartPart ::
  "env \<Rightarrow> string \<Rightarrow> string \<Rightarrow> string \<Rightarrow> int \<Rightarrow> bytes \<Rightarrow> world \<Rightarrow> MultipartPart result" where
  "UploadMultipartPart E bucket key uploadID partNumber body w =
     (if partNumber < 1 \<or> partNumber > 10000 then (Inl ErrInvalidPart, w)
      else case findUpload bucket key uploadID (w_data w) of
        None \<Rightarrow> (Inl ErrMultipartUploadNotFound, w)
      | Some u \<Rightarrow>
         (let previous = map_option mp_File (fmlookup (mu_Parts u) partNumber);
              contentHash = e_sha256 E body;
              file = generationObjectFile E ''multipart'' uploadID (showInt partNumber) contentHash
          in case publishObject E ''.multipart-'' file body w of
               (PubFailed, w1) \<Rightarrow> (Inl ErrOS, w1)
             | (PubUnsynced, w1) \<Rightarrow> (Inl ErrOS, discardNew E previous file w1)
             | (PubDone, w1) \<Rightarrow>
                (let (t, w2) = now E w1;
                     p = \<lparr>mp_PartNumber = partNumber, mp_ETag = hexEncode (e_md5 E body),
                          mp_SHA256 = hexEncode contentHash, mp_Size = int (length body),
                          mp_LastModified = t, mp_File = file\<rparr>
                 in case saveLocked E (setUpload uploadID (u\<lparr>mu_Parts := fmupd partNumber p (mu_Parts u)\<rparr>) w2) of
                      (Some e, w3) \<Rightarrow> (Inl e, discardNew E previous file w3)
                    | (None, w3) \<Rightarrow> (Inr p, dropPreviousSync E previous file w3))))"

definition ListMultipartParts ::
  "string \<Rightarrow> string \<Rightarrow> string \<Rightarrow> world \<Rightarrow> (MultipartUpload \<times> MultipartPart list) result" where
  "ListMultipartParts bucket key uploadID w =
     (case findUpload bucket key uploadID (w_data w) of
        None \<Rightarrow> (Inl ErrMultipartUploadNotFound, w)
      | Some u \<Rightarrow> (Inr (u, sort_key mp_PartNumber (fmvalues (mu_Parts u))), w))"

definition ListMultipartUploads :: "string \<Rightarrow> string \<Rightarrow> world \<Rightarrow> MultipartUpload list result" where
  "ListMultipartUploads bucket pre w =
     (case fmlookup (Buckets (w_data w)) bucket of
        None \<Rightarrow> (Inl ErrBucketNotFound, w)
      | Some _ \<Rightarrow>
         (Inr (sort_key mu_Key (sort_key mu_ID
            (filter (\<lambda>u. mu_Bucket u = bucket \<and> hasPrefix (mu_Key u) pre)
              (fmvalues (MultipartUploads (w_data w)))))), w))"

definition minPartSize :: int where
  "minPartSize = 5 * 1024 * 1024"

text \<open>The checks on the parts a client names, in the order of the request.\<close>

fun selectParts :: "(int, MultipartPart) fmap \<Rightarrow> int \<Rightarrow> CompletedMultipartPart list \<Rightarrow> error + MultipartPart list" where
  "selectParts parts prev [] = Inr []"
| "selectParts parts prev (r # rs) =
     (if cp_PartNumber r \<le> prev then Inl ErrInvalidPartOrder
      else case fmlookup parts (cp_PartNumber r) of
        None \<Rightarrow> Inl ErrInvalidPart
      | Some p \<Rightarrow>
         if \<not> equalFold (trimChar (CHR 0x22) (cp_ETag r)) (mp_ETag p) then Inl ErrInvalidPart
         else if rs \<noteq> [] \<and> mp_Size p < minPartSize then Inl ErrEntityTooSmall
         else (case selectParts parts (cp_PartNumber r) rs of
                 Inl e \<Rightarrow> Inl e | Inr ps \<Rightarrow> Inr (p # ps)))"

text \<open>
  Copying the parts into the temporary file \<open>t\<close>: the content so far, and the digests the
  combined ETag is made of.
\<close>

fun copyParts :: "env \<Rightarrow> string \<Rightarrow> MultipartPart list \<Rightarrow> bytes \<Rightarrow> bytes \<Rightarrow> world \<Rightarrow> (bytes \<times> bytes) result" where
  "copyParts E t [] content digests w = (Inr (content, digests), w)"
| "copyParts E t (p # ps) content digests w =
     (case openObjectFileForRead E (mp_File p) (mp_Size p) w of
        (Inl e, w1) \<Rightarrow> (Inl e, w1)
      | (Inr b, w1) \<Rightarrow>
         (case runSys E [ReadCopy] w1 of
            (False, w2) \<Rightarrow> (Inl ErrOS, w2)
          | (True, w2) \<Rightarrow>
             (case writeTemp E t (content @ b) w2 of
                (False, w3) \<Rightarrow> (Inl ErrOS, w3)
              | (True, w3) \<Rightarrow>
                 (case runSys E [Close] w3 of
                    (False, w4) \<Rightarrow> (Inl ErrOS, w4)
                  | (True, w4) \<Rightarrow>
                     if int (length b) \<noteq> mp_Size p then (Inl (ErrText ''multipart part size changed''), w4)
                     else (case (if w_integrityMode w4 = IntegrityModeStrict
                                 then requireMatchingSHA256 (mp_SHA256 p) (hexEncode (e_sha256 E b))
                                 else None) of
                             Some e \<Rightarrow> (Inl e, w4)
                           | None \<Rightarrow>
                              (case hexDecode (mp_ETag p) of
                                 None \<Rightarrow> (Inl (ErrText ''invalid ETag''), w4)
                               | Some dg \<Rightarrow> copyParts E t ps (content @ b) (digests @ dg) w4))))))"

text \<open>The assembled body under its final name, or the error with the temporary file removed.\<close>

definition assembleParts ::
  "env \<Rightarrow> string \<Rightarrow> string \<Rightarrow> MultipartPart list \<Rightarrow> string option \<Rightarrow> world \<Rightarrow> (bytes \<times> bytes) result" where
  "assembleParts E bucket key parts previous w =
     (case createTemp E ''.multipart-complete-'' w of
        (None, w1) \<Rightarrow> (Inl ErrOS, w1)
      | (Some t, w1) \<Rightarrow>
         (case copyParts E t parts [] [] w1 of
            (Inl e, w2) \<Rightarrow> (Inl e, removeFile E t w2)
          | (Inr (content, digests), w2) \<Rightarrow>
             (let file = generationObjectFile E ''s3'' bucket key (e_sha256 E content)
              in case renameTemp E t file content w2 of
                   (False, w3) \<Rightarrow> (Inl ErrOS, removeFile E t w3)
                 | (True, w3) \<Rightarrow>
                    (case runSys E [OpenDir, SyncDir] w3 of
                       (False, w4) \<Rightarrow> (Inl ErrOS, discardNew E previous file w4)
                     | (True, w4) \<Rightarrow> (Inr (content, digests), w4)))))"

definition CompleteMultipartUpload ::
  "env \<Rightarrow> string \<Rightarrow> string \<Rightarrow> string \<Rightarrow> CompletedMultipartPart list \<Rightarrow> world \<Rightarrow> Object result" where
  "CompleteMultipartUpload E bucket key uploadID completed w =
     (case findUpload bucket key uploadID (w_data w) of
        None \<Rightarrow> (Inl ErrMultipartUploadNotFound, w)
      | Some u \<Rightarrow>
         if completed = [] then (Inl ErrInvalidPart, w)
         else (case fmlookup (Buckets (w_data w)) bucket of
           None \<Rightarrow> (Inl GoPanic, w)
         | Some b \<Rightarrow>
            (let previous = map_option obj_File (fmlookup (bk_Objects b) key)
             in case selectParts (mu_Parts u) 0 completed of
                  Inl e \<Rightarrow> (Inl e, w)
                | Inr parts \<Rightarrow>
                   (case assembleParts E bucket key parts previous w of
                      (Inl e, w1) \<Rightarrow> (Inl e, w1)
                    | (Inr (content, digests), w1) \<Rightarrow>
                       (let (t, w2) = now E w1;
                            contentDigest = e_sha256 E content;
                            file = generationObjectFile E ''s3'' bucket key contentDigest;
                            x = \<lparr>obj_Key = key,
                                 obj_ETag = hexEncode (e_md5 E digests) @ ''-'' @ showNat (length parts),
                                 obj_SHA256 = hexEncode contentDigest, obj_Size = int (length content),
                                 obj_LastModified = t, obj_ContentType = mu_ContentType u,
                                 obj_Metadata = mu_Metadata u, obj_File = file\<rparr>;
                            b' = b\<lparr>bk_Objects := fmupd key x (bk_Objects b)\<rparr>;
                            w3 = mutate (\<lambda>d. d\<lparr>Buckets := fmupd bucket b' (Buckets d),
                                           MultipartUploads := fmdrop uploadID (MultipartUploads d)\<rparr>) w2
                        in case enqueueObjectEventLocked E b' x ''ObjectCreated:CompleteMultipartUpload'' w3 of
                             (Some e, w4) \<Rightarrow>
                               (Inl e, discardNew E previous file (snd (rollbackSaveLocked e w4)))
                           | (None, w4) \<Rightarrow>
                              (case saveLocked E w4 of
                                 (Some e, w5) \<Rightarrow> (Inl e, discardNew E previous file w5)
                               | (None, w5) \<Rightarrow>
                                  (Inr x, sysDone E [OpenDir, SyncDir]
                                     (dropPrevious E previous file
                                       (removeFiles E (map mp_File (fmvalues (mu_Parts u))) w5)))))))))"

definition AbortMultipartUpload :: "env \<Rightarrow> string \<Rightarrow> string \<Rightarrow> string \<Rightarrow> world \<Rightarrow> unit result" where
  "AbortMultipartUpload E bucket key uploadID w =
     (case findUpload bucket key uploadID (w_data w) of
        None \<Rightarrow> (Inl ErrMultipartUploadNotFound, w)
      | Some u \<Rightarrow>
         (case saveLocked E (mutate (\<lambda>d. d\<lparr>MultipartUploads := fmdrop uploadID (MultipartUploads d)\<rparr>) w) of
            (Some e, w1) \<Rightarrow> (Inl e, w1)
          | (None, w1) \<Rightarrow> (Inr (), removeFiles E (map mp_File (fmvalues (mu_Parts u))) w1)))"

end
