(* ===== verification/GCS.thy ===== *)
theory GCS
  imports Object_Files S3 Base64
begin

text \<open>
  Cloud Storage (\<^verbatim>\<open>internal/state/gcp.go\<close>, lines 105 to 314): buckets, objects
  with generations, listings, metadata updates; and the page tokens at the end of that file.
\<close>

abbreviation setGCSBucket :: "string \<Rightarrow> GCSBucket \<Rightarrow> world \<Rightarrow> world" where
  "setGCSBucket name b w \<equiv> mutate (\<lambda>d. d\<lparr>GCSBuckets := fmupd name b (GCSBuckets d)\<rparr>) w"

definition CreateGCSBucket :: "env \<Rightarrow> string \<Rightarrow> string \<Rightarrow> string \<Rightarrow> string \<Rightarrow> world \<Rightarrow> GCSBucket result" where
  "CreateGCSBucket E project name location storageClass w =
     (case fmlookup (GCSBuckets (w_data w)) name of
        Some b \<Rightarrow> (Inr b, w)
      | None \<Rightarrow>
         (let location' = (if location = '''' then ''US'' else location);
              storageClass' = (if storageClass = '''' then ''STANDARD'' else storageClass);
              (t, w1) = now E w;
              b = \<lparr>gb_Name = name, gb_Project = project, gb_Location = toUpper location',
                   gb_StorageClass = storageClass', gb_CreatedAt = t, gb_Objects = fmempty\<rparr>
          in saveThen E b (setGCSBucket name b w1)))"

definition GCSBucket_get :: "string \<Rightarrow> world \<Rightarrow> GCSBucket result" where
  "GCSBucket_get name w =
     (case fmlookup (GCSBuckets (w_data w)) name of
        None \<Rightarrow> (Inl ErrGCSBucketNotFound, w) | Some b \<Rightarrow> (Inr b, w))"

definition ListGCSBuckets :: "string \<Rightarrow> world \<Rightarrow> GCSBucket list" where
  "ListGCSBuckets project w =
     sort_key gb_Name (filter (\<lambda>b. project = '''' \<or> gb_Project b = project) (fmvalues (GCSBuckets (w_data w))))"

definition DeleteGCSBucket :: "env \<Rightarrow> string \<Rightarrow> world \<Rightarrow> unit result" where
  "DeleteGCSBucket E name w =
     (case fmlookup (GCSBuckets (w_data w)) name of
        None \<Rightarrow> (Inl ErrGCSBucketNotFound, w)
      | Some b \<Rightarrow>
         if \<not> fmnull (gb_Objects b) then (Inl ErrGCSBucketNotEmpty, w)
         else saveThen E () (mutate (\<lambda>d. d\<lparr>GCSBuckets := fmdrop name (GCSBuckets d)\<rparr>) w))"

text \<open>
  The generation of a new object version: the clock reading, or one more than the previous
  generation when the clock has not moved past it.
\<close>

definition nextGeneration :: "time \<Rightarrow> GCSObject option \<Rightarrow> int" where
  "nextGeneration t previous =
     (case previous of
        None \<Rightarrow> t
      | Some p \<Rightarrow> if t \<le> go_Generation p then wrap64 (go_Generation p + 1) else t)"

definition PutGCSObject :: "env \<Rightarrow> string \<Rightarrow> string \<Rightarrow> bytes \<Rightarrow> string \<Rightarrow> strmap \<Rightarrow> world \<Rightarrow> GCSObject result" where
  "PutGCSObject E bucket name body contentType metadata w =
     (case fmlookup (GCSBuckets (w_data w)) bucket of
        None \<Rightarrow> (Inl ErrGCSBucketNotFound, w)
      | Some b \<Rightarrow>
         (let prevObject = fmlookup (gb_Objects b) name;
              previous = map_option go_File prevObject;
              contentHash = e_sha256 E body;
              file = generationObjectFile E ''gcs'' bucket name contentHash
          in case publishObject E ''.gcs-object-'' file body w of
               (PubFailed, w1) \<Rightarrow> (Inl ErrOS, w1)
             | (PubUnsynced, w1) \<Rightarrow> (Inl ErrOS, discardNew E previous file w1)
             | (PubDone, w1) \<Rightarrow>
                (let (t, w2) = now E w1;
                     y = \<lparr>go_Name = name, go_Bucket = bucket, go_Size = int (length body),
                          go_SHA256 = hexEncode contentHash, go_ContentType = contentType,
                          go_Metadata = metadata, go_ETag = StdEncoding (e_md5 E body),
                          go_MD5Hash = StdEncoding (e_md5 E body), go_CRC32C = StdEncoding (e_crc32c E body),
                          go_CreatedAt = (case prevObject of Some p \<Rightarrow> go_CreatedAt p | None \<Rightarrow> t),
                          go_UpdatedAt = t, go_Generation = nextGeneration t prevObject,
                          go_Metageneration = 1, go_File = file\<rparr>
                 in case saveLocked E (setGCSBucket bucket (b\<lparr>gb_Objects := fmupd name y (gb_Objects b)\<rparr>) w2) of
                      (Some e, w3) \<Rightarrow> (Inl e, discardNew E previous file w3)
                    | (None, w3) \<Rightarrow> (Inr y, dropPreviousSync E previous file w3))))"

definition GCSObject_get :: "env \<Rightarrow> string \<Rightarrow> string \<Rightarrow> world \<Rightarrow> (GCSObject \<times> bytes) result" where
  "GCSObject_get E bucket name w =
     (case fmlookup (GCSBuckets (w_data w)) bucket of
        None \<Rightarrow> (Inl ErrGCSBucketNotFound, w)
      | Some b \<Rightarrow>
         (case fmlookup (gb_Objects b) name of
            None \<Rightarrow> (Inl ErrGCSObjectNotFound, w)
          | Some y \<Rightarrow>
             (case readObjectBody E (go_File y) (go_Size y) (go_SHA256 y) w of
                (Inl e, w1) \<Rightarrow> (Inl e, w1)
              | (Inr body, w1) \<Rightarrow> (Inr (y, body), w1))))"

definition ListGCSObjects :: "string \<Rightarrow> string \<Rightarrow> string \<Rightarrow> int \<Rightarrow> world \<Rightarrow> (GCSObject list \<times> bool) result" where
  "ListGCSObjects bucket pre after limit w =
     (case fmlookup (GCSBuckets (w_data w)) bucket of
        None \<Rightarrow> (Inl ErrGCSBucketNotFound, w)
      | Some b \<Rightarrow>
         (let keys = sort (filter (\<lambda>k. hasPrefix k pre \<and> after < k) (fmkeys (gb_Objects b)));
              truncated = (limit > 0 \<and> limit < int (length keys));
              ks = (if truncated then take (nat limit) keys else keys)
          in (Inr (map (\<lambda>k. the (fmlookup (gb_Objects b) k)) ks, truncated), w)))"

definition PatchGCSObject :: "env \<Rightarrow> string \<Rightarrow> string \<Rightarrow> string \<Rightarrow> strmap option \<Rightarrow> world \<Rightarrow> GCSObject result" where
  "PatchGCSObject E bucket name contentType metadata w =
     (case fmlookup (GCSBuckets (w_data w)) bucket of
        None \<Rightarrow> (Inl ErrGCSBucketNotFound, w)
      | Some b \<Rightarrow>
         (case fmlookup (gb_Objects b) name of
            None \<Rightarrow> (Inl ErrGCSObjectNotFound, w)
          | Some y \<Rightarrow>
             (let (t, w1) = now E w;
                  y' = y\<lparr>go_ContentType := (if contentType \<noteq> '''' then contentType else go_ContentType y),
                         go_Metadata := (case metadata of Some m \<Rightarrow> m | None \<Rightarrow> go_Metadata y),
                         go_Metageneration := wrap64 (go_Metageneration y + 1),
                         go_UpdatedAt := t\<rparr>
              in saveThen E y' (setGCSBucket bucket (b\<lparr>gb_Objects := fmupd name y' (gb_Objects b)\<rparr>) w1))))"

definition DeleteGCSObject :: "env \<Rightarrow> string \<Rightarrow> string \<Rightarrow> world \<Rightarrow> unit result" where
  "DeleteGCSObject E bucket name w =
     (case fmlookup (GCSBuckets (w_data w)) bucket of
        None \<Rightarrow> (Inl ErrGCSBucketNotFound, w)
      | Some b \<Rightarrow>
         (case fmlookup (gb_Objects b) name of
            None \<Rightarrow> (Inl ErrGCSObjectNotFound, w)
          | Some y \<Rightarrow>
             (case saveLocked E (setGCSBucket bucket (b\<lparr>gb_Objects := fmdrop name (gb_Objects b)\<rparr>) w) of
                (Some e, w1) \<Rightarrow> (Inl e, w1)
              | (None, w1) \<Rightarrow> (Inr (), removeFile E (go_File y) w1))))"

section \<open>Page tokens\<close>

definition EncodePageToken :: "string \<Rightarrow> string" where
  "EncodePageToken v = b64Encode True v"

definition DecodePageToken :: "string \<Rightarrow> string" where
  "DecodePageToken v = (case RawURLDecode v of None \<Rightarrow> '''' | Some raw \<Rightarrow> raw)"

end
