(* ===== verification/PubSub.thy ===== *)
theory PubSub
  imports World
begin

text \<open>
  Pub/Sub (\<^verbatim>\<open>internal/state/gcp.go\<close>, lines 79 to 103 and 316 to 596): topics,
  subscriptions, publishing to every subscription of a topic, pulling with delivery attempts and
  dead-letter forwarding, acknowledging and changing deadlines.
\<close>

abbreviation setTopic :: "string \<Rightarrow> PubSubTopic \<Rightarrow> world \<Rightarrow> world" where
  "setTopic name t w \<equiv> mutate (\<lambda>d. d\<lparr>PubSubTopics := fmupd name t (PubSubTopics d)\<rparr>) w"

abbreviation setSub :: "string \<Rightarrow> PubSubSubscription \<Rightarrow> world \<Rightarrow> world" where
  "setSub name s w \<equiv> mutate (\<lambda>d. d\<lparr>PubSubSubscriptions := fmupd name s (PubSubSubscriptions d)\<rparr>) w"

definition deletedTopic :: string where
  "deletedTopic = ''_deleted-topic_''"

section \<open>Topics\<close>

definition CreatePubSubTopic :: "env \<Rightarrow> string \<Rightarrow> strmap \<Rightarrow> world \<Rightarrow> PubSubTopic result" where
  "CreatePubSubTopic E name labels w =
     (case fmlookup (PubSubTopics (w_data w)) name of
        Some t \<Rightarrow> (Inr t, w)
      | None \<Rightarrow>
         (let (t, w1) = now E w;
              topic = \<lparr>pt_Name = name, pt_Labels = labels, pt_CreatedAt = t\<rparr>
          in saveThen E topic (setTopic name topic w1)))"

definition PubSubTopic_get :: "string \<Rightarrow> world \<Rightarrow> PubSubTopic result" where
  "PubSubTopic_get name w =
     (case fmlookup (PubSubTopics (w_data w)) name of
        None \<Rightarrow> (Inl ErrPubSubTopicNotFound, w) | Some t \<Rightarrow> (Inr t, w))"

definition ListPubSubTopics :: "string \<Rightarrow> world \<Rightarrow> PubSubTopic list" where
  "ListPubSubTopics pre w =
     sort_key pt_Name (filter (\<lambda>t. hasPrefix (pt_Name t) pre) (fmvalues (PubSubTopics (w_data w))))"

text \<open>Deleting a topic leaves its subscriptions, marked as having no topic.\<close>

definition detachTopic :: "string \<Rightarrow> PubSubSubscription \<Rightarrow> PubSubSubscription" where
  "detachTopic name s = (if ps_Topic s = name then s\<lparr>ps_Topic := deletedTopic\<rparr> else s)"

definition DeletePubSubTopic :: "env \<Rightarrow> string \<Rightarrow> world \<Rightarrow> unit result" where
  "DeletePubSubTopic E name w =
     (case fmlookup (PubSubTopics (w_data w)) name of
        None \<Rightarrow> (Inl ErrPubSubTopicNotFound, w)
      | Some _ \<Rightarrow>
         saveThen E () (mutate (\<lambda>d. d\<lparr>PubSubTopics := fmdrop name (PubSubTopics d),
            PubSubSubscriptions := fmmap (detachTopic name) (PubSubSubscriptions d)\<rparr>) w))"

section \<open>Subscriptions\<close>

definition CreatePubSubSubscription ::
  "env \<Rightarrow> string \<Rightarrow> string \<Rightarrow> int \<Rightarrow> strmap \<Rightarrow> bool \<Rightarrow> world \<Rightarrow> PubSubSubscription result" where
  "CreatePubSubSubscription E name topic deadline labels ordered w =
     (case fmlookup (PubSubTopics (w_data w)) topic of
        None \<Rightarrow> (Inl ErrPubSubTopicNotFound, w)
      | Some _ \<Rightarrow>
         (case fmlookup (PubSubSubscriptions (w_data w)) name of
            Some s \<Rightarrow> (Inr s, w)
          | None \<Rightarrow>
             (let (t, w1) = now E w;
                  s = \<lparr>ps_Name = name, ps_Topic = topic,
                       ps_AckDeadlineSeconds = (if deadline = 0 then 10 else deadline),
                       ps_DeadLetterTopic = '''', ps_MaxDeliveryAttempts = 0, ps_Labels = labels,
                       ps_EnableOrdering = ordered, ps_CreatedAt = t, ps_Messages = []\<rparr>
              in saveThen E s (setSub name s w1))))"

definition PubSubSubscription_get :: "string \<Rightarrow> world \<Rightarrow> PubSubSubscription result" where
  "PubSubSubscription_get name w =
     (case fmlookup (PubSubSubscriptions (w_data w)) name of
        None \<Rightarrow> (Inl ErrPubSubSubscriptionNotFound, w) | Some s \<Rightarrow> (Inr s, w))"

definition ListPubSubSubscriptions :: "string \<Rightarrow> world \<Rightarrow> PubSubSubscription list" where
  "ListPubSubSubscriptions pre w =
     sort_key ps_Name (filter (\<lambda>s. hasPrefix (ps_Name s) pre) (fmvalues (PubSubSubscriptions (w_data w))))"

definition UpdatePubSubSubscription ::
  "env \<Rightarrow> string \<Rightarrow> int \<Rightarrow> strmap \<Rightarrow> string \<Rightarrow> int \<Rightarrow> bool \<Rightarrow> bool \<Rightarrow> bool \<Rightarrow> world \<Rightarrow> PubSubSubscription result" where
  "UpdatePubSubSubscription E name deadline labels deadLetterTopic maxAttempts updDeadline updLabels updDLQ w =
     (case fmlookup (PubSubSubscriptions (w_data w)) name of
        None \<Rightarrow> (Inl ErrPubSubSubscriptionNotFound, w)
      | Some s \<Rightarrow>
         if updDLQ \<and> deadLetterTopic \<noteq> '''' \<and> fmlookup (PubSubTopics (w_data w)) deadLetterTopic = None
         then (Inl ErrPubSubTopicNotFound, w)
         else
           (let s1 = (if updDeadline then s\<lparr>ps_AckDeadlineSeconds := deadline\<rparr> else s);
                s2 = (if updLabels then s1\<lparr>ps_Labels := labels\<rparr> else s1);
                s3 = (if updDLQ then s2\<lparr>ps_DeadLetterTopic := deadLetterTopic,
                                        ps_MaxDeliveryAttempts := maxAttempts\<rparr> else s2)
            in saveThen E s3 (setSub name s3 w)))"

definition DeletePubSubSubscription :: "env \<Rightarrow> string \<Rightarrow> world \<Rightarrow> unit result" where
  "DeletePubSubSubscription E name w =
     (case fmlookup (PubSubSubscriptions (w_data w)) name of
        None \<Rightarrow> (Inl ErrPubSubSubscriptionNotFound, w)
      | Some _ \<Rightarrow>
         saveThen E () (mutate (\<lambda>d. d\<lparr>PubSubSubscriptions := fmdrop name (PubSubSubscriptions d)\<rparr>) w))"

definition PurgePubSubSubscription :: "env \<Rightarrow> string \<Rightarrow> world \<Rightarrow> unit result" where
  "PurgePubSubSubscription E name w =
     (case fmlookup (PubSubSubscriptions (w_data w)) name of
        None \<Rightarrow> (Inl ErrPubSubSubscriptionNotFound, w)
      | Some s \<Rightarrow> saveThen E () (setSub name (s\<lparr>ps_Messages := []\<rparr>) w))"

definition PubSubTopicSubscriptions :: "string \<Rightarrow> world \<Rightarrow> string list" where
  "PubSubTopicSubscriptions topic w =
     sort (map ps_Name (filter (\<lambda>s. ps_Topic s = topic) (fmvalues (PubSubSubscriptions (w_data w)))))"

section \<open>Publishing\<close>

text \<open>Stamping the messages of one publish request with identifiers and the time.\<close>

fun stampMessages :: "env \<Rightarrow> time \<Rightarrow> PubSubMessage list \<Rightarrow> nat \<Rightarrow> PubSubMessage list \<times> nat" where
  "stampMessages E t [] ids = ([], ids)"
| "stampMessages E t (m # ms) ids =
     (let m' = m\<lparr>pm_MessageID := mint E ids, pm_PublishTime := t, pm_VisibleAt := t\<rparr>;
          (ms', ids') = stampMessages E t ms (Suc ids)
      in (m' # ms', ids'))"

definition appendTo :: "string \<Rightarrow> PubSubMessage list \<Rightarrow> PubSubSubscription \<Rightarrow> PubSubSubscription" where
  "appendTo topic ms s = (if ps_Topic s = topic then s\<lparr>ps_Messages := ps_Messages s @ ms\<rparr> else s)"

definition PublishPubSub :: "env \<Rightarrow> string \<Rightarrow> PubSubMessage list \<Rightarrow> world \<Rightarrow> string list result" where
  "PublishPubSub E topic messages w =
     (case fmlookup (PubSubTopics (w_data w)) topic of
        None \<Rightarrow> (Inl ErrPubSubTopicNotFound, w)
      | Some _ \<Rightarrow>
         (let (t, w1) = now E w;
              (ms, ids) = stampMessages E t messages (w_ids w1);
              w2 = w1\<lparr>w_ids := ids\<rparr>
          in saveThen E (map pm_MessageID ms)
               (mutate (\<lambda>d. d\<lparr>PubSubSubscriptions := fmmap (appendTo topic ms) (PubSubSubscriptions d)\<rparr>) w2)))"

section \<open>Pulling\<close>

text \<open>
  The loop of \<open>PullPubSub\<close>: the messages handed out, the messages kept, the messages forwarded
  to the dead-letter topic in order, whether anything changed, identifiers used.
\<close>

record pull =
  pl_result :: "PubSubMessage list"
  pl_kept :: "PubSubMessage list"
  pl_forwarded :: "PubSubMessage list"
  pl_changed :: bool
  pl_ids :: nat

definition forward :: "env \<Rightarrow> time \<Rightarrow> nat \<Rightarrow> PubSubMessage \<Rightarrow> PubSubMessage" where
  "forward E t ids m =
     m\<lparr>pm_MessageID := mint E ids, pm_AckID := '''', pm_PublishTime := t, pm_VisibleAt := t,
       pm_DeliveryAttempt := 0\<rparr>"

definition handOut :: "env \<Rightarrow> time \<Rightarrow> int \<Rightarrow> nat \<Rightarrow> PubSubMessage \<Rightarrow> PubSubMessage" where
  "handOut E t deadline ids m =
     m\<lparr>pm_DeliveryAttempt := wrap32 (pm_DeliveryAttempt m + 1), pm_AckID := mint E ids,
       pm_VisibleAt := t + duration_s deadline\<rparr>"

definition exhausted :: "PubSubSubscription \<Rightarrow> PubSubMessage \<Rightarrow> bool" where
  "exhausted s m \<longleftrightarrow>
     ps_DeadLetterTopic s \<noteq> '''' \<and> ps_MaxDeliveryAttempts s > 0 \<and>
     pm_DeliveryAttempt m \<ge> ps_MaxDeliveryAttempts s"

definition pullStep :: "env \<Rightarrow> time \<Rightarrow> int \<Rightarrow> int \<Rightarrow> PubSubSubscription \<Rightarrow> PubSubMessage \<Rightarrow> pull \<Rightarrow> pull" where
  "pullStep E t maxN deadline s m p =
     (if \<not> t < pm_VisibleAt m \<and> exhausted s m then
        p\<lparr>pl_forwarded := pl_forwarded p @ [forward E t (pl_ids p) m], pl_changed := True,
          pl_ids := Suc (pl_ids p)\<rparr>
      else if int (length (pl_result p)) < maxN \<and> \<not> t < pm_VisibleAt m then
        (let m' = handOut E t deadline (pl_ids p) m
         in p\<lparr>pl_result := pl_result p @ [m'], pl_kept := pl_kept p @ [m'], pl_changed := True,
              pl_ids := Suc (pl_ids p)\<rparr>)
      else p\<lparr>pl_kept := pl_kept p @ [m]\<rparr>)"

definition pullLoop :: "env \<Rightarrow> time \<Rightarrow> int \<Rightarrow> int \<Rightarrow> PubSubSubscription \<Rightarrow> nat \<Rightarrow> pull" where
  "pullLoop E t maxN deadline s ids =
     fold (pullStep E t maxN deadline s) (ps_Messages s)
       \<lparr>pl_result = [], pl_kept = [], pl_forwarded = [], pl_changed = False, pl_ids = ids\<rparr>"

text \<open>
  Forwarded messages are appended to every subscription of the dead-letter topic. The final
  \<open>sub.Messages = kept\<close> overwrites whatever was appended to the pulled subscription itself.
\<close>

definition PullPubSub :: "env \<Rightarrow> string \<Rightarrow> int \<Rightarrow> int \<Rightarrow> world \<Rightarrow> PubSubMessage list result" where
  "PullPubSub E subscription max0 deadline0 w =
     (case fmlookup (PubSubSubscriptions (w_data w)) subscription of
        None \<Rightarrow> (Inl ErrPubSubSubscriptionNotFound, w)
      | Some s \<Rightarrow>
         if ps_Topic s = deletedTopic then (Inl ErrPubSubTopicNotFound, w)
         else
           (let maxN = (if max0 < 1 then 1 else max0);
                deadline = (if deadline0 \<le> 0 then ps_AckDeadlineSeconds s else deadline0);
                (t, w1) = now E w;
                p = pullLoop E t maxN deadline s (w_ids w1);
                subs = fmmap (appendTo (ps_DeadLetterTopic s) (pl_forwarded p)) (PubSubSubscriptions (w_data w));
                subs' = fmupd subscription (s\<lparr>ps_Messages := pl_kept p\<rparr>) subs;
                w2 = mutate (\<lambda>d. d\<lparr>PubSubSubscriptions := subs'\<rparr>) (w1\<lparr>w_ids := pl_ids p\<rparr>)
            in if pl_changed p then saveThen E (pl_result p) w2 else (Inr (pl_result p), w2)))"

section \<open>Acknowledging\<close>

definition AckPubSub :: "env \<Rightarrow> string \<Rightarrow> string list \<Rightarrow> world \<Rightarrow> unit result" where
  "AckPubSub E subscription ackIDs w =
     (case fmlookup (PubSubSubscriptions (w_data w)) subscription of
        None \<Rightarrow> (Inl ErrPubSubSubscriptionNotFound, w)
      | Some s \<Rightarrow>
         saveThen E () (setSub subscription
           (s\<lparr>ps_Messages := filter (\<lambda>m. pm_AckID m \<notin> set ackIDs) (ps_Messages s)\<rparr>) w))"

text \<open>The deadline map: one value for all, or one per identifier; a later entry wins.\<close>

definition ackDeadline :: "int list \<Rightarrow> nat \<Rightarrow> int" where
  "ackDeadline seconds i =
     (if length seconds = 1 then seconds ! 0 else if i < length seconds then seconds ! i else 0)"

definition ackDeadlines :: "string list \<Rightarrow> int list \<Rightarrow> int gomap" where
  "ackDeadlines ackIDs seconds =
     fold (\<lambda>(i, k) m. fmupd k (ackDeadline seconds i) m) (enumerate 0 ackIDs) fmempty"

definition ModifyPubSubAckDeadline :: "env \<Rightarrow> string \<Rightarrow> string list \<Rightarrow> int list \<Rightarrow> world \<Rightarrow> unit result" where
  "ModifyPubSubAckDeadline E subscription ackIDs seconds w =
     (case fmlookup (PubSubSubscriptions (w_data w)) subscription of
        None \<Rightarrow> (Inl ErrPubSubSubscriptionNotFound, w)
      | Some s \<Rightarrow>
         (let deadlines = ackDeadlines ackIDs seconds;
              (t, w1) = now E w;
              ms = map (\<lambda>m. case fmlookup deadlines (pm_AckID m) of
                             Some n \<Rightarrow> m\<lparr>pm_VisibleAt := t + duration_s n\<rparr> | None \<Rightarrow> m) (ps_Messages s)
          in saveThen E () (setSub subscription (s\<lparr>ps_Messages := ms\<rparr>) w1)))"

end
