(* ===== verification/DynamoDB.thy ===== *)
theory DynamoDB
  imports World
begin

text \<open>
  The table store of \<^verbatim>\<open>internal/state/dynamodb.go\<close>: tables and their validation,
  the encoding of primary keys, conditional single-item writes and the all-or-nothing write
  transaction.
\<close>

abbreviation setTable :: "string \<Rightarrow> DynamoTable \<Rightarrow> world \<Rightarrow> world" where
  "setTable name t w \<equiv> mutate (\<lambda>d. d\<lparr>DynamoTables := fmupd name t (DynamoTables d)\<rparr>) w"

abbreviation invalid :: "string \<Rightarrow> error" where
  "invalid msg \<equiv> Wrap ErrDynamoValidation msg"

section \<open>Primary keys\<close>

definition dynamoScalarKey :: "DynamoAttributeValue \<Rightarrow> error + string" where
  "dynamoScalarKey v =
     (case av_S v of
        Some s \<Rightarrow> Inr (''S'' @ [CHR 0x00] @ s)
      | None \<Rightarrow>
         (case av_N v of
            Some n \<Rightarrow> Inr (''N'' @ [CHR 0x00] @ n)
          | None \<Rightarrow>
             (case av_B v of
                Some b \<Rightarrow> Inr (''B'' @ [CHR 0x00] @ b)
              | None \<Rightarrow> Inl (invalid ''key must be a scalar S, N or B value''))))"

fun keyParts :: "DynamoKeySchemaElement list \<Rightarrow> DynamoItem \<Rightarrow> error + string list" where
  "keyParts [] item = Inr []"
| "keyParts (el # els) item =
     (case fmlookup item (ks_AttributeName el) of
        None \<Rightarrow> Inl (invalid (''missing key '' @ ks_AttributeName el))
      | Some v \<Rightarrow>
         (case dynamoScalarKey v of
            Inl e \<Rightarrow> Inl e
          | Inr enc \<Rightarrow>
             (case keyParts els item of
                Inl e \<Rightarrow> Inl e
              | Inr ps \<Rightarrow>
                 Inr ((ks_KeyType el @ [CHR 0x00] @ ks_AttributeName el @ [CHR 0x00] @ enc) # ps))))"

fun joinWith :: "string \<Rightarrow> string list \<Rightarrow> string" where
  "joinWith sep [] = []"
| "joinWith sep [p] = p"
| "joinWith sep (p # q # ps) = p @ sep @ joinWith sep (q # ps)"

definition dynamoItemKey :: "DynamoTable \<Rightarrow> DynamoItem \<Rightarrow> error + string" where
  "dynamoItemKey t item =
     (case keyParts (dt_KeySchema t) item of Inl e \<Rightarrow> Inl e | Inr ps \<Rightarrow> Inr (joinWith [CHR 0x01] ps))"

section \<open>Tables\<close>

text \<open>The pattern \<^verbatim>\<open>^[A-Za-z0-9_.-]{3,255}$\<close>.\<close>

definition tableNameChar :: "char \<Rightarrow> bool" where
  "tableNameChar c =
     (let n = (of_char c :: nat)
      in (65 \<le> n \<and> n \<le> 90) \<or> (97 \<le> n \<and> n \<le> 122) \<or> (48 \<le> n \<and> n \<le> 57) \<or>
         c = CHR ''_'' \<or> c = CHR ''.'' \<or> c = CHR ''-'')"

definition dynamoTableNamePattern :: "string \<Rightarrow> bool" where
  "dynamoTableNamePattern s \<longleftrightarrow> 3 \<le> length s \<and> length s \<le> 255 \<and> list_all tableNameChar s"

fun checkKeySchema :: "string list \<Rightarrow> DynamoKeySchemaElement list \<Rightarrow> error option" where
  "checkKeySchema names [] = None"
| "checkKeySchema names (el # els) =
     (if ks_AttributeName el \<notin> set names then Some (invalid ''key attribute is not defined'')
      else if ks_KeyType el \<noteq> ''HASH'' \<and> ks_KeyType el \<noteq> ''RANGE'' then Some (invalid ''invalid key type'')
      else checkKeySchema names els)"

definition validateDynamoTable ::
  "string \<Rightarrow> DynamoKeySchemaElement list \<Rightarrow> DynamoAttributeDefinition list \<Rightarrow> error option" where
  "validateDynamoTable name keySchema definitions =
     (if \<not> dynamoTableNamePattern name then Some (invalid ''invalid table name'')
      else if list_ex (\<lambda>ad. ad_AttributeName ad = '''' \<or>
                ad_AttributeType ad \<notin> {''S'', ''N'', ''B''}) definitions
      then Some (invalid ''invalid attribute definition'')
      else case checkKeySchema (map ad_AttributeName definitions) keySchema of
        Some e \<Rightarrow> Some e
      | None \<Rightarrow>
         (let hashCount = length (filter (\<lambda>el. ks_KeyType el = ''HASH'') keySchema);
              rangeCount = length (filter (\<lambda>el. ks_KeyType el = ''RANGE'') keySchema)
          in if hashCount \<noteq> 1 \<or> rangeCount > 1 \<or> length keySchema \<noteq> hashCount + rangeCount
             then Some (invalid ''invalid key schema'')
             else if length definitions \<noteq> length keySchema
             then Some (invalid ''attribute definitions must match the key schema'')
             else None))"

definition CreateDynamoTable ::
  "env \<Rightarrow> string \<Rightarrow> DynamoKeySchemaElement list \<Rightarrow> DynamoAttributeDefinition list \<Rightarrow> string \<Rightarrow> world
   \<Rightarrow> DynamoTable result" where
  "CreateDynamoTable E name keySchema definitions billingMode w =
     (case fmlookup (DynamoTables (w_data w)) name of
        Some _ \<Rightarrow> (Inl ErrDynamoTableExists, w)
      | None \<Rightarrow>
         (case validateDynamoTable name keySchema definitions of
            Some e \<Rightarrow> (Inl e, w)
          | None \<Rightarrow>
             (let (t, w1) = now E w;
                  tbl = \<lparr>dt_Name = name, dt_CreatedAt = t, dt_Status = ''ACTIVE'',
                         dt_BillingMode = (if billingMode = '''' then ''PROVISIONED'' else billingMode),
                         dt_KeySchema = keySchema, dt_AttributeDefinitions = definitions,
                         dt_Items = fmempty\<rparr>
              in saveThen E (cloneDynamoTable tbl) (setTable name tbl w1))))"

definition DynamoTable_get :: "string \<Rightarrow> world \<Rightarrow> DynamoTable result" where
  "DynamoTable_get name w =
     (case fmlookup (DynamoTables (w_data w)) name of
        None \<Rightarrow> (Inl ErrDynamoTableNotFound, w) | Some t \<Rightarrow> (Inr (cloneDynamoTable t), w))"

definition ListDynamoTables :: "world \<Rightarrow> DynamoTable list" where
  "ListDynamoTables w = sort_key dt_Name (map cloneDynamoTable (fmvalues (DynamoTables (w_data w))))"

definition DeleteDynamoTable :: "env \<Rightarrow> string \<Rightarrow> world \<Rightarrow> unit result" where
  "DeleteDynamoTable E name w =
     (case fmlookup (DynamoTables (w_data w)) name of
        None \<Rightarrow> (Inl ErrDynamoTableNotFound, w)
      | Some _ \<Rightarrow> saveThen E () (mutate (\<lambda>d. d\<lparr>DynamoTables := fmdrop name (DynamoTables d)\<rparr>) w))"

definition ClearDynamoTable :: "env \<Rightarrow> string \<Rightarrow> world \<Rightarrow> unit result" where
  "ClearDynamoTable E name w =
     (case fmlookup (DynamoTables (w_data w)) name of
        None \<Rightarrow> (Inl ErrDynamoTableNotFound, w)
      | Some t \<Rightarrow> saveThen E () (setTable name (t\<lparr>dt_Items := fmempty\<rparr>) w))"

section \<open>Items\<close>

definition storedItem :: "DynamoTable \<Rightarrow> string \<Rightarrow> DynamoItem" where
  "storedItem t key = (case fmlookup (dt_Items t) key of None \<Rightarrow> fmempty | Some i \<Rightarrow> i)"

definition itemExists :: "DynamoTable \<Rightarrow> string \<Rightarrow> bool" where
  "itemExists t key = (fmlookup (dt_Items t) key \<noteq> None)"

type_synonym DynamoCondition = "DynamoItem \<Rightarrow> bool \<Rightarrow> bool"
type_synonym DynamoUpdate = "DynamoItem \<Rightarrow> error + DynamoItem"

definition conditionHolds :: "DynamoCondition option \<Rightarrow> DynamoTable \<Rightarrow> string \<Rightarrow> bool" where
  "conditionHolds c t key =
     (case c of None \<Rightarrow> True | Some f \<Rightarrow> f (cloneDynamoItem (storedItem t key)) (itemExists t key))"

definition DynamoGetItem :: "string \<Rightarrow> DynamoItem \<Rightarrow> world \<Rightarrow> (DynamoItem \<times> bool) result" where
  "DynamoGetItem tableName key w =
     (case fmlookup (DynamoTables (w_data w)) tableName of
        None \<Rightarrow> (Inl ErrDynamoTableNotFound, w)
      | Some t \<Rightarrow>
         (case dynamoItemKey t key of
            Inl e \<Rightarrow> (Inl e, w)
          | Inr k \<Rightarrow> (Inr (cloneDynamoItem (storedItem t k), itemExists t k), w)))"

definition DynamoListItems :: "string \<Rightarrow> world \<Rightarrow> DynamoItem list result" where
  "DynamoListItems tableName w =
     (case fmlookup (DynamoTables (w_data w)) tableName of
        None \<Rightarrow> (Inl ErrDynamoTableNotFound, w)
      | Some t \<Rightarrow> (Inr (map (\<lambda>k. cloneDynamoItem (storedItem t k)) (sort (fmkeys (dt_Items t)))), w))"

definition DynamoPutItem ::
  "env \<Rightarrow> string \<Rightarrow> DynamoItem \<Rightarrow> DynamoCondition option \<Rightarrow> world \<Rightarrow> (DynamoItem \<times> bool) result" where
  "DynamoPutItem E tableName item c w =
     (case fmlookup (DynamoTables (w_data w)) tableName of
        None \<Rightarrow> (Inl ErrDynamoTableNotFound, w)
      | Some t \<Rightarrow>
         (case dynamoItemKey t item of
            Inl e \<Rightarrow> (Inl e, w)
          | Inr k \<Rightarrow>
             if \<not> conditionHolds c t k then (Inl ErrDynamoConditionalCheckFailed, w)
             else saveThen E (cloneDynamoItem (storedItem t k), itemExists t k)
                    (setTable tableName (t\<lparr>dt_Items := fmupd k (cloneDynamoItem item) (dt_Items t)\<rparr>) w)))"

definition DynamoDeleteItem ::
  "env \<Rightarrow> string \<Rightarrow> DynamoItem \<Rightarrow> DynamoCondition option \<Rightarrow> world \<Rightarrow> (DynamoItem \<times> bool) result" where
  "DynamoDeleteItem E tableName keyItem c w =
     (case fmlookup (DynamoTables (w_data w)) tableName of
        None \<Rightarrow> (Inl ErrDynamoTableNotFound, w)
      | Some t \<Rightarrow>
         (case dynamoItemKey t keyItem of
            Inl e \<Rightarrow> (Inl e, w)
          | Inr k \<Rightarrow>
             if \<not> conditionHolds c t k then (Inl ErrDynamoConditionalCheckFailed, w)
             else if \<not> itemExists t k then (Inr (fmempty, False), w)
             else saveThen E (cloneDynamoItem (storedItem t k), True)
                    (setTable tableName (t\<lparr>dt_Items := fmdrop k (dt_Items t)\<rparr>) w)))"

definition DynamoUpdateItem ::
  "env \<Rightarrow> string \<Rightarrow> DynamoItem \<Rightarrow> DynamoCondition option \<Rightarrow> DynamoUpdate \<Rightarrow> world
   \<Rightarrow> (DynamoItem \<times> DynamoItem) result" where
  "DynamoUpdateItem E tableName keyItem c update w =
     (case fmlookup (DynamoTables (w_data w)) tableName of
        None \<Rightarrow> (Inl ErrDynamoTableNotFound, w)
      | Some t \<Rightarrow>
         (case dynamoItemKey t keyItem of
            Inl e \<Rightarrow> (Inl e, w)
          | Inr k \<Rightarrow>
             if \<not> conditionHolds c t k then (Inl ErrDynamoConditionalCheckFailed, w)
             else
               (let base = (if itemExists t k then cloneDynamoItem (storedItem t k) else cloneDynamoItem keyItem)
                in case update base of
                     Inl e \<Rightarrow> (Inl e, w)
                   | Inr next \<Rightarrow>
                      (case dynamoItemKey t next of
                         Inl e \<Rightarrow> (Inl e, w)
                       | Inr k' \<Rightarrow>
                          if k' \<noteq> k then (Inl (invalid ''primary key attributes cannot be updated''), w)
                          else saveThen E (cloneDynamoItem (storedItem t k), cloneDynamoItem next)
                                 (setTable tableName
                                    (t\<lparr>dt_Items := fmupd k (cloneDynamoItem next) (dt_Items t)\<rparr>) w)))))"

section \<open>Transactions\<close>

text \<open>The first loop resolves every operation before anything is written.\<close>

definition resolveOp :: "DynamoTable gomap \<Rightarrow> DynamoWriteOperation \<Rightarrow> error + (string \<times> string \<times> DynamoWriteOperation)" where
  "resolveOp tables op1 =
     (let kind = toLower (wo_Kind op1)
      in if kind \<noteq> ''put'' \<and> kind \<noteq> ''delete'' then Inl (invalid ''unsupported transaction operation'')
         else case fmlookup tables (wo_Table op1) of
           None \<Rightarrow> Inl ErrDynamoTableNotFound
         | Some t \<Rightarrow>
            (case dynamoItemKey t (if kind = ''put'' then wo_Item op1 else wo_Key op1) of
               Inl e \<Rightarrow> Inl e
             | Inr k \<Rightarrow> Inr (dt_Name t @ [CHR 0x00] @ k, k, op1\<lparr>wo_Kind := kind\<rparr>)))"

fun resolveOps :: "DynamoTable gomap \<Rightarrow> string list \<Rightarrow> DynamoWriteOperation list
    \<Rightarrow> error + (string \<times> DynamoWriteOperation) list" where
  "resolveOps tables seen [] = Inr []"
| "resolveOps tables seen (op1 # ops) =
     (case resolveOp tables op1 of
        Inl e \<Rightarrow> Inl e
      | Inr (ident, k, op2) \<Rightarrow>
         if ident \<in> set seen then Inl (invalid ''transaction contains multiple operations for one item'')
         else (case resolveOps tables (ident # seen) ops of
                 Inl e \<Rightarrow> Inl e | Inr rs \<Rightarrow> Inr ((k, op2) # rs)))"

definition applyOp :: "string \<times> DynamoWriteOperation \<Rightarrow> DynamoTable gomap \<Rightarrow> DynamoTable gomap" where
  "applyOp = (\<lambda>(k, op1) tables.
     fmmodify (wo_Table op1)
       (\<lambda>t. if wo_Kind op1 = ''put''
            then t\<lparr>dt_Items := fmupd k (cloneDynamoItem (wo_Item op1)) (dt_Items t)\<rparr>
            else t\<lparr>dt_Items := fmdrop k (dt_Items t)\<rparr>) tables)"

definition DynamoTransactWrite :: "env \<Rightarrow> DynamoWriteOperation list \<Rightarrow> world \<Rightarrow> unit result" where
  "DynamoTransactWrite E ops w =
     (case resolveOps (DynamoTables (w_data w)) [] ops of
        Inl e \<Rightarrow> (Inl e, w)
      | Inr rs \<Rightarrow>
         saveThen E () (mutate (\<lambda>d. d\<lparr>DynamoTables := fold applyOp rs (DynamoTables d)\<rparr>) w))"

end
