(* ===== verification/Services.thy ===== *)
theory Services
  imports World
begin

text \<open>
  The smaller resources of the store: Firestore documents and Secret Manager
  (\<^verbatim>\<open>gcp_services.go\<close>), Cloud KMS (\<^verbatim>\<open>kms.go\<close>), IAM service accounts
  (\<^verbatim>\<open>iam.go\<close>), and the logs of FCM messages (\<^verbatim>\<open>fcm.go\<close>) and Vertex
  calls (\<^verbatim>\<open>vertex.go\<close>).
\<close>

section \<open>Firestore documents\<close>

definition FirestoreDocument_get :: "string \<Rightarrow> world \<Rightarrow> FirestoreDocument result" where
  "FirestoreDocument_get name w =
     (case fmlookup (FirestoreDocuments (w_data w)) name of
        None \<Rightarrow> (Inl ErrFirestoreDocumentNotFound, w) | Some x \<Rightarrow> (Inr x, w))"

text \<open>The entries of a map whose key has a prefix, and their values in the order of a name field.\<close>

definition valuesWithPrefix :: "string \<Rightarrow> 'v gomap \<Rightarrow> 'v list" where
  "valuesWithPrefix pre m = map (\<lambda>k. the (fmlookup m k)) (filter (\<lambda>k. hasPrefix k pre) (fmkeys m))"

definition ListFirestoreDocuments :: "string \<Rightarrow> world \<Rightarrow> FirestoreDocument list" where
  "ListFirestoreDocuments pre w = sort_key fd_Name (valuesWithPrefix pre (FirestoreDocuments (w_data w)))"

text \<open>The callback gets a copy of the documents and the time; its error leaves the state as it is.\<close>

definition MutateFirestore ::
  "env \<Rightarrow> (FirestoreDocument gomap \<Rightarrow> time \<Rightarrow> error + FirestoreDocument gomap) \<Rightarrow> world \<Rightarrow> unit result" where
  "MutateFirestore E callback w =
     (let (t, w1) = now E w
      in case callback (FirestoreDocuments (w_data w)) t of
           Inl e \<Rightarrow> (Inl e, w1)
         | Inr working \<Rightarrow> saveThen E () (mutate (\<lambda>d. d\<lparr>FirestoreDocuments := working\<rparr>) w1))"

section \<open>Secrets\<close>

abbreviation setSecret :: "string \<Rightarrow> Secret \<Rightarrow> world \<Rightarrow> world" where
  "setSecret name s w \<equiv> mutate (\<lambda>d. d\<lparr>Secrets := fmupd name s (Secrets d)\<rparr>) w"

definition CreateSecret :: "env \<Rightarrow> string \<Rightarrow> strmap \<Rightarrow> world \<Rightarrow> Secret result" where
  "CreateSecret E name labels w =
     (case fmlookup (Secrets (w_data w)) name of
        Some s \<Rightarrow> (Inr s, w)
      | None \<Rightarrow>
         (let (t, w1) = now E w;
              s = \<lparr>sc_Name = name, sc_Labels = labels, sc_CreateTime = t, sc_Versions = []\<rparr>
          in saveThen E s (setSecret name s w1)))"

definition Secret_get :: "string \<Rightarrow> world \<Rightarrow> Secret result" where
  "Secret_get name w =
     (case fmlookup (Secrets (w_data w)) name of None \<Rightarrow> (Inl ErrSecretNotFound, w) | Some s \<Rightarrow> (Inr s, w))"

definition UpdateSecretLabels :: "env \<Rightarrow> string \<Rightarrow> strmap \<Rightarrow> world \<Rightarrow> Secret result" where
  "UpdateSecretLabels E name labels w =
     (case fmlookup (Secrets (w_data w)) name of
        None \<Rightarrow> (Inl ErrSecretNotFound, w)
      | Some s \<Rightarrow> saveThen E (s\<lparr>sc_Labels := labels\<rparr>) (setSecret name (s\<lparr>sc_Labels := labels\<rparr>) w))"

definition parentPrefix :: "string \<Rightarrow> string \<Rightarrow> string" where
  "parentPrefix parent collection = (if parent = '''' then '''' else trimSuffix parent ''/'' @ collection)"

definition ListSecrets :: "string \<Rightarrow> world \<Rightarrow> Secret list" where
  "ListSecrets parent w =
     sort_key sc_Name (valuesWithPrefix (parentPrefix parent ''/secrets/'') (Secrets (w_data w)))"

definition DeleteSecret :: "env \<Rightarrow> string \<Rightarrow> world \<Rightarrow> unit result" where
  "DeleteSecret E name w =
     (case fmlookup (Secrets (w_data w)) name of
        None \<Rightarrow> (Inl ErrSecretNotFound, w)
      | Some _ \<Rightarrow> saveThen E () (mutate (\<lambda>d. d\<lparr>Secrets := fmdrop name (Secrets d)\<rparr>) w))"

definition AddSecretVersion :: "env \<Rightarrow> string \<Rightarrow> bytes \<Rightarrow> world \<Rightarrow> SecretVersion result" where
  "AddSecretVersion E name payload w =
     (case fmlookup (Secrets (w_data w)) name of
        None \<Rightarrow> (Inl ErrSecretNotFound, w)
      | Some s \<Rightarrow>
         (let (t, w1) = now E w;
              v = \<lparr>sv_Number = int (length (sc_Versions s) + 1), sv_Payload = payload,
                   sv_State = ''ENABLED'', sv_CreateTime = t\<rparr>
          in saveThen E v (setSecret name (s\<lparr>sc_Versions := sc_Versions s @ [v]\<rparr>) w1)))"

definition SecretVersion_get :: "string \<Rightarrow> int \<Rightarrow> world \<Rightarrow> SecretVersion result" where
  "SecretVersion_get name number w =
     (case fmlookup (Secrets (w_data w)) name of
        None \<Rightarrow> (Inl ErrSecretNotFound, w)
      | Some s \<Rightarrow>
         (case (if number = 0 then find (\<lambda>v. sv_State v = ''ENABLED'') (rev (sc_Versions s)) else None) of
            Some v \<Rightarrow> (Inr v, w)
          | None \<Rightarrow>
             (case find (\<lambda>v. sv_Number v = number) (sc_Versions s) of
                Some v \<Rightarrow> (Inr v, w)
              | None \<Rightarrow> (Inl ErrSecretVersionNotFound, w))))"

definition withState :: "string \<Rightarrow> SecretVersion \<Rightarrow> SecretVersion" where
  "withState st v =
     v\<lparr>sv_State := st, sv_Payload := (if st = ''DESTROYED'' then [] else sv_Payload v)\<rparr>"

text \<open>The loop acts on the first version with the number and returns from inside.\<close>

fun setVersionState :: "int \<Rightarrow> string \<Rightarrow> SecretVersion list \<Rightarrow> (SecretVersion \<times> SecretVersion list) option" where
  "setVersionState number st [] = None"
| "setVersionState number st (v # vs) =
     (if sv_Number v = number then Some (withState st v, withState st v # vs)
      else map_option (\<lambda>(x, xs). (x, v # xs)) (setVersionState number st vs))"

definition SetSecretVersionState :: "env \<Rightarrow> string \<Rightarrow> int \<Rightarrow> string \<Rightarrow> world \<Rightarrow> SecretVersion result" where
  "SetSecretVersionState E name number st w =
     (case fmlookup (Secrets (w_data w)) name of
        None \<Rightarrow> (Inl ErrSecretNotFound, w)
      | Some s \<Rightarrow>
         (case setVersionState number st (sc_Versions s) of
            None \<Rightarrow> (Inl ErrSecretVersionNotFound, w)
          | Some (v, vs) \<Rightarrow> saveThen E v (setSecret name (s\<lparr>sc_Versions := vs\<rparr>) w)))"

section \<open>Cloud KMS\<close>

definition CreateKMSKeyRing :: "env \<Rightarrow> string \<Rightarrow> world \<Rightarrow> KMSKeyRing result" where
  "CreateKMSKeyRing E name w =
     (case fmlookup (KMSKeyRings (w_data w)) name of
        Some r \<Rightarrow> (Inr r, w)
      | None \<Rightarrow>
         (let (t, w1) = now E w;
              r = \<lparr>kr_Name = name, kr_CreateTime = t\<rparr>
          in saveThen E r (mutate (\<lambda>d. d\<lparr>KMSKeyRings := fmupd name r (KMSKeyRings d)\<rparr>) w1)))"

definition KMSKeyRing_get :: "string \<Rightarrow> world \<Rightarrow> KMSKeyRing result" where
  "KMSKeyRing_get name w =
     (case fmlookup (KMSKeyRings (w_data w)) name of
        None \<Rightarrow> (Inl ErrKMSKeyRingNotFound, w) | Some r \<Rightarrow> (Inr r, w))"

definition ListKMSKeyRings :: "string \<Rightarrow> world \<Rightarrow> KMSKeyRing list" where
  "ListKMSKeyRings parent w =
     sort_key kr_Name (valuesWithPrefix (parentPrefix parent ''/keyRings/'') (KMSKeyRings (w_data w)))"

text \<open>\<open>strings.LastIndex\<close>, with \<open>None\<close> for \<open>-1\<close>.\<close>

definition lastIndex :: "string \<Rightarrow> string \<Rightarrow> nat option" where
  "lastIndex s sub =
     (case filter (\<lambda>i. prefix sub (drop i s)) [0..<Suc (length s)] of [] \<Rightarrow> None | is \<Rightarrow> Some (last is))"

definition cryptoKeysInfix :: string where
  "cryptoKeysInfix = ''/cryptoKeys/''"

definition keyRingOf :: "string \<Rightarrow> string option" where
  "keyRingOf name =
     (case lastIndex name cryptoKeysInfix of
        None \<Rightarrow> None
      | Some i \<Rightarrow>
         if i = 0 \<or> i + length cryptoKeysInfix = length name then None else Some (take i name))"

definition CreateKMSCryptoKey :: "env \<Rightarrow> KMSCryptoKey \<Rightarrow> world \<Rightarrow> KMSCryptoKey result" where
  "CreateKMSCryptoKey E key w =
     (case keyRingOf (ck_Name key) of
        None \<Rightarrow> (Inl ErrKMSInvalidName, w)
      | Some ring \<Rightarrow>
         if fmlookup (KMSKeyRings (w_data w)) ring = None then (Inl ErrKMSKeyRingNotFound, w)
         else (case fmlookup (KMSCryptoKeys (w_data w)) (ck_Name key) of
                 Some k \<Rightarrow> (Inr k, w)
               | None \<Rightarrow>
                  saveThen E key (mutate (\<lambda>d. d\<lparr>KMSCryptoKeys := fmupd (ck_Name key) key (KMSCryptoKeys d)\<rparr>) w)))"

definition KMSCryptoKey_get :: "string \<Rightarrow> world \<Rightarrow> KMSCryptoKey result" where
  "KMSCryptoKey_get name w =
     (case fmlookup (KMSCryptoKeys (w_data w)) name of
        None \<Rightarrow> (Inl ErrKMSCryptoKeyNotFound, w) | Some k \<Rightarrow> (Inr k, w))"

definition ListKMSCryptoKeys :: "string \<Rightarrow> world \<Rightarrow> KMSCryptoKey list" where
  "ListKMSCryptoKeys parent w =
     sort_key ck_Name (valuesWithPrefix (parentPrefix parent cryptoKeysInfix) (KMSCryptoKeys (w_data w)))"

definition AddKMSKeyVersion :: "env \<Rightarrow> string \<Rightarrow> string \<Rightarrow> bytes \<Rightarrow> world \<Rightarrow> KMSKeyVersion result" where
  "AddKMSKeyVersion E name algorithm material w =
     (case fmlookup (KMSCryptoKeys (w_data w)) name of
        None \<Rightarrow> (Inl ErrKMSCryptoKeyNotFound, w)
      | Some k \<Rightarrow>
         (let (t, w1) = now E w;
              v = \<lparr>kv_Number = int (length (ck_Versions k) + 1), kv_Algorithm = algorithm,
                   kv_State = ''ENABLED'', kv_KeyMaterial = material, kv_CreateTime = t\<rparr>;
              k' = k\<lparr>ck_Versions := ck_Versions k @ [v],
                     ck_PrimaryVersion := (if ck_PrimaryVersion k = 0 then kv_Number v else ck_PrimaryVersion k)\<rparr>
          in saveThen E v (mutate (\<lambda>d. d\<lparr>KMSCryptoKeys := fmupd name k' (KMSCryptoKeys d)\<rparr>) w1)))"

definition KMSKeyVersion_get :: "string \<Rightarrow> int \<Rightarrow> world \<Rightarrow> KMSKeyVersion result" where
  "KMSKeyVersion_get name number w =
     (case fmlookup (KMSCryptoKeys (w_data w)) name of
        None \<Rightarrow> (Inl ErrKMSCryptoKeyNotFound, w)
      | Some k \<Rightarrow>
         (let n = (if number = 0 then ck_PrimaryVersion k else number)
          in case find (\<lambda>v. kv_Number v = n) (ck_Versions k) of
               Some v \<Rightarrow> (Inr v, w)
             | None \<Rightarrow> (Inl ErrKMSKeyVersionMissing, w)))"

section \<open>IAM service accounts\<close>

definition ListIAMServiceAccounts :: "world \<Rightarrow> IAMServiceAccount list" where
  "ListIAMServiceAccounts w = sort_key sa_Name (fmvalues (IAMServiceAccounts (w_data w)))"

definition ExistingIAMServiceAccount :: "string \<Rightarrow> world \<Rightarrow> IAMServiceAccount result" where
  "ExistingIAMServiceAccount name w =
     (case fmlookup (IAMServiceAccounts (w_data w)) name of
        None \<Rightarrow> (Inl ErrIAMServiceAccountNotFound, w) | Some a \<Rightarrow> (Inr a, w))"

text \<open>Get or create; the private key comes from the caller's generator.\<close>

definition IAMServiceAccount_ensure :: "env \<Rightarrow> string \<Rightarrow> error + bytes \<Rightarrow> world \<Rightarrow> IAMServiceAccount result" where
  "IAMServiceAccount_ensure E name generated w =
     (case fmlookup (IAMServiceAccounts (w_data w)) name of
        Some a \<Rightarrow> (Inr a, w)
      | None \<Rightarrow>
         (case generated of
            Inl e \<Rightarrow> (Inl e, w)
          | Inr privateKey \<Rightarrow>
             (let (kid, w1) = newID E w;
                  (t, w2) = now E w1;
                  a = \<lparr>sa_Name = name, sa_KeyID = kid, sa_PrivateKey = privateKey, sa_CreateTime = t\<rparr>
              in saveThen E a (mutate (\<lambda>d. d\<lparr>IAMServiceAccounts := fmupd name a (IAMServiceAccounts d)\<rparr>) w2))))"

section \<open>FCM messages and Vertex generations\<close>

definition RecordFCMMessage :: "env \<Rightarrow> string \<Rightarrow> json \<Rightarrow> bool \<Rightarrow> world \<Rightarrow> FCMMessage result" where
  "RecordFCMMessage E project message validateOnly w =
     (let (i, w1) = newID E w;
          (t, w2) = now E w1;
          m = \<lparr>fm_Name = ''projects/'' @ project @ ''/messages/'' @ i, fm_Project = project,
               fm_ValidateOnly = validateOnly, fm_Message = message, fm_CreatedAt = t\<rparr>
      in saveThen E m (mutate (\<lambda>d. d\<lparr>FCMMessages := FCMMessages d @ [m]\<rparr>) w2))"

definition ListFCMMessages :: "string \<Rightarrow> world \<Rightarrow> FCMMessage list" where
  "ListFCMMessages project w =
     sort_key fm_CreatedAt
       (filter (\<lambda>m. project = '''' \<or> equalFold (fm_Project m) project) (FCMMessages (w_data w)))"

definition ClearFCMMessages :: "env \<Rightarrow> world \<Rightarrow> unit result" where
  "ClearFCMMessages E w = saveThen E () (mutate (\<lambda>d. d\<lparr>FCMMessages := []\<rparr>) w)"

definition RecordVertexGeneration ::
  "env \<Rightarrow> string \<Rightarrow> string \<Rightarrow> string \<Rightarrow> string \<Rightarrow> int \<Rightarrow> int \<Rightarrow> world \<Rightarrow> VertexGeneration result" where
  "RecordVertexGeneration E project location model operation inputCharacters toolCount w =
     (let (i, w1) = newID E w;
          (t, w2) = now E w1;
          g = \<lparr>vg_Name = ''projects/'' @ project @ ''/locations/'' @ location @ ''/generations/'' @ i,
               vg_Project = project, vg_Location = location, vg_Model = model, vg_Operation = operation,
               vg_InputCharacters = inputCharacters, vg_ToolCount = toolCount, vg_CreatedAt = t\<rparr>
      in saveThen E g (mutate (\<lambda>d. d\<lparr>VertexGenerations := VertexGenerations d @ [g]\<rparr>) w2))"

definition ListVertexGenerations :: "string \<Rightarrow> world \<Rightarrow> VertexGeneration list" where
  "ListVertexGenerations project w =
     sort_key vg_CreatedAt
       (filter (\<lambda>g. project = '''' \<or> equalFold (vg_Project g) project) (VertexGenerations (w_data w)))"

definition ClearVertexGenerations :: "env \<Rightarrow> world \<Rightarrow> unit result" where
  "ClearVertexGenerations E w = saveThen E () (mutate (\<lambda>d. d\<lparr>VertexGenerations := []\<rparr>) w)"

end
