(* ===== verification/Lifecycle.thy ===== *)
theory Lifecycle
  imports S3 GCS PubSub DynamoDB Services
begin

text \<open>
  The life cycle of a store (\<^verbatim>\<open>store.go\<close>, lines 158 to 480,
  \<^verbatim>\<open>integrity.go\<close> and \<^verbatim>\<open>integrity_mode.go\<close>): opening a data
  directory, the validation of all object bodies and the removal of unreferenced files, and the
  two resets.
\<close>

section \<open>Resets\<close>

definition Reset :: "env \<Rightarrow> world \<Rightarrow> unit result" where
  "Reset E w =
     (case runSys E [ReadDir] w of
        (False, w1) \<Rightarrow> (Inl ErrOS, w1)
      | (True, w1) \<Rightarrow>
         (let entries = fmkeys (w_objects w1)
          in case saveLocked E (w1\<lparr>w_data := emptySnapshot\<rparr>) of
               (Some e, w2) \<Rightarrow> (Inl e, w2)
             | (None, w2) \<Rightarrow> (Inr (), sysDone E [OpenDir, SyncDir] (removeFiles E entries w2))))"

definition bucketFiles :: "snapshot \<Rightarrow> string list" where
  "bucketFiles d = concat (map (\<lambda>b. map obj_File (fmvalues (bk_Objects b))) (fmvalues (Buckets d)))"

definition uploadFiles :: "snapshot \<Rightarrow> string list" where
  "uploadFiles d = concat (map (\<lambda>u. map mp_File (fmvalues (mu_Parts u))) (fmvalues (MultipartUploads d)))"

definition gcsFiles :: "snapshot \<Rightarrow> string list" where
  "gcsFiles d = concat (map (\<lambda>b. map go_File (fmvalues (gb_Objects b))) (fmvalues (GCSBuckets d)))"

text \<open>What \<open>ResetWorkloadData\<close> keeps: provisioned resources, secrets and key material.\<close>

definition clearWorkload :: "snapshot \<Rightarrow> snapshot" where
  "clearWorkload d = \<lparr>
     Buckets = fmmap (\<lambda>b. b\<lparr>bk_Objects := fmempty\<rparr>) (Buckets d),
     MultipartUploads = fmempty,
     Queues = fmmap (\<lambda>q. q\<lparr>q_Messages := [], q_Deduplication := fmempty, q_NextSequenceNumber := 0\<rparr>) (Queues d),
     DynamoTables = fmmap (\<lambda>t. (cloneDynamoTable t)\<lparr>dt_Items := fmempty\<rparr>) (DynamoTables d),
     GCSBuckets = fmmap (\<lambda>b. b\<lparr>gb_Objects := fmempty\<rparr>) (GCSBuckets d),
     PubSubTopics = PubSubTopics d,
     PubSubSubscriptions = fmmap (\<lambda>s. s\<lparr>ps_Messages := []\<rparr>) (PubSubSubscriptions d),
     FirestoreDocuments = fmempty,
     Secrets = Secrets d, KMSKeyRings = KMSKeyRings d, KMSCryptoKeys = KMSCryptoKeys d,
     IAMServiceAccounts = IAMServiceAccounts d,
     FCMMessages = [], VertexGenerations = []\<rparr>"

definition ResetWorkloadData :: "env \<Rightarrow> world \<Rightarrow> unit result" where
  "ResetWorkloadData E w =
     (let d = w_data w;
          files = bucketFiles d @ uploadFiles d @ gcsFiles d
      in case saveLocked E (w\<lparr>w_data := clearWorkload d\<rparr>) of
           (Some e, w1) \<Rightarrow> (Inl e, w1)
         | (None, w1) \<Rightarrow> (Inr (), removeFiles E files w1))"

section \<open>Integrity of the object directory\<close>

definition ParseIntegrityMode :: "string \<Rightarrow> error + IntegrityMode" where
  "ParseIntegrityMode value =
     (let mode = toLower (trimSpace value)
      in if mode = '''' \<or> mode = ''startup'' then Inr IntegrityModeStartup
         else if mode = ''strict'' then Inr IntegrityModeStrict
         else Inl (ErrText ''integrity mode must be startup or strict''))"

record objectFileIntegrity =
  fi_size :: int
  fi_md5 :: string
  fi_sha256 :: string
  fi_crc32c :: string

abbreviation corrupt :: "string \<Rightarrow> error" where
  "corrupt msg \<equiv> Wrap ErrStateCorrupt msg"

definition inspectObjectFile :: "env \<Rightarrow> string \<Rightarrow> int \<Rightarrow> world \<Rightarrow> objectFileIntegrity result" where
  "inspectObjectFile E name expectedSize w =
     (case runSys E [Lstat] w of
        (False, w1) \<Rightarrow> (Inl (corrupt ''object file is missing''), w1)
      | (True, w1) \<Rightarrow>
         (case fmlookup (w_objects w1) name of
            None \<Rightarrow> (Inl (corrupt ''object file is missing''), w1)
          | Some b \<Rightarrow>
             if int (length b) \<noteq> expectedSize then
               (Inl (corrupt ''invalid metadata for object file''), w1)
             else
               (case runSys E [Open, ReadCopy] w1 of
                  (False, w2) \<Rightarrow> (Inl (corrupt ''read object file''), w2)
                | (True, w2) \<Rightarrow>
                   (Inr \<lparr>fi_size = int (length b), fi_md5 = hexEncode (e_md5 E b),
                         fi_sha256 = hexEncode (e_sha256 E b), fi_crc32c = StdEncoding (e_crc32c E b)\<rparr>, w2))))"

text \<open>
  \<open>base64.StdEncoding.DecodeString\<close>: groups of four characters, the last one padded.
\<close>

definition StdDecode :: "string \<Rightarrow> bytes option" where
  "StdDecode s =
     (let t = filter (\<lambda>c. c \<noteq> CHR 0x0A \<and> c \<noteq> CHR 0x0D) s;
          body = rev (dropWhile ((=) (CHR ''='')) (rev t));
          pad = length t - length body
      in if pad \<le> 2 \<and> length t mod 4 = 0 then b64Decode False body else None)"

definition equalMD5 :: "string \<Rightarrow> string \<Rightarrow> bool" where
  "equalMD5 actualHex expected0 =
     (let expected = trimChar (CHR 0x22) expected0
      in case StdDecode expected of
           Some raw \<Rightarrow>
             if length raw = 16 then equalFold actualHex (hexEncode raw)
             else (case hexDecode expected of
                     Some h \<Rightarrow> length h = 16 \<and> equalFold actualHex (hexEncode h) | None \<Rightarrow> False)
         | None \<Rightarrow>
             (case hexDecode expected of
                Some h \<Rightarrow> length h = 16 \<and> equalFold actualHex (hexEncode h) | None \<Rightarrow> False))"

text \<open>A reference from the state to an object file, as the three loops of the validation see it.\<close>

datatype place = AtObject string string | AtPart string int | AtGCS string string

record objRef =
  or_place :: place
  or_file :: string
  or_size :: int
  or_sha256 :: string
  or_md5 :: string
  or_crc32c :: string

definition objectRef :: "string \<Rightarrow> string \<Rightarrow> Object \<Rightarrow> objRef" where
  "objectRef b k x = \<lparr>or_place = AtObject b k, or_file = obj_File x, or_size = obj_Size x,
     or_sha256 = obj_SHA256 x, or_md5 = (if CHR ''-'' \<in> set (obj_ETag x) then '''' else obj_ETag x),
     or_crc32c = ''''\<rparr>"

definition partRef :: "string \<Rightarrow> int \<Rightarrow> MultipartPart \<Rightarrow> objRef" where
  "partRef u i p = \<lparr>or_place = AtPart u i, or_file = mp_File p, or_size = mp_Size p,
     or_sha256 = mp_SHA256 p, or_md5 = mp_ETag p, or_crc32c = ''''\<rparr>"

definition gcsRef :: "string \<Rightarrow> string \<Rightarrow> GCSObject \<Rightarrow> objRef" where
  "gcsRef b k y = \<lparr>or_place = AtGCS b k, or_file = go_File y, or_size = go_Size y,
     or_sha256 = go_SHA256 y, or_md5 = go_MD5Hash y, or_crc32c = go_CRC32C y\<rparr>"

definition objectRefs :: "snapshot \<Rightarrow> objRef list" where
  "objectRefs d =
     concat (map (\<lambda>(b, bk). map (\<lambda>(k, x). objectRef b k x) (sorted_list_of_fmap (bk_Objects bk)))
       (sorted_list_of_fmap (Buckets d))) @
     concat (map (\<lambda>(u, up). map (\<lambda>(i, p). partRef u i p) (sorted_list_of_fmap (mu_Parts up)))
       (sorted_list_of_fmap (MultipartUploads d))) @
     concat (map (\<lambda>(b, gb). map (\<lambda>(k, y). gcsRef b k y) (sorted_list_of_fmap (gb_Objects gb)))
       (sorted_list_of_fmap (GCSBuckets d)))"

text \<open>Filling in the digest of an entry stored before digests were recorded.\<close>

definition setSHA256 :: "place \<Rightarrow> string \<Rightarrow> snapshot \<Rightarrow> snapshot" where
  "setSHA256 pl h d =
     (case pl of
        AtObject b k \<Rightarrow> d\<lparr>Buckets := fmmodify b
          (\<lambda>bk. bk\<lparr>bk_Objects := fmmodify k (\<lambda>x. x\<lparr>obj_SHA256 := h\<rparr>) (bk_Objects bk)\<rparr>) (Buckets d)\<rparr>
      | AtPart u i \<Rightarrow> d\<lparr>MultipartUploads := fmmodify u
          (\<lambda>up. up\<lparr>mu_Parts := fmmodify i (\<lambda>p. p\<lparr>mp_SHA256 := h\<rparr>) (mu_Parts up)\<rparr>) (MultipartUploads d)\<rparr>
      | AtGCS b k \<Rightarrow> d\<lparr>GCSBuckets := fmmodify b
          (\<lambda>gb. gb\<lparr>gb_Objects := fmmodify k (\<lambda>y. y\<lparr>go_SHA256 := h\<rparr>) (gb_Objects gb)\<rparr>) (GCSBuckets d)\<rparr>)"

text \<open>
  The \<open>check\<close> closure. A file passes into \<open>referenced\<close> and into \<open>cache\<close> together
  unless the whole validation fails, so one map stands for both.
\<close>

definition compareIntegrity :: "objectFileIntegrity \<Rightarrow> objRef \<Rightarrow> error option" where
  "compareIntegrity fi r =
     (if or_sha256 r \<noteq> '''' \<and> \<not> equalFold (fi_sha256 fi) (or_sha256 r) then
        Some (corrupt ''SHA-256 mismatch for object file'')
      else if or_sha256 r = '''' \<and> or_md5 r \<noteq> '''' \<and> \<not> equalMD5 (fi_md5 fi) (or_md5 r) then
        Some (corrupt ''MD5 mismatch for object file'')
      else if or_crc32c r \<noteq> '''' \<and> fi_crc32c fi \<noteq> or_crc32c r then
        Some (corrupt ''CRC32C mismatch for object file'')
      else None)"

definition checkRef :: "env \<Rightarrow> objRef \<Rightarrow> objectFileIntegrity gomap \<Rightarrow> world \<Rightarrow> objectFileIntegrity gomap result" where
  "checkRef E r cache w =
     (if \<not> validSnapshotObjectName (or_file r) then (Inl (corrupt ''invalid object filename''), w)
      else case fmlookup cache (or_file r) of
        Some fi \<Rightarrow>
          if fi_size fi \<noteq> or_size r then (Inl (corrupt ''conflicting size for object file''), w)
          else (case compareIntegrity fi r of Some e \<Rightarrow> (Inl e, w) | None \<Rightarrow> (Inr cache, w))
      | None \<Rightarrow>
         (case inspectObjectFile E (or_file r) (or_size r) w of
            (Inl e, w1) \<Rightarrow> (Inl e, w1)
          | (Inr fi, w1) \<Rightarrow>
             (case compareIntegrity fi r of
                Some e \<Rightarrow> (Inl e, w1) | None \<Rightarrow> (Inr (fmupd (or_file r) fi cache), w1))))"

fun checkRefs :: "env \<Rightarrow> objRef list \<Rightarrow> objectFileIntegrity gomap \<Rightarrow> snapshot \<Rightarrow> bool \<Rightarrow> world
    \<Rightarrow> (objectFileIntegrity gomap \<times> snapshot \<times> bool) result" where
  "checkRefs E [] cache d upgraded w = (Inr (cache, d, upgraded), w)"
| "checkRefs E (r # rs) cache d upgraded w =
     (case checkRef E r cache w of
        (Inl e, w1) \<Rightarrow> (Inl e, w1)
      | (Inr cache', w1) \<Rightarrow>
         if or_sha256 r = '''' then
           checkRefs E rs cache'
             (setSHA256 (or_place r) (case fmlookup cache' (or_file r) of Some fi \<Rightarrow> fi_sha256 fi | None \<Rightarrow> '''') d)
             True w1
         else checkRefs E rs cache' d upgraded w1)"

text \<open>The removal of unreferenced files; any failing call aborts it. Every entry is a regular file.\<close>

fun removeUnreferenced :: "env \<Rightarrow> (string \<Rightarrow> bool) \<Rightarrow> string list \<Rightarrow> bool \<Rightarrow> world \<Rightarrow> bool result" where
  "removeUnreferenced E referenced [] removed w = (Inr removed, w)"
| "removeUnreferenced E referenced (f # fs) removed w =
     (if referenced f then removeUnreferenced E referenced fs removed w
      else (case runSys E [Lstat, Remove] w of
              (False, w1) \<Rightarrow> (Inl ErrOS, w1)
            | (True, w1) \<Rightarrow>
               removeUnreferenced E referenced fs True (w1\<lparr>w_objects := fmdrop f (w_objects w1)\<rparr>)))"

definition validateAndCleanupObjectState :: "env \<Rightarrow> snapshot \<Rightarrow> world \<Rightarrow> (snapshot \<times> bool) result" where
  "validateAndCleanupObjectState E d w =
     (case checkRefs E (objectRefs d) fmempty d False w of
        (Inl e, w1) \<Rightarrow> (Inl e, w1)
      | (Inr (cache, d', upgraded), w1) \<Rightarrow>
         (case runSys E [ReadDir] w1 of
            (False, w2) \<Rightarrow> (Inl ErrOS, w2)
          | (True, w2) \<Rightarrow>
             (case removeUnreferenced E (\<lambda>f. fmlookup cache f \<noteq> None) (fmkeys (w_objects w2)) False w2 of
                (Inl e, w3) \<Rightarrow> (Inl e, w3)
              | (Inr removed, w3) \<Rightarrow>
                 if removed then
                   (case runSys E [OpenDir, SyncDir] w3 of
                      (False, w4) \<Rightarrow> (Inl ErrOS, w4)
                    | (True, w4) \<Rightarrow> (Inr (d', upgraded), w4))
                 else (Inr (d', upgraded), w3))))"

section \<open>Opening a data directory\<close>

text \<open>The content of \<open>state.json\<close>: absent, not a state document, or one.\<close>

datatype state_file = NoFile | Garbage | Doc state_doc

definition maxPersistentStateSize :: int where
  "maxPersistentStateSize = 268435456"

datatype read_state = ReadMissing | ReadError error | ReadRaw state_file

definition readPersistentStateFile :: "env \<Rightarrow> state_file \<Rightarrow> world \<Rightarrow> read_state \<times> world" where
  "readPersistentStateFile E file w =
     (case file of
        NoFile \<Rightarrow>
         (case runSys E [Lstat] w of (False, w1) \<Rightarrow> (ReadError ErrOS, w1) | (True, w1) \<Rightarrow> (ReadMissing, w1))
      | Garbage \<Rightarrow>
         (case runSys E [Lstat, ReadFile] w of (False, w1) \<Rightarrow> (ReadError ErrOS, w1) | (True, w1) \<Rightarrow> (ReadRaw Garbage, w1))
      | Doc doc \<Rightarrow>
         (case runSys E [Lstat] w of
            (False, w1) \<Rightarrow> (ReadError ErrOS, w1)
          | (True, w1) \<Rightarrow>
             if e_stateSize E doc > maxPersistentStateSize then
               (ReadError (corrupt ''state.json exceeds the size limit''), w1)
             else (case runSys E [ReadFile] w1 of
                     (False, w2) \<Rightarrow> (ReadError ErrOS, w2) | (True, w2) \<Rightarrow> (ReadRaw (Doc doc), w2))))"

definition initializeCommittedState :: "world \<Rightarrow> error option \<times> world" where
  "initializeCommittedState w =
     (case encodeSnapshot (w_data w) of
        None \<Rightarrow> (Some marshalError, w)
      | Some raw \<Rightarrow> (None, w\<lparr>w_committedRaw := Some raw\<rparr>))"

text \<open>
  The part of \<open>OpenWithOptions\<close> that follows the lock and the recovery of an interrupted
  snapshot restore.
\<close>

definition openData :: "env \<Rightarrow> IntegrityMode \<Rightarrow> state_file \<Rightarrow> world \<Rightarrow> unit result" where
  "openData E mode file w0 =
     (let w = w0\<lparr>w_data := emptySnapshot, w_committedRaw := None, w_integrityMode := mode\<rparr>
      in case readPersistentStateFile E file w of
           (ReadMissing, w1) \<Rightarrow>
             (case validateAndCleanupObjectState E (w_data w1) w1 of
                (Inl e, w2) \<Rightarrow> (Inl e, w2)
              | (Inr (d, _), w2) \<Rightarrow>
                 (case initializeCommittedState (w2\<lparr>w_data := d\<rparr>) of
                    (Some e, w3) \<Rightarrow> (Inl e, w3) | (None, w3) \<Rightarrow> (Inr (), w3)))
         | (ReadError e, w1) \<Rightarrow> (Inl e, w1)
         | (ReadRaw (Doc doc), w1) \<Rightarrow>
             (case validateSnapshotStructure doc of
                Some e \<Rightarrow> (Inl (corrupt ''null entry''), w1)
              | None \<Rightarrow>
                 (case initializeCommittedState (w1\<lparr>w_data := normalizeSnapshot doc\<rparr>) of
                    (Some e, w2) \<Rightarrow> (Inl e, w2)
                  | (None, w2) \<Rightarrow>
                     (case validateAndCleanupObjectState E (w_data w2) w2 of
                        (Inl e, w3) \<Rightarrow> (Inl e, w3)
                      | (Inr (d, upgraded), w3) \<Rightarrow>
                         if upgraded then
                           (case saveLocked E (w3\<lparr>w_data := d\<rparr>) of
                              (Some e, w4) \<Rightarrow> (Inl e, w4) | (None, w4) \<Rightarrow> (Inr (), w4))
                         else (Inr (), w3\<lparr>w_data := d\<rparr>))))
         | (ReadRaw _, w1) \<Rightarrow> (Inl (corrupt ''decode state''), w1))"

end
