(* ===== verification/Store_Invariant.thy ===== *)
theory Store_Invariant
  imports Lifecycle
begin

text \<open>
  The invariant of the whole store: names agree with keys, message receipts and acknowledgement
  identifiers are unique, a queue's redrive target is another queue of the same type, uploads
  belong to existing buckets, versions are numbered consecutively, crypto keys belong to key rings,
  and every referenced object body is on disk and intact. Each part is a predicate on the fields it
  concerns, so an operation on other fields keeps it by rewriting.
\<close>

section \<open>Queues\<close>

text \<open>
  Receipts of stored messages come from identifiers already minted, and no two are equal as long as
  the identifiers minted so far have not repeated.
\<close>

definition receiptsBelow :: "env \<Rightarrow> nat \<Rightarrow> Message list \<Rightarrow> bool" where
  "receiptsBelow E n ms \<longleftrightarrow>
     (\<forall>m \<in> set ms. msg_ReceiptHandle m = '''' \<or> (\<exists>i < n. msg_ReceiptHandle m = mint E i))"

definition liveReceipts :: "Message list \<Rightarrow> string list" where
  "liveReceipts ms = filter (\<lambda>r. r \<noteq> '''') (map msg_ReceiptHandle ms)"

definition redriveOK :: "env \<Rightarrow> Queue \<Rightarrow> bool" where
  "redriveOK E q \<longleftrightarrow>
     (case deadLetterName E q of
        None \<Rightarrow> True
      | Some target \<Rightarrow>
          target \<noteq> '''' \<and> target \<noteq> q_Name q \<and>
          hasSuffix target ''.fifo'' = hasSuffix (q_Name q) ''.fifo'')"

definition queueOK :: "env \<Rightarrow> nat \<Rightarrow> string \<Rightarrow> Queue \<Rightarrow> bool" where
  "queueOK E n name q \<longleftrightarrow>
     q_Name q = name \<and> queueIsFIFO q = hasSuffix name ''.fifo'' \<and> redriveOK E q \<and>
     receiptsBelow E n (q_Messages q) \<and> (fresh_ids E n \<longrightarrow> distinct (liveReceipts (q_Messages q)))"

definition queuesOK :: "env \<Rightarrow> nat \<Rightarrow> Queue gomap \<Rightarrow> bool" where
  "queuesOK E n qs \<longleftrightarrow> (\<forall>name q. fmlookup qs name = Some q \<longrightarrow> queueOK E n name q)"

section \<open>Object stores\<close>

definition bucketOK :: "string \<Rightarrow> Bucket \<Rightarrow> bool" where
  "bucketOK name b \<longleftrightarrow> bk_Name b = name \<and> CHR 0x00 \<notin> set name \<and>
     (\<forall>k x. fmlookup (bk_Objects b) k = Some x \<longrightarrow> obj_Key x = k)"

definition bucketsOK :: "Bucket gomap \<Rightarrow> bool" where
  "bucketsOK bs \<longleftrightarrow> (\<forall>name b. fmlookup bs name = Some b \<longrightarrow> bucketOK name b)"

definition partOK :: "int \<Rightarrow> MultipartPart \<Rightarrow> bool" where
  "partOK i p \<longleftrightarrow> mp_PartNumber p = i \<and> 1 \<le> i \<and> i \<le> 10000 \<and> hexDecode (mp_ETag p) \<noteq> None"

definition uploadOK :: "env \<Rightarrow> nat \<Rightarrow> Bucket gomap \<Rightarrow> string \<Rightarrow> MultipartUpload \<Rightarrow> bool" where
  "uploadOK E n bs u up \<longleftrightarrow>
     mu_ID up = u \<and> (\<exists>j < n. u = mint E j) \<and> fmlookup bs (mu_Bucket up) \<noteq> None \<and>
     (\<forall>i p. fmlookup (mu_Parts up) i = Some p \<longrightarrow> partOK i p)"

definition uploadsOK :: "env \<Rightarrow> nat \<Rightarrow> Bucket gomap \<Rightarrow> MultipartUpload gomap \<Rightarrow> bool" where
  "uploadsOK E n bs ups \<longleftrightarrow> (\<forall>u up. fmlookup ups u = Some up \<longrightarrow> uploadOK E n bs u up)"

definition gcsBucketOK :: "string \<Rightarrow> GCSBucket \<Rightarrow> bool" where
  "gcsBucketOK name b \<longleftrightarrow> gb_Name b = name \<and> CHR 0x00 \<notin> set name \<and>
     (\<forall>k y. fmlookup (gb_Objects b) k = Some y \<longrightarrow> go_Name y = k \<and> go_Bucket y = name)"

definition gcsOK :: "GCSBucket gomap \<Rightarrow> bool" where
  "gcsOK bs \<longleftrightarrow> (\<forall>name b. fmlookup bs name = Some b \<longrightarrow> gcsBucketOK name b)"

section \<open>Pub/Sub\<close>

definition acksBelow :: "env \<Rightarrow> nat \<Rightarrow> PubSubMessage list \<Rightarrow> bool" where
  "acksBelow E n ms \<longleftrightarrow> (\<forall>m \<in> set ms. pm_AckID m = '''' \<or> (\<exists>i < n. pm_AckID m = mint E i))"

definition liveAcks :: "PubSubMessage list \<Rightarrow> string list" where
  "liveAcks ms = filter (\<lambda>a. a \<noteq> '''') (map pm_AckID ms)"

definition subOK :: "env \<Rightarrow> nat \<Rightarrow> PubSubTopic gomap \<Rightarrow> string \<Rightarrow> PubSubSubscription \<Rightarrow> bool" where
  "subOK E n topics name s \<longleftrightarrow>
     ps_Name s = name \<and> (ps_Topic s = deletedTopic \<or> fmlookup topics (ps_Topic s) \<noteq> None) \<and>
     acksBelow E n (ps_Messages s) \<and> (fresh_ids E n \<longrightarrow> distinct (liveAcks (ps_Messages s)))"

definition subsOK :: "env \<Rightarrow> nat \<Rightarrow> PubSubTopic gomap \<Rightarrow> PubSubSubscription gomap \<Rightarrow> bool" where
  "subsOK E n topics subs \<longleftrightarrow> (\<forall>name s. fmlookup subs name = Some s \<longrightarrow> subOK E n topics name s)"

definition topicsOK :: "PubSubTopic gomap \<Rightarrow> bool" where
  "topicsOK ts \<longleftrightarrow> (\<forall>name t. fmlookup ts name = Some t \<longrightarrow> pt_Name t = name)"

section \<open>Tables, secrets and keys\<close>

definition tablesOK :: "DynamoTable gomap \<Rightarrow> bool" where
  "tablesOK ts \<longleftrightarrow> (\<forall>name t. fmlookup ts name = Some t \<longrightarrow>
     dt_Name t = name \<and> validateDynamoTable name (dt_KeySchema t) (dt_AttributeDefinitions t) = None)"

definition numbered :: "int list \<Rightarrow> bool" where
  "numbered ns \<longleftrightarrow> ns = map (\<lambda>i. int i + 1) [0..<length ns]"

definition secretsOK :: "Secret gomap \<Rightarrow> bool" where
  "secretsOK ss \<longleftrightarrow> (\<forall>name s. fmlookup ss name = Some s \<longrightarrow>
     sc_Name s = name \<and> numbered (map sv_Number (sc_Versions s)) \<and>
     (\<forall>v \<in> set (sc_Versions s). sv_State v = ''DESTROYED'' \<longrightarrow> sv_Payload v = []))"

definition kmsOK :: "KMSKeyRing gomap \<Rightarrow> KMSCryptoKey gomap \<Rightarrow> bool" where
  "kmsOK rings keys \<longleftrightarrow>
     (\<forall>name k. fmlookup keys name = Some k \<longrightarrow>
        ck_Name k = name \<and> (\<exists>ring. keyRingOf name = Some ring \<and> fmlookup rings ring \<noteq> None)) \<and>
     (\<forall>name r. fmlookup rings name = Some r \<longrightarrow> kr_Name r = name)"

section \<open>The whole store\<close>

text \<open>
  What the object directory relies on from its environment, that SHA-256 has no collision among the
  inputs hashed (the members of \<open>S\<close>), is part of the invariant.
\<close>

definition storeOK :: "env \<Rightarrow> bytes set \<Rightarrow> nat \<Rightarrow> bytes gomap \<Rightarrow> snapshot \<Rightarrow> bool" where
  "storeOK E S n objs d \<longleftrightarrow>
     digests_ok E S \<and> queuesOK E n (Queues d) \<and> bucketsOK (Buckets d) \<and> uploadsOK E n (Buckets d) (MultipartUploads d) \<and>
     gcsOK (GCSBuckets d) \<and> topicsOK (PubSubTopics d) \<and>
     subsOK E n (PubSubTopics d) (PubSubSubscriptions d) \<and> tablesOK (DynamoTables d) \<and>
     secretsOK (Secrets d) \<and> kmsOK (KMSKeyRings d) (KMSCryptoKeys d) \<and> bodiesOK E S d objs"

lemma receiptsBelow_mono: "receiptsBelow E n ms \<Longrightarrow> n \<le> k \<Longrightarrow> receiptsBelow E k ms"
  unfolding receiptsBelow_def by (meson less_le_trans)

lemma acksBelow_mono: "acksBelow E n ms \<Longrightarrow> n \<le> k \<Longrightarrow> acksBelow E k ms"
  unfolding acksBelow_def by (meson less_le_trans)

lemma queuesOK_mono: "queuesOK E n qs \<Longrightarrow> n \<le> k \<Longrightarrow> queuesOK E k qs"
  unfolding queuesOK_def queueOK_def by (blast intro: receiptsBelow_mono fresh_ids_mono)

lemma uploadsOK_mono: "uploadsOK E n bs ups \<Longrightarrow> n \<le> k \<Longrightarrow> uploadsOK E k bs ups"
  unfolding uploadsOK_def uploadOK_def by (meson less_le_trans)

lemma subsOK_mono: "subsOK E n ts ss \<Longrightarrow> n \<le> k \<Longrightarrow> subsOK E k ts ss"
  unfolding subsOK_def subOK_def by (blast intro: acksBelow_mono fresh_ids_mono)

text \<open>The type of a queue and its redrive target depend on the name and the attributes only.\<close>

lemma queueIsFIFO_frame [simp]:
  "queueIsFIFO (q\<lparr>q_Messages := m\<rparr>) = queueIsFIFO q" "queueIsFIFO (q\<lparr>q_Deduplication := x\<rparr>) = queueIsFIFO q"
  "queueIsFIFO (q\<lparr>q_NextSequenceNumber := n\<rparr>) = queueIsFIFO q"
  by (simp_all add: queueIsFIFO_def)

lemma deadLetterName_frame [simp]:
  "deadLetterName E (q\<lparr>q_Messages := m\<rparr>) = deadLetterName E q"
  "deadLetterName E (q\<lparr>q_Deduplication := x\<rparr>) = deadLetterName E q"
  "deadLetterName E (q\<lparr>q_NextSequenceNumber := n\<rparr>) = deadLetterName E q"
  by (simp_all add: deadLetterName_def activeRedrive_def)

lemma redriveOK_frame [simp]:
  "redriveOK E (q\<lparr>q_Messages := m\<rparr>) = redriveOK E q" "redriveOK E (q\<lparr>q_Deduplication := x\<rparr>) = redriveOK E q"
  "redriveOK E (q\<lparr>q_NextSequenceNumber := n\<rparr>) = redriveOK E q"
  by (simp_all add: redriveOK_def split: option.split)

lemma queueOK_dedup [simp]:
  "queueOK E n name (q\<lparr>q_Deduplication := x\<rparr>) = queueOK E n name q"
  "queueOK E n name (q\<lparr>q_NextSequenceNumber := k\<rparr>) = queueOK E n name q"
  by (simp_all add: queueOK_def)

lemma queuesOK_sameLive: "sameLive d d' \<Longrightarrow> queuesOK E n (Queues d) \<Longrightarrow> queuesOK E n (Queues d')"
  unfolding queuesOK_def
proof (intro allI impI)
  fix name q'
  assume s: "sameLive d d'" and ok: "\<forall>name q. fmlookup (Queues d) name = Some q \<longrightarrow> queueOK E n name q"
    and q': "fmlookup (Queues d') name = Some q'"
  from sameLive_queue [OF s, of name] q' obtain q where q: "fmlookup (Queues d) name = Some q"
    "q\<lparr>q_Deduplication := fmempty\<rparr> = q'\<lparr>q_Deduplication := fmempty\<rparr>" by auto
  from ok q(1) have "queueOK E n name (q\<lparr>q_Deduplication := fmempty\<rparr>)" by simp
  then show "queueOK E n name q'" unfolding q(2) by simp
qed

interpretation ok: live_invariant "storeOK E S" for E S
proof
  fix d d' n objs
  show "sameLive d d' \<Longrightarrow> storeOK E S n objs d \<Longrightarrow> storeOK E S n objs d'"
    using queuesOK_sameLive [of d d' E n] bodiesOK_sameLive [of d d' E S objs]
    by (simp add: storeOK_def sameLive_fields [of d d'])
  fix m
  show "storeOK E S n objs d \<Longrightarrow> n \<le> m \<Longrightarrow> storeOK E S m objs d"
    by (auto simp: storeOK_def intro: queuesOK_mono uploadsOK_mono subsOK_mono)
qed

text \<open>The parts of the invariant under the field updates of the operations.\<close>

lemma bodiesOK_frame [simp]:
  "bodiesOK E S (d\<lparr>Queues := q\<rparr>) objs = bodiesOK E S d objs"
  "bodiesOK E S (d\<lparr>DynamoTables := t\<rparr>) objs = bodiesOK E S d objs"
  "bodiesOK E S (d\<lparr>PubSubTopics := p\<rparr>) objs = bodiesOK E S d objs"
  "bodiesOK E S (d\<lparr>PubSubSubscriptions := s\<rparr>) objs = bodiesOK E S d objs"
  "bodiesOK E S (d\<lparr>FirestoreDocuments := f\<rparr>) objs = bodiesOK E S d objs"
  "bodiesOK E S (d\<lparr>Secrets := c\<rparr>) objs = bodiesOK E S d objs"
  "bodiesOK E S (d\<lparr>KMSKeyRings := k\<rparr>) objs = bodiesOK E S d objs"
  "bodiesOK E S (d\<lparr>KMSCryptoKeys := y\<rparr>) objs = bodiesOK E S d objs"
  "bodiesOK E S (d\<lparr>IAMServiceAccounts := a\<rparr>) objs = bodiesOK E S d objs"
  "bodiesOK E S (d\<lparr>FCMMessages := x\<rparr>) objs = bodiesOK E S d objs"
  "bodiesOK E S (d\<lparr>VertexGenerations := v\<rparr>) objs = bodiesOK E S d objs"
  by (auto simp: bodiesOK_def fileRef_cong [of "d\<lparr>Queues := q\<rparr>" d]
      fileRef_cong [of "d\<lparr>DynamoTables := t\<rparr>" d] fileRef_cong [of "d\<lparr>PubSubTopics := p\<rparr>" d]
      fileRef_cong [of "d\<lparr>PubSubSubscriptions := s\<rparr>" d] fileRef_cong [of "d\<lparr>FirestoreDocuments := f\<rparr>" d]
      fileRef_cong [of "d\<lparr>Secrets := c\<rparr>" d] fileRef_cong [of "d\<lparr>KMSKeyRings := k\<rparr>" d]
      fileRef_cong [of "d\<lparr>KMSCryptoKeys := y\<rparr>" d] fileRef_cong [of "d\<lparr>IAMServiceAccounts := a\<rparr>" d]
      fileRef_cong [of "d\<lparr>FCMMessages := x\<rparr>" d] fileRef_cong [of "d\<lparr>VertexGenerations := v\<rparr>" d])

lemma storeOK_empty [simp]: "digests_ok E S \<Longrightarrow> storeOK E S n objs emptySnapshot"
  by (simp add: storeOK_def) (simp add: emptySnapshot_def queuesOK_def bucketsOK_def uploadsOK_def
      gcsOK_def topicsOK_def subsOK_def tablesOK_def secretsOK_def kmsOK_def)

text \<open>The rules for operations that change the live data and save, and touch no object file.\<close>

lemma ok_save:
  assumes "ok.holds E S w"
    and "ahead w (w1\<lparr>w_data := w_data w\<rparr>)" "w_objects w1 = w_objects w"
    and "storeOK E S (w_ids w1) (w_objects w) (w_data w) \<Longrightarrow> storeOK E S (w_ids w1) (w_objects w) (w_data w1)"
    and "dynamo_clean (w_data w) \<Longrightarrow> dynamo_clean (w_data w1)"
  shows "ok.outcome E S w (saveThen E' v w1)"
proof -
  have ids: "w_ids w \<le> w_ids w1" using assms(2) by (simp add: ahead_def)
  with assms(1) have "storeOK E S (w_ids w1) (w_objects w) (w_data w)"
    by (auto simp: ok.holds_def intro: ok.inv_ids)
  then have new: "storeOK E S (w_ids w1) (w_objects w) (w_data w1)" by (rule assms(4))
  have "dynamo_clean (w_data w1)" using assms(1,5) by (simp add: ok.holds_def durable_dynamo_clean)
  with ok.outcome_save [OF assms(1,2), of "w_data w1" E' v] new assms(3) show ?thesis by simp
qed

lemma ok_holds_parts:
  assumes "ok.holds E S w"
  shows "durable w" "storeOK E S (w_ids w) (w_objects w) (w_data w)" "dynamo_clean (w_data w)"
  using assms by (auto simp: ok.holds_def durable_def)

section \<open>Changing one entry\<close>

lemma queuesOK_upd: "queuesOK E n qs \<Longrightarrow> queueOK E n name q \<Longrightarrow> queuesOK E n (fmupd name q qs)"
  by (simp add: queuesOK_def)

lemma queuesOK_drop: "queuesOK E n qs \<Longrightarrow> queuesOK E n (fmdrop name qs)"
  by (simp add: queuesOK_def)

lemma storeOK_Queues:
  "storeOK E S n objs d \<Longrightarrow> queuesOK E n qs \<Longrightarrow> storeOK E S n objs (d\<lparr>Queues := qs\<rparr>)"
  by (simp add: storeOK_def)

lemma storeOK_queue: "storeOK E S n objs d \<Longrightarrow> fmlookup (Queues d) name = Some q \<Longrightarrow> queueOK E n name q"
  by (simp add: storeOK_def queuesOK_def)

lemma holds_queue: "ok.holds E S w \<Longrightarrow> fmlookup (Queues (w_data w)) name = Some q \<Longrightarrow> queueOK E (w_ids w) name q"
  by (auto simp: ok.holds_def intro: storeOK_queue)

lemma holds_env: "ok.holds E S w \<Longrightarrow> digests_ok E S"
  by (simp add: ok.holds_def storeOK_def)

section \<open>What a successful operation leaves behind\<close>

lemma saveThen_Inr:
  assumes "ok.holds E S w" "ahead w w0" "dynamo_clean d" "saveThen E' v (w0\<lparr>w_data := d\<rparr>) = (Inr r, w')"
  shows "r = v" "w_data w' = d" "diskState w' = d" "w_ids w' = w_ids w0" "w_clock w' = w_clock w0"
    "w_objects w' = w_objects w0"
proof -
  have d0: "durable w0" using assms(1,2) ahead_durable by (auto simp: ok.holds_def)
  from assms(4) have "r = v" and s: "saveLocked E' (w0\<lparr>w_data := d\<rparr>) = (None, w')"
    by (auto simp: saveThen_def split: prod.splits option.splits)
  then show "r = v" "w_data w' = d" "diskState w' = d" "w_ids w' = w_ids w0" "w_clock w' = w_clock w0"
    "w_objects w' = w_objects w0"
    using saveLocked_commit(2,4) [OF d0 refl assms(3) s] by auto
qed

lemma holds_clean: "ok.holds E S w \<Longrightarrow> dynamo_clean (w_data w)"
  using ok_holds_parts(3) .

lemma saved_Inr:
  assumes "ok.holds E S w" "saveThen E' v w1 = (Inr r, w')" "ahead w (w1\<lparr>w_data := w_data w\<rparr>)"
    "dynamo_clean (w_data w) \<Longrightarrow> dynamo_clean (w_data w1)"
  shows "r = v" "w_data w' = w_data w1" "diskState w' = w_data w1" "w_ids w' = w_ids w1" "w_clock w' = w_clock w1"
    "w_objects w' = w_objects w1"
  using saveThen_Inr [OF assms(1,3), of "w_data w1" E' v r w'] assms(2) assms(4) [OF holds_clean [OF assms(1)]] by simp_all

end
