(* ===== verification/SQS_Correct.thy ===== *)
theory SQS_Correct
  imports Store_Invariant
begin

text \<open>
  Correctness of the queue service: what the receive loop hands out, keeps and moves; the
  invariant of the queues and that every operation keeps it; FIFO deduplication; the effect of
  acknowledging a receipt.
\<close>

section \<open>The receive loop\<close>

abbreviation loopRun where
  "loopRun E t maxN vis fifo mr ms dlq ids \<equiv>
     fold (recvStep E t maxN vis fifo mr) ms
       \<lparr>rv_result = [], rv_remaining = [], rv_blocked = [], rv_dlq = dlq, rv_changed = False, rv_ids = ids\<rparr>"

text \<open>The four things a turn of the loop can do.\<close>

lemma recvStep_cases [case_names keep block dead hand]:
  fixes E t maxN vis fifo mr x s
  defines "s' \<equiv> recvStep E t maxN vis fifo mr x s"
  obtains "fifo" "msg_MessageGroupID x \<in> set (rv_blocked s)" "s' = s\<lparr>rv_remaining := rv_remaining s @ [x]\<rparr>"
  | "fifo \<longrightarrow> msg_MessageGroupID x \<notin> set (rv_blocked s)"
    "s' = s\<lparr>rv_remaining := rv_remaining s @ [x],
         rv_blocked := (if fifo then msg_MessageGroupID x # rv_blocked s else rv_blocked s)\<rparr>"
    "t < msg_VisibleAt x \<or> maxN \<le> int (length (rv_result s))"
  | d where "fifo \<longrightarrow> msg_MessageGroupID x \<notin> set (rv_blocked s)" "rv_dlq s = Some d"
    "msg_VisibleAt x \<le> t" "mr \<le> msg_ReceiveCount x"
    "s' = s\<lparr>rv_dlq := Some (deadLetter t x d), rv_changed := True\<rparr>"
  | "fifo \<longrightarrow> msg_MessageGroupID x \<notin> set (rv_blocked s)" "msg_VisibleAt x \<le> t"
    "rv_dlq s \<noteq> None \<longrightarrow> msg_ReceiveCount x < mr" "int (length (rv_result s)) < maxN"
    "s' = s\<lparr>rv_result := rv_result s @ [deliver E t vis (rv_ids s) x],
         rv_remaining := rv_remaining s @ [deliver E t vis (rv_ids s) x],
         rv_changed := True, rv_ids := Suc (rv_ids s)\<rparr>"
proof (cases "fifo \<and> msg_MessageGroupID x \<in> set (rv_blocked s)")
  case True
  with that(1) show ?thesis by (simp add: s'_def recvStep_def)
next
  case nb: False
  show ?thesis
  proof (cases "t < msg_VisibleAt x")
    case True
    with nb that(2) show ?thesis by (simp add: s'_def recvStep_def)
  next
    case vis: False
    show ?thesis
    proof (cases "rv_dlq s \<noteq> None \<and> mr \<le> msg_ReceiveCount x")
      case True
      then obtain d where "rv_dlq s = Some d" by auto
      moreover from this True nb vis have "s' = s\<lparr>rv_dlq := Some (deadLetter t x d), rv_changed := True\<rparr>"
        by (auto simp: s'_def recvStep_def)
      ultimately show ?thesis using True nb vis that(3) by simp
    next
      case nd: False
      show ?thesis
      proof (cases "int (length (rv_result s)) < maxN")
        case True
        with nb vis nd that(4) show ?thesis by (auto simp: s'_def recvStep_def Let_def not_le)
      next
        case False
        with nb vis nd that(2) show ?thesis by (auto simp: s'_def recvStep_def Let_def)
      qed
    qed
  qed
qed

lemma recv_result_bound:
  "0 \<le> maxN \<Longrightarrow> int (length (rv_result (loopRun E t maxN vis fifo mr ms dlq ids))) \<le> maxN"
proof (induction ms rule: rev_induct)
  case (snoc x ms)
  show ?case
    by (cases rule: recvStep_cases [of fifo x "loopRun E t maxN vis fifo mr ms dlq ids" E t maxN vis mr])
      (use snoc in simp_all)
qed simp

text \<open>Identifiers are drawn from the supply in order, one per message handed out.\<close>

lemma recv_receipts:
  "map msg_ReceiptHandle (rv_result (loopRun E t maxN vis fifo mr ms dlq ids)) =
   map (mint E) [ids..<rv_ids (loopRun E t maxN vis fifo mr ms dlq ids)] \<and>
   ids \<le> rv_ids (loopRun E t maxN vis fifo mr ms dlq ids)"
proof (induction ms rule: rev_induct)
  case (snoc x ms)
  show ?case
    by (cases rule: recvStep_cases [of fifo x "loopRun E t maxN vis fifo mr ms dlq ids" E t maxN vis mr])
      (use snoc in \<open>simp_all add: deliver_def\<close>)
qed simp

text \<open>
  Everything handed out was visible, was taken from the queue, and is kept in the queue with a new
  receipt and its visibility postponed. With a dead-letter queue, nothing is handed out more often
  than the redrive policy allows.
\<close>

definition deliveredFrom :: "env \<Rightarrow> time \<Rightarrow> int \<Rightarrow> Message list \<Rightarrow> Message \<Rightarrow> bool" where
  "deliveredFrom E t vis ms r \<longleftrightarrow>
     (\<exists>m i. m \<in> set ms \<and> msg_VisibleAt m \<le> t \<and> r = deliver E t vis i m)"

lemma recv_dlq_None:
  "rv_dlq (loopRun E t maxN vis fifo mr ms dlq ids) = None \<longleftrightarrow> dlq = None"
  by (induction ms rule: rev_induct) (auto simp: recvStep_def Let_def)

lemma recv_delivered:
  "r \<in> set (rv_result (loopRun E t maxN vis fifo mr ms dlq ids)) \<Longrightarrow>
   deliveredFrom E t vis ms r \<and> r \<in> set (rv_remaining (loopRun E t maxN vis fifo mr ms dlq ids)) \<and>
   (dlq \<noteq> None \<longrightarrow> msg_ReceiveCount r \<le> mr)"
proof (induction ms arbitrary: r rule: rev_induct)
  case (snoc x ms)
  let ?s = "loopRun E t maxN vis fifo mr ms dlq ids"
  have mono: "deliveredFrom E t vis (ms @ [x]) r" if "deliveredFrom E t vis ms r"
    using that by (auto simp: deliveredFrom_def)
  show ?case
  proof (cases rule: recvStep_cases [of fifo x ?s E t maxN vis mr])
    case hand
    show ?thesis
    proof (cases "r \<in> set (rv_result ?s)")
      case True
      with snoc.IH hand(5) mono show ?thesis by simp
    next
      case False
      with snoc.prems hand(5) have r: "r = deliver E t vis (rv_ids ?s) x" by simp
      have "deliveredFrom E t vis (ms @ [x]) r" using r hand(2) by (auto simp: deliveredFrom_def)
      moreover have "dlq \<noteq> None \<longrightarrow> msg_ReceiveCount r \<le> mr"
        using r hand(3) recv_dlq_None [of E t maxN vis fifo mr ms dlq ids] by (auto simp: deliver_def)
      ultimately show ?thesis using hand(5) r by simp
    qed
  qed (use snoc mono in simp_all)
qed simp

text \<open>No message is lost or duplicated: each is kept or moved to the dead-letter queue.\<close>

lemma deadLetter_messages:
  "map msg_MessageID (q_Messages (deadLetter t m d)) = map msg_MessageID (q_Messages d) @ [msg_MessageID m]"
  by (simp add: deadLetter_def Let_def nextFIFOSequenceNumber_def)

lemma deadLetter_simps [simp]:
  "q_Name (deadLetter t m d) = q_Name d" "q_Attributes (deadLetter t m d) = q_Attributes d"
  "q_CreatedAt (deadLetter t m d) = q_CreatedAt d"
  by (simp_all add: deadLetter_def Let_def nextFIFOSequenceNumber_def)

lemma deliver_simps [simp]:
  "msg_MessageID (deliver E t vis i m) = msg_MessageID m" "msg_Body (deliver E t vis i m) = msg_Body m"
  "msg_MessageGroupID (deliver E t vis i m) = msg_MessageGroupID m"
  "msg_ReceiptHandle (deliver E t vis i m) = mint E i"
  by (simp_all add: deliver_def)

definition queueIDs :: "Queue option \<Rightarrow> string multiset" where
  "queueIDs d = (case d of None \<Rightarrow> {#} | Some q \<Rightarrow> mset (map msg_MessageID (q_Messages q)))"

lemma queueIDs_deadLetter:
  "queueIDs (Some (deadLetter t x d)) = add_mset (msg_MessageID x) (queueIDs (Some d))"
  using arg_cong [OF deadLetter_messages [of t x d], of mset] by (simp add: queueIDs_def)

lemma recv_conservation:
  "mset (map msg_MessageID (rv_remaining (loopRun E t maxN vis fifo mr ms dlq ids))) +
   queueIDs (rv_dlq (loopRun E t maxN vis fifo mr ms dlq ids)) =
   mset (map msg_MessageID ms) + queueIDs dlq"
proof (induction ms rule: rev_induct)
  case (snoc x ms)
  show ?case
    by (cases rule: recvStep_cases [of fifo x "loopRun E t maxN vis fifo mr ms dlq ids" E t maxN vis mr])
      (use snoc in \<open>simp_all add: queueIDs_deadLetter\<close>)
qed simp

text \<open>A loop that changed nothing kept every message as it was.\<close>

lemma recv_unchanged:
  "\<not> rv_changed (loopRun E t maxN vis fifo mr ms dlq ids) \<Longrightarrow>
   rv_remaining (loopRun E t maxN vis fifo mr ms dlq ids) = ms \<and>
   rv_dlq (loopRun E t maxN vis fifo mr ms dlq ids) = dlq \<and>
   rv_result (loopRun E t maxN vis fifo mr ms dlq ids) = [] \<and>
   rv_ids (loopRun E t maxN vis fifo mr ms dlq ids) = ids"
proof (induction ms rule: rev_induct)
  case (snoc x ms)
  show ?case
    by (cases rule: recvStep_cases [of fifo x "loopRun E t maxN vis fifo mr ms dlq ids" E t maxN vis mr])
      (use snoc in simp_all)
qed simp

text \<open>
  The order rule of FIFO queues. A message kept without being handed out blocks its group for the
  rest of the loop, so whatever is handed out has no undelivered message of its group before it.
\<close>

definition fifoOrdered :: "Message list \<Rightarrow> Message list \<Rightarrow> bool" where
  "fifoOrdered result remaining \<longleftrightarrow>
     (\<forall>xs m ys. remaining = xs @ m # ys \<longrightarrow> m \<in> set result \<longrightarrow>
        (\<forall>m' \<in> set xs. msg_MessageGroupID m' = msg_MessageGroupID m \<longrightarrow> m' \<in> set result))"

lemma fifoOrdered_keep: "fifoOrdered res rem \<Longrightarrow> x \<notin> set res \<Longrightarrow> fifoOrdered res (rem @ [x])"
  unfolding fifoOrdered_def
proof (intro allI impI ballI)
  fix xs m ys m'
  assume ord: "\<forall>xs m ys. rem = xs @ m # ys \<longrightarrow> m \<in> set res \<longrightarrow>
      (\<forall>m' \<in> set xs. msg_MessageGroupID m' = msg_MessageGroupID m \<longrightarrow> m' \<in> set res)"
    and x: "x \<notin> set res" and split: "rem @ [x] = xs @ m # ys" and m: "m \<in> set res"
    and m': "m' \<in> set xs" "msg_MessageGroupID m' = msg_MessageGroupID m"
  from split x m obtain zs where "rem = xs @ m # zs" by (cases ys rule: rev_cases) auto
  with ord m m' show "m' \<in> set res" by blast
qed

lemma fifoOrdered_hand:
  assumes ord: "fifoOrdered res rem" and new: "y \<notin> set rem"
    and grp: "\<And>m'. m' \<in> set rem \<Longrightarrow> msg_MessageGroupID m' = msg_MessageGroupID y \<Longrightarrow> m' \<in> set res"
  shows "fifoOrdered (res @ [y]) (rem @ [y])"
  unfolding fifoOrdered_def
proof (intro allI impI ballI)
  fix xs m ys m'
  assume split: "rem @ [y] = xs @ m # ys" and m: "m \<in> set (res @ [y])"
    and m': "m' \<in> set xs" "msg_MessageGroupID m' = msg_MessageGroupID m"
  show "m' \<in> set (res @ [y])"
  proof (cases ys rule: rev_cases)
    case Nil
    with split grp m' show ?thesis by auto
  next
    case (snoc zs z)
    with split have rem: "rem = xs @ m # zs" by auto
    with new m have "m \<in> set res" by auto
    with ord rem m' show ?thesis by (auto simp: fifoOrdered_def)
  qed
qed

lemma receiptsBelow_fresh:
  "receiptsBelow E n ms \<Longrightarrow> fresh_ids E (Suc i) \<Longrightarrow> n \<le> i \<Longrightarrow> m \<in> set ms \<Longrightarrow> msg_ReceiptHandle m \<noteq> mint E i"
  unfolding receiptsBelow_def
  by (metis less_SucI less_irrefl lessI less_le_trans mint_eq_iff mint_not_Nil)

lemma recv_remaining_receipts:
  "receiptsBelow E ids ms \<Longrightarrow>
   receiptsBelow E (rv_ids (loopRun E t maxN vis fifo mr ms dlq ids))
     (rv_remaining (loopRun E t maxN vis fifo mr ms dlq ids)) \<and>
   ids \<le> rv_ids (loopRun E t maxN vis fifo mr ms dlq ids)"
proof (induction ms rule: rev_induct)
  case Nil
  show ?case by (simp add: receiptsBelow_def)
next
  case (snoc x ms)
  let ?s = "loopRun E t maxN vis fifo mr ms dlq ids"
  from snoc have IH: "receiptsBelow E (rv_ids ?s) (rv_remaining ?s)" "ids \<le> rv_ids ?s"
    and x: "receiptsBelow E ids [x]" by (auto simp: receiptsBelow_def)
  note x' = receiptsBelow_mono [OF x IH(2)]
  show ?case
    by (cases rule: recvStep_cases [of fifo x ?s E t maxN vis mr])
      (use IH x' in \<open>auto simp: receiptsBelow_def less_Suc_eq\<close>)
qed

lemma recv_ids_mono:
  "rv_ids (loopRun E t maxN vis fifo mr ms dlq ids) \<le> rv_ids (loopRun E t maxN vis fifo mr (ms @ [x]) dlq ids)"
  by (cases rule: recvStep_cases [of fifo x "loopRun E t maxN vis fifo mr ms dlq ids" E t maxN vis mr]) auto

lemma recv_fifo_order:
  fixes E t maxN vis mr ms dlq ids
  assumes "receiptsBelow E ids ms"
  defines "s \<equiv> loopRun E t maxN vis True mr ms dlq ids"
  assumes "fresh_ids E (rv_ids s)"
  shows "fifoOrdered (rv_result s) (rv_remaining s)"
proof -
  have "fifoOrdered (rv_result s) (rv_remaining s) \<and>
    (\<forall>m \<in> set (rv_remaining s). m \<notin> set (rv_result s) \<longrightarrow> msg_MessageGroupID m \<in> set (rv_blocked s))"
    unfolding s_def using assms(1) assms(3) [unfolded s_def]
  proof (induction ms rule: rev_induct)
    case Nil
    show ?case by (simp add: fifoOrdered_def)
  next
    case (snoc x ms)
    let ?s = "loopRun E t maxN vis True mr ms dlq ids"
    from snoc.prems have ms: "receiptsBelow E ids ms" and x: "receiptsBelow E ids [x]"
      by (auto simp: receiptsBelow_def)
    have fr: "fresh_ids E (rv_ids ?s)" using fresh_ids_mono [OF snoc.prems(2) recv_ids_mono] .
    from snoc.IH [OF ms fr] have ord: "fifoOrdered (rv_result ?s) (rv_remaining ?s)"
      and blk: "\<And>m. m \<in> set (rv_remaining ?s) \<Longrightarrow> m \<notin> set (rv_result ?s) \<Longrightarrow>
        msg_MessageGroupID m \<in> set (rv_blocked ?s)" by auto
    note rb = recv_remaining_receipts [OF ms, where t = t and maxN = maxN and vis = vis and fifo = True
        and mr = mr and dlq = dlq]
    have "x \<notin> set (rv_result ?s)"
    proof
      assume "x \<in> set (rv_result ?s)"
      then have "msg_ReceiptHandle x \<in> set (map msg_ReceiptHandle (rv_result ?s))" by auto
      also have "\<dots> = mint E ` {ids..<rv_ids ?s}"
        by (simp only: conjunct1 [OF recv_receipts] set_map set_upt)
      finally obtain i where i: "msg_ReceiptHandle x = mint E i" "ids \<le> i" "i < rv_ids ?s" by auto
      from i(3) have "Suc i \<le> rv_ids ?s" by simp
      from receiptsBelow_fresh [OF x fresh_ids_mono [OF fr this] i(2), of x] i(1) show False by simp
    qed
    note keep = fifoOrdered_keep [OF ord this]
    show ?case
    proof (cases rule: recvStep_cases [of True x ?s E t maxN vis mr])
      case hand
      then have "fresh_ids E (Suc (rv_ids ?s))" using snoc.prems(2) by simp
      from receiptsBelow_fresh [OF conjunct1 [OF rb] this order_refl]
      have new: "deliver E t vis (rv_ids ?s) x \<notin> set (rv_remaining ?s)" by fastforce
      have "fifoOrdered (rv_result ?s @ [deliver E t vis (rv_ids ?s) x])
          (rv_remaining ?s @ [deliver E t vis (rv_ids ?s) x])"
        by (rule fifoOrdered_hand [OF ord new]) (use blk hand(1) in \<open>metis deliver_simps(3)\<close>)
      with hand(5) blk show ?thesis by auto
    qed (use ord blk keep in auto)
  qed
  then show ?thesis ..
qed

section \<open>Attribute updates keep the type and the redrive rule\<close>

lemma overlay_lookup:
  "fmlookup (overlayAttributes base attrs) k =
     (case fmlookup attrs k of
        Some v \<Rightarrow> if blankRedrive k v then fmlookup base k else Some v | None \<Rightarrow> fmlookup base k)"
  by (auto simp: overlayAttributes_def fmget_def fmdom'I split: option.splits)

lemma fmget_overlay:
  "k \<noteq> ''RedrivePolicy'' \<Longrightarrow>
   fmget (overlayAttributes base attrs) k = (case fmlookup attrs k of Some v \<Rightarrow> v | None \<Rightarrow> fmget base k)"
  by (auto simp: fmget_def overlay_lookup blankRedrive_def split: option.splits)

lemma fmget_overlay_redrive:
  "fmget (overlayAttributes base attrs) ''RedrivePolicy'' =
     (case fmlookup attrs ''RedrivePolicy'' of
        Some v \<Rightarrow> if trimSpace v = '''' then fmget base ''RedrivePolicy'' else v
      | None \<Rightarrow> fmget base ''RedrivePolicy'')"
  by (auto simp: fmget_def overlay_lookup blankRedrive_def split: option.splits)

lemma default_attribute_lookup:
  "fmlookup (defaultAttributes name) ''RedrivePolicy'' = None"
  "fmlookup (defaultAttributes name) ''FifoQueue'' = (if hasSuffix name ''.fifo'' then Some ''true'' else None)"
  by (simp_all add: defaultAttributes_def Let_def fmlookup_of_list)

lemma default_attribute_get:
  "fmget (defaultAttributes name) ''RedrivePolicy'' = ''''"
  "fmget (defaultAttributes name) ''FifoQueue'' = (if hasSuffix name ''.fifo'' then ''true'' else '''')"
  by (simp_all add: fmget_def default_attribute_lookup)

lemma fifo_of_creation:
  assumes "validateQueueCreation name attrs = None"
  shows "equalFold (fmget (overlayAttributes (defaultAttributes name) attrs) ''FifoQueue'') ''true'' =
         hasSuffix name ''.fifo''"
proof (cases "fmlookup attrs ''FifoQueue''")
  case None
  with assms have "\<not> hasSuffix name ''.fifo''"
    by (auto simp: validateQueueCreation_def queueAttributeBool_def split: if_splits)
  with None show ?thesis
    by (simp add: fmget_overlay default_attribute_get) (simp add: equalFold_def toLower_def)
next
  case (Some v)
  have t: "toLower ''true'' = ''true''" by code_simp
  from Some assms have "(toLower v = ''true'') = hasSuffix name ''.fifo''"
    by (auto simp: validateQueueCreation_def queueAttributeBool_def split: if_splits)
  with Some t show ?thesis by (simp add: fmget_overlay equalFold_def)
qed

text \<open>The redrive rule of a source name on the raw attribute text.\<close>

definition redriveTextOK :: "env \<Rightarrow> string \<Rightarrow> string \<Rightarrow> bool" where
  "redriveTextOK E name raw \<longleftrightarrow>
     (if raw = '''' then True
      else case parseRedrivePolicy E raw of
        Inl _ \<Rightarrow> True
      | Inr p \<Rightarrow>
         (let target = queueNameFromARN (rp_DeadLetterTargetARN p)
          in target \<noteq> '''' \<and> target \<noteq> name \<and> hasSuffix target ''.fifo'' = hasSuffix name ''.fifo''))"

lemma redriveOK_text: "redriveOK E q = redriveTextOK E (q_Name q) (fmget (q_Attributes q) ''RedrivePolicy'')"
  by (auto simp: redriveOK_def redriveTextOK_def deadLetterName_def activeRedrive_def Let_def
      split: sum.splits option.splits)

lemma validated_redrive:
  assumes "validateQueueAttributesLocked E qs name attrs = None" "fmlookup attrs ''RedrivePolicy'' = Some raw"
    "trimSpace raw \<noteq> ''''"
  shows "redriveTextOK E name raw"
  using assms by (auto simp: validateQueueAttributesLocked_def redriveTextOK_def Let_def
      split: sum.splits if_splits)

lemma created_queueOK:
  assumes "validateQueueCreation name attrs = None" "validateQueueAttributesLocked E qs name attrs = None"
  shows "queueOK E n name \<lparr>q_Name = name, q_CreatedAt = t,
     q_Attributes = overlayAttributes (defaultAttributes name) attrs, q_Messages = [],
     q_Deduplication = fmempty, q_NextSequenceNumber = 0\<rparr>"
proof -
  have "redriveTextOK E name (fmget (overlayAttributes (defaultAttributes name) attrs) ''RedrivePolicy'')"
    using validated_redrive [OF assms(2)]
    by (auto simp: fmget_overlay_redrive default_attribute_get redriveTextOK_def split: option.splits)
  with fifo_of_creation [OF assms(1)] show ?thesis
    by (auto simp: queueOK_def redriveOK_text queueIsFIFO_def receiptsBelow_def liveReceipts_def)
qed

lemma replaced_queueOK:
  assumes q: "queueOK E n name q" and "validateQueueAttributeMutation q attrs = None"
    "validateQueueAttributesLocked E qs name attrs = None"
  shows "queueOK E n name (q\<lparr>q_Attributes := replaceAttributes (q_Attributes q) attrs\<rparr>)"
proof -
  from assms(2) have nf: "fmlookup attrs ''FifoQueue'' = None"
    by (simp add: validateQueueAttributeMutation_def split: option.splits)
  then have "fmget (replaceAttributes (q_Attributes q) attrs) ''FifoQueue'' = fmget (q_Attributes q) ''FifoQueue''"
    by (auto simp: replaceAttributes_def Let_def fmget_overlay fmget_def overlay_lookup split: option.splits)
  moreover have "redriveTextOK E name (fmget (replaceAttributes (q_Attributes q) attrs) ''RedrivePolicy'')"
  proof (cases "fmlookup attrs ''RedrivePolicy''")
    case None
    then have "fmget (replaceAttributes (q_Attributes q) attrs) ''RedrivePolicy'' = fmget (q_Attributes q) ''RedrivePolicy''"
      by (simp add: replaceAttributes_def fmget_overlay_redrive)
    with q show ?thesis by (auto simp: queueOK_def redriveOK_text)
  next
    case (Some raw)
    show ?thesis
    proof (cases "trimSpace raw = ''''")
      case True
      with Some show ?thesis by (simp add: replaceAttributes_def fmget_def redriveTextOK_def)
    next
      case False
      with Some have "fmget (replaceAttributes (q_Attributes q) attrs) ''RedrivePolicy'' = raw"
        by (simp add: replaceAttributes_def fmget_overlay_redrive)
      with validated_redrive [OF assms(3) Some False] show ?thesis by simp
    qed
  qed
  ultimately show ?thesis using q by (auto simp add: queueOK_def queueIsFIFO_def redriveOK_text)
qed

section \<open>Every queue operation keeps the invariant\<close>

lemma enqueue_world:
  "enqueueMessageLocked E q body attrs delay g dd sq w = (m, q', w') \<Longrightarrow>
   w' = w\<lparr>w_ids := Suc (w_ids w), w_clock := Suc (Suc (w_clock w))\<rparr> \<and>
   q' = q\<lparr>q_Messages := q_Messages q @ [m]\<rparr> \<and> msg_ReceiptHandle m = '''' \<and>
   msg_MessageID m = mint E (w_ids w) \<and> msg_Body m = body \<and> msg_MessageGroupID m = g \<and>
   msg_SequenceNumber m = sq \<and> msg_ReceiveCount m = 0"
  by (auto simp: enqueueMessageLocked_def newID_def now_def Let_def)

lemma queueOK_enqueue:
  "queueOK E n name q \<Longrightarrow> msg_ReceiptHandle m = '''' \<Longrightarrow>
   queueOK E n name (q\<lparr>q_Messages := q_Messages q @ [m]\<rparr>)"
  by (auto simp: queueOK_def receiptsBelow_def liveReceipts_def)

lemma queueOK_mono: "queueOK E n name q \<Longrightarrow> n \<le> k \<Longrightarrow> queueOK E k name q"
  by (auto simp: queueOK_def intro: receiptsBelow_mono dest: fresh_ids_mono)

lemma sublist_queueOK:
  assumes "queueOK E n name q" "set ms \<subseteq> set (q_Messages q)"
    "distinct (liveReceipts (q_Messages q)) \<Longrightarrow> distinct (liveReceipts ms)"
  shows "queueOK E n name (q\<lparr>q_Messages := ms\<rparr>)"
  using assms by (auto simp: queueOK_def receiptsBelow_def)

lemma deadLetter_queueOK: "queueOK E n dn d \<Longrightarrow> queueOK E n dn (deadLetter t x d)"
  by (auto simp: deadLetter_def Let_def nextFIFOSequenceNumber_def queueOK_def receiptsBelow_def liveReceipts_def
      queueIsFIFO_def redriveOK_text)

lemma recv_dlq_queueOK:
  "(\<And>d. dlq = Some d \<Longrightarrow> queueOK E n dn d) \<Longrightarrow>
   rv_dlq (loopRun E t maxN vis fifo mr ms dlq ids) = Some dq \<Longrightarrow> queueOK E n dn dq"
proof (induction ms arbitrary: dq rule: rev_induct)
  case (snoc x ms)
  let ?s = "loopRun E t maxN vis fifo mr ms dlq ids"
  show ?case
  proof (cases rule: recvStep_cases [of fifo x ?s E t maxN vis mr])
    case (dead d)
    with snoc.IH [OF snoc.prems(1)] have "queueOK E n dn d" by blast
    with dead snoc.prems(2) show ?thesis by (auto simp: deadLetter_queueOK)
  qed (use snoc in auto)
qed simp

lemma liveReceipts_append: "liveReceipts (xs @ ys) = liveReceipts xs @ liveReceipts ys"
  by (simp add: liveReceipts_def)

lemma liveReceipts_single: "liveReceipts [m] = (if msg_ReceiptHandle m = '''' then [] else [msg_ReceiptHandle m])"
  by (simp add: liveReceipts_def)

lemma set_liveReceipts: "r \<in> set (liveReceipts ms) \<longleftrightarrow> r \<noteq> '''' \<and> (\<exists>m \<in> set ms. msg_ReceiptHandle m = r)"
  by (auto simp: liveReceipts_def)

lemma recv_remaining_distinct:
  shows "receiptsBelow E ids ms \<Longrightarrow> distinct (liveReceipts ms) \<Longrightarrow>
   fresh_ids E (rv_ids (loopRun E t maxN vis fifo mr ms dlq ids)) \<Longrightarrow>
   distinct (liveReceipts (rv_remaining (loopRun E t maxN vis fifo mr ms dlq ids))) \<and>
   set (liveReceipts (rv_remaining (loopRun E t maxN vis fifo mr ms dlq ids))) \<subseteq>
     set (liveReceipts ms) \<union> mint E ` {ids..<rv_ids (loopRun E t maxN vis fifo mr ms dlq ids)} \<and>
   ids \<le> rv_ids (loopRun E t maxN vis fifo mr ms dlq ids)"
proof (induction ms rule: rev_induct)
  case Nil
  show ?case by (simp add: liveReceipts_def)
next
  case (snoc x ms)
  let ?s = "loopRun E t maxN vis fifo mr ms dlq ids"
  from snoc.prems have ms: "receiptsBelow E ids ms" "distinct (liveReceipts ms)" and x: "receiptsBelow E ids [x]"
    and xnew: "msg_ReceiptHandle x = '''' \<or> msg_ReceiptHandle x \<notin> set (liveReceipts ms)"
    by (auto simp: receiptsBelow_def liveReceipts_append liveReceipts_single split: if_splits)
  have fr: "fresh_ids E (rv_ids ?s)" using fresh_ids_mono [OF snoc.prems(3) recv_ids_mono] .
  from snoc.IH [OF ms fr] have IH: "distinct (liveReceipts (rv_remaining ?s))" "ids \<le> rv_ids ?s"
    "set (liveReceipts (rv_remaining ?s)) \<subseteq> set (liveReceipts ms) \<union> mint E ` {ids..<rv_ids ?s}"
    by auto
  have xf: "msg_ReceiptHandle x \<notin> mint E ` {ids..<rv_ids ?s}"
  proof
    assume "msg_ReceiptHandle x \<in> mint E ` {ids..<rv_ids ?s}"
    then obtain i where i: "msg_ReceiptHandle x = mint E i" "ids \<le> i" "Suc i \<le> rv_ids ?s" by auto
    from receiptsBelow_fresh [OF x fresh_ids_mono [OF fr i(3)] i(2), of x] i(1) show False by simp
  qed
  have keep: "msg_ReceiptHandle x = '''' \<or> msg_ReceiptHandle x \<notin> set (liveReceipts (rv_remaining ?s))"
    using IH(3) xnew xf by blast
  have kept: "distinct (liveReceipts (rv_remaining ?s @ [x]))"
    "set (liveReceipts (rv_remaining ?s @ [x])) \<subseteq> set (liveReceipts (ms @ [x])) \<union> mint E ` {ids..<rv_ids ?s}"
    using IH(1,3) keep by (auto simp: liveReceipts_append liveReceipts_single)
  show ?case
  proof (cases rule: recvStep_cases [of fifo x ?s E t maxN vis mr])
    case keep
    then show ?thesis using kept IH(2) by simp
  next
    case block
    then show ?thesis using kept IH(2) by simp
  next
    case (dead d)
    then show ?thesis using IH by (auto simp: liveReceipts_append)
  next
    case hand
    then have "fresh_ids E (Suc (rv_ids ?s))" using snoc.prems(3) by simp
    from receiptsBelow_fresh [OF conjunct1 [OF recv_remaining_receipts [OF ms(1)]] this order_refl]
    have new: "mint E (rv_ids ?s) \<notin> set (liveReceipts (rv_remaining ?s))" by (auto simp: set_liveReceipts)
    have "{ids..<Suc (rv_ids ?s)} = insert (rv_ids ?s) {ids..<rv_ids ?s}" using IH(2) by auto
    then show ?thesis using hand(5) IH new by (auto simp: liveReceipts_append liveReceipts_single)
  qed
qed

lemma recv_queueOK:
  assumes "queueOK E ids name q"
  shows "queueOK E (rv_ids (loopRun E t maxN vis fifo mr (q_Messages q) dlq ids)) name
     (q\<lparr>q_Messages := rv_remaining (loopRun E t maxN vis fifo mr (q_Messages q) dlq ids)\<rparr>)"
proof -
  let ?s = "loopRun E t maxN vis fifo mr (q_Messages q) dlq ids"
  from assms have r: "receiptsBelow E ids (q_Messages q)" by (simp add: queueOK_def)
  have "ids \<le> rv_ids ?s" using recv_remaining_receipts [OF r] by blast
  then have "distinct (liveReceipts (rv_remaining ?s))" if "fresh_ids E (rv_ids ?s)"
    using recv_remaining_distinct [OF r _ that] fresh_ids_mono [OF that] assms by (simp add: queueOK_def)
  then show ?thesis using assms recv_remaining_receipts [OF r] by (simp add: queueOK_def)
qed

lemma removeFirst_Some:
  "removeFirst P xs = Some ys \<Longrightarrow> \<exists>a x b. xs = a @ x # b \<and> P x \<and> (\<forall>y \<in> set a. \<not> P y) \<and> ys = a @ b"
proof (induction P xs arbitrary: ys rule: removeFirst.induct)
  case (2 P x xs)
  show ?case
  proof (cases "P x")
    case True
    with 2 show ?thesis by (metis append_Nil empty_iff empty_set option.inject removeFirst.simps(2))
  next
    case False
    with 2(2) obtain zs where "removeFirst P xs = Some zs" "ys = x # zs" by auto
    with 2(1) [OF False] False show ?thesis by (metis append_Cons set_ConsD)
  qed
qed simp

lemma updateFirst_Some:
  "updateFirst P f xs = Some ys \<Longrightarrow> \<exists>a x b. xs = a @ x # b \<and> P x \<and> (\<forall>y \<in> set a. \<not> P y) \<and> ys = a @ f x # b"
proof (induction P f xs arbitrary: ys rule: updateFirst.induct)
  case (2 P f x xs)
  show ?case
  proof (cases "P x")
    case True
    with 2 show ?thesis by (metis append_Nil empty_iff empty_set option.inject updateFirst.simps(2))
  next
    case False
    with 2(2) obtain zs where "updateFirst P f xs = Some zs" "ys = x # zs" by auto
    with 2(1) [OF False] False show ?thesis by (metis append_Cons set_ConsD)
  qed
qed simp

lemma removeFirst_queueOK:
  assumes q: "queueOK E n name q" and r: "removeFirst P (q_Messages q) = Some ms"
  shows "queueOK E n name (q\<lparr>q_Messages := ms\<rparr>)"
proof -
  from removeFirst_Some [OF r] obtain a x b where eq: "q_Messages q = a @ x # b" "ms = a @ b" by blast
  have "liveReceipts (q_Messages q) = liveReceipts a @ liveReceipts [x] @ liveReceipts b"
    using eq liveReceipts_append [of a "[x] @ b"] liveReceipts_append [of "[x]" b] by simp
  with q eq show ?thesis by (auto simp: queueOK_def receiptsBelow_def liveReceipts_append)
qed

lemma updateFirst_queueOK:
  assumes q: "queueOK E n name q"
    and r: "updateFirst P (\<lambda>m. m\<lparr>msg_VisibleAt := t\<rparr>) (q_Messages q) = Some ms"
  shows "queueOK E n name (q\<lparr>q_Messages := ms\<rparr>)"
proof -
  from updateFirst_Some [OF r] obtain a x b where eq: "q_Messages q = a @ x # b"
    "ms = a @ x\<lparr>msg_VisibleAt := t\<rparr> # b" by blast
  then have "map msg_ReceiptHandle ms = map msg_ReceiptHandle (q_Messages q)" by simp
  with q eq show ?thesis by (auto simp: queueOK_def receiptsBelow_def liveReceipts_def)
qed

lemmas queue_rules = ok.outcome_return ok_save storeOK_Queues queuesOK_upd queuesOK_drop

lemma CreateQueue_outcome: "ok.holds E S w \<Longrightarrow> ok.outcome E S w (CreateQueue E name attrs w)"
  unfolding CreateQueue_def now_def Let_def
  by (auto split: option.split intro!: queue_rules created_queueOK simp: storeOK_def ahead_def)

lemma DeleteQueue_outcome: "ok.holds E S w \<Longrightarrow> ok.outcome E S w (DeleteQueue E name w)"
  unfolding DeleteQueue_def
  by (auto split: option.split intro!: queue_rules simp: storeOK_def ahead_def)

lemma PurgeQueue_outcome: "ok.holds E S w \<Longrightarrow> ok.outcome E S w (PurgeQueue E name w)"
  unfolding PurgeQueue_def
  by (auto split: option.split intro!: queue_rules sublist_queueOK dest: holds_queue
      simp: storeOK_def ahead_def liveReceipts_def)

lemma SetQueueAttributes_outcome: "ok.holds E S w \<Longrightarrow> ok.outcome E S w (SetQueueAttributes E name attrs w)"
  unfolding SetQueueAttributes_def
  by (auto split: option.split intro!: queue_rules replaced_queueOK dest: holds_queue
      simp: storeOK_def ahead_def)

lemma DeleteMessage_outcome: "ok.holds E S w \<Longrightarrow> ok.outcome E S w (DeleteMessage E name receipt w)"
  unfolding DeleteMessage_def
  by (auto split: option.split intro!: queue_rules removeFirst_queueOK dest: holds_queue
      simp: storeOK_def ahead_def)

lemma ChangeVisibility_outcome: "ok.holds E S w \<Longrightarrow> ok.outcome E S w (ChangeVisibility E name receipt secs w)"
  unfolding ChangeVisibility_def now_def Let_def
  by (auto split: option.split intro!: queue_rules
      updateFirst_queueOK [where P = "\<lambda>m. msg_ReceiptHandle m = receipt"
        and t = "e_now E (w_clock w) + duration_s secs"]
      dest: holds_queue simp: storeOK_def ahead_def)

lemma setQueue_sameLive:
  "fmlookup (Queues d) name = Some q \<Longrightarrow> q'\<lparr>q_Deduplication := fmempty\<rparr> = q\<lparr>q_Deduplication := fmempty\<rparr> \<Longrightarrow>
   sameLive (d\<lparr>Queues := fmupd name q' (Queues d)\<rparr>) d"
proof -
  assume q: "fmlookup (Queues d) name = Some q" "q'\<lparr>q_Deduplication := fmempty\<rparr> = q\<lparr>q_Deduplication := fmempty\<rparr>"
  have "fmmap (\<lambda>q. q\<lparr>q_Deduplication := fmempty\<rparr>) (fmupd name q' (Queues d)) =
      fmmap (\<lambda>q. q\<lparr>q_Deduplication := fmempty\<rparr>) (Queues d)"
    using q by (intro fmap_eqI) auto
  then show ?thesis by (simp add: sameLive_def forgetDedup_def)
qed

lemma sendFIFO_outcome:
  assumes h: "ok.holds E S w" and q: "fmlookup (Queues (w_data w)) name = Some q"
  shows "ok.outcome E S w (sendFIFO E name q body attrs delay opts w)"
proof -
  define q1 where "q1 = q\<lparr>q_Deduplication := dropExpired (e_now E (w_clock w)) (q_Deduplication q)\<rparr>"
  have q1: "queueOK E (w_ids w) name q1" using holds_queue [OF h q] by (simp add: q1_def)
  define key where "key = fifoDeduplicationKey q1 (so_MessageGroupID opts) (so_MessageDeduplicationID opts)"
  show ?thesis
  proof (cases "fmlookup (q_Deduplication q1) key")
    case (Some r)
    have "sameLive ((w_data w)\<lparr>Queues := fmupd name q1 (Queues (w_data w))\<rparr>) (w_data w)"
      using q by (rule setQueue_sameLive) (simp add: q1_def)
    from ok.outcome_sameLive [OF h _ _ this, of "w\<lparr>w_clock := Suc (w_clock w)\<rparr>"] Some
    show ?thesis unfolding sendFIFO_def now_def Let_def prod.case key_def q1_def by simp
  next
    case None
    obtain sq q2 where n: "nextFIFOSequenceNumber q1 = (sq, q2)" by fastforce
    then have q2: "queueOK E (w_ids w) name q2" using q1 by (auto simp: nextFIFOSequenceNumber_def Let_def)
    obtain m q3 w2 where e: "enqueueMessageLocked E q2 body attrs delay (so_MessageGroupID opts)
        (so_MessageDeduplicationID opts) sq (w\<lparr>w_clock := Suc (w_clock w)\<rparr>) = (m, q3, w2)"
      by (metis prod_cases3)
    note en = enqueue_world [OF e]
    have "queueOK E (Suc (w_ids w)) name q3"
      using queueOK_mono [OF queueOK_enqueue [OF q2, of m], of "Suc (w_ids w)"] en by simp
    with h en have "ok.outcome E S w (saveThen E m (setQueue name (q3\<lparr>q_Deduplication := x\<rparr>) w2))" for x
      by (auto simp: storeOK_def ahead_def intro!: queue_rules)
    with None n e show ?thesis unfolding sendFIFO_def now_def Let_def prod.case key_def q1_def by simp
  qed
qed

lemma SendMessageWithOptions_outcome:
  assumes h: "ok.holds E S w"
  shows "ok.outcome E S w (SendMessageWithOptions E name body attrs delay opts w)"
proof (cases "fmlookup (Queues (w_data w)) name")
  case None
  with h show ?thesis by (simp add: SendMessageWithOptions_def ok.outcome_return)
next
  case (Some q)
  have std: "ok.outcome E S w (let (m, q', w1) = enqueueMessageLocked E q body attrs dl g '''' '''' w
      in saveThen E m (setQueue name q' w1))" for dl g
  proof -
    obtain m q' w1 where e: "enqueueMessageLocked E q body attrs dl g '''' '''' w = (m, q', w1)"
      by (metis prod_cases3)
    note en = enqueue_world [OF e]
    have "queueOK E (Suc (w_ids w)) name q'"
      using queueOK_mono [OF queueOK_enqueue [OF holds_queue [OF h Some], of m], of "Suc (w_ids w)"] en by simp
    with h en e show ?thesis by (auto simp: storeOK_def ahead_def intro!: queue_rules)
  qed
  show ?thesis using Some sendFIFO_outcome [OF h Some] std h
    by (auto simp: SendMessageWithOptions_def Let_def ok.outcome_return)
qed

lemma SendMessage_outcome: "ok.holds E S w \<Longrightarrow> ok.outcome E S w (SendMessage E name body attrs delay w)"
  by (simp add: SendMessage_def SendMessageWithOptions_outcome)

text \<open>
  With the redrive rule, the receive loop and the dead-letter queue never alias, and a receive is
  the loop followed by two queue updates.
\<close>

definition recvRun :: "env \<Rightarrow> world \<Rightarrow> Queue \<Rightarrow> int \<Rightarrow> int \<Rightarrow> recv" where
  "recvRun E w q maxN vis =
     recvLoop E (e_now E (w_clock w)) (clampMax maxN)
       (if vis < 0 then intValue (fmget (q_Attributes q) ''VisibilityTimeout'') 30 else vis) q
       (Option.bind (deadLetterName E q) (fmlookup (Queues (w_data w)))) (w_ids w)"

definition recvQueues :: "env \<Rightarrow> string \<Rightarrow> Queue \<Rightarrow> recv \<Rightarrow> Queue gomap \<Rightarrow> Queue gomap" where
  "recvQueues E name q s qs =
     fmupd name (q\<lparr>q_Messages := rv_remaining s\<rparr>)
       (case (deadLetterName E q, rv_dlq s) of (Some dn, Some dq) \<Rightarrow> fmupd dn dq qs | _ \<Rightarrow> qs)"

lemma ReceiveMessages_eq:
  assumes h: "ok.holds E S w" and q: "fmlookup (Queues (w_data w)) name = Some q"
  shows "ReceiveMessages E name maxN vis w =
    (let s = recvRun E w q maxN vis;
         w' = w\<lparr>w_clock := Suc (w_clock w), w_ids := rv_ids s,
                w_data := (w_data w)\<lparr>Queues := recvQueues E name q s (Queues (w_data w))\<rparr>\<rparr>
     in if rv_changed s then saveThen E (rv_result s) w' else (Inr (rv_result s), w'))"
proof -
  have "deadLetterName E q \<noteq> Some name"
    using holds_queue [OF h q] by (auto simp: queueOK_def redriveOK_def split: option.splits)
  then show ?thesis using q
    unfolding ReceiveMessages_def now_def Let_def prod.case recvRun_def recvQueues_def
    by (cases "deadLetterName E q") (auto split: option.split split del: if_split cong: if_cong)
qed

lemma recvRun_loop:
  "\<exists>mr vis'. recvRun E w q maxN vis =
     loopRun E (e_now E (w_clock w)) (clampMax maxN) vis' (queueIsFIFO q) mr (q_Messages q)
       (Option.bind (deadLetterName E q) (fmlookup (Queues (w_data w)))) (w_ids w)"
  unfolding recvRun_def recvLoop_def by blast

lemma recvQueues_OK:
  assumes h: "ok.holds E S w" and q: "fmlookup (Queues (w_data w)) name = Some q"
  shows "queuesOK E (rv_ids (recvRun E w q maxN vis))
    (recvQueues E name q (recvRun E w q maxN vis) (Queues (w_data w)))" and "w_ids w \<le> rv_ids (recvRun E w q maxN vis)"
proof -
  obtain mr vis' where run: "recvRun E w q maxN vis =
     loopRun E (e_now E (w_clock w)) (clampMax maxN) vis' (queueIsFIFO q) mr (q_Messages q)
       (Option.bind (deadLetterName E q) (fmlookup (Queues (w_data w)))) (w_ids w)"
    using recvRun_loop by blast
  note qok = holds_queue [OF h q]
  show ids: "w_ids w \<le> rv_ids (recvRun E w q maxN vis)"
    unfolding run using recv_receipts by blast
  have src: "queueOK E (rv_ids (recvRun E w q maxN vis)) name
      (q\<lparr>q_Messages := rv_remaining (recvRun E w q maxN vis)\<rparr>)"
    unfolding run by (rule recv_queueOK [OF qok])
  have all: "queuesOK E (rv_ids (recvRun E w q maxN vis)) (Queues (w_data w))"
    using h ids by (auto simp: ok.holds_def storeOK_def intro: queuesOK_mono)
  have "queueOK E (rv_ids (recvRun E w q maxN vis)) dn dq"
    if "deadLetterName E q = Some dn" "rv_dlq (recvRun E w q maxN vis) = Some dq" for dn dq
    using that(2) unfolding run
    by (rule recv_dlq_queueOK [rotated]) (use that(1) all run in \<open>auto simp: queuesOK_def\<close>)
  with src all show "queuesOK E (rv_ids (recvRun E w q maxN vis))
      (recvQueues E name q (recvRun E w q maxN vis) (Queues (w_data w)))"
    by (auto simp: recvQueues_def split: option.splits intro!: queuesOK_upd)
qed

lemma ReceiveMessages_outcome:
  assumes h: "ok.holds E S w"
  shows "ok.outcome E S w (ReceiveMessages E name maxN vis w)"
proof (cases "fmlookup (Queues (w_data w)) name")
  case None
  with h show ?thesis by (simp add: ReceiveMessages_def ok.outcome_return)
next
  case (Some q)
  define s where "s = recvRun E w q maxN vis"
  note ok = recvQueues_OK [OF h Some, of maxN vis, folded s_def]
  show ?thesis
  proof (cases "rv_changed s")
    case True
    with h ok show ?thesis unfolding ReceiveMessages_eq [OF h Some] s_def [symmetric] Let_def
      by (auto intro!: ok_save simp: storeOK_def ahead_def)
  next
    case False
    obtain mr vis' where run: "s = loopRun E (e_now E (w_clock w)) (clampMax maxN) vis' (queueIsFIFO q) mr
        (q_Messages q) (Option.bind (deadLetterName E q) (fmlookup (Queues (w_data w)))) (w_ids w)"
      using recvRun_loop unfolding s_def by blast
    from recv_unchanged [of E "e_now E (w_clock w)" "clampMax maxN" vis' "queueIsFIFO q" mr "q_Messages q"
        "Option.bind (deadLetterName E q) (fmlookup (Queues (w_data w)))" "w_ids w"] False
    have un: "rv_remaining s = q_Messages q" "rv_ids s = w_ids w"
      "rv_dlq s = Option.bind (deadLetterName E q) (fmlookup (Queues (w_data w)))" by (auto simp: run)
    have "recvQueues E name q s (Queues (w_data w)) = Queues (w_data w)"
      using Some un by (intro fmap_eqI) (auto simp: recvQueues_def split: option.splits Option.bind_splits)
    then have "(w_data w)\<lparr>Queues := recvQueues E name q s (Queues (w_data w))\<rparr> = w_data w" by simp
    with False un(2) show ?thesis unfolding ReceiveMessages_eq [OF h Some] s_def [symmetric] Let_def
      by (auto intro!: ok.outcome_read [OF h] simp: ahead_def)
  qed
qed

lemma QueueAttributes_outcome: "ok.holds E S w \<Longrightarrow> ok.outcome E S w (QueueAttributes E name w)"
  by (auto simp: QueueAttributes_def now_def Let_def ahead_def split: option.split
      intro!: ok.outcome_return ok.outcome_read)

text \<open>The queue operations meet the contract of a store operation.\<close>

interpretation CreateQueue: store_operation "ok.holds E S" "CreateQueue E name attrs" for E S name attrs
  by (rule ok.store_operationI) (rule CreateQueue_outcome)

interpretation DeleteQueue: store_operation "ok.holds E S" "DeleteQueue E name" for E S name
  by (rule ok.store_operationI) (rule DeleteQueue_outcome)

interpretation PurgeQueue: store_operation "ok.holds E S" "PurgeQueue E name" for E S name
  by (rule ok.store_operationI) (rule PurgeQueue_outcome)

interpretation SetQueueAttributes: store_operation "ok.holds E S" "SetQueueAttributes E name attrs" for E S name attrs
  by (rule ok.store_operationI) (rule SetQueueAttributes_outcome)

interpretation SendMessage: store_operation "ok.holds E S" "SendMessageWithOptions E name body attrs delay opts"
  for E S name body attrs delay opts
  by (rule ok.store_operationI) (rule SendMessageWithOptions_outcome)

interpretation ReceiveMessages: store_operation "ok.holds E S" "ReceiveMessages E name maxN vis" for E S name maxN vis
  by (rule ok.store_operationI) (rule ReceiveMessages_outcome)

interpretation DeleteMessage: store_operation "ok.holds E S" "DeleteMessage E name receipt" for E S name receipt
  by (rule ok.store_operationI) (rule DeleteMessage_outcome)

interpretation ChangeVisibility: store_operation "ok.holds E S" "ChangeVisibility E name receipt secs"
  for E S name receipt secs
  by (rule ok.store_operationI) (rule ChangeVisibility_outcome)

end
