(* ===== verification/Bodies.thy ===== *)
theory Bodies
  imports Store_Invariant
begin

text \<open>
  Object bodies under the store invariant: publishing a body under its content-addressed name
  disturbs no committed body, and removing a file no committed entry refers to keeps the invariant.
  The last lemma is the common end of every operation that writes a body: commit, then remove
  either the new file (on failure) or the replaced one (on success).
\<close>

lemma objectsOnly_ahead: "objectsOnly w w' \<Longrightarrow> ahead w w'"
  by (simp add: objectsOnly_def ahead_def)

text \<open>A place refers to one file.\<close>

lemma readDigits_no_digit: "digitVal c = None \<Longrightarrow> readDigits acc (c # s) = (acc, c # s)"
  by simp

lemma showInt_inj: "showInt i = showInt j \<longleftrightarrow> i = j"
proof
  assume eq: "showInt i = showInt j"
  have minus: "CHR ''-'' # s \<noteq> showNat n" for s n
  proof
    assume "CHR ''-'' # s = showNat n"
    with showNat_digits [of n] have "list_all (\<lambda>c. \<exists>d. digitVal c = Some d) (CHR ''-'' # s)" by metis
    then show False by (simp add: digitVal_def)
  qed
  show "i = j" using eq minus minus [symmetric] by (auto simp: showInt_def showNat_inj split: if_splits)
qed simp

lemma fileRef_unique:
  "fileRef d ns ow k f n h c \<Longrightarrow> fileRef d ns ow k f' n' h' c' \<Longrightarrow> f = f' \<and> n = n' \<and> h = h' \<and> c = c'"
  by (auto elim!: fileRefE simp: showInt_inj)

lemma bodiesOK_unref:
  assumes "bodiesOK E S d objs"
    and "\<And>ns ow k f n h c. fileRef d ns ow k f n h c \<Longrightarrow> \<not> isTemp f \<Longrightarrow> fmlookup objs' f = fmlookup objs f"
  shows "bodiesOK E S d objs'"
  unfolding bodiesOK_def
proof (intro allI impI)
  fix ns ow k f n h c
  assume r: "fileRef d ns ow k f n h c"
  with assms(1) have b: "bodyOK E S objs ns ow k f n h c" by (auto simp: bodiesOK_def)
  with assms(2) [OF r] show "bodyOK E S objs' ns ow k f n h c"
    using bodyOK_lookup_cong [OF b] fileAt_not_temp [OF bodyOK_fileAt [OF b]] by blast
qed

lemma storeOK_objects: "storeOK E S n objs d \<Longrightarrow> bodiesOK E S d objs' \<Longrightarrow> storeOK E S n objs' d"
  by (simp add: storeOK_def)

definition refFiles :: "snapshot \<Rightarrow> string set" where
  "refFiles d = {f. \<exists>ns ow k n h c. fileRef d ns ow k f n h c}"

lemma refFiles_sameLive: "sameLive d d' \<Longrightarrow> refFiles d = refFiles d'"
  by (simp add: refFiles_def fileRef_sameLive)

lemma holds_objects:
  assumes "ok.holds E S w" "ahead w w'"
    and "\<And>f. f \<in> refFiles (w_data w) \<Longrightarrow> \<not> isTemp f \<Longrightarrow> fmlookup (w_objects w') f = fmlookup (w_objects w) f"
  shows "ok.holds E S w'"
proof (rule ok.holds_ahead_objects [OF assms(1,2)])
  from assms(1) have s: "storeOK E S (w_ids w) (w_objects w) (w_data w)" by (simp add: ok.holds_def)
  then have "bodiesOK E S (w_data w) (w_objects w)" by (simp add: storeOK_def)
  then have "bodiesOK E S (w_data w) (w_objects w')"
  proof (rule bodiesOK_unref)
    fix ns ow k f n h c
    assume "fileRef (w_data w) ns ow k f n h c" "\<not> isTemp f"
    with assms(3) show "fmlookup (w_objects w') f = fmlookup (w_objects w) f" unfolding refFiles_def by blast
  qed
  with s show "storeOK E S (w_ids w) (w_objects w') (w_data w)" by (rule storeOK_objects)
qed

lemma holds_removeFile: "ok.holds E S w \<Longrightarrow> f \<notin> refFiles (w_data w) \<Longrightarrow> ok.holds E S (removeFile E' f w)"
  using removeFile_spec [of w E' f]
  by (elim holds_objects) (auto simp: objectsOnly_ahead removeFile_lookup_other)

lemma holds_removeFiles:
  "ok.holds E S w \<Longrightarrow> set fs \<inter> refFiles (w_data w) = {} \<Longrightarrow> ok.holds E S (removeFiles E' fs w)"
  using removeFiles_objectsOnly [of w E' fs]
  by (elim holds_objects) (auto simp: objectsOnly_ahead intro!: removeFiles_lookup_other)

lemma sysDone_objectsOnly: "objectsOnly w (sysDone E cs w) \<and> w_objects (sysDone E cs w) = w_objects w"
  using sysDone_frame [of E cs w] by (auto simp: objectsOnly_def)

lemma holds_sysDone: "ok.holds E S w \<Longrightarrow> ok.holds E S (sysDone E' cs w)"
  using sysDone_objectsOnly [of w E' cs] by (auto intro: ok.holds_ahead objectsOnly_ahead)

text \<open>Under the invariant a file belongs to one place.\<close>

lemma holds_refs:
  "ok.holds E S w \<Longrightarrow> fileRef (w_data w) ns ow k f n h c \<Longrightarrow> bodyOK E S (w_objects w) ns ow k f n h c"
  by (auto simp: ok.holds_def storeOK_def bodiesOK_def)

lemma holds_file_place:
  assumes "ok.holds E S w" "fileRef (w_data w) ns ow k f n h c" "fileAt E S ns' ow' k' f"
  shows "(ns, ow, k) = (ns', ow', k')"
  using assms fileAt_inj [OF holds_env [OF assms(1)] bodyOK_fileAt [OF holds_refs [OF assms(1,2)]]] by blast

lemma refFiles_place:
  assumes "ok.holds E S w" "f \<in> refFiles (w_data w)" "fileAt E S ns ow k f"
  shows "\<exists>n h c. fileRef (w_data w) ns ow k f n h c"
  using assms holds_file_place [OF assms(1) _ assms(3)] by (fastforce simp: refFiles_def)

lemma fileAt_bodyFile:
  "digests_ok E S \<Longrightarrow> hashable E S ns ow k body \<Longrightarrow> CHR 0x00 \<notin> set ns \<Longrightarrow> CHR 0x00 \<notin> set ow \<Longrightarrow>
   fileAt E S ns ow k (bodyFile E ns ow k body)"
  by (auto simp: fileAt_def hashable_def digests_ok_def)

lemma bodyFile_inj:
  assumes "digests_ok E S" "hashable E S ns ow k a" "hashable E S ns ow k b"
    and "bodyFile E ns ow k a = bodyFile E ns ow k b"
  shows "a = b"
proof -
  from assms(4) have "e_sha256 E (filePreimage ns ow k (e_sha256 E a)) = e_sha256 E (filePreimage ns ow k (e_sha256 E b))"
    by (simp add: generationObjectFile_def hexEncode_inj)
  with assms(1-3) have "filePreimage ns ow k (e_sha256 E a) = filePreimage ns ow k (e_sha256 E b)"
    by (auto simp: digests_ok_def hashable_def dest: inj_onD)
  then have "e_sha256 E a = e_sha256 E b" by (simp add: filePreimage_def)
  with assms(1-3) show ?thesis by (auto simp: digests_ok_def hashable_def dest: inj_onD)
qed

text \<open>A referenced file that has the name of a new body already holds that body.\<close>

lemma published_file_same:
  assumes dig: "digests_ok E S" and b: "bodyOK E S objs ns' ow' k' (bodyFile E ns ow k body) n h c"
    and hb: "hashable E S ns ow k body" and nul: "CHR 0x00 \<notin> set ns" "CHR 0x00 \<notin> set ow"
  shows "fmlookup objs (bodyFile E ns ow k body) = Some body"
proof -
  have place: "(ns', ow', k') = (ns, ow, k)"
    by (rule fileAt_inj [OF dig bodyOK_fileAt [OF b] fileAt_bodyFile [OF dig hb nul]])
  from b obtain x where "hashable E S ns ow k x" "fmlookup objs (bodyFile E ns ow k body) = Some x"
    "bodyFile E ns ow k body = bodyFile E ns ow k x"
    using place by (auto simp: bodyOK_def)
  with bodyFile_inj [OF dig hb] show ?thesis by simp
qed

text \<open>Publishing a body keeps the invariant of a state that does not refer to it yet.\<close>

lemma holds_published:
  assumes h: "ok.holds E S w" and ah: "ahead w w'"
    and hb: "hashable E S ns ow k body" and nul: "CHR 0x00 \<notin> set ns" "CHR 0x00 \<notin> set ow"
    and objs: "\<And>g. \<not> isTemp g \<Longrightarrow> fmlookup (w_objects w') g =
      (if g = bodyFile E ns ow k body then Some body else fmlookup (w_objects w) g)"
  shows "ok.holds E S w'"
proof (rule holds_objects [OF h ah])
  fix f
  assume f: "f \<in> refFiles (w_data w)" and nt: "\<not> isTemp f"
  show "fmlookup (w_objects w') f = fmlookup (w_objects w) f"
  proof (cases "f = bodyFile E ns ow k body")
    case True
    from f obtain ns' ow' k' n' h' c' where "fileRef (w_data w) ns' ow' k' f n' h' c'"
      by (auto simp: refFiles_def)
    with h have "bodyOK E S (w_objects w) ns' ow' k' (bodyFile E ns ow k body) n' h' c'"
      by (auto simp: ok.holds_def storeOK_def bodiesOK_def True)
    from published_file_same [OF holds_env [OF h] this hb nul] objs [OF nt] True show ?thesis by simp
  next
    case False
    with objs [OF nt] show ?thesis by simp
  qed
qed

text \<open>The new state refers to the published body at its place and is the old one elsewhere.\<close>

lemma bodiesOK_published:
  assumes dig: "digests_ok E S" and old: "bodiesOK E S d objs"
    and hb: "hashable E S ns ow k body" and nul: "CHR 0x00 \<notin> set ns" "CHR 0x00 \<notin> set ow"
    and here: "fmlookup objs (bodyFile E ns ow k body) = Some body"
    and refs: "\<And>ns' ow' k' f n h c. fileRef d' ns' ow' k' f n h c \<Longrightarrow>
      fileRef d ns' ow' k' f n h c \<or>
      (ns', ow', k') = (ns, ow, k) \<and> f = bodyFile E ns ow k body \<and> n = int (length body) \<and>
      h = hexEncode (e_sha256 E body) \<and> (c = '''' \<or> c = StdEncoding (e_crc32c E body))"
  shows "bodiesOK E S d' objs"
  unfolding bodiesOK_def
proof (intro allI impI)
  fix ns' ow' k' f n h c
  assume "fileRef d' ns' ow' k' f n h c"
  then consider "fileRef d ns' ow' k' f n h c" |
    "(ns', ow', k') = (ns, ow, k)" "f = bodyFile E ns ow k body" "n = int (length body)"
      "h = hexEncode (e_sha256 E body)" "c = '''' \<or> c = StdEncoding (e_crc32c E body)"
    using refs by blast
  then show "bodyOK E S objs ns' ow' k' f n h c"
  proof cases
    case 1
    with old show ?thesis by (auto simp: bodiesOK_def)
  next
    case 2
    with here hb fileAt_bodyFile [OF dig hb nul] show ?thesis by (auto simp: bodyOK_def)
  qed
qed

text \<open>
  The common end of the operations that write a body, from the world after the publication:
  commit; on failure remove the new file unless it was referred to before, on success remove the
  replaced file.
\<close>

definition commitBody :: "env \<Rightarrow> (string option \<Rightarrow> string \<Rightarrow> world \<Rightarrow> world) \<Rightarrow> string option \<Rightarrow> string \<Rightarrow> 'a \<Rightarrow> world \<Rightarrow> 'a result" where
  "commitBody E tidy previous file v w =
     (case saveLocked E w of
        (Some e, w1) \<Rightarrow> (Inl e, discardNew E previous file w1)
      | (None, w1) \<Rightarrow> (Inr v, tidy previous file w1))"

lemma holds_discardNew:
  assumes "ok.holds E S w" and "file \<in> refFiles (w_data w) \<Longrightarrow> previous = Some file"
  shows "ok.holds E S (discardNew E' previous file w)"
  using assms by (auto simp: discardNew_def intro!: holds_removeFile)

lemma discardNew_objectsOnly: "objectsOnly w (discardNew E previous file w)"
  using removeFile_spec by (simp add: discardNew_def)

lemma holds_dropPrevious:
  assumes "ok.holds E S w" and "\<And>p. previous = Some p \<Longrightarrow> p \<in> refFiles (w_data w) \<Longrightarrow> p = file"
  shows "ok.holds E S (dropPrevious E' previous file w)" "ok.holds E S (dropPreviousSync E' previous file w)"
  using assms
  by (auto simp: dropPrevious_def dropPreviousSync_def split: option.split intro!: holds_removeFile holds_sysDone)

lemma commitBody_outcome:
  assumes h: "ok.holds E S w1" and ah: "ahead w w1"
    and d: "storeOK E S (w_ids w1) (w_objects w1) d" "dynamo_clean d"
    and prev: "file \<in> refFiles (w_data w1) \<Longrightarrow> previous = Some file"
    and tidy: "\<And>w2. ok.holds E S w2 \<Longrightarrow> w_data w2 = d \<Longrightarrow> ok.holds E S (tidy previous file w2)"
  shows "ok.outcome E S w (commitBody E tidy previous file v (w1\<lparr>w_data := d\<rparr>))"
proof -
  obtain r w2 where run: "saveLocked E (w1\<lparr>w_data := d\<rparr>) = (r, w2)" by fastforce
  note c = ok.saveLocked_outcome [OF h d run]
  show ?thesis
  proof (cases r)
    case None
    with c(1) c(2) tidy run show ?thesis by (auto simp: commitBody_def ok.outcome_def)
  next
    case (Some e)
    note f = c(3) [OF Some]
    have "ok.holds E S (discardNew E previous file w2)"
      by (rule holds_discardNew [OF c(1)]) (use prev refFiles_sameLive [OF conjunct1 [OF f]] in simp)
    moreover have "objectsOnly w2 (discardNew E previous file w2)" by (rule discardNew_objectsOnly)
    ultimately show ?thesis using f ah Some run
      by (auto simp: commitBody_def ok.outcome_def objectsOnly_def ahead_def)
  qed
qed
text \<open>
  The frame of an operation that writes a body: publish it, stop when that fails, and otherwise
  commit a state that refers to it at its place.
\<close>

definition writeBody ::
  "env \<Rightarrow> string \<Rightarrow> string \<Rightarrow> bytes \<Rightarrow> string option \<Rightarrow> (world \<Rightarrow> 'a result) \<Rightarrow> world \<Rightarrow> 'a result" where
  "writeBody E pat fname body previous commit w =
     (case publishObject E pat fname body w of
        (PubFailed, w1) \<Rightarrow> (Inl ErrOS, w1)
      | (PubUnsynced, w1) \<Rightarrow> (Inl ErrOS, discardNew E previous fname w1)
      | (PubDone, w1) \<Rightarrow> commit w1)"

lemma writeBody_outcome:
  fixes E ns ow k body
  defines "f \<equiv> bodyFile E ns ow k body"
  assumes h: "ok.holds E S w" and hb: "hashable E S ns ow k body"
    and nul: "CHR 0x00 \<notin> set ns" "CHR 0x00 \<notin> set ow" and pat: "isTemp pat"
    and old: "\<And>g. previous = Some g \<longleftrightarrow> (\<exists>n hh c. fileRef (w_data w) ns ow k g n hh c)"
    and commit: "\<And>w1. ok.holds E S w1 \<Longrightarrow> ahead w w1 \<Longrightarrow> fmlookup (w_objects w1) f = Some body \<Longrightarrow>
      ok.outcome E S w (commit w1)"
  shows "ok.outcome E S w (writeBody E pat f body previous commit w)"
proof -
  note fat = fileAt_bodyFile [OF holds_env [OF h] hb nul, folded f_def]
  obtain pr w1 where pub: "publishObject E pat f body w = (pr, w1)" by fastforce
  note ps = publishObject_spec [OF pub pat fileAt_not_temp [OF fat]]
  have ah: "ahead w w1" using ps(1) by (rule objectsOnly_ahead)
  have h1: "ok.holds E S w1"
  proof (cases "pr = PubFailed")
    case True
    with ps(2) show ?thesis by (intro holds_objects [OF h ah]) simp
  next
    case False
    with ps(2) f_def show ?thesis by (intro holds_published [OF h ah hb nul]) auto
  qed
  show ?thesis
  proof (cases pr)
    case PubFailed
    with pub h1 ah show ?thesis by (simp add: writeBody_def ok.outcome_ahead)
  next
    case PubUnsynced
    have "previous = Some f" if "f \<in> refFiles (w_data w1)"
      using refFiles_place [OF h1 that fat] ah old by (auto simp: ahead_def)
    then have "ok.holds E S (discardNew E previous f w1)" by (rule holds_discardNew [OF h1])
    moreover have "ahead w (discardNew E previous f w1)"
      using ah discardNew_objectsOnly objectsOnly_ahead ahead_trans by blast
    ultimately show ?thesis using PubUnsynced pub by (simp add: writeBody_def ok.outcome_ahead)
  next
    case PubDone
    with commit [OF h1 ah] ps(2) [OF fileAt_not_temp [OF fat]] pub show ?thesis by (simp add: writeBody_def)
  qed
qed

lemma commitBody_place:
  fixes E ns ow k body
  defines "f \<equiv> bodyFile E ns ow k body"
  assumes h: "ok.holds E S w1" and ah: "ahead w w1"
    and d: "storeOK E S (w_ids w1) (w_objects w1) d" "dynamo_clean d"
    and hb: "hashable E S ns ow k body" and nul: "CHR 0x00 \<notin> set ns" "CHR 0x00 \<notin> set ow"
    and old: "\<And>g. previous = Some g \<longleftrightarrow> (\<exists>n hh c. fileRef (w_data w1) ns ow k g n hh c)"
    and new: "\<And>g n hh c. fileRef d ns ow k g n hh c \<Longrightarrow> g = f"
  shows "ok.outcome E S w (commitBody E (dropPreviousSync E) previous f v (w1\<lparr>w_data := d\<rparr>))"
proof (rule commitBody_outcome [OF h ah d])
  show "f \<in> refFiles (w_data w1) \<Longrightarrow> previous = Some f"
    using refFiles_place [OF h _ fileAt_bodyFile [OF holds_env [OF h] hb nul]] old by (simp add: f_def)
  fix w2
  assume h2: "ok.holds E S w2" and w2: "w_data w2 = d"
  show "ok.holds E S (dropPreviousSync E previous f w2)"
  proof (rule holds_dropPrevious(2) [OF h2])
    fix p
    assume p: "previous = Some p" "p \<in> refFiles (w_data w2)"
    from p(1) old obtain n hh c where "fileRef (w_data w1) ns ow k p n hh c" by blast
    then have "fileAt E S ns ow k p" using bodyOK_fileAt holds_refs [OF h] by blast
    from refFiles_place [OF h2 p(2) this] new w2 show "p = f" by blast
  qed
qed

text \<open>What a body write that succeeds leaves in the live state.\<close>

lemma tidy_objectsOnly:
  "objectsOnly w (dropPrevious E p f w)" "objectsOnly w (dropPreviousSync E p f w)"
  by (auto simp: dropPrevious_def dropPreviousSync_def split: option.split
      intro: objectsOnly_trans conjunct1 [OF removeFile_spec] conjunct1 [OF sysDone_objectsOnly])

lemma commitBody_Inr:
  assumes "commitBody E tidy prev f v w = (Inr r, w')" "\<And>w5. objectsOnly w5 (tidy prev f w5)"
  shows "r = v" "w_data w' = w_data w"
proof -
  from assms(1) obtain w5 where s: "saveLocked E w = (None, w5)" "r = v" "w' = tidy prev f w5"
    by (auto simp: commitBody_def split: prod.splits option.splits)
  from s(1) have "w_data w5 = w_data w" by (cases rule: saveLocked_cases) auto
  with s assms(2) [of w5] show "r = v" "w_data w' = w_data w" by (auto simp: objectsOnly_def)
qed

lemma writeBody_Inr:
  assumes "writeBody E pat f body prev commit w = (Inr r, w')" "isTemp pat" "\<not> isTemp f"
  obtains w1 where "objectsOnly w w1" "commit w1 = (Inr r, w')"
proof -
  from assms(1) obtain w1 where p: "publishObject E pat f body w = (PubDone, w1)" "commit w1 = (Inr r, w')"
    by (auto simp: writeBody_def split: prod.splits publish_result.splits)
  from publishObject_spec(1) [OF p(1) assms(2,3)] p(2) that show thesis by blast
qed

end
