(* ===== verification/S3_Correct.thy ===== *)
theory S3_Correct
  imports Bodies SQS_Correct
begin

text \<open>
  Correctness of the object store: every operation keeps the store invariant (so every committed
  body is on disk and intact, whatever system calls fail) and is atomic; notifications, listings
  and multipart uploads do what they promise.
\<close>

section \<open>Notifications\<close>

lemma notifyOne_world:
  "\<exists>qs c i. notifyOne E bn x ev n w = w\<lparr>w_clock := c, w_ids := i, w_data := (w_data w)\<lparr>Queues := qs\<rparr>\<rparr> \<and>
     w_ids w \<le> i \<and> (queuesOK E (w_ids w) (Queues (w_data w)) \<longrightarrow> queuesOK E i qs)"
proof (cases "notificationApplies x ev n \<and> fmlookup (Queues (w_data w)) (notificationQueue n) \<noteq> None")
  case False
  then have "notifyOne E bn x ev n w = w" by (auto simp: notifyOne_def)
  then have "notifyOne E bn x ev n w = w\<lparr>w_clock := w_clock w, w_ids := w_ids w, w_data := (w_data w)\<lparr>Queues := Queues (w_data w)\<rparr>\<rparr>"
    by simp
  then show ?thesis by blast
next
  case True
  then obtain q where q: "fmlookup (Queues (w_data w)) (notificationQueue n) = Some q" by auto
  let ?b = "e_jsonText E (objectEvent (e_timeText E (e_now E (w_clock w))) ev (mint E (w_ids w)) (nt_ID n) bn x)"
  obtain m q' w3 where e: "enqueueMessageLocked E q ?b fmempty 0 '''' '''' ''''
      (w\<lparr>w_clock := Suc (w_clock w), w_ids := Suc (w_ids w)\<rparr>) = (m, q', w3)" by (metis prod_cases3)
  note en = enqueue_world [OF e]
  have eq: "notifyOne E bn x ev n w = w\<lparr>w_clock := Suc (Suc (Suc (w_clock w))), w_ids := Suc (Suc (w_ids w)),
      w_data := (w_data w)\<lparr>Queues := fmupd (notificationQueue n) q' (Queues (w_data w))\<rparr>\<rparr>"
    using True q e en by (simp add: notifyOne_def now_def newID_def Let_def enqueueLocked_def)
  have "queuesOK E (Suc (Suc (w_ids w))) (fmupd (notificationQueue n) q' (Queues (w_data w)))"
    if "queuesOK E (w_ids w) (Queues (w_data w))"
  proof -
    have "queueOK E (w_ids w) (notificationQueue n) q'"
      using that q en queueOK_enqueue [of E "w_ids w" "notificationQueue n" q m] by (auto simp: queuesOK_def)
    with that have "queuesOK E (w_ids w) (fmupd (notificationQueue n) q' (Queues (w_data w)))"
      by (intro queuesOK_upd)
    then show ?thesis by (rule queuesOK_mono) simp
  qed
  with eq show ?thesis by (metis le_SucI order_refl)
qed

lemma notifyAll_world:
  "\<exists>qs c i. fold (notifyOne E bn x ev) ns w = w\<lparr>w_clock := c, w_ids := i, w_data := (w_data w)\<lparr>Queues := qs\<rparr>\<rparr> \<and>
     w_ids w \<le> i \<and> (queuesOK E (w_ids w) (Queues (w_data w)) \<longrightarrow> queuesOK E i qs)"
proof (induction ns arbitrary: w)
  case Nil
  have "w = w\<lparr>w_clock := w_clock w, w_ids := w_ids w, w_data := (w_data w)\<lparr>Queues := Queues (w_data w)\<rparr>\<rparr>" by simp
  then show ?case by (metis (no_types) fold_simps(1) order_refl)
next
  case (Cons n ns)
  obtain qs c i where one: "notifyOne E bn x ev n w = w\<lparr>w_clock := c, w_ids := i, w_data := (w_data w)\<lparr>Queues := qs\<rparr>\<rparr>"
    "w_ids w \<le> i" "queuesOK E (w_ids w) (Queues (w_data w)) \<longrightarrow> queuesOK E i qs"
    using notifyOne_world by blast
  from Cons.IH [of "notifyOne E bn x ev n w"] one obtain qs' c' i' where
    "fold (notifyOne E bn x ev) (n # ns) w = w\<lparr>w_clock := c', w_ids := i', w_data := (w_data w)\<lparr>Queues := qs'\<rparr>\<rparr>"
    "i \<le> i'" "queuesOK E i qs \<longrightarrow> queuesOK E i' qs'"
    by auto
  with one show ?case by (meson order_trans)
qed

section \<open>References of the updated states\<close>

lemma fileRef_putObject:
  assumes b: "fmlookup (Buckets d) bucket = Some b"
    and r: "fileRef (d\<lparr>Buckets := fmupd bucket (b\<lparr>bk_Objects := fmupd key x (bk_Objects b)\<rparr>) (Buckets d), Queues := qs\<rparr>)
      ns ow k f n h c"
  shows "fileRef d ns ow k f n h c \<and> (ns, ow, k) \<noteq> (''s3'', bucket, key) \<or>
    (ns, ow, k) = (''s3'', bucket, key) \<and> f = obj_File x \<and> n = obj_Size x \<and> h = obj_SHA256 x \<and> c = ''''"
  using r b by (elim fileRefE) (auto intro: fileRef.intros split: if_splits)

lemma fileRef_dropUpload:
  "fileRef (d\<lparr>MultipartUploads := fmdrop u (MultipartUploads d)\<rparr>) ns ow k f n h c \<Longrightarrow>
   fileRef d ns ow k f n h c \<and> (ns = ''multipart'' \<longrightarrow> ow \<noteq> u)"
  by (elim fileRefE) (auto intro: fileRef.intros split: if_splits)

lemma fileRef_putPart:
  assumes up: "fmlookup (MultipartUploads d) u = Some up"
    and r: "fileRef (d\<lparr>MultipartUploads := fmupd u (up\<lparr>mu_Parts := fmupd i p (mu_Parts up)\<rparr>) (MultipartUploads d)\<rparr>)
      ns ow k f n h c"
  shows "fileRef d ns ow k f n h c \<and> (ns, ow, k) \<noteq> (''multipart'', u, showInt i) \<or>
    (ns, ow, k) = (''multipart'', u, showInt i) \<and> f = mp_File p \<and> n = mp_Size p \<and> h = mp_SHA256 p \<and> c = ''''"
  using r up by (elim fileRefE) (auto intro: fileRef.intros simp: showInt_inj split: if_splits)

lemma fileRef_deleteObject:
  assumes b: "fmlookup (Buckets d) bucket = Some b"
    and r: "fileRef (d\<lparr>Buckets := fmupd bucket (b\<lparr>bk_Objects := fmdrop key (bk_Objects b)\<rparr>) (Buckets d)\<rparr>) ns ow k f n h c"
  shows "fileRef d ns ow k f n h c \<and> (ns, ow, k) \<noteq> (''s3'', bucket, key)"
  using r b by (elim fileRefE) (auto intro: fileRef.intros split: if_splits)

lemma bodiesOK_subset:
  "bodiesOK E S d objs \<Longrightarrow> (\<And>ns ow k f n h c. fileRef d' ns ow k f n h c \<Longrightarrow> fileRef d ns ow k f n h c) \<Longrightarrow>
   bodiesOK E S d' objs"
  by (auto simp: bodiesOK_def)

lemma uploadsOK_buckets:
  "uploadsOK E n bs ups \<Longrightarrow> (\<And>b. fmlookup bs b \<noteq> None \<Longrightarrow> fmlookup bs' b \<noteq> None) \<Longrightarrow> uploadsOK E n bs' ups"
  by (simp add: uploadsOK_def uploadOK_def)

lemma uploadsOK_fmupd: "uploadsOK E n bs ups \<Longrightarrow> uploadsOK E n (fmupd name b bs) ups"
  by (erule uploadsOK_buckets) simp

section \<open>Buckets and notifications\<close>

lemma CreateBucket_outcome:
  "ok.holds E S w \<Longrightarrow> CHR 0x00 \<notin> set name \<Longrightarrow> ok.outcome E S w (CreateBucket E name w)"
proof (cases "fmlookup (Buckets (w_data w)) name")
  case None
  assume h: "ok.holds E S w" and nul: "CHR 0x00 \<notin> set name"
  have "bodiesOK E S ((w_data w)\<lparr>Buckets := fmupd name \<lparr>bk_Name = name, bk_CreatedAt = t, bk_Objects = fmempty,
      bk_Notifications = []\<rparr> (Buckets (w_data w))\<rparr>) (w_objects w)"
    if "bodiesOK E S (w_data w) (w_objects w)" for t
    using that by (rule bodiesOK_subset) (auto elim!: fileRefE intro: fileRef.intros split: if_splits)
  with h nul None show ?thesis
    by (auto simp: CreateBucket_def now_def storeOK_def ahead_def bucketsOK_def bucketOK_def
        intro!: ok_save uploadsOK_fmupd)
qed (simp add: CreateBucket_def ok.outcome_return)

lemma DeleteBucket_outcome: "ok.holds E S w \<Longrightarrow> ok.outcome E S w (DeleteBucket E name w)"
proof (cases "fmlookup (Buckets (w_data w)) name")
  case (Some b)
  assume h: "ok.holds E S w"
  have bod: "bodiesOK E S ((w_data w)\<lparr>Buckets := fmdrop name (Buckets (w_data w))\<rparr>) (w_objects w)"
    if "bodiesOK E S (w_data w) (w_objects w)"
    using that by (rule bodiesOK_subset) (auto elim!: fileRefE intro: fileRef.intros split: if_splits)
  have up: "uploadsOK E n (fmdrop name (Buckets (w_data w))) (MultipartUploads (w_data w))"
    if "uploadsOK E n (Buckets (w_data w)) (MultipartUploads (w_data w))"
      "\<not> list_ex (\<lambda>u. mu_Bucket u = name) (fmvalues (MultipartUploads (w_data w)))" for n
    using that by (auto simp: uploadsOK_def uploadOK_def list_ex_iff set_fmvalues)
  show ?thesis using h Some bod up
    by (auto simp: DeleteBucket_def storeOK_def ahead_def bucketsOK_def
        intro!: ok_save ok.outcome_return)
qed (simp add: DeleteBucket_def ok.outcome_return)

lemma SetNotifications_outcome: "ok.holds E S w \<Longrightarrow> ok.outcome E S w (SetNotifications E name ns w)"
proof (cases "fmlookup (Buckets (w_data w)) name")
  case (Some b)
  assume h: "ok.holds E S w"
  have "bodiesOK E S ((w_data w)\<lparr>Buckets := fmupd name (b\<lparr>bk_Notifications := ns\<rparr>) (Buckets (w_data w))\<rparr>) (w_objects w)"
    if "bodiesOK E S (w_data w) (w_objects w)"
    using that
  proof (rule bodiesOK_subset)
    fix ns' ow k f n h c
    assume "fileRef ((w_data w)\<lparr>Buckets := fmupd name (b\<lparr>bk_Notifications := ns\<rparr>) (Buckets (w_data w))\<rparr>) ns' ow k f n h c"
    with Some show "fileRef (w_data w) ns' ow k f n h c"
      by (elim fileRefE) (auto intro: fileRef.intros split: if_splits)
  qed
  with h Some show ?thesis
    by (auto simp: SetNotifications_def storeOK_def ahead_def bucketsOK_def bucketOK_def
        intro!: ok_save ok.outcome_return uploadsOK_fmupd)
qed (simp add: SetNotifications_def ok.outcome_return)

section \<open>Writing objects\<close>

text \<open>The new state of \<open>PutObject\<close> and \<open>CompleteMultipartUpload\<close> before the upload is dropped.\<close>

lemma putObject_storeOK:
  assumes h: "ok.holds E S w1" and b: "fmlookup (Buckets (w_data w1)) bucket = Some b"
    and hb: "hashable E S ''s3'' bucket key body"
    and here: "fmlookup (w_objects w1) (bodyFile E ''s3'' bucket key body) = Some body"
    and x: "obj_Key x = key" "obj_File x = bodyFile E ''s3'' bucket key body" "obj_Size x = int (length body)"
      "obj_SHA256 x = hexEncode (e_sha256 E body)"
    and i: "w_ids w1 \<le> i" "queuesOK E i qs"
  shows "storeOK E S i (w_objects w1)
    ((w_data w1)\<lparr>Buckets := fmupd bucket (b\<lparr>bk_Objects := fmupd key x (bk_Objects b)\<rparr>) (Buckets (w_data w1)), Queues := qs\<rparr>)"
proof -
  from h have s: "storeOK E S i (w_objects w1) (w_data w1)" using i(1) ok.inv_ids by (auto simp: ok.holds_def)
  have nul: "CHR 0x00 \<notin> set ''s3''" "CHR 0x00 \<notin> set bucket"
    using s b by (auto simp: storeOK_def bucketsOK_def bucketOK_def)
  have "bodiesOK E S ((w_data w1)\<lparr>Buckets := fmupd bucket (b\<lparr>bk_Objects := fmupd key x (bk_Objects b)\<rparr>)
      (Buckets (w_data w1)), Queues := qs\<rparr>) (w_objects w1)"
  proof (rule bodiesOK_published [OF holds_env [OF h] _ hb nul here])
    show "bodiesOK E S (w_data w1) (w_objects w1)" using s by (simp add: storeOK_def)
  qed (use fileRef_putObject [OF b] x in blast)
  with s b i(2) x(1) show ?thesis
    by (auto simp: storeOK_def bucketsOK_def bucketOK_def intro!: uploadsOK_fmupd)
qed

text \<open>The place of an object and the file it refers to.\<close>

lemma fileRef_s3:
  "fileRef d ''s3'' bucket key f n h c \<longleftrightarrow>
     (\<exists>b x. fmlookup (Buckets d) bucket = Some b \<and> fmlookup (bk_Objects b) key = Some x \<and> f = obj_File x \<and>
        n = obj_Size x \<and> h = obj_SHA256 x \<and> c = '''')"
  by (auto elim!: fileRefE intro: fileRef.intros)

text \<open>
  \<open>PutObject\<close> as a body written and committed: the object it stores, and the world with the object
  entered and its notifications sent, before the save.
\<close>

definition putObjectAt :: "env \<Rightarrow> string \<Rightarrow> string \<Rightarrow> bytes \<Rightarrow> string \<Rightarrow> strmap \<Rightarrow> world \<Rightarrow> Object" where
  "putObjectAt E bucket key body ct md w1 =
     \<lparr>obj_Key = key, obj_ETag = hexEncode (e_md5 E body), obj_SHA256 = hexEncode (e_sha256 E body),
      obj_Size = int (length body), obj_LastModified = e_now E (w_clock w1), obj_ContentType = ct,
      obj_Metadata = md, obj_File = bodyFile E ''s3'' bucket key body\<rparr>"

definition enterObject :: "env \<Rightarrow> string \<Rightarrow> string \<Rightarrow> Bucket \<Rightarrow> string \<Rightarrow> Object \<Rightarrow> world \<Rightarrow> world" where
  "enterObject E ev bucket b key x w1 =
     (let b' = b\<lparr>bk_Objects := fmupd key x (bk_Objects b)\<rparr>
      in fold (notifyOne E (bk_Name b) x ev) (bk_Notifications b)
           (w1\<lparr>w_clock := Suc (w_clock w1), w_data := (w_data w1)\<lparr>Buckets := fmupd bucket b' (Buckets (w_data w1))\<rparr>\<rparr>))"

lemma PutObject_eq:
  fixes E bucket key body b
  assumes "fmlookup (Buckets (w_data w)) bucket = Some b"
  defines "prev \<equiv> map_option obj_File (fmlookup (bk_Objects b) key)" and "f \<equiv> bodyFile E ''s3'' bucket key body"
  shows "PutObject E bucket key body ct md w = writeBody E ''.object-'' f body prev
    (\<lambda>w1. commitBody E (dropPreviousSync E) prev f (putObjectAt E bucket key body ct md w1)
       (enterObject E ''ObjectCreated:Put'' bucket b key (putObjectAt E bucket key body ct md w1) w1)) w"
  using assms(1) unfolding prev_def f_def putObjectAt_def enterObject_def
  by (simp add: PutObject_def now_def commitBody_def enqueueObjectEventLocked_def writeBody_def Let_def
      cong: prod.case_cong publish_result.case_cong)

lemma enterObject_world:
  obtains qs c i where
    "enterObject E ev bucket b key x w1 = w1\<lparr>w_clock := c, w_ids := i, w_data := (w_data w1)\<lparr>Buckets :=
       fmupd bucket (b\<lparr>bk_Objects := fmupd key x (bk_Objects b)\<rparr>) (Buckets (w_data w1)), Queues := qs\<rparr>\<rparr>"
    "w_ids w1 \<le> i" "queuesOK E (w_ids w1) (Queues (w_data w1)) \<Longrightarrow> queuesOK E i qs"
proof -
  let ?b = "b\<lparr>bk_Objects := fmupd key x (bk_Objects b)\<rparr>"
  let ?w = "w1\<lparr>w_clock := Suc (w_clock w1), w_data := (w_data w1)\<lparr>Buckets := fmupd bucket ?b (Buckets (w_data w1))\<rparr>\<rparr>"
  obtain qs c i where "enterObject E ev bucket b key x w1 = ?w\<lparr>w_clock := c, w_ids := i, w_data := (w_data ?w)\<lparr>Queues := qs\<rparr>\<rparr>"
    "w_ids ?w \<le> i" "queuesOK E (w_ids ?w) (Queues (w_data ?w)) \<longrightarrow> queuesOK E i qs"
    using notifyAll_world unfolding enterObject_def Let_def by blast
  then show thesis by (intro that [where qs = qs and c = c and i = i]) simp_all
qed

lemma PutObject_outcome:
  assumes h: "ok.holds E S w" and hb: "hashable E S ''s3'' bucket key body"
  shows "ok.outcome E S w (PutObject E bucket key body ct md w)"
proof (cases "fmlookup (Buckets (w_data w)) bucket")
  case None
  with h show ?thesis by (simp add: PutObject_def ok.outcome_return)
next
  case (Some b)
  let ?f = "bodyFile E ''s3'' bucket key body" and ?x = "putObjectAt E bucket key body ct md"
  let ?prev = "map_option obj_File (fmlookup (bk_Objects b) key)"
  have nul: "CHR 0x00 \<notin> set ''s3''" "CHR 0x00 \<notin> set bucket"
    using h Some by (auto simp: ok.holds_def storeOK_def bucketsOK_def bucketOK_def)
  have old: "?prev = Some f \<longleftrightarrow> (\<exists>n hh c. fileRef (w_data w) ''s3'' bucket key f n hh c)" for f
    using Some by (auto simp: fileRef_s3)
  show ?thesis unfolding PutObject_eq [OF Some]
  proof (rule writeBody_outcome [OF h hb nul _ old])
    fix w1
    assume h1: "ok.holds E S w1" and ah: "ahead w w1" and here: "fmlookup (w_objects w1) ?f = Some body"
    have data: "w_data w1 = w_data w" using ah by (simp add: ahead_def)
    let ?b = "b\<lparr>bk_Objects := fmupd key (?x w1) (bk_Objects b)\<rparr>"
    obtain qs c i where w4: "enterObject E ''ObjectCreated:Put'' bucket b key (?x w1) w1 = w1\<lparr>w_clock := c, w_ids := i, w_data :=
        (w_data w1)\<lparr>Buckets := fmupd bucket ?b (Buckets (w_data w1)), Queues := qs\<rparr>\<rparr>" and le: "w_ids w1 \<le> i"
      and qs: "queuesOK E (w_ids w1) (Queues (w_data w1)) \<Longrightarrow> queuesOK E i qs"
      by (rule enterObject_world [of E "''ObjectCreated:Put''" bucket b key "?x w1" w1]) blast
    let ?d = "(w_data w1)\<lparr>Buckets := fmupd bucket ?b (Buckets (w_data w1)), Queues := qs\<rparr>"
    let ?w = "w1\<lparr>w_clock := c, w_ids := i\<rparr>"
    have q: "queuesOK E i qs" using qs h1 by (simp add: ok.holds_def storeOK_def)
    have hw: "ok.holds E S ?w" by (rule ok.holds_ahead [OF h1]) (use le in \<open>auto simp: ahead_def\<close>)
    have d: "storeOK E S i (w_objects w1) ?d" using Some data here
      by (intro putObject_storeOK [OF h1 _ hb _ _ _ _ _ le q]) (auto simp: putObjectAt_def)
    show "ok.outcome E S w (commitBody E (dropPreviousSync E) ?prev ?f (?x w1) (enterObject E ''ObjectCreated:Put'' bucket b key (?x w1) w1))"
      unfolding w4
    proof (rule commitBody_place [OF hw _ _ _ hb nul, simplified])
      show "ahead w ?w" using ah le by (auto simp: ahead_def)
      show "?prev = Some f \<longleftrightarrow> (\<exists>n hh c. fileRef (w_data w1) ''s3'' bucket key f n hh c)" for f
        using old by (simp add: data)
      show "fileRef ?d ''s3'' bucket key f n hh cc \<Longrightarrow> f = ?f" for f n hh cc
        by (auto simp: fileRef_s3 putObjectAt_def)
    qed (use d ok_holds_parts(3) [OF h1] in simp_all)
  qed simp
qed

lemma GetObject_outcome: "ok.holds E S w \<Longrightarrow> ok.outcome E S w (GetObject E bucket key w)"
  by (auto simp: GetObject_def split: option.split prod.split sum.split dest!: readObjectBody_frame
      intro!: ok.outcome_return ok.outcome_read objectsOnly_ahead)

lemma DeleteObject_outcome:
  assumes h: "ok.holds E S w"
  shows "ok.outcome E S w (DeleteObject E bucket key w)"
proof (cases "fmlookup (Buckets (w_data w)) bucket")
  case None
  with h show ?thesis by (simp add: DeleteObject_def ok.outcome_return)
next
  case (Some b)
  show ?thesis
  proof (cases "fmlookup (bk_Objects b) key")
    case None
    with h Some show ?thesis by (simp add: DeleteObject_def ok.outcome_return)
  next
    case x: (Some x)
    let ?d = "(w_data w)\<lparr>Buckets := fmupd bucket (b\<lparr>bk_Objects := fmdrop key (bk_Objects b)\<rparr>) (Buckets (w_data w))\<rparr>"
    have s: "storeOK E S (w_ids w) (w_objects w) (w_data w)" using h by (simp add: ok.holds_def)
    have "bodiesOK E S ?d (w_objects w)"
      by (rule bodiesOK_subset [where d = "w_data w"]) (use s fileRef_deleteObject [OF Some] in \<open>auto simp: storeOK_def\<close>)
    with s Some have d: "storeOK E S (w_ids w) (w_objects w) ?d"
      by (auto simp: storeOK_def bucketsOK_def bucketOK_def intro!: uploadsOK_fmupd)
    have dc: "dynamo_clean ?d" using ok_holds_parts(3) [OF h] by simp
    obtain r w2 where run: "saveLocked E (w\<lparr>w_data := ?d\<rparr>) = (r, w2)" by fastforce
    note c = ok.saveLocked_outcome [OF h d dc run]
    show ?thesis
    proof (cases r)
      case None
      have "obj_File x \<notin> refFiles (w_data w2)"
      proof
        assume f: "obj_File x \<in> refFiles (w_data w2)"
        have "fileAt E S ''s3'' bucket key (obj_File x)"
          using holds_refs [OF h fileRef.s3 [OF Some x]] by (rule bodyOK_fileAt)
        from refFiles_place [OF c(1) f this] c(2) [OF None] show False
          by (auto dest: fileRef_deleteObject [OF Some])
      qed
      with holds_removeFile [OF c(1)] None run Some x show ?thesis by (simp add: DeleteObject_def ok.outcome_def)
    next
      case (Some e)
      with c(1) c(3) [OF Some] run \<open>fmlookup (Buckets (w_data w)) bucket = Some b\<close> x show ?thesis
        by (simp add: DeleteObject_def ok.outcome_def)
    qed
  qed
qed

section \<open>Multipart uploads\<close>

lemma hexDigit_not_nul: "d < 16 \<Longrightarrow> hexDigit d \<noteq> CHR 0x00"
  by (auto simp: hexDigit_def char_of_eq_iff take_bit_eq_mod)

lemma mint_no_nul: "CHR 0x00 \<notin> set (mint E n)"
proof -
  have hex: "c \<in> set (hexEncode b) \<Longrightarrow> c \<noteq> CHR 0x00" for c b
    using hexEncode_chars [of c b] hexDigit_not_nul by metis
  show ?thesis by (auto simp: mint_def uuid_text_def dest: hex)
qed

lemma holds_upload:
  "ok.holds E S w \<Longrightarrow> fmlookup (MultipartUploads (w_data w)) u = Some up \<Longrightarrow>
   uploadOK E (w_ids w) (Buckets (w_data w)) u up"
  by (simp add: ok.holds_def storeOK_def uploadsOK_def)

lemma findUpload_Some:
  "findUpload bucket key u d = Some up \<Longrightarrow>
   fmlookup (MultipartUploads d) u = Some up \<and> mu_Bucket up = bucket \<and> mu_Key up = key"
  by (auto simp: findUpload_def split: option.splits if_splits)

lemma CreateMultipartUpload_outcome:
  "ok.holds E S w \<Longrightarrow> ok.outcome E S w (CreateMultipartUpload E bucket key ct md w)"
proof (cases "fmlookup (Buckets (w_data w)) bucket")
  case (Some b)
  assume h: "ok.holds E S w"
  let ?u = "\<lparr>mu_ID = mint E (w_ids w), mu_Bucket = bucket, mu_Key = key, mu_CreatedAt = e_now E (w_clock w),
     mu_ContentType = ct, mu_Metadata = md, mu_Parts = fmempty\<rparr>"
  let ?d = "(w_data w)\<lparr>MultipartUploads := fmupd (mint E (w_ids w)) ?u (MultipartUploads (w_data w))\<rparr>"
  have bod: "bodiesOK E S ?d objs" if "bodiesOK E S (w_data w) objs" for objs
    using that by (rule bodiesOK_subset) (auto elim!: fileRefE intro: fileRef.intros split: if_splits)
  have ups: "uploadsOK E (Suc (w_ids w)) (Buckets (w_data w)) (MultipartUploads ?d)"
    if "uploadsOK E (Suc (w_ids w)) (Buckets (w_data w)) (MultipartUploads (w_data w))"
    using that Some by (auto simp: uploadsOK_def uploadOK_def)
  show ?thesis using h Some bod ups
    by (auto simp: CreateMultipartUpload_def newID_def now_def Let_def storeOK_def ahead_def intro!: ok_save)
qed (simp add: CreateMultipartUpload_def ok.outcome_return)

lemma fileRef_multipart:
  "fileRef d ''multipart'' u (showInt i) f n h c \<longleftrightarrow>
     (\<exists>up p. fmlookup (MultipartUploads d) u = Some up \<and> fmlookup (mu_Parts up) i = Some p \<and> f = mp_File p \<and>
        n = mp_Size p \<and> h = mp_SHA256 p \<and> c = '''')"
  by (auto elim!: fileRefE intro: fileRef.intros simp: showInt_inj)

lemma UploadMultipartPart_outcome:
  assumes h: "ok.holds E S w" and hb: "hashable E S ''multipart'' u (showInt i) body"
  shows "ok.outcome E S w (UploadMultipartPart E bucket key u i body w)"
proof (cases "i < 1 \<or> i > 10000 \<or> findUpload bucket key u (w_data w) = None")
  case True
  with h show ?thesis by (auto simp: UploadMultipartPart_def ok.outcome_return)
next
  case False
  then obtain up where i: "1 \<le> i" "i \<le> 10000" and fu: "findUpload bucket key u (w_data w) = Some up" by auto
  note up = findUpload_Some [OF fu]
  let ?f = "bodyFile E ''multipart'' u (showInt i) body"
  define prev where "prev = map_option mp_File (fmlookup (mu_Parts up) i)"
  define p where "p w1 = \<lparr>mp_PartNumber = i, mp_ETag = hexEncode (e_md5 E body), mp_SHA256 = hexEncode (e_sha256 E body),
    mp_Size = int (length body), mp_LastModified = e_now E (w_clock w1), mp_File = ?f\<rparr>" for w1 :: world
  have "\<exists>j. u = mint E j" using holds_upload [OF h conjunct1 [OF up]] by (auto simp: uploadOK_def)
  then have nul: "CHR 0x00 \<notin> set ''multipart''" "CHR 0x00 \<notin> set u" using mint_no_nul by auto
  have old: "prev = Some f \<longleftrightarrow> (\<exists>n hh c. fileRef (w_data w) ''multipart'' u (showInt i) f n hh c)" for f
    using up by (auto simp: prev_def fileRef_multipart)
  have eq: "UploadMultipartPart E bucket key u i body w = writeBody E ''.multipart-'' ?f body prev
      (\<lambda>w1. commitBody E (dropPreviousSync E) prev ?f (p w1) (w1\<lparr>w_clock := Suc (w_clock w1),
         w_data := (w_data w1)\<lparr>MultipartUploads := fmupd u (up\<lparr>mu_Parts := fmupd i (p w1) (mu_Parts up)\<rparr>)
           (MultipartUploads (w_data w1))\<rparr>\<rparr>)) w"
    using i fu unfolding prev_def p_def
    by (simp add: UploadMultipartPart_def now_def commitBody_def writeBody_def Let_def
        cong: prod.case_cong publish_result.case_cong)
  show ?thesis unfolding eq
  proof (rule writeBody_outcome [OF h hb nul _ old])
    fix w1
    assume h1: "ok.holds E S w1" and ah: "ahead w w1" and here: "fmlookup (w_objects w1) ?f = Some body"
    have data: "w_data w1 = w_data w" using ah by (simp add: ahead_def)
    let ?d = "(w_data w1)\<lparr>MultipartUploads := fmupd u (up\<lparr>mu_Parts := fmupd i (p w1) (mu_Parts up)\<rparr>)
           (MultipartUploads (w_data w1))\<rparr>"
    let ?w = "w1\<lparr>w_clock := Suc (w_clock w1)\<rparr>"
    have s: "storeOK E S (w_ids w1) (w_objects w1) (w_data w1)" using h1 by (simp add: ok.holds_def)
    have lk: "fmlookup (MultipartUploads (w_data w1)) u = Some up" using up data by simp
    have "bodiesOK E S ?d (w_objects w1)"
    proof (rule bodiesOK_published [OF holds_env [OF h1] _ hb nul here])
      show "bodiesOK E S (w_data w1) (w_objects w1)" using s by (simp add: storeOK_def)
    qed (drule fileRef_putPart [OF lk], auto simp: p_def)
    moreover have "uploadsOK E (w_ids w1) (Buckets (w_data w1)) (MultipartUploads ?d)"
      using s lk i by (auto simp: storeOK_def uploadsOK_def uploadOK_def partOK_def p_def hexDecode_hexEncode)
    ultimately have d: "storeOK E S (w_ids w1) (w_objects w1) ?d" using s by (simp add: storeOK_def)
    show "ok.outcome E S w (commitBody E (dropPreviousSync E) prev ?f (p w1) (?w\<lparr>w_data := ?d\<rparr>))"
    proof (rule commitBody_place [OF ok.holds_ahead [OF h1] _ _ _ hb nul])
      show "prev = Some f \<longleftrightarrow> (\<exists>n hh c. fileRef (w_data ?w) ''multipart'' u (showInt i) f n hh c)" for f
        using old by (simp add: data)
      show "fileRef ?d ''multipart'' u (showInt i) f n hh cc \<Longrightarrow> f = ?f" for f n hh cc
        by (auto simp: fileRef_multipart p_def)
    qed (use d ah ok_holds_parts(3) [OF h1] in \<open>simp_all add: ahead_def\<close>)
  qed simp
qed

text \<open>The files of an upload are not referred to once it is gone.\<close>

lemma dropUpload_files:
  assumes h: "ok.holds E S w" and up: "fmlookup (MultipartUploads (w_data w)) u = Some up"
    and h2: "ok.holds E S w2" and gone: "fmlookup (MultipartUploads (w_data w2)) u = None"
  shows "set (map mp_File (fmvalues (mu_Parts up))) \<inter> refFiles (w_data w2) = {}"
proof (intro equals0I, elim IntE)
  fix f
  assume "f \<in> set (map mp_File (fmvalues (mu_Parts up)))" and f: "f \<in> refFiles (w_data w2)"
  then obtain i p where p: "fmlookup (mu_Parts up) i = Some p" "f = mp_File p" by (auto simp: set_fmvalues)
  have "fileAt E S ''multipart'' u (showInt i) f"
    using holds_refs [OF h fileRef.multipart [OF up p(1)]] p(2) by (auto dest: bodyOK_fileAt)
  from refFiles_place [OF h2 f this] gone show False by (auto simp: fileRef_multipart)
qed

lemma dropUpload_storeOK:
  "storeOK E S n objs d \<Longrightarrow> storeOK E S n objs (d\<lparr>MultipartUploads := fmdrop u (MultipartUploads d)\<rparr>)"
proof -
  assume s: "storeOK E S n objs d"
  then have "bodiesOK E S d objs" by (simp add: storeOK_def)
  then have "bodiesOK E S (d\<lparr>MultipartUploads := fmdrop u (MultipartUploads d)\<rparr>) objs"
    by (rule bodiesOK_subset) (drule fileRef_dropUpload, simp)
  with s show ?thesis by (auto simp: storeOK_def uploadsOK_def)
qed

lemma AbortMultipartUpload_outcome:
  assumes h: "ok.holds E S w"
  shows "ok.outcome E S w (AbortMultipartUpload E bucket key u w)"
proof (cases "findUpload bucket key u (w_data w)")
  case None
  with h show ?thesis by (simp add: AbortMultipartUpload_def ok.outcome_return)
next
  case (Some up)
  note up = findUpload_Some [OF Some]
  let ?d = "(w_data w)\<lparr>MultipartUploads := fmdrop u (MultipartUploads (w_data w))\<rparr>"
  have d: "storeOK E S (w_ids w) (w_objects w) ?d" "dynamo_clean ?d"
    using h ok_holds_parts [OF h] by (auto intro: dropUpload_storeOK)
  obtain r w2 where run: "saveLocked E (w\<lparr>w_data := ?d\<rparr>) = (r, w2)" by fastforce
  note c = ok.saveLocked_outcome [OF h d run]
  show ?thesis
  proof (cases r)
    case None
    with c(2) have "w_data w2 = ?d" by simp
    with dropUpload_files [OF h conjunct1 [OF up] c(1)] have
      "ok.holds E S (removeFiles E (map mp_File (fmvalues (mu_Parts up))) w2)"
      by (intro holds_removeFiles [OF c(1)]) auto
    with None run Some show ?thesis by (simp add: AbortMultipartUpload_def ok.outcome_def)
  next
    case err: (Some e)
    with c(1) c(3) [OF err] run Some show ?thesis by (simp add: AbortMultipartUpload_def ok.outcome_def)
  qed
qed

section \<open>Completing an upload\<close>

text \<open>The bodies of a list of parts, one after the other.\<close>

definition partsContent :: "bytes gomap \<Rightarrow> MultipartPart list \<Rightarrow> bytes" where
  "partsContent objs ps = concat (map (\<lambda>p. case fmlookup objs (mp_File p) of Some b \<Rightarrow> b | None \<Rightarrow> []) ps)"

definition partsDigests :: "MultipartPart list \<Rightarrow> bytes" where
  "partsDigests ps = concat (map (\<lambda>p. case hexDecode (mp_ETag p) of Some b \<Rightarrow> b | None \<Rightarrow> []) ps)"

lemma openObjectFileForRead_frame:
  "openObjectFileForRead E f n w = (r, w') \<Longrightarrow> objectsOnly w w' \<and> w_objects w' = w_objects w \<and>
   (\<forall>b. r = Inr b \<longrightarrow> fmlookup (w_objects w) f = Some b)"
  unfolding openObjectFileForRead_def
  by (auto simp del: runSys.simps split: if_splits prod.splits bool.splits option.splits
      dest!: runSys_objectsOnly intro: objectsOnly_trans)

lemma partsContent_other:
  "\<forall>p \<in> set ps. mp_File p \<noteq> t \<Longrightarrow> (\<And>g. g \<noteq> t \<Longrightarrow> fmlookup objs' g = fmlookup objs g) \<Longrightarrow>
   partsContent objs' ps = partsContent objs ps"
  by (induction ps) (auto simp: partsContent_def)

lemma copyParts_spec:
  assumes "copyParts E t ps content digests w = (r, w')" and "\<forall>p \<in> set ps. mp_File p \<noteq> t"
  shows "objectsOnly w w' \<and> (\<forall>g. g \<noteq> t \<longrightarrow> fmlookup (w_objects w') g = fmlookup (w_objects w) g) \<and>
    (\<forall>c dg. r = Inr (c, dg) \<longrightarrow> c = content @ partsContent (w_objects w) ps \<and> dg = digests @ partsDigests ps \<and>
       (\<forall>p \<in> set ps. \<exists>b. fmlookup (w_objects w) (mp_File p) = Some b \<and> mp_Size p = int (length b)))"
  using assms
proof (induction ps arbitrary: content digests w)
  case Nil
  then show ?case by (auto simp: partsContent_def partsDigests_def)
next
  case (Cons p ps)
  obtain r1 w1 where o: "openObjectFileForRead E (mp_File p) (mp_Size p) w = (r1, w1)" by fastforce
  note of = openObjectFileForRead_frame [OF o]
  show ?case
  proof (cases r1)
    case (Inl e)
    with Cons.prems o of show ?thesis by auto
  next
    case (Inr b)
    obtain k2 w2 where s2: "runSys E [ReadCopy] w1 = (k2, w2)" by fastforce
    obtain k3 w3 where s3: "writeTemp E t (content @ b) w2 = (k3, w3)" by fastforce
    obtain k4 w4 where s4: "runSys E [Close] w3 = (k4, w4)" by fastforce
    note f2 = runSys_objectsOnly [OF s2] and f3 = writeTemp_spec [OF s3] and f4 = runSys_objectsOnly [OF s4]
    have w4: "objectsOnly w w4" "\<And>g. g \<noteq> t \<Longrightarrow> fmlookup (w_objects w4) g = fmlookup (w_objects w) g"
      and w2: "objectsOnly w w2" "w_objects w2 = w_objects w"
      and w3: "objectsOnly w w3" "\<And>g. g \<noteq> t \<Longrightarrow> fmlookup (w_objects w3) g = fmlookup (w_objects w) g"
      using of f2 f3 f4 by (auto simp: objectsOnly_def split: if_splits)
    show ?thesis
    proof (cases "k2 \<and> k3 \<and> k4 \<and> int (length b) = mp_Size p \<and>
        (w_integrityMode w4 = IntegrityModeStrict \<longrightarrow>
           requireMatchingSHA256 (mp_SHA256 p) (hexEncode (e_sha256 E b)) = None) \<and>
        hexDecode (mp_ETag p) \<noteq> None")
      case False
      with Cons.prems(1) o Inr s2 s3 s4 w2 w3 w4 show ?thesis
        by (auto simp del: runSys.simps split: bool.splits if_splits option.splits)
    next
      case True
      then obtain dg where dg: "hexDecode (mp_ETag p) = Some dg" by auto
      with True Cons.prems(1) o Inr s2 s3 s4 have run: "copyParts E t ps (content @ b) (digests @ dg) w4 = (r, w')"
        by (auto simp del: runSys.simps split: if_splits)
      from Cons.IH [OF this] Cons.prems(2) have IH: "objectsOnly w4 w'"
        "\<forall>g. g \<noteq> t \<longrightarrow> fmlookup (w_objects w') g = fmlookup (w_objects w4) g"
        "\<forall>c d. r = Inr (c, d) \<longrightarrow> c = (content @ b) @ partsContent (w_objects w4) ps \<and> d = (digests @ dg) @ partsDigests ps \<and>
          (\<forall>p \<in> set ps. \<exists>b. fmlookup (w_objects w4) (mp_File p) = Some b \<and> mp_Size p = int (length b))"
        by auto
      have pc: "partsContent (w_objects w4) ps = partsContent (w_objects w) ps"
        using Cons.prems(2) w4(2) by (intro partsContent_other) auto
      have "fmlookup (w_objects w) (mp_File p) = Some b" using of Inr by simp
      with IH w4 pc dg True Cons.prems(2) show ?thesis
        by (auto simp: partsContent_def partsDigests_def intro: objectsOnly_trans)
    qed
  qed
qed

text \<open>
  The selected parts belong to the upload. Assembling them ends with the concatenated body under its
  own name, or with an error and no committed body disturbed.
\<close>

lemma selectParts_mem: "selectParts parts prev rs = Inr ps \<Longrightarrow> p \<in> set ps \<Longrightarrow> \<exists>i. fmlookup parts i = Some p"
  by (induction parts prev rs arbitrary: ps rule: selectParts.induct)
    (auto split: if_splits option.splits sum.splits)

lemma assembleParts_spec:
  assumes h: "ok.holds E S w" and hb: "hashable E S ''s3'' bucket key (partsContent (w_objects w) parts)"
    and nul: "CHR 0x00 \<notin> set bucket" and np: "\<forall>p \<in> set parts. \<not> isTemp (mp_File p)"
    and old: "\<And>g. previous = Some g \<longleftrightarrow> (\<exists>n hh c. fileRef (w_data w) ''s3'' bucket key g n hh c)"
    and run: "assembleParts E bucket key parts previous w = (r, w')"
  shows "ok.holds E S w' \<and> ahead w w'"
    and "r = Inr (content, digests) \<Longrightarrow> content = partsContent (w_objects w) parts \<and> digests = partsDigests parts \<and>
      fmlookup (w_objects w') (bodyFile E ''s3'' bucket key content) = Some content \<and>
      (\<forall>p \<in> set parts. \<exists>b. fmlookup (w_objects w) (mp_File p) = Some b \<and> mp_Size p = int (length b))"
proof -
  let ?goal = "ok.holds E S w' \<and> ahead w w' \<and> (\<forall>content digests. r = Inr (content, digests) \<longrightarrow>
      content = partsContent (w_objects w) parts \<and> digests = partsDigests parts \<and>
      fmlookup (w_objects w') (bodyFile E ''s3'' bucket key content) = Some content \<and>
      (\<forall>p \<in> set parts. \<exists>b. fmlookup (w_objects w) (mp_File p) = Some b \<and> mp_Size p = int (length b)))"
  obtain ot w1 where ct: "createTemp E ''.multipart-complete-'' w = (ot, w1)" by fastforce
  note cs = createTemp_spec [OF ct]
  have quiet: "ok.holds E S w2 \<and> ahead w w2"
    if "objectsOnly w w2" "\<And>g. \<not> isTemp g \<Longrightarrow> fmlookup (w_objects w2) g = fmlookup (w_objects w) g" for w2
    using that objectsOnly_ahead holds_objects [OF h] by auto
  have ?goal
  proof (cases ot)
    case None
    with run ct cs quiet [of w1] show ?thesis by (auto simp: assembleParts_def)
  next
    case (Some t)
    with cs(3) have t: "isTemp t" and o1: "w_objects w1 = fmupd t [] (w_objects w)" by auto
    from np t have npt: "\<forall>p \<in> set parts. mp_File p \<noteq> t" by auto
    obtain rc w2 where cp: "copyParts E t parts [] [] w1 = (rc, w2)" by fastforce
    note cps = copyParts_spec [OF cp npt]
    have o2: "objectsOnly w w2" using cs(1) cps objectsOnly_trans by blast
    have l2: "fmlookup (w_objects w2) g = fmlookup (w_objects w) g" if "g \<noteq> t" for g
      using that cps o1 by simp
    have rem: "ok.holds E S (removeFile E t w3) \<and> ahead w (removeFile E t w3)"
      if "objectsOnly w w3" "\<And>g. g \<noteq> t \<Longrightarrow> fmlookup (w_objects w3) g = fmlookup (w_objects w) g" for w3
    proof (rule quiet)
      show "objectsOnly w (removeFile E t w3)" using that(1) removeFile_spec objectsOnly_trans by blast
      show "fmlookup (w_objects (removeFile E t w3)) g = fmlookup (w_objects w) g" if "\<not> isTemp g" for g
        using that t \<open>\<And>g. g \<noteq> t \<Longrightarrow> fmlookup (w_objects w3) g = fmlookup (w_objects w) g\<close>
          removeFile_lookup_other [of g t E w3] by metis
    qed
    show ?thesis
    proof (cases rc)
      case (Inl e)
      with run ct Some cp rem [OF o2 l2] show ?thesis by (auto simp: assembleParts_def)
    next
      case (Inr cd)
      then obtain c dg where rcv: "rc = Inr (c, dg)" by (cases cd) auto
      have pc: "partsContent (w_objects w1) parts = partsContent (w_objects w) parts"
        using npt o1 by (intro partsContent_other) auto
      have "\<forall>p \<in> set parts. fmlookup (w_objects w1) (mp_File p) = fmlookup (w_objects w) (mp_File p)"
        using npt o1 by auto
      with pc cps rcv have c: "c = partsContent (w_objects w) parts" "dg = partsDigests parts"
        "\<forall>p \<in> set parts. \<exists>b. fmlookup (w_objects w) (mp_File p) = Some b \<and> mp_Size p = int (length b)"
        by simp_all
      let ?f = "bodyFile E ''s3'' bucket key c"
      note hb' = hb [folded c(1)]
      have nul2: "CHR 0x00 \<notin> set ''s3''" by simp
      note fat = fileAt_bodyFile [OF holds_env [OF h] hb' nul2 nul]
      obtain k3 w3 where rn: "renameTemp E t ?f c w2 = (k3, w3)" by fastforce
      note rs = renameTemp_spec [OF rn]
      have o3: "objectsOnly w w3" using o2 rs objectsOnly_trans by blast
      show ?thesis
      proof (cases k3)
        case False
        with rs l2 have "\<And>g. g \<noteq> t \<Longrightarrow> fmlookup (w_objects w3) g = fmlookup (w_objects w) g" by simp
        from rem [OF o3 this] run ct Some cp rcv rn False show ?thesis by (auto simp: assembleParts_def Let_def)
      next
        case True
        obtain k4 w4 where sy: "runSys E [OpenDir, SyncDir] w3 = (k4, w4)" by fastforce
        note f4 = runSys_objectsOnly [OF sy]
        have a4: "ahead w w4" using o3 f4 objectsOnly_trans objectsOnly_ahead by blast
        have l4: "fmlookup (w_objects w4) g = (if g = ?f then Some c else fmlookup (w_objects w) g)"
          if "\<not> isTemp g" for g using that f4 rs True l2 t by auto
        have h4: "ok.holds E S w4" by (rule holds_published [OF h a4 hb' nul2 nul l4])
        have "previous = Some ?f" if "?f \<in> refFiles (w_data w4)"
          using refFiles_place [OF h4 that fat] a4 old by (auto simp: ahead_def)
        then have hd: "ok.holds E S (discardNew E previous ?f w4)" by (rule holds_discardNew [OF h4])
        have "ahead w (discardNew E previous ?f w4)"
          using a4 discardNew_objectsOnly objectsOnly_ahead ahead_trans by blast
        with hd h4 a4 l4 [OF fileAt_not_temp [OF fat]] c run ct Some cp rcv rn True sy show ?thesis
          by (cases k4) (auto simp: assembleParts_def Let_def simp del: runSys.simps)
      qed
    qed
  qed
  then show "ok.holds E S w' \<and> ahead w w'"
    and "r = Inr (content, digests) \<Longrightarrow> content = partsContent (w_objects w) parts \<and> digests = partsDigests parts \<and>
      fmlookup (w_objects w') (bodyFile E ''s3'' bucket key content) = Some content \<and>
      (\<forall>p \<in> set parts. \<exists>b. fmlookup (w_objects w) (mp_File p) = Some b \<and> mp_Size p = int (length b))"
    by auto
qed

text \<open>What the hypothesis on hashed inputs says for a completion.\<close>

definition completionHashable ::
  "env \<Rightarrow> bytes set \<Rightarrow> string \<Rightarrow> string \<Rightarrow> string \<Rightarrow> CompletedMultipartPart list \<Rightarrow> world \<Rightarrow> bool" where
  "completionHashable E S bucket key u completed w \<longleftrightarrow>
     (\<forall>up parts. findUpload bucket key u (w_data w) = Some up \<longrightarrow>
        selectParts (mu_Parts up) 0 completed = Inr parts \<longrightarrow>
        hashable E S ''s3'' bucket key (partsContent (w_objects w) parts))"

text \<open>\<open>CompleteMultipartUpload\<close> past its checks, as a commit of the assembled body.\<close>

definition completedObjectAt ::
  "env \<Rightarrow> string \<Rightarrow> string \<Rightarrow> MultipartUpload \<Rightarrow> MultipartPart list \<Rightarrow> bytes \<Rightarrow> bytes \<Rightarrow> world \<Rightarrow> Object" where
  "completedObjectAt E bucket key up parts content digests w1 =
     \<lparr>obj_Key = key, obj_ETag = hexEncode (e_md5 E digests) @ ''-'' @ showNat (length parts),
      obj_SHA256 = hexEncode (e_sha256 E content), obj_Size = int (length content),
      obj_LastModified = e_now E (w_clock w1), obj_ContentType = mu_ContentType up,
      obj_Metadata = mu_Metadata up, obj_File = bodyFile E ''s3'' bucket key content\<rparr>"

definition tidyUpload :: "env \<Rightarrow> MultipartUpload \<Rightarrow> string option \<Rightarrow> string \<Rightarrow> world \<Rightarrow> world" where
  "tidyUpload E up previous f w2 =
     sysDone E [OpenDir, SyncDir] (dropPrevious E previous f (removeFiles E (map mp_File (fmvalues (mu_Parts up))) w2))"

abbreviation withoutUpload :: "string \<Rightarrow> world \<Rightarrow> world" where
  "withoutUpload u w \<equiv> w\<lparr>w_data := (w_data w)\<lparr>MultipartUploads := fmdrop u (MultipartUploads (w_data w))\<rparr>\<rparr>"

lemma uploads_buckets_commute:
  "(d :: snapshot)\<lparr>MultipartUploads := u, Buckets := bs\<rparr> = d\<lparr>Buckets := bs, MultipartUploads := u\<rparr>"
  by (cases d) simp

lemma CompleteMultipartUpload_eq:
  assumes "findUpload bucket key u (w_data w) = Some up" "completed \<noteq> []"
    "fmlookup (Buckets (w_data w)) bucket = Some b" "selectParts (mu_Parts up) 0 completed = Inr parts"
  shows "CompleteMultipartUpload E bucket key u completed w =
    (let prev = map_option obj_File (fmlookup (bk_Objects b) key) in
     case assembleParts E bucket key parts prev w of
       (Inl e, w1) \<Rightarrow> (Inl e, w1)
     | (Inr (content, digests), w1) \<Rightarrow>
        (let x = completedObjectAt E bucket key up parts content digests w1 in
         commitBody E (tidyUpload E up) prev (bodyFile E ''s3'' bucket key content) x
           (enterObject E ''ObjectCreated:CompleteMultipartUpload'' bucket b key x (withoutUpload u w1))))"
  using assms unfolding completedObjectAt_def enterObject_def tidyUpload_def
  by (cases "assembleParts E bucket key parts (map_option obj_File (fmlookup (bk_Objects b) key)) w";
      cases "fst (assembleParts E bucket key parts (map_option obj_File (fmlookup (bk_Objects b) key)) w)")
    (auto simp: CompleteMultipartUpload_def now_def commitBody_def enqueueObjectEventLocked_def Let_def uploads_buckets_commute)

text \<open>The upload being completed: its bucket exists, and the parts selected are referenced files.\<close>

lemma completing_upload:
  assumes h: "ok.holds E S w" and fu: "findUpload bucket key u (w_data w) = Some up"
  obtains b where "fmlookup (MultipartUploads (w_data w)) u = Some up" "fmlookup (Buckets (w_data w)) bucket = Some b"
    "CHR 0x00 \<notin> set bucket"
proof -
  note up = findUpload_Some [OF fu]
  from holds_upload [OF h conjunct1 [OF up]] up obtain b where b: "fmlookup (Buckets (w_data w)) bucket = Some b"
    by (auto simp: uploadOK_def)
  moreover have "CHR 0x00 \<notin> set bucket"
    using h b by (auto simp: ok.holds_def storeOK_def bucketsOK_def bucketOK_def)
  ultimately show thesis using that up by blast
qed

lemma selected_not_temp:
  assumes "ok.holds E S w" "fmlookup (MultipartUploads (w_data w)) u = Some up"
    "selectParts (mu_Parts up) prev completed = Inr parts"
  shows "\<forall>p \<in> set parts. \<not> isTemp (mp_File p)"
proof
  fix p
  assume "p \<in> set parts"
  with selectParts_mem [OF assms(3)] obtain i where "fmlookup (mu_Parts up) i = Some p" by blast
  from holds_refs [OF assms(1) fileRef.multipart [OF assms(2) this]] show "\<not> isTemp (mp_File p)"
    using fileAt_not_temp bodyOK_fileAt by blast
qed

lemma completion_commit:
  fixes parts digests key
  assumes h: "ok.holds E S w" and up: "fmlookup (MultipartUploads (w_data w)) u = Some up"
    and b: "fmlookup (Buckets (w_data w)) bucket = Some b" and nul: "CHR 0x00 \<notin> set bucket"
    and hb: "hashable E S ''s3'' bucket key content"
    and h1: "ok.holds E S w1" and ah: "ahead w w1"
    and here: "fmlookup (w_objects w1) (bodyFile E ''s3'' bucket key content) = Some content"
  defines "prev \<equiv> map_option obj_File (fmlookup (bk_Objects b) key)"
    and "x \<equiv> completedObjectAt E bucket key up parts content digests w1"
  shows "ok.outcome E S w (commitBody E (tidyUpload E up) prev (bodyFile E ''s3'' bucket key content) x
    (enterObject E ev bucket b key x (withoutUpload u w1)))"
proof -
  let ?f = "bodyFile E ''s3'' bucket key content" and ?files = "map mp_File (fmvalues (mu_Parts up))"
  let ?b = "b\<lparr>bk_Objects := fmupd key x (bk_Objects b)\<rparr>"
  have old: "prev = Some f \<longleftrightarrow> (\<exists>n hh c. fileRef (w_data w) ''s3'' bucket key f n hh c)" for f
    using b by (auto simp: prev_def fileRef_s3)
  have data: "w_data w1 = w_data w" using ah by (simp add: ahead_def)
  obtain qs c i where e: "enterObject E ev bucket b key x (withoutUpload u w1) = (withoutUpload u w1)\<lparr>w_clock := c, w_ids := i,
      w_data := (w_data (withoutUpload u w1))\<lparr>Buckets := fmupd bucket ?b (Buckets (w_data (withoutUpload u w1))), Queues := qs\<rparr>\<rparr>"
    and le: "w_ids (withoutUpload u w1) \<le> i"
    and qs: "queuesOK E (w_ids (withoutUpload u w1)) (Queues (w_data (withoutUpload u w1))) \<Longrightarrow> queuesOK E i qs"
    by (rule enterObject_world [of E ev bucket b key x "withoutUpload u w1"]) blast
  let ?d = "(w_data w1)\<lparr>Buckets := fmupd bucket ?b (Buckets (w_data w1)), Queues := qs,
    MultipartUploads := fmdrop u (MultipartUploads (w_data w1))\<rparr>"
  let ?w = "w1\<lparr>w_clock := c, w_ids := i\<rparr>"
  have eq: "enterObject E ev bucket b key x (withoutUpload u w1) = ?w\<lparr>w_data := ?d\<rparr>" unfolding e by simp
  have hw: "ok.holds E S ?w" by (rule ok.holds_ahead [OF h1]) (use le in \<open>auto simp: ahead_def\<close>)
  have "storeOK E S i (w_objects w1) ((w_data w1)\<lparr>Buckets := fmupd bucket ?b (Buckets (w_data w1)), Queues := qs\<rparr>)"
    using b data here h1 qs le
    by (intro putObject_storeOK [OF h1 _ hb]) (auto simp: x_def completedObjectAt_def ok.holds_def storeOK_def)
  from dropUpload_storeOK [OF this, of u] have d: "storeOK E S i (w_objects w1) ?d" by simp
  show ?thesis unfolding eq
  proof (rule commitBody_outcome [OF hw])
    show "ahead w ?w" using ah le by (auto simp: ahead_def)
    show "storeOK E S (w_ids ?w) (w_objects ?w) ?d" "dynamo_clean ?d"
      using d ok_holds_parts(3) [OF h1] by simp_all
    show "prev = Some ?f" if "?f \<in> refFiles (w_data ?w)"
      using refFiles_place [OF hw that fileAt_bodyFile [OF holds_env [OF h1] hb _ nul]] old data by simp
    fix w2
    assume h2: "ok.holds E S w2" and w2: "w_data w2 = ?d"
    have hr: "ok.holds E S (removeFiles E ?files w2)"
      by (rule holds_removeFiles [OF h2 dropUpload_files [OF h up h2]]) (simp add: w2)
    have dr: "w_data (removeFiles E ?files w2) = ?d"
      using removeFiles_objectsOnly [of w2 E ?files] w2 by (simp add: objectsOnly_def)
    have "p = ?f" if p: "prev = Some p" "p \<in> refFiles (w_data (removeFiles E ?files w2))" for p
    proof -
      from p(1) old obtain n hh cc where "fileRef (w_data w) ''s3'' bucket key p n hh cc" by blast
      then have "fileAt E S ''s3'' bucket key p" using bodyOK_fileAt holds_refs [OF h] by blast
      from refFiles_place [OF hr p(2) this] dr show "p = ?f" by (auto simp: fileRef_s3 x_def completedObjectAt_def)
    qed
    from holds_sysDone [OF holds_dropPrevious(1) [OF hr this]] show "ok.holds E S (tidyUpload E up prev ?f w2)"
      by (simp add: tidyUpload_def)
  qed
qed

lemma CompleteMultipartUpload_outcome:
  assumes h: "ok.holds E S w" and hyp: "completionHashable E S bucket key u completed w"
  shows "ok.outcome E S w (CompleteMultipartUpload E bucket key u completed w)"
proof (cases "findUpload bucket key u (w_data w)")
  case None
  with h show ?thesis by (simp add: CompleteMultipartUpload_def ok.outcome_return)
next
  case fu: (Some up)
  from completing_upload [OF h fu] obtain b where up: "fmlookup (MultipartUploads (w_data w)) u = Some up"
    and b: "fmlookup (Buckets (w_data w)) bucket = Some b" and nul: "CHR 0x00 \<notin> set bucket" by blast
  let ?prev = "map_option obj_File (fmlookup (bk_Objects b) key)"
  have old: "?prev = Some f \<longleftrightarrow> (\<exists>n hh c. fileRef (w_data w) ''s3'' bucket key f n hh c)" for f
    using b by (auto simp: fileRef_s3)
  show ?thesis
  proof (cases "completed = [] \<or> (\<exists>e. selectParts (mu_Parts up) 0 completed = Inl e)")
    case True
    with fu b h show ?thesis by (auto simp: CompleteMultipartUpload_def ok.outcome_return Let_def)
  next
    case False
    then obtain parts where sel: "selectParts (mu_Parts up) 0 completed = Inr parts" and ne: "completed \<noteq> []"
      by (cases "selectParts (mu_Parts up) 0 completed") auto
    have hb: "hashable E S ''s3'' bucket key (partsContent (w_objects w) parts)"
      using hyp fu sel by (auto simp: completionHashable_def)
    obtain r w1 where as: "assembleParts E bucket key parts ?prev w = (r, w1)" by fastforce
    note asp = assembleParts_spec [OF h hb nul selected_not_temp [OF h up sel] old as]
    show ?thesis
    proof (cases r)
      case (Inl e)
      with as asp(1) show ?thesis
        by (auto simp: CompleteMultipartUpload_eq [OF fu ne b sel] Let_def intro!: ok.outcome_ahead)
    next
      case (Inr cd)
      then obtain content digests where cd: "r = Inr (content, digests)" by (cases cd) auto
      note p = asp(2) [OF cd]
      from hb p have hb': "hashable E S ''s3'' bucket key content" by simp
      have "ok.outcome E S w (commitBody E (tidyUpload E up) ?prev (bodyFile E ''s3'' bucket key content)
          (completedObjectAt E bucket key up parts content digests w1)
          (enterObject E ''ObjectCreated:CompleteMultipartUpload'' bucket b key
            (completedObjectAt E bucket key up parts content digests w1) (withoutUpload u w1)))"
        using asp(1) p by (intro completion_commit [OF h up b nul hb']) auto
      then show ?thesis unfolding CompleteMultipartUpload_eq [OF fu ne b sel] as cd Let_def by simp
    qed
  qed
qed

section \<open>The contract of the object operations\<close>

interpretation CreateBucket: store_operation "\<lambda>w. ok.holds E S w \<and> CHR 0x00 \<notin> set name" "CreateBucket E name" for E S name
  by (rule ok.store_operation_hypI) (simp add: CreateBucket_outcome)

interpretation DeleteBucket: store_operation "ok.holds E S" "DeleteBucket E name" for E S name
  by (rule ok.store_operationI) (rule DeleteBucket_outcome)

interpretation SetNotifications: store_operation "ok.holds E S" "SetNotifications E name ns" for E S name ns
  by (rule ok.store_operationI) (rule SetNotifications_outcome)

interpretation PutObject: store_operation "\<lambda>w. ok.holds E S w \<and> hashable E S ''s3'' bucket key body"
  "PutObject E bucket key body ct md" for E S bucket key body ct md
  by (rule ok.store_operation_hypI) (simp add: PutObject_outcome)

interpretation GetObject: store_operation "ok.holds E S" "GetObject E bucket key" for E S bucket key
  by (rule ok.store_operationI) (rule GetObject_outcome)

interpretation DeleteObject: store_operation "ok.holds E S" "DeleteObject E bucket key" for E S bucket key
  by (rule ok.store_operationI) (rule DeleteObject_outcome)

interpretation CreateMultipartUpload: store_operation "ok.holds E S" "CreateMultipartUpload E bucket key ct md"
  for E S bucket key ct md
  by (rule ok.store_operationI) (rule CreateMultipartUpload_outcome)

interpretation UploadMultipartPart:
  store_operation "\<lambda>w. ok.holds E S w \<and> hashable E S ''multipart'' u (showInt i) body"
  "UploadMultipartPart E bucket key u i body" for E S bucket key u i body
  by (rule ok.store_operation_hypI) (simp add: UploadMultipartPart_outcome)

interpretation AbortMultipartUpload: store_operation "ok.holds E S" "AbortMultipartUpload E bucket key u" for E S bucket key u
  by (rule ok.store_operationI) (rule AbortMultipartUpload_outcome)

end
