(* ===== verification/PubSub_Correct.thy ===== *)
theory PubSub_Correct
  imports Store_Invariant
begin

text \<open>
  Correctness of Pub/Sub: what the pull loop hands out, keeps and forwards; every operation keeps
  the store invariant and is atomic; publishing reaches every subscription of the topic.
\<close>

section \<open>The pull loop\<close>

abbreviation pullRun where
  "pullRun E t maxN deadline s ms ids \<equiv> fold (pullStep E t maxN deadline s) ms
     \<lparr>pl_result = [], pl_kept = [], pl_forwarded = [], pl_changed = False, pl_ids = ids\<rparr>"

lemma pullStep_cases [case_names fwd hand keep]:
  fixes E t maxN deadline s m p
  defines "p' \<equiv> pullStep E t maxN deadline s m p"
  obtains "pm_VisibleAt m \<le> t" "exhausted s m"
    "p' = p\<lparr>pl_forwarded := pl_forwarded p @ [forward E t (pl_ids p) m], pl_changed := True, pl_ids := Suc (pl_ids p)\<rparr>"
  | "pm_VisibleAt m \<le> t" "\<not> exhausted s m" "int (length (pl_result p)) < maxN"
    "p' = p\<lparr>pl_result := pl_result p @ [handOut E t deadline (pl_ids p) m],
            pl_kept := pl_kept p @ [handOut E t deadline (pl_ids p) m], pl_changed := True, pl_ids := Suc (pl_ids p)\<rparr>"
  | "t < pm_VisibleAt m \<or> (\<not> exhausted s m \<and> maxN \<le> int (length (pl_result p)))"
    "p' = p\<lparr>pl_kept := pl_kept p @ [m]\<rparr>"
  unfolding p'_def pullStep_def Let_def by (cases "t < pm_VisibleAt m"; cases "exhausted s m"; cases "int (length (pl_result p)) < maxN") auto

lemma handOut_simps [simp]:
  "pm_AckID (handOut E t d i m) = mint E i" "pm_MessageID (handOut E t d i m) = pm_MessageID m"
  "pm_Data (handOut E t d i m) = pm_Data m" "pm_VisibleAt (handOut E t d i m) = t + duration_s d"
  "pm_DeliveryAttempt (handOut E t d i m) = wrap32 (pm_DeliveryAttempt m + 1)"
  by (simp_all add: handOut_def)

lemma forward_simps [simp]:
  "pm_AckID (forward E t i m) = ''''" "pm_MessageID (forward E t i m) = mint E i"
  "pm_Data (forward E t i m) = pm_Data m" "pm_DeliveryAttempt (forward E t i m) = 0"
  "pm_VisibleAt (forward E t i m) = t"
  by (simp_all add: forward_def)

lemma pull_ids: "ids \<le> pl_ids (pullRun E t maxN deadline s ms ids)"
proof (induction ms rule: rev_induct)
  case (snoc x ms)
  show ?case
    by (cases rule: pullStep_cases [of x t s E maxN deadline "pullRun E t maxN deadline s ms ids"])
      (use snoc in simp_all)
qed simp

lemma pull_result_bound:
  "0 \<le> maxN \<Longrightarrow> int (length (pl_result (pullRun E t maxN deadline s ms ids))) \<le> maxN"
proof (induction ms rule: rev_induct)
  case (snoc x ms)
  show ?case
    by (cases rule: pullStep_cases [of x t s E maxN deadline "pullRun E t maxN deadline s ms ids"])
      (use snoc in simp_all)
qed simp

text \<open>
  Every message is either kept (in the order of the subscription) or forwarded with its data; what
  is forwarded was exhausted, what is handed out was visible and not exhausted.
\<close>

lemma pull_partition:
  "map pm_Data (pl_kept (pullRun E t maxN deadline s ms ids)) =
     map pm_Data (filter (\<lambda>m. \<not> (pm_VisibleAt m \<le> t \<and> exhausted s m)) ms) \<and>
   map pm_MessageID (pl_kept (pullRun E t maxN deadline s ms ids)) =
     map pm_MessageID (filter (\<lambda>m. \<not> (pm_VisibleAt m \<le> t \<and> exhausted s m)) ms) \<and>
   map pm_Data (pl_forwarded (pullRun E t maxN deadline s ms ids)) =
     map pm_Data (filter (\<lambda>m. pm_VisibleAt m \<le> t \<and> exhausted s m) ms)"
proof (induction ms rule: rev_induct)
  case (snoc x ms)
  show ?case
    by (cases rule: pullStep_cases [of x t s E maxN deadline "pullRun E t maxN deadline s ms ids"])
      (use snoc in auto)
qed simp

lemma pull_result:
  "r \<in> set (pl_result (pullRun E t maxN deadline s ms ids)) \<Longrightarrow>
   (\<exists>m i. m \<in> set ms \<and> pm_VisibleAt m \<le> t \<and> \<not> exhausted s m \<and> r = handOut E t deadline i m) \<and>
   r \<in> set (pl_kept (pullRun E t maxN deadline s ms ids))"
proof (induction ms rule: rev_induct)
  case (snoc x ms)
  show ?case
    by (cases rule: pullStep_cases [of x t s E maxN deadline "pullRun E t maxN deadline s ms ids"])
      (use snoc in auto)
qed simp

lemma pull_unchanged:
  "\<not> pl_changed (pullRun E t maxN deadline s ms ids) \<Longrightarrow>
   pl_kept (pullRun E t maxN deadline s ms ids) = ms \<and> pl_forwarded (pullRun E t maxN deadline s ms ids) = [] \<and>
   pl_result (pullRun E t maxN deadline s ms ids) = [] \<and> pl_ids (pullRun E t maxN deadline s ms ids) = ids"
proof (induction ms rule: rev_induct)
  case (snoc x ms)
  show ?case
    by (cases rule: pullStep_cases [of x t s E maxN deadline "pullRun E t maxN deadline s ms ids"])
      (use snoc in simp_all)
qed simp

lemma pull_forwarded_acks:
  "m \<in> set (pl_forwarded (pullRun E t maxN deadline s ms ids)) \<Longrightarrow> pm_AckID m = ''''"
proof (induction ms rule: rev_induct)
  case (snoc x ms)
  show ?case
    by (cases rule: pullStep_cases [of x t s E maxN deadline "pullRun E t maxN deadline s ms ids"])
      (use snoc in auto)
qed simp

lemma set_liveAcks: "a \<in> set (liveAcks ms) \<longleftrightarrow> a \<noteq> '''' \<and> (\<exists>m \<in> set ms. pm_AckID m = a)"
  by (auto simp: liveAcks_def)

lemma liveAcks_append: "liveAcks (xs @ ys) = liveAcks xs @ liveAcks ys"
  by (simp add: liveAcks_def)

lemma liveAcks_single: "liveAcks [m] = (if pm_AckID m = '''' then [] else [pm_AckID m])"
  by (simp add: liveAcks_def)

lemma acksBelow_fresh:
  "acksBelow E n ms \<Longrightarrow> fresh_ids E (Suc i) \<Longrightarrow> n \<le> i \<Longrightarrow> m \<in> set ms \<Longrightarrow> pm_AckID m \<noteq> mint E i"
  unfolding acksBelow_def
  by (metis less_SucI less_irrefl lessI less_le_trans mint_eq_iff mint_not_Nil)

lemma pull_acksBelow:
  "acksBelow E ids ms \<Longrightarrow>
   acksBelow E (pl_ids (pullRun E t maxN deadline s ms ids)) (pl_kept (pullRun E t maxN deadline s ms ids))"
proof (induction ms rule: rev_induct)
  case Nil
  show ?case by (simp add: acksBelow_def)
next
  case (snoc x ms)
  let ?p = "pullRun E t maxN deadline s ms ids"
  from snoc.prems have ms: "acksBelow E ids ms" and x: "acksBelow E ids [x]" by (auto simp: acksBelow_def)
  note IH = snoc.IH [OF ms] and x' = acksBelow_mono [OF x pull_ids [of ids E t maxN deadline s ms]]
  note below = acksBelow_mono [OF IH le_SucI [OF order_refl]]
  show ?case by (cases rule: pullStep_cases [of x t s E maxN deadline ?p])
      (use IH x' below in \<open>auto simp: acksBelow_def\<close>)
qed

lemma pull_ids_mono: "pl_ids (pullRun E t maxN deadline s ms ids) \<le> pl_ids (pullRun E t maxN deadline s (ms @ [x]) ids)"
  by (cases rule: pullStep_cases [of x t s E maxN deadline "pullRun E t maxN deadline s ms ids"]) auto

lemma pull_acks:
  shows "acksBelow E ids ms \<Longrightarrow> distinct (liveAcks ms) \<Longrightarrow>
    fresh_ids E (pl_ids (pullRun E t maxN deadline s ms ids)) \<Longrightarrow>
    distinct (liveAcks (pl_kept (pullRun E t maxN deadline s ms ids))) \<and>
    set (liveAcks (pl_kept (pullRun E t maxN deadline s ms ids))) \<subseteq>
      set (liveAcks ms) \<union> mint E ` {ids..<pl_ids (pullRun E t maxN deadline s ms ids)}"
proof (induction ms rule: rev_induct)
  case Nil
  show ?case by (simp add: liveAcks_def acksBelow_def)
next
  case (snoc x ms)
  let ?p = "pullRun E t maxN deadline s ms ids"
  from snoc.prems have ms: "acksBelow E ids ms" "distinct (liveAcks ms)" and x: "acksBelow E ids [x]"
    and xnew: "pm_AckID x = '''' \<or> pm_AckID x \<notin> set (liveAcks ms)"
    by (auto simp: acksBelow_def liveAcks_append liveAcks_single split: if_splits)
  have fr: "fresh_ids E (pl_ids ?p)" using fresh_ids_mono [OF snoc.prems(3) pull_ids_mono] .
  from snoc.IH [OF ms fr] pull_acksBelow [OF ms(1)] have IH: "acksBelow E (pl_ids ?p) (pl_kept ?p)" "distinct (liveAcks (pl_kept ?p))"
    "set (liveAcks (pl_kept ?p)) \<subseteq> set (liveAcks ms) \<union> mint E ` {ids..<pl_ids ?p}" by auto
  note le = pull_ids [of ids E t maxN deadline s ms]
  have xf: "pm_AckID x \<notin> mint E ` {ids..<pl_ids ?p}"
  proof
    assume "pm_AckID x \<in> mint E ` {ids..<pl_ids ?p}"
    then obtain i where i: "pm_AckID x = mint E i" "ids \<le> i" "Suc i \<le> pl_ids ?p" by auto
    from acksBelow_fresh [OF x fresh_ids_mono [OF fr i(3)] i(2), of x] i(1) show False by simp
  qed
  have unseen: "pm_AckID x = '''' \<or> pm_AckID x \<notin> set (liveAcks (pl_kept ?p))" using IH(3) xnew xf by blast
  have new: "mint E (pl_ids ?p) \<notin> set (liveAcks (pl_kept ?p))" if "fresh_ids E (Suc (pl_ids ?p))"
    using acksBelow_fresh [OF IH(1) that order_refl] by (auto simp: set_liveAcks)
  have ins: "{ids..<Suc (pl_ids ?p)} = insert (pl_ids ?p) {ids..<pl_ids ?p}" using le by auto
  show ?case
  proof (cases rule: pullStep_cases [of x t s E maxN deadline ?p])
    case fwd
    then show ?thesis using IH ins by (auto simp: liveAcks_append)
  next
    case hand
    then have "fresh_ids E (Suc (pl_ids ?p))" using snoc.prems(3) by simp
    from new [OF this] hand show ?thesis using IH ins by (auto simp: liveAcks_append liveAcks_single)
  next
    case keep
    then show ?thesis using IH unseen by (auto simp: liveAcks_append liveAcks_single)
  qed
qed

section \<open>Every Pub/Sub operation keeps the invariant\<close>

lemma storeOK_subs:
  "storeOK E S n objs d \<Longrightarrow> subsOK E n (PubSubTopics d) subs \<Longrightarrow> storeOK E S n objs (d\<lparr>PubSubSubscriptions := subs\<rparr>)"
  by (simp add: storeOK_def)

lemma subsOK_upd: "subsOK E n ts subs \<Longrightarrow> subOK E n ts name s \<Longrightarrow> subsOK E n ts (fmupd name s subs)"
  by (simp add: subsOK_def)

lemma holds_sub:
  "ok.holds E S w \<Longrightarrow> fmlookup (PubSubSubscriptions (w_data w)) name = Some s \<Longrightarrow>
   subOK E (w_ids w) (PubSubTopics (w_data w)) name s"
  by (simp add: ok.holds_def storeOK_def subsOK_def)

lemma subOK_frame [simp]:
  "subOK E n ts name (s\<lparr>ps_AckDeadlineSeconds := x\<rparr>) = subOK E n ts name s"
  "subOK E n ts name (s\<lparr>ps_Labels := l\<rparr>) = subOK E n ts name s"
  "subOK E n ts name (s\<lparr>ps_DeadLetterTopic := y\<rparr>) = subOK E n ts name s"
  "subOK E n ts name (s\<lparr>ps_MaxDeliveryAttempts := z\<rparr>) = subOK E n ts name s"
  by (simp_all add: subOK_def)

lemma subOK_messages:
  "subOK E n ts name s \<Longrightarrow> acksBelow E n ms \<Longrightarrow> (fresh_ids E n \<Longrightarrow> distinct (liveAcks ms)) \<Longrightarrow>
   subOK E n ts name (s\<lparr>ps_Messages := ms\<rparr>)"
  by (simp add: subOK_def)

lemma subOK_detach: "subOK E n ts nm s \<Longrightarrow> subOK E n (fmdrop name ts) nm (detachTopic name s)"
  by (auto simp: subOK_def detachTopic_def)

lemma holds_sub_messages:
  "ok.holds E S w \<Longrightarrow> fmlookup (PubSubSubscriptions (w_data w)) name = Some s \<Longrightarrow>
   acksBelow E (w_ids w) (ps_Messages s) \<and> (fresh_ids E (w_ids w) \<longrightarrow> distinct (liveAcks (ps_Messages s)))"
  by (drule (1) holds_sub) (simp add: subOK_def)

lemmas sub_rules = ok.outcome_return ok_save storeOK_subs subsOK_upd subOK_messages

lemma CreatePubSubTopic_outcome: "ok.holds E S w \<Longrightarrow> ok.outcome E S w (CreatePubSubTopic E name labels w)"
  unfolding CreatePubSubTopic_def now_def Let_def
  by (auto split: option.split intro!: ok.outcome_return ok_save
      simp: storeOK_def ahead_def topicsOK_def subsOK_def subOK_def)

lemma DeletePubSubTopic_outcome: "ok.holds E S w \<Longrightarrow> ok.outcome E S w (DeletePubSubTopic E name w)"
  unfolding DeletePubSubTopic_def
  by (auto split: option.split intro!: ok.outcome_return ok_save
      simp: storeOK_def ahead_def topicsOK_def subsOK_def subOK_detach)

lemma CreatePubSubSubscription_outcome:
  "ok.holds E S w \<Longrightarrow> ok.outcome E S w (CreatePubSubSubscription E name topic dl labels ordr w)"
  unfolding CreatePubSubSubscription_def now_def Let_def
  by (auto split: option.split intro!: sub_rules simp: storeOK_def ahead_def subOK_def acksBelow_def liveAcks_def)

lemma UpdatePubSubSubscription_outcome:
  "ok.holds E S w \<Longrightarrow> ok.outcome E S w (UpdatePubSubSubscription E name dl labels dlt mx ud ul uq w)"
proof (cases "fmlookup (PubSubSubscriptions (w_data w)) name")
  case (Some s)
  assume h: "ok.holds E S w"
  with Some holds_sub [OF h Some] show ?thesis unfolding UpdatePubSubSubscription_def Let_def
    by (auto intro!: ok.outcome_return ok_save storeOK_subs subsOK_upd simp: storeOK_def ahead_def)
qed (simp add: UpdatePubSubSubscription_def ok.outcome_return)
lemma DeletePubSubSubscription_outcome:
  "ok.holds E S w \<Longrightarrow> ok.outcome E S w (DeletePubSubSubscription E name w)"
  unfolding DeletePubSubSubscription_def
  by (auto split: option.split intro!: sub_rules simp: storeOK_def ahead_def subsOK_def)

lemma PurgePubSubSubscription_outcome:
  "ok.holds E S w \<Longrightarrow> ok.outcome E S w (PurgePubSubSubscription E name w)"
  unfolding PurgePubSubSubscription_def
  by (auto split: option.split intro!: sub_rules intro: holds_sub
      simp: storeOK_def ahead_def acksBelow_def liveAcks_def)

lemma distinct_liveAcks_filter: "distinct (liveAcks ms) \<Longrightarrow> distinct (liveAcks (filter P ms))"
  by (induction ms) (auto simp: liveAcks_def)

lemma acksBelow_filter: "acksBelow E n ms \<Longrightarrow> acksBelow E n (filter P ms)"
  by (simp add: acksBelow_def)

lemma AckPubSub_outcome: "ok.holds E S w \<Longrightarrow> ok.outcome E S w (AckPubSub E name acks w)"
  unfolding AckPubSub_def
  by (auto split: option.split intro!: sub_rules distinct_liveAcks_filter acksBelow_filter
      intro: holds_sub dest: holds_sub_messages simp: storeOK_def ahead_def)

lemma map_same_acks:
  "(\<And>m. pm_AckID (f m) = pm_AckID m) \<Longrightarrow>
   liveAcks (map f ms) = liveAcks ms \<and> acksBelow E n (map f ms) = acksBelow E n ms"
  by (simp add: liveAcks_def acksBelow_def comp_def)

lemma ModifyPubSubAckDeadline_outcome:
  "ok.holds E S w \<Longrightarrow> ok.outcome E S w (ModifyPubSubAckDeadline E name acks secs w)"
proof (cases "fmlookup (PubSubSubscriptions (w_data w)) name")
  case (Some s)
  assume h: "ok.holds E S w"
  define f where "f m = (case fmlookup (ackDeadlines acks secs) (pm_AckID m) of
      Some n \<Rightarrow> m\<lparr>pm_VisibleAt := e_now E (w_clock w) + duration_s n\<rparr> | None \<Rightarrow> m)" for m :: PubSubMessage
  have "pm_AckID (f m) = pm_AckID m" for m by (simp add: f_def split: option.split)
  note fa = map_same_acks [of f, OF this]
  have "subOK E (w_ids w) (PubSubTopics (w_data w)) name (s\<lparr>ps_Messages := map f (ps_Messages s)\<rparr>)"
    using holds_sub [OF h Some] fa by (simp add: subOK_def)
  note ok = this [unfolded f_def]
  show ?thesis unfolding ModifyPubSubAckDeadline_def now_def Let_def
    using h Some ok by (auto intro!: ok_save storeOK_subs subsOK_upd simp: storeOK_def ahead_def)
qed (simp add: ModifyPubSubAckDeadline_def ok.outcome_return)

lemma stampMessages_spec:
  "stampMessages E t ms ids = (ms', ids') \<Longrightarrow>
   ids' = ids + length ms \<and> map pm_AckID ms' = map pm_AckID ms \<and> map pm_Data ms' = map pm_Data ms \<and>
   map pm_MessageID ms' = map (mint E) [ids..<ids'] \<and> (\<forall>m \<in> set ms'. pm_PublishTime m = t \<and> pm_VisibleAt m = t)"
proof (induction ms arbitrary: ids ms')
  case (Cons m ms)
  obtain rest i where r: "stampMessages E t ms (Suc ids) = (rest, i)" by fastforce
  with Cons.prems have eq: "ms' = m\<lparr>pm_MessageID := mint E ids, pm_PublishTime := t, pm_VisibleAt := t\<rparr> # rest"
    "ids' = i" by (auto simp: Let_def)
  from Cons.IH [of "Suc ids" rest] r eq have IH: "i = Suc ids + length ms" "map pm_AckID rest = map pm_AckID ms"
    "map pm_Data rest = map pm_Data ms" "map pm_MessageID rest = map (mint E) [Suc ids..<i]"
    "\<forall>m \<in> set rest. pm_PublishTime m = t \<and> pm_VisibleAt m = t" by auto
  from IH(1) have "[ids..<i] = ids # [Suc ids..<i]" by (intro upt_conv_Cons) simp
  with IH eq show ?case by simp
qed simp

lemma subOK_append:
  "subOK E n ts name s \<Longrightarrow> (\<And>m. m \<in> set ms \<Longrightarrow> pm_AckID m = '''') \<Longrightarrow> subOK E n ts name (appendTo topic ms s)"
  by (auto simp: subOK_def appendTo_def acksBelow_def liveAcks_def)

lemma subsOK_append:
  "subsOK E n ts subs \<Longrightarrow> (\<And>m. m \<in> set ms \<Longrightarrow> pm_AckID m = '''') \<Longrightarrow>
   subsOK E n ts (fmmap (appendTo topic ms) subs)"
  by (auto simp: subsOK_def intro: subOK_append)

lemma PublishPubSub_outcome:
  assumes h: "ok.holds E S w" and fresh: "\<forall>m \<in> set messages. pm_AckID m = ''''"
  shows "ok.outcome E S w (PublishPubSub E topic messages w)"
proof (cases "fmlookup (PubSubTopics (w_data w)) topic")
  case None
  with h show ?thesis by (simp add: PublishPubSub_def ok.outcome_return)
next
  case (Some tp)
  obtain ms ids where st: "stampMessages E (e_now E (w_clock w)) messages (w_ids w) = (ms, ids)" by fastforce
  note sp = stampMessages_spec [OF st]
  have acks: "pm_AckID m = ''''" if "m \<in> set ms" for m
  proof -
    from that have "pm_AckID m \<in> set (map pm_AckID ms)" by simp
    with sp fresh show ?thesis by auto
  qed
  from h Some st sp show ?thesis
    by (auto simp: PublishPubSub_def now_def Let_def storeOK_def ahead_def intro!: ok_save subsOK_append acks)
qed

lemma appendTo_Nil: "fmmap (appendTo topic []) subs = subs"
proof -
  have "appendTo topic [] = (\<lambda>s. s)" by (auto simp: appendTo_def)
  then show ?thesis by (simp add: fmap.map_ident)
qed

text \<open>The pull of one subscription, and the subscriptions it leaves.\<close>

definition pullOf :: "env \<Rightarrow> world \<Rightarrow> PubSubSubscription \<Rightarrow> int \<Rightarrow> int \<Rightarrow> pull" where
  "pullOf E w s maxN dl = pullRun E (e_now E (w_clock w)) (if maxN < 1 then 1 else maxN)
     (if dl \<le> 0 then ps_AckDeadlineSeconds s else dl) s (ps_Messages s) (w_ids w)"

definition pulledSubs :: "string \<Rightarrow> PubSubSubscription \<Rightarrow> pull \<Rightarrow> PubSubSubscription gomap \<Rightarrow> PubSubSubscription gomap" where
  "pulledSubs name s p subs =
     fmupd name (s\<lparr>ps_Messages := pl_kept p\<rparr>) (fmmap (appendTo (ps_DeadLetterTopic s) (pl_forwarded p)) subs)"

lemma PullPubSub_eq:
  assumes "fmlookup (PubSubSubscriptions (w_data w)) name = Some s" "ps_Topic s \<noteq> deletedTopic"
  shows "PullPubSub E name maxN dl w =
    (let p = pullOf E w s maxN dl;
         w2 = w\<lparr>w_clock := Suc (w_clock w), w_ids := pl_ids p, w_data := (w_data w)\<lparr>PubSubSubscriptions :=
                pulledSubs name s p (PubSubSubscriptions (w_data w))\<rparr>\<rparr>
     in if pl_changed p then saveThen E (pl_result p) w2 else (Inr (pl_result p), w2))"
  using assms unfolding pullOf_def pulledSubs_def
  by (simp add: PullPubSub_def now_def pullLoop_def Let_def)

lemma pulledSubs_OK:
  assumes h: "ok.holds E S w" and s: "fmlookup (PubSubSubscriptions (w_data w)) name = Some s"
    and p: "p = pullOf E w s maxN dl"
    and subs: "subsOK E (pl_ids p) (PubSubTopics (w_data w)) (PubSubSubscriptions (w_data w))"
  shows "subsOK E (pl_ids p) (PubSubTopics (w_data w)) (pulledSubs name s p (PubSubSubscriptions (w_data w)))"
proof -
  have ok: "subOK E (w_ids w) (PubSubTopics (w_data w)) name s" by (rule holds_sub [OF h s])
  then have a: "acksBelow E (w_ids w) (ps_Messages s)" by (auto simp: subOK_def)
  have le: "w_ids w \<le> pl_ids p" unfolding p pullOf_def by (rule pull_ids)
  have "distinct (liveAcks (pl_kept p))" if "fresh_ids E (pl_ids p)"
    using pull_acks [OF a _ that [unfolded p pullOf_def]] ok fresh_ids_mono [OF that le] by (simp add: subOK_def p pullOf_def)
  with ok pull_acksBelow [OF a] have "subOK E (pl_ids p) (PubSubTopics (w_data w)) name (s\<lparr>ps_Messages := pl_kept p\<rparr>)"
    by (simp add: subOK_def p pullOf_def)
  then show ?thesis unfolding pulledSubs_def
    by (intro subsOK_upd subsOK_append subs) (simp_all add: p pullOf_def pull_forwarded_acks)
qed

lemma pulledSubs_unchanged:
  assumes "fmlookup subs name = Some s" "\<not> pl_changed (pullOf E w s maxN dl)"
  shows "pulledSubs name s (pullOf E w s maxN dl) subs = subs" "pl_ids (pullOf E w s maxN dl) = w_ids w"
  using assms pull_unchanged [OF assms(2) [unfolded pullOf_def]]
  by (auto intro!: fmap_eqI simp: pulledSubs_def pullOf_def appendTo_Nil)

lemma PullPubSub_outcome:
  assumes h: "ok.holds E S w"
  shows "ok.outcome E S w (PullPubSub E name maxN dl w)"
proof (cases "fmlookup (PubSubSubscriptions (w_data w)) name")
  case None
  with h show ?thesis by (simp add: PullPubSub_def ok.outcome_return)
next
  case (Some s)
  show ?thesis
  proof (cases "ps_Topic s = deletedTopic")
    case True
    with h Some show ?thesis by (simp add: PullPubSub_def ok.outcome_return)
  next
    case False
    have le: "w_ids w \<le> pl_ids (pullOf E w s maxN dl)" unfolding pullOf_def by (rule pull_ids)
    show ?thesis
    proof (cases "pl_changed (pullOf E w s maxN dl)")
      case True
      with h le pulledSubs_OK [OF h Some refl] show ?thesis unfolding PullPubSub_eq [OF Some False] Let_def
        by (auto simp: storeOK_def ahead_def intro!: ok_save)
    next
      case un: False
      from pulledSubs_unchanged [OF Some un] un h show ?thesis unfolding PullPubSub_eq [OF Some False] Let_def
        by (auto intro!: ok.outcome_read simp: ahead_def)
    qed
  qed
qed

text \<open>The contract, operation by operation.\<close>

interpretation CreatePubSubTopic: store_operation "ok.holds E S" "CreatePubSubTopic E name labels" for E S name labels
  by (rule ok.store_operationI) (rule CreatePubSubTopic_outcome)

interpretation DeletePubSubTopic: store_operation "ok.holds E S" "DeletePubSubTopic E name" for E S name
  by (rule ok.store_operationI) (rule DeletePubSubTopic_outcome)

interpretation CreatePubSubSubscription: store_operation "ok.holds E S"
  "CreatePubSubSubscription E name topic dl labels ordr" for E S name topic dl labels ordr
  by (rule ok.store_operationI) (rule CreatePubSubSubscription_outcome)

interpretation UpdatePubSubSubscription: store_operation "ok.holds E S"
  "UpdatePubSubSubscription E name dl labels dlt mx ud ul uq" for E S name dl labels dlt mx ud ul uq
  by (rule ok.store_operationI) (rule UpdatePubSubSubscription_outcome)

interpretation DeletePubSubSubscription: store_operation "ok.holds E S" "DeletePubSubSubscription E name" for E S name
  by (rule ok.store_operationI) (rule DeletePubSubSubscription_outcome)

interpretation PurgePubSubSubscription: store_operation "ok.holds E S" "PurgePubSubSubscription E name" for E S name
  by (rule ok.store_operationI) (rule PurgePubSubSubscription_outcome)

interpretation PublishPubSub: store_operation "\<lambda>w. ok.holds E S w \<and> (\<forall>m \<in> set messages. pm_AckID m = '''')"
  "PublishPubSub E topic messages" for E S topic messages
  by (rule ok.store_operation_hypI) (rule PublishPubSub_outcome)

interpretation PullPubSub: store_operation "ok.holds E S" "PullPubSub E name maxN dl" for E S name maxN dl
  by (rule ok.store_operationI) (rule PullPubSub_outcome)

interpretation AckPubSub: store_operation "ok.holds E S" "AckPubSub E name acks" for E S name acks
  by (rule ok.store_operationI) (rule AckPubSub_outcome)

interpretation ModifyPubSubAckDeadline: store_operation "ok.holds E S" "ModifyPubSubAckDeadline E name acks secs"
  for E S name acks secs
  by (rule ok.store_operationI) (rule ModifyPubSubAckDeadline_outcome)

end
