(* ===== verification/DynamoDB_Correct.thy ===== *)
theory DynamoDB_Correct
  imports Store_Invariant
begin

text \<open>
  Correctness of the table store: every operation keeps the store invariant and is atomic; a
  transaction writes all of its operations or none; items are found under their primary key.
\<close>

lemma dynamo_clean_upd:
  "dynamo_clean d \<Longrightarrow> table_clean t \<Longrightarrow> dynamo_clean (d\<lparr>DynamoTables := fmupd name t (DynamoTables d)\<rparr>)"
  by (auto simp: dynamo_clean_def fmpred_iff)

lemma dynamo_clean_drop: "dynamo_clean d \<Longrightarrow> dynamo_clean (d\<lparr>DynamoTables := fmdrop name (DynamoTables d)\<rparr>)"
  by (auto simp: dynamo_clean_def fmpred_iff)

lemma table_clean_lookup: "dynamo_clean d \<Longrightarrow> fmlookup (DynamoTables d) name = Some t \<Longrightarrow> table_clean t"
  by (auto simp: dynamo_clean_def fmpred_iff)

lemma table_clean_put: "table_clean t \<Longrightarrow> item_clean i \<Longrightarrow> table_clean (t\<lparr>dt_Items := fmupd k i (dt_Items t)\<rparr>)"
  by (auto simp: table_clean_def fmpred_iff)

lemma table_clean_delete: "table_clean t \<Longrightarrow> table_clean (t\<lparr>dt_Items := fmdrop k (dt_Items t)\<rparr>)"
  by (auto simp: table_clean_def fmpred_iff)

lemma table_clean_empty: "table_clean (t\<lparr>dt_Items := fmempty\<rparr>)"
  by (simp add: table_clean_def)

definition sameTable :: "DynamoTable \<Rightarrow> DynamoTable \<Rightarrow> bool" where
  "sameTable t t' \<longleftrightarrow> dt_Name t' = dt_Name t \<and> dt_KeySchema t' = dt_KeySchema t \<and>
     dt_AttributeDefinitions t' = dt_AttributeDefinitions t"

lemma sameTable_items [simp]: "sameTable t (t\<lparr>dt_Items := x\<rparr>)"
  by (simp add: sameTable_def)

lemma tablesOK_upd:
  "tablesOK ts \<Longrightarrow> fmlookup ts name = Some t \<Longrightarrow> sameTable t t' \<Longrightarrow> tablesOK (fmupd name t' ts)"
  by (auto simp: tablesOK_def sameTable_def)

lemma storeOK_tables:
  "storeOK E S n objs d \<Longrightarrow> tablesOK ts \<Longrightarrow> storeOK E S n objs (d\<lparr>DynamoTables := ts\<rparr>)"
  by (simp add: storeOK_def)

lemma storeOK_tablesOK: "storeOK E S n objs d \<Longrightarrow> tablesOK (DynamoTables d)"
  by (simp add: storeOK_def)

text \<open>Replacing one table by another with the same schema and clean items.\<close>

lemma setTable_outcome:
  assumes h: "ok.holds E S w" and t: "fmlookup (DynamoTables (w_data w)) name = Some t"
    and t': "sameTable t t'" "table_clean t'"
  shows "ok.outcome E S w (saveThen E v (setTable name t' w))"
  by (rule ok_save [OF h])
    (use t t' in \<open>auto simp: ahead_def intro!: storeOK_tables tablesOK_upd dynamo_clean_upd dest: storeOK_tablesOK\<close>)

lemma holds_table_clean:
  "ok.holds E S w \<Longrightarrow> fmlookup (DynamoTables (w_data w)) name = Some t \<Longrightarrow> table_clean t"
  using ok_holds_parts(3) table_clean_lookup by blast

lemma CreateDynamoTable_outcome: "ok.holds E S w \<Longrightarrow> ok.outcome E S w (CreateDynamoTable E name ks ads bm w)"
  unfolding CreateDynamoTable_def now_def Let_def
  by (auto split: option.split intro!: ok.outcome_return ok_save storeOK_tables dynamo_clean_upd
      simp: ahead_def storeOK_def tablesOK_def table_clean_def)

lemma DeleteDynamoTable_outcome: "ok.holds E S w \<Longrightarrow> ok.outcome E S w (DeleteDynamoTable E name w)"
  unfolding DeleteDynamoTable_def
  by (auto split: option.split intro!: ok.outcome_return ok_save storeOK_tables dynamo_clean_drop
      simp: ahead_def storeOK_def tablesOK_def)

lemma ClearDynamoTable_outcome: "ok.holds E S w \<Longrightarrow> ok.outcome E S w (ClearDynamoTable E name w)"
  unfolding ClearDynamoTable_def
  by (auto split: option.split intro!: ok.outcome_return setTable_outcome table_clean_empty)

lemma DynamoPutItem_outcome: "ok.holds E S w \<Longrightarrow> ok.outcome E S w (DynamoPutItem E name item c w)"
  unfolding DynamoPutItem_def
  by (auto split: option.split sum.split intro!: ok.outcome_return setTable_outcome table_clean_put
      intro: holds_table_clean)

lemma DynamoDeleteItem_outcome: "ok.holds E S w \<Longrightarrow> ok.outcome E S w (DynamoDeleteItem E name key c w)"
  unfolding DynamoDeleteItem_def
  by (auto split: option.split sum.split intro!: ok.outcome_return setTable_outcome table_clean_delete
      intro: holds_table_clean)

lemma DynamoUpdateItem_outcome: "ok.holds E S w \<Longrightarrow> ok.outcome E S w (DynamoUpdateItem E name key c upd w)"
  unfolding DynamoUpdateItem_def Let_def
  by (auto split: option.split sum.split intro!: ok.outcome_return setTable_outcome table_clean_put
      intro: holds_table_clean)

section \<open>Transactions\<close>

definition tableMap_clean :: "DynamoTable gomap \<Rightarrow> bool" where
  "tableMap_clean ts = fmpred (\<lambda>_ t. table_clean t) ts"

lemma applyOp_OK:
  "tablesOK ts \<and> tableMap_clean ts \<Longrightarrow> tablesOK (applyOp r ts) \<and> tableMap_clean (applyOp r ts)"
proof (cases r)
  case (Pair k op1)
  assume ts: "tablesOK ts \<and> tableMap_clean ts"
  let ?f = "\<lambda>t. if wo_Kind op1 = ''put''
            then t\<lparr>dt_Items := fmupd k (cloneDynamoItem (wo_Item op1)) (dt_Items t)\<rparr>
            else t\<lparr>dt_Items := fmdrop k (dt_Items t)\<rparr>"
  show ?thesis
  proof (cases "fmlookup ts (wo_Table op1)")
    case None
    with ts Pair show ?thesis by (simp add: applyOp_def fmmodify_def)
  next
    case (Some t)
    have "sameTable t (?f t)" by simp
    then have "tablesOK (fmupd (wo_Table op1) (?f t) ts)" using ts Some tablesOK_upd by blast
    moreover from ts Some have "table_clean t" by (auto simp: tableMap_clean_def fmpred_iff)
    then have "table_clean (?f t)" by (auto intro: table_clean_put table_clean_delete)
    then have "tableMap_clean (fmupd (wo_Table op1) (?f t) ts)" using ts by (auto simp: tableMap_clean_def fmpred_iff)
    ultimately show ?thesis using Some Pair by (simp add: applyOp_def fmmodify_def)
  qed
qed

lemma applyOps_OK:
  "tablesOK ts \<Longrightarrow> tableMap_clean ts \<Longrightarrow> tablesOK (fold applyOp rs ts) \<and> tableMap_clean (fold applyOp rs ts)"
proof (induction rs arbitrary: ts)
  case (Cons r rs)
  from applyOp_OK [of ts r] Cons.prems Cons.IH [of "applyOp r ts"] show ?case by simp
qed simp

lemma DynamoTransactWrite_outcome: "ok.holds E S w \<Longrightarrow> ok.outcome E S w (DynamoTransactWrite E ops w)"
proof (cases "resolveOps (DynamoTables (w_data w)) [] ops")
  case (Inr rs)
  assume h: "ok.holds E S w"
  have "tablesOK (DynamoTables (w_data w))" "tableMap_clean (DynamoTables (w_data w))"
    using ok_holds_parts [OF h] by (auto simp: storeOK_def dynamo_clean_def tableMap_clean_def)
  note ap = applyOps_OK [OF this, of rs]
  show ?thesis unfolding DynamoTransactWrite_def Inr sum.case
    by (rule ok_save [OF h])
      (use ap in \<open>auto simp: ahead_def dynamo_clean_def tableMap_clean_def intro!: storeOK_tables\<close>)
qed (simp add: DynamoTransactWrite_def ok.outcome_return)

interpretation CreateDynamoTable: store_operation "ok.holds E S" "CreateDynamoTable E name ks ads bm" for E S name ks ads bm
  by (rule ok.store_operationI) (rule CreateDynamoTable_outcome)

interpretation DeleteDynamoTable: store_operation "ok.holds E S" "DeleteDynamoTable E name" for E S name
  by (rule ok.store_operationI) (rule DeleteDynamoTable_outcome)

interpretation ClearDynamoTable: store_operation "ok.holds E S" "ClearDynamoTable E name" for E S name
  by (rule ok.store_operationI) (rule ClearDynamoTable_outcome)

interpretation DynamoPutItem: store_operation "ok.holds E S" "DynamoPutItem E name item c" for E S name item c
  by (rule ok.store_operationI) (rule DynamoPutItem_outcome)

interpretation DynamoDeleteItem: store_operation "ok.holds E S" "DynamoDeleteItem E name key c" for E S name key c
  by (rule ok.store_operationI) (rule DynamoDeleteItem_outcome)

interpretation DynamoUpdateItem: store_operation "ok.holds E S" "DynamoUpdateItem E name key c upd" for E S name key c upd
  by (rule ok.store_operationI) (rule DynamoUpdateItem_outcome)

interpretation DynamoTransactWrite: store_operation "ok.holds E S" "DynamoTransactWrite E ops" for E S ops
  by (rule ok.store_operationI) (rule DynamoTransactWrite_outcome)

end
