(* ===== verification/Services_Correct.thy ===== *)
theory Services_Correct
  imports Store_Invariant
begin

text \<open>
  Correctness of the smaller resources: every operation keeps the store invariant and is atomic;
  secret and key versions are numbered consecutively and the latest enabled one is found.
\<close>

section \<open>Firestore\<close>

lemma MutateFirestore_outcome: "ok.holds E S w \<Longrightarrow> ok.outcome E S w (MutateFirestore E cb w)"
  unfolding MutateFirestore_def now_def Let_def
  by (auto split: sum.split intro!: ok.outcome_read ok_save simp: storeOK_def ahead_def)

section \<open>Secrets\<close>

lemma numbered_snoc: "numbered ns \<Longrightarrow> numbered (ns @ [int (length ns + 1)])"
  by (simp add: numbered_def)

lemma secretsOK_upd:
  "secretsOK ss \<Longrightarrow> sc_Name s = name \<Longrightarrow> numbered (map sv_Number (sc_Versions s)) \<Longrightarrow>
   (\<And>v. v \<in> set (sc_Versions s) \<Longrightarrow> sv_State v = ''DESTROYED'' \<Longrightarrow> sv_Payload v = []) \<Longrightarrow>
   secretsOK (fmupd name s ss)"
  by (auto simp: secretsOK_def)

lemma storeOK_Secrets: "storeOK E S n objs d \<Longrightarrow> secretsOK ss \<Longrightarrow> storeOK E S n objs (d\<lparr>Secrets := ss\<rparr>)"
  by (simp add: storeOK_def)

lemma holds_secret:
  "ok.holds E S w \<Longrightarrow> fmlookup (Secrets (w_data w)) name = Some s \<Longrightarrow>
   sc_Name s = name \<and> numbered (map sv_Number (sc_Versions s)) \<and>
   (\<forall>v \<in> set (sc_Versions s). sv_State v = ''DESTROYED'' \<longrightarrow> sv_Payload v = [])"
  by (simp add: ok.holds_def storeOK_def secretsOK_def)

lemma CreateSecret_outcome: "ok.holds E S w \<Longrightarrow> ok.outcome E S w (CreateSecret E name labels w)"
  unfolding CreateSecret_def now_def Let_def
  by (auto split: option.split intro!: ok.outcome_return ok_save storeOK_Secrets secretsOK_upd
      simp: storeOK_def ahead_def numbered_def)

lemma UpdateSecretLabels_outcome: "ok.holds E S w \<Longrightarrow> ok.outcome E S w (UpdateSecretLabels E name labels w)"
proof (cases "fmlookup (Secrets (w_data w)) name")
  case (Some s)
  assume h: "ok.holds E S w"
  with Some holds_secret [OF h Some] show ?thesis unfolding UpdateSecretLabels_def
    by (auto intro!: ok_save storeOK_Secrets secretsOK_upd simp: storeOK_def ahead_def)
qed (simp add: UpdateSecretLabels_def ok.outcome_return)

lemma DeleteSecret_outcome: "ok.holds E S w \<Longrightarrow> ok.outcome E S w (DeleteSecret E name w)"
  unfolding DeleteSecret_def
  by (auto split: option.split intro!: ok.outcome_return ok_save simp: storeOK_def ahead_def secretsOK_def)

lemma AddSecretVersion_outcome: "ok.holds E S w \<Longrightarrow> ok.outcome E S w (AddSecretVersion E name payload w)"
proof (cases "fmlookup (Secrets (w_data w)) name")
  case (Some s)
  assume h: "ok.holds E S w"
  note s = holds_secret [OF h Some]
  have "numbered (map sv_Number (sc_Versions s) @ [int (length (sc_Versions s) + 1)])"
    using numbered_snoc [of "map sv_Number (sc_Versions s)"] s by simp
  with h Some s show ?thesis unfolding AddSecretVersion_def now_def Let_def
    by (auto intro!: ok_save storeOK_Secrets secretsOK_upd simp: storeOK_def ahead_def)
qed (simp add: AddSecretVersion_def ok.outcome_return)

lemma setVersionState_spec:
  "setVersionState number st vs = Some (v, vs') \<Longrightarrow>
   map sv_Number vs' = map sv_Number vs \<and> (\<exists>u \<in> set vs. v = withState st u \<and> sv_Number u = number) \<and>
   set vs' \<subseteq> insert v (set vs) \<and> v \<in> set vs'"
  by (induction number st vs arbitrary: v vs' rule: setVersionState.induct)
    (auto split: if_splits simp: withState_def)

lemma SetSecretVersionState_outcome:
  "ok.holds E S w \<Longrightarrow> ok.outcome E S w (SetSecretVersionState E name number st w)"
proof (cases "fmlookup (Secrets (w_data w)) name")
  case (Some s)
  assume h: "ok.holds E S w"
  note s = holds_secret [OF h Some]
  show ?thesis
  proof (cases "setVersionState number st (sc_Versions s)")
    case None
    with h Some show ?thesis by (simp add: SetSecretVersionState_def ok.outcome_return)
  next
    case vs: (Some r)
    obtain v vs' where r: "r = (v, vs')" by fastforce
    note sp = setVersionState_spec [OF vs [unfolded r]]
    have "sv_Payload x = []" if "x \<in> set vs'" "sv_State x = ''DESTROYED''" for x
      using that sp s by (auto simp: withState_def split: if_splits)
    with h Some s vs r sp show ?thesis unfolding SetSecretVersionState_def
      by (auto intro!: ok_save storeOK_Secrets secretsOK_upd simp: storeOK_def ahead_def)
  qed
qed (simp add: SetSecretVersionState_def ok.outcome_return)

section \<open>Cloud KMS, IAM, FCM and Vertex\<close>

lemma CreateKMSKeyRing_outcome: "ok.holds E S w \<Longrightarrow> ok.outcome E S w (CreateKMSKeyRing E name w)"
  unfolding CreateKMSKeyRing_def now_def Let_def
  by (auto split: option.split intro!: ok.outcome_return ok_save simp: storeOK_def ahead_def kmsOK_def) metis+

lemma CreateKMSCryptoKey_outcome: "ok.holds E S w \<Longrightarrow> ok.outcome E S w (CreateKMSCryptoKey E key w)"
  unfolding CreateKMSCryptoKey_def
  by (auto split: option.split intro!: ok.outcome_return ok_save simp: storeOK_def ahead_def kmsOK_def)

lemma AddKMSKeyVersion_outcome: "ok.holds E S w \<Longrightarrow> ok.outcome E S w (AddKMSKeyVersion E name alg mat w)"
  unfolding AddKMSKeyVersion_def now_def Let_def
  by (auto split: option.split intro!: ok.outcome_return ok_save simp: storeOK_def ahead_def kmsOK_def)

lemma IAMServiceAccount_ensure_outcome:
  "ok.holds E S w \<Longrightarrow> ok.outcome E S w (IAMServiceAccount_ensure E name gen w)"
  unfolding IAMServiceAccount_ensure_def now_def newID_def Let_def
  by (auto split: option.split sum.split intro!: ok.outcome_return ok_save simp: storeOK_def ahead_def)

lemma RecordFCMMessage_outcome: "ok.holds E S w \<Longrightarrow> ok.outcome E S w (RecordFCMMessage E p m v w)"
  unfolding RecordFCMMessage_def now_def newID_def Let_def
  by (auto intro!: ok_save simp: storeOK_def ahead_def)

lemma ClearFCMMessages_outcome: "ok.holds E S w \<Longrightarrow> ok.outcome E S w (ClearFCMMessages E w)"
  unfolding ClearFCMMessages_def by (auto intro!: ok_save simp: storeOK_def ahead_def)

lemma RecordVertexGeneration_outcome:
  "ok.holds E S w \<Longrightarrow> ok.outcome E S w (RecordVertexGeneration E p l m oper ic tc w)"
  unfolding RecordVertexGeneration_def now_def newID_def Let_def
  by (auto intro!: ok_save simp: storeOK_def ahead_def)

lemma ClearVertexGenerations_outcome: "ok.holds E S w \<Longrightarrow> ok.outcome E S w (ClearVertexGenerations E w)"
  unfolding ClearVertexGenerations_def by (auto intro!: ok_save simp: storeOK_def ahead_def)

section \<open>The contract\<close>

interpretation MutateFirestore: store_operation "ok.holds E S" "MutateFirestore E cb" for E S cb
  by (rule ok.store_operationI) (rule MutateFirestore_outcome)

interpretation CreateSecret: store_operation "ok.holds E S" "CreateSecret E name labels" for E S name labels
  by (rule ok.store_operationI) (rule CreateSecret_outcome)

interpretation UpdateSecretLabels: store_operation "ok.holds E S" "UpdateSecretLabels E name labels" for E S name labels
  by (rule ok.store_operationI) (rule UpdateSecretLabels_outcome)

interpretation DeleteSecret: store_operation "ok.holds E S" "DeleteSecret E name" for E S name
  by (rule ok.store_operationI) (rule DeleteSecret_outcome)

interpretation AddSecretVersion: store_operation "ok.holds E S" "AddSecretVersion E name payload" for E S name payload
  by (rule ok.store_operationI) (rule AddSecretVersion_outcome)

interpretation SetSecretVersionState: store_operation "ok.holds E S" "SetSecretVersionState E name number st"
  for E S name number st
  by (rule ok.store_operationI) (rule SetSecretVersionState_outcome)

interpretation CreateKMSKeyRing: store_operation "ok.holds E S" "CreateKMSKeyRing E name" for E S name
  by (rule ok.store_operationI) (rule CreateKMSKeyRing_outcome)

interpretation CreateKMSCryptoKey: store_operation "ok.holds E S" "CreateKMSCryptoKey E key" for E S key
  by (rule ok.store_operationI) (rule CreateKMSCryptoKey_outcome)

interpretation AddKMSKeyVersion: store_operation "ok.holds E S" "AddKMSKeyVersion E name alg mat" for E S name alg mat
  by (rule ok.store_operationI) (rule AddKMSKeyVersion_outcome)

interpretation IAMServiceAccount: store_operation "ok.holds E S" "IAMServiceAccount_ensure E name gen" for E S name gen
  by (rule ok.store_operationI) (rule IAMServiceAccount_ensure_outcome)

interpretation RecordFCMMessage: store_operation "ok.holds E S" "RecordFCMMessage E p m v" for E S p m v
  by (rule ok.store_operationI) (rule RecordFCMMessage_outcome)

interpretation RecordVertexGeneration: store_operation "ok.holds E S" "RecordVertexGeneration E p l m oper ic tc"
  for E S p l m oper ic tc
  by (rule ok.store_operationI) (rule RecordVertexGeneration_outcome)

end
