(* ===== verification/Lifecycle_Correct.thy ===== *)
theory Lifecycle_Correct
  imports GCS_Correct
begin

text \<open>
  Correctness of the life cycle: the resets keep the invariant; opening validates every object
  body, so a store that opens has no damaged body; and a store that was closed or killed at any
  point between two operations opens again with the committed state.
\<close>

section \<open>Resets\<close>

lemma refFiles_empty [simp]: "refFiles emptySnapshot = {}"
  by (simp add: refFiles_def)

lemma Reset_outcome:
  assumes h: "ok.holds E S w"
  shows "ok.outcome E S w (Reset E w)"
proof -
  obtain k w1 where rd: "runSys E [ReadDir] w = (k, w1)" by fastforce
  note f = runSys_objectsOnly [OF rd]
  have ah: "ahead w w1" using f objectsOnly_ahead by blast
  have h1: "ok.holds E S w1" using ok.holds_ahead [OF h ah] f by blast
  show ?thesis
  proof (cases k)
    case False
    with rd h1 ah show ?thesis by (simp add: Reset_def ok.outcome_ahead del: runSys.simps)
  next
    case True
    have "storeOK E S (w_ids w1) (w_objects w1) emptySnapshot"
      using holds_env [OF h] by simp
    moreover obtain r w2 where run: "saveLocked E (w1\<lparr>w_data := emptySnapshot\<rparr>) = (r, w2)" by fastforce
    ultimately have c: "ok.holds E S w2" "r = None \<Longrightarrow> w_data w2 = emptySnapshot"
      "\<And>e. r = Some e \<Longrightarrow> sameLive (w_data w2) (w_data w1) \<and> w_state_json w2 = w_state_json w1"
      using ok.saveLocked_outcome [OF h1 _ dynamo_clean_empty] by blast+
    show ?thesis
    proof (cases r)
      case None
      with c have "ok.holds E S (removeFiles E (fmkeys (w_objects w1)) w2)"
        by (intro holds_removeFiles) auto
      then show ?thesis using None True rd run holds_sysDone
        by (simp add: Reset_def ok.outcome_def del: runSys.simps)
    next
      case (Some e)
      with c ah True rd run show ?thesis by (simp add: Reset_def ok.outcome_def ahead_def del: runSys.simps)
    qed
  qed
qed

lemma clearWorkload_OK:
  assumes s: "storeOK E S n objs d"
  shows "storeOK E S n objs (clearWorkload d)" "dynamo_clean (clearWorkload d)" "refFiles (clearWorkload d) = {}"
proof -
  have nr: "\<not> fileRef (clearWorkload d) ns ow k f nn h c" for ns ow k f nn h c
    by (auto elim!: fileRefE simp: clearWorkload_def)
  then show "refFiles (clearWorkload d) = {}" by (simp add: refFiles_def)
  show "dynamo_clean (clearWorkload d)"
    by (auto simp: clearWorkload_def dynamo_clean_def table_clean_def fmpred_iff)
  have "queueOK E n name (q\<lparr>q_Messages := [], q_Deduplication := fmempty, q_NextSequenceNumber := 0\<rparr>)"
    if "queueOK E n name q" for name q
    using that by (auto simp: queueOK_def receiptsBelow_def liveReceipts_def)
  then have "queuesOK E n (Queues (clearWorkload d))"
    using s by (auto simp: storeOK_def queuesOK_def clearWorkload_def)
  moreover have "bodiesOK E S (clearWorkload d) objs" using nr by (simp add: bodiesOK_def)
  moreover have "subOK E n ts name (p\<lparr>ps_Messages := []\<rparr>)" if "subOK E n ts name p" for ts name p
    using that by (simp add: subOK_def acksBelow_def liveAcks_def)
  then have "subsOK E n (PubSubTopics (clearWorkload d)) (PubSubSubscriptions (clearWorkload d))"
    using s by (auto simp: storeOK_def subsOK_def clearWorkload_def)
  ultimately show "storeOK E S n objs (clearWorkload d)" using s
    by (auto simp: storeOK_def clearWorkload_def bucketsOK_def bucketOK_def uploadsOK_def gcsOK_def gcsBucketOK_def
        tablesOK_def cloneDynamoTable_def)
qed

lemma ResetWorkloadData_outcome:
  assumes h: "ok.holds E S w"
  shows "ok.outcome E S w (ResetWorkloadData E w)"
proof -
  note cw = clearWorkload_OK [OF ok_holds_parts(2) [OF h]]
  obtain r w2 where run: "saveLocked E (w\<lparr>w_data := clearWorkload (w_data w)\<rparr>) = (r, w2)" by fastforce
  note c = ok.saveLocked_outcome [OF h cw(1,2) run]
  show ?thesis
  proof (cases r)
    case None
    have "ok.holds E S (removeFiles E fs w2)" for fs
      using c(2) [OF None] cw(3) by (intro holds_removeFiles [OF c(1)]) simp
    with None run show ?thesis by (simp add: ResetWorkloadData_def Let_def ok.outcome_def)
  next
    case (Some e)
    with c(1) c(3) [OF Some] run show ?thesis by (simp add: ResetWorkloadData_def Let_def ok.outcome_def)
  qed
qed

interpretation Reset: store_operation "ok.holds E S" "Reset E" for E S
  by (rule ok.store_operationI) (rule Reset_outcome)

interpretation ResetWorkloadData: store_operation "ok.holds E S" "ResetWorkloadData E" for E S
  by (rule ok.store_operationI) (rule ResetWorkloadData_outcome)

section \<open>The references a validation visits\<close>

definition placeKey :: "place \<Rightarrow> string \<times> string \<times> string" where
  "placeKey pl = (case pl of AtObject b k \<Rightarrow> (''s3'', b, k) | AtPart u i \<Rightarrow> (''multipart'', u, showInt i)
     | AtGCS b k \<Rightarrow> (''gcs'', b, k))"

lemma sorted_fmap_mem: "(k, v) \<in> set (sorted_list_of_fmap m) \<longleftrightarrow> fmlookup m k = Some v"
proof -
  have "distinct (map fst (sorted_list_of_fmap m))"
    using distinct_fmkeys [of m] by (simp add: fmkeys_def)
  from map_of_eq_Some_iff [OF this, of k v] show ?thesis by simp
qed

lemma nested_mem:
  "r \<in> set (concat (map (\<lambda>(a, A). map (\<lambda>(k, x). f a k x) (sorted_list_of_fmap (g A))) (sorted_list_of_fmap m))) \<longleftrightarrow>
   (\<exists>a A k x. fmlookup m a = Some A \<and> fmlookup (g A) k = Some x \<and> r = f a k x)"
  (is "?L \<longleftrightarrow> ?R")
proof
  assume ?L
  then obtain p where p: "p \<in> set (sorted_list_of_fmap m)"
    "r \<in> set (map (\<lambda>(k, x). f (fst p) k x) (sorted_list_of_fmap (g (snd p))))"
    by (auto simp: split_beta)
  from p(2) obtain z where "z \<in> set (sorted_list_of_fmap (g (snd p)))" "r = f (fst p) (fst z) (snd z)"
    by (auto simp: split_beta)
  with p(1) sorted_fmap_mem [of "fst p" "snd p"] sorted_fmap_mem [of "fst z" "snd z"] show ?R
    by (metis prod.collapse)
next
  assume ?R
  then obtain a A k x where r: "r = f a k x" and aA: "(a, A) \<in> set (sorted_list_of_fmap m)"
    and kx: "(k, x) \<in> set (sorted_list_of_fmap (g A))"
    by (auto simp: sorted_fmap_mem)
  have "r \<in> set (map (\<lambda>(k, x). f a k x) (sorted_list_of_fmap (g A)))"
    using image_eqI [OF _ kx, of r "\<lambda>(k, x). f a k x"] r by simp
  with aA show ?L by (auto intro!: bexI [OF _ aA])
qed

lemma objectRefs_mem:
  "r \<in> set (objectRefs d) \<longleftrightarrow>
     (\<exists>b bk k x. fmlookup (Buckets d) b = Some bk \<and> fmlookup (bk_Objects bk) k = Some x \<and> r = objectRef b k x) \<or>
     (\<exists>u up i p. fmlookup (MultipartUploads d) u = Some up \<and> fmlookup (mu_Parts up) i = Some p \<and> r = partRef u i p) \<or>
     (\<exists>b gb k y. fmlookup (GCSBuckets d) b = Some gb \<and> fmlookup (gb_Objects gb) k = Some y \<and> r = gcsRef b k y)"
  unfolding objectRefs_def set_append Un_iff nested_mem by blast

lemma objectRefs_fileRef:
  "(\<exists>r \<in> set (objectRefs d). placeKey (or_place r) = (ns, ow, k) \<and> or_file r = f \<and> or_size r = n \<and>
      or_sha256 r = h \<and> or_crc32c r = c) \<longleftrightarrow> fileRef d ns ow k f n h c"
proof
  assume "fileRef d ns ow k f n h c"
  then show "\<exists>r \<in> set (objectRefs d). placeKey (or_place r) = (ns, ow, k) \<and> or_file r = f \<and> or_size r = n \<and>
      or_sha256 r = h \<and> or_crc32c r = c"
  proof (cases rule: fileRef.cases)
    case (s3 bk x)
    then have "objectRef ow k x \<in> set (objectRefs d)" unfolding objectRefs_mem by blast
    then show ?thesis by (rule bexI [rotated]) (use s3 in \<open>simp add: objectRef_def placeKey_def\<close>)
  next
    case (multipart up i p)
    then have "partRef ow i p \<in> set (objectRefs d)" unfolding objectRefs_mem by blast
    then show ?thesis by (rule bexI [rotated]) (use multipart in \<open>simp add: partRef_def placeKey_def\<close>)
  next
    case (gcs gb y)
    then have "gcsRef ow k y \<in> set (objectRefs d)" unfolding objectRefs_mem by blast
    then show ?thesis by (rule bexI [rotated]) (use gcs in \<open>simp add: gcsRef_def placeKey_def\<close>)
  qed
next
  assume "\<exists>r \<in> set (objectRefs d). placeKey (or_place r) = (ns, ow, k) \<and> or_file r = f \<and> or_size r = n \<and>
      or_sha256 r = h \<and> or_crc32c r = c"
  then show "fileRef d ns ow k f n h c"
    by (auto simp: objectRefs_mem objectRef_def partRef_def gcsRef_def placeKey_def)
      (rule fileRef.intros; assumption)+
qed

section \<open>What a validation establishes\<close>

text \<open>The measurements of a file with a given content.\<close>

definition integrityOf :: "env \<Rightarrow> bytes \<Rightarrow> objectFileIntegrity" where
  "integrityOf E b = \<lparr>fi_size = int (length b), fi_md5 = hexEncode (e_md5 E b),
     fi_sha256 = hexEncode (e_sha256 E b), fi_crc32c = StdEncoding (e_crc32c E b)\<rparr>"

definition cacheOK :: "env \<Rightarrow> bytes gomap \<Rightarrow> objectFileIntegrity gomap \<Rightarrow> bool" where
  "cacheOK E objs cache \<longleftrightarrow>
     (\<forall>f fi. fmlookup cache f = Some fi \<longrightarrow> (\<exists>b. fmlookup objs f = Some b \<and> fi = integrityOf E b))"

text \<open>A reference whose file is present and agrees with everything the reference records.\<close>

definition refIntact :: "env \<Rightarrow> bytes gomap \<Rightarrow> objRef \<Rightarrow> bool" where
  "refIntact E objs r \<longleftrightarrow> validSnapshotObjectName (or_file r) \<and>
     (\<exists>b. fmlookup objs (or_file r) = Some b \<and> or_size r = int (length b) \<and>
        compareIntegrity (integrityOf E b) r = None)"

lemma inspectObjectFile_spec:
  assumes "inspectObjectFile E f n w = (r, w')"
  shows "objectsOnly w w' \<and> w_objects w' = w_objects w"
    and "r = Inr fi \<Longrightarrow> \<exists>b. fmlookup (w_objects w) f = Some b \<and> n = int (length b) \<and> fi = integrityOf E b"
proof -
  show "objectsOnly w w' \<and> w_objects w' = w_objects w" using assms unfolding inspectObjectFile_def
    by (auto simp del: runSys.simps split: if_splits prod.splits bool.splits option.splits
        dest!: runSys_objectsOnly intro: objectsOnly_trans)
  show "\<exists>b. fmlookup (w_objects w) f = Some b \<and> n = int (length b) \<and> fi = integrityOf E b" if "r = Inr fi"
    using assms that unfolding inspectObjectFile_def
    by (auto simp del: runSys.simps simp: integrityOf_def split: if_splits prod.splits bool.splits option.splits
        dest!: runSys_objectsOnly)
qed

lemma inspectObjectFile_no_fault:
  assumes "\<forall>i. \<not> e_fault E i" "fmlookup (w_objects w) f = Some b" "n = int (length b)"
  shows "\<exists>w'. inspectObjectFile E f n w = (Inr (integrityOf E b), w')"
  using assms by (simp add: inspectObjectFile_def runSys_no_fault integrityOf_def del: runSys.simps)

lemma integrityOf_size [simp]: "fi_size (integrityOf E b) = int (length b)"
  and integrityOf_sha256 [simp]: "fi_sha256 (integrityOf E b) = hexEncode (e_sha256 E b)"
  by (simp_all add: integrityOf_def)

lemma checkRef_frame:
  assumes "checkRef E r cache w = (out, w')"
  shows "objectsOnly w w' \<and> w_objects w' = w_objects w"
  using assms inspectObjectFile_spec(1) unfolding checkRef_def
  by (auto split: if_splits option.splits prod.splits sum.splits)

lemma checkRef_sound:
  assumes c: "cacheOK E (w_objects w) cache" and run: "checkRef E r cache w = (Inr cache', w')"
  shows "cacheOK E (w_objects w) cache'" "refIntact E (w_objects w) r"
    "fmdom cache' = finsert (or_file r) (fmdom cache)"
proof -
  have "cacheOK E (w_objects w) cache' \<and> refIntact E (w_objects w) r \<and>
      fmdom cache' = finsert (or_file r) (fmdom cache)"
  proof (cases "fmlookup cache (or_file r)")
    case (Some fi)
    with c obtain b where b: "fmlookup (w_objects w) (or_file r) = Some b" "fi = integrityOf E b"
      unfolding cacheOK_def by blast
    from run Some b(2) have *: "validSnapshotObjectName (or_file r)" "int (length b) = or_size r"
      "compareIntegrity (integrityOf E b) r = None" "cache' = cache"
      by (auto simp: checkRef_def split: if_splits option.splits)
    have "or_file r |\<in>| fmdom cache" using Some by (rule fmdomI)
    with * b(1) c show ?thesis by (auto simp: refIntact_def)
  next
    case None
    with run obtain fi where i: "inspectObjectFile E (or_file r) (or_size r) w = (Inr fi, w')"
      and *: "validSnapshotObjectName (or_file r)" "compareIntegrity fi r = None"
        "cache' = fmupd (or_file r) fi cache"
      by (auto simp: checkRef_def split: if_splits option.splits prod.splits sum.splits)
    from inspectObjectFile_spec(2) [OF i refl] * c show ?thesis
      by (auto simp: refIntact_def cacheOK_def)
  qed
  then show "cacheOK E (w_objects w) cache'" "refIntact E (w_objects w) r"
    "fmdom cache' = finsert (or_file r) (fmdom cache)" by auto
qed

lemma checkRef_complete:
  assumes nf: "\<forall>i. \<not> e_fault E i" and c: "cacheOK E (w_objects w) cache" and r: "refIntact E (w_objects w) r"
  shows "\<exists>cache' w'. checkRef E r cache w = (Inr cache', w')"
proof -
  from r obtain b where b: "validSnapshotObjectName (or_file r)" "fmlookup (w_objects w) (or_file r) = Some b"
    "or_size r = int (length b)" "compareIntegrity (integrityOf E b) r = None"
    by (auto simp: refIntact_def)
  from inspectObjectFile_no_fault [OF nf b(2,3)] obtain w' where
    i: "inspectObjectFile E (or_file r) (or_size r) w = (Inr (integrityOf E b), w')" by blast
  show ?thesis
  proof (cases "fmlookup cache (or_file r)")
    case None
    with b i show ?thesis by (simp add: checkRef_def)
  next
    case (Some fi)
    with c b(2) have "fi = integrityOf E b" unfolding cacheOK_def by fastforce
    with Some b show ?thesis by (simp add: checkRef_def)
  qed
qed

section \<open>Filling in missing digests\<close>

definition upgradeRef :: "env \<Rightarrow> bytes gomap \<Rightarrow> objRef \<Rightarrow> snapshot \<Rightarrow> snapshot" where
  "upgradeRef E objs r d =
     (if or_sha256 r = '''' then
        setSHA256 (or_place r) (case fmlookup objs (or_file r) of Some b \<Rightarrow> hexEncode (e_sha256 E b) | None \<Rightarrow> '''') d
      else d)"

text \<open>
  A successful run of the three loops: every reference is intact, the files seen are those of the
  references, and the state is the old one with the missing digests filled in.
\<close>

lemma checkRefs_sound:
  assumes "cacheOK E (w_objects w) cache" "checkRefs E rs cache d u w = (Inr (cache', d', u'), w')"
  shows "objectsOnly w w' \<and> w_objects w' = w_objects w \<and> (\<forall>r \<in> set rs. refIntact E (w_objects w) r) \<and>
    fset (fmdom cache') = fset (fmdom cache) \<union> or_file ` set rs \<and>
    d' = fold (upgradeRef E (w_objects w)) rs d \<and> u' = (u \<or> (\<exists>r \<in> set rs. or_sha256 r = ''''))"
  using assms
proof (induction rs arbitrary: cache d u w)
  case (Cons r rs)
  from Cons.prems(2) obtain c1 w1 where ck: "checkRef E r cache w = (Inr c1, w1)"
    by (auto split: prod.splits sum.splits)
  note s = checkRef_sound [OF Cons.prems(1) ck] and f = checkRef_frame [OF ck]
  from s(2) obtain b where b: "fmlookup (w_objects w) (or_file r) = Some b" by (auto simp: refIntact_def)
  have "or_file r |\<in>| fmdom c1" using s(3) by simp
  then obtain fi where fi: "fmlookup c1 (or_file r) = Some fi" by (auto simp: fmlookup_dom_iff)
  with s(1) b have "fi = integrityOf E b" unfolding cacheOK_def by fastforce
  with fi b have sha: "(case fmlookup c1 (or_file r) of Some fi \<Rightarrow> fi_sha256 fi | None \<Rightarrow> '''') =
      (case fmlookup (w_objects w) (or_file r) of Some b \<Rightarrow> hexEncode (e_sha256 E b) | None \<Rightarrow> '''')" by simp
  have run: "checkRefs E rs c1 (upgradeRef E (w_objects w) r d) (u \<or> or_sha256 r = '''') w1 = (Inr (cache', d', u'), w')"
    using Cons.prems(2) ck sha by (auto simp: upgradeRef_def split: if_splits)
  have "cacheOK E (w_objects w1) c1" using s(1) f by simp
  note IH = Cons.IH [OF this run]
  show ?case using IH s f objectsOnly_trans [of w w1 w'] by (simp add: disj_ac)
qed simp

lemma checkRefs_frame:
  "checkRefs E rs cache d u w = (out, w') \<Longrightarrow> objectsOnly w w' \<and> w_objects w' = w_objects w"
proof (induction rs arbitrary: cache d u w)
  case (Cons r rs)
  obtain o1 w1 where ck: "checkRef E r cache w = (o1, w1)" by fastforce
  note f = checkRef_frame [OF ck]
  show ?case
  proof (cases o1)
    case (Inl e)
    with ck Cons.prems f show ?thesis by simp
  next
    case (Inr c1)
    with ck Cons.prems obtain d1 u1 where "checkRefs E rs c1 d1 u1 w1 = (out, w')" by (auto split: if_splits)
    from Cons.IH [OF this] f show ?thesis using objectsOnly_trans by auto
  qed
qed simp

lemma checkRefs_complete:
  assumes nf: "\<forall>i. \<not> e_fault E i"
  shows "cacheOK E (w_objects w) cache \<Longrightarrow> \<forall>r \<in> set rs. refIntact E (w_objects w) r \<Longrightarrow>
    \<exists>v w'. checkRefs E rs cache d u w = (Inr v, w')"
proof (induction rs arbitrary: cache d u w)
  case (Cons r rs)
  have "refIntact E (w_objects w) r" using Cons.prems(2) by simp
  from checkRef_complete [OF nf Cons.prems(1) this]
  obtain c1 w1 where ck: "checkRef E r cache w = (Inr c1, w1)" by blast
  note s = checkRef_sound [OF Cons.prems(1) ck] and f = checkRef_frame [OF ck]
  have "\<exists>v w'. checkRefs E rs c1 d1 u1 w1 = (Inr v, w')" for d1 u1
    using Cons.IH [of w1 c1 d1 u1] s(1) f Cons.prems(2) by simp
  then show ?case using ck by simp
qed simp

text \<open>The references after a digest is set at a place.\<close>

definition rewriteRef :: "place \<Rightarrow> string \<Rightarrow> objRef \<Rightarrow> objRef" where
  "rewriteRef pl h r = (if or_place r = pl then r\<lparr>or_sha256 := h\<rparr> else r)"

lemma rewriteRef_fields [simp]:
  "or_place (rewriteRef pl h r) = or_place r" "or_file (rewriteRef pl h r) = or_file r"
  "or_size (rewriteRef pl h r) = or_size r" "or_md5 (rewriteRef pl h r) = or_md5 r"
  "or_crc32c (rewriteRef pl h r) = or_crc32c r"
  by (simp_all add: rewriteRef_def)

lemma rewriteRef_ref:
  "rewriteRef pl h (objectRef b k x) = objectRef b k (if pl = AtObject b k then x\<lparr>obj_SHA256 := h\<rparr> else x)"
  "rewriteRef pl h (partRef u i p) = partRef u i (if pl = AtPart u i then p\<lparr>mp_SHA256 := h\<rparr> else p)"
  "rewriteRef pl h (gcsRef b k y) = gcsRef b k (if pl = AtGCS b k then y\<lparr>go_SHA256 := h\<rparr> else y)"
  by (auto simp: rewriteRef_def objectRef_def partRef_def gcsRef_def)

lemma objectRefs_setSHA256:
  assumes "r \<in> set (objectRefs (setSHA256 pl h d))"
  shows "\<exists>r0 \<in> set (objectRefs d). r = rewriteRef pl h r0"
proof -
  from assms consider
    (s3) b bk k x where "fmlookup (Buckets (setSHA256 pl h d)) b = Some bk" "fmlookup (bk_Objects bk) k = Some x" "r = objectRef b k x"
  | (multipart) u up i p where "fmlookup (MultipartUploads (setSHA256 pl h d)) u = Some up" "fmlookup (mu_Parts up) i = Some p" "r = partRef u i p"
  | (gcs) b gb k y where "fmlookup (GCSBuckets (setSHA256 pl h d)) b = Some gb" "fmlookup (gb_Objects gb) k = Some y" "r = gcsRef b k y"
    unfolding objectRefs_mem by blast
  then show ?thesis
  proof cases
    case s3
    then obtain bk0 x0 where "fmlookup (Buckets d) b = Some bk0" "fmlookup (bk_Objects bk0) k = Some x0"
      and "x = (if pl = AtObject b k then x0\<lparr>obj_SHA256 := h\<rparr> else x0)"
      by (cases pl) (auto simp: setSHA256_def split: if_splits)
    then have "objectRef b k x0 \<in> set (objectRefs d)" "r = rewriteRef pl h (objectRef b k x0)"
      using s3(3) unfolding objectRefs_mem rewriteRef_ref by blast+
    then show ?thesis by blast
  next
    case multipart
    then obtain up0 p0 where "fmlookup (MultipartUploads d) u = Some up0" "fmlookup (mu_Parts up0) i = Some p0"
      and "p = (if pl = AtPart u i then p0\<lparr>mp_SHA256 := h\<rparr> else p0)"
      by (cases pl) (auto simp: setSHA256_def split: if_splits)
    then have "partRef u i p0 \<in> set (objectRefs d)" "r = rewriteRef pl h (partRef u i p0)"
      using multipart(3) unfolding objectRefs_mem rewriteRef_ref by blast+
    then show ?thesis by blast
  next
    case gcs
    then obtain gb0 y0 where "fmlookup (GCSBuckets d) b = Some gb0" "fmlookup (gb_Objects gb0) k = Some y0"
      and "y = (if pl = AtGCS b k then y0\<lparr>go_SHA256 := h\<rparr> else y0)"
      by (cases pl) (auto simp: setSHA256_def split: if_splits)
    then have "gcsRef b k y0 \<in> set (objectRefs d)" "r = rewriteRef pl h (gcsRef b k y0)"
      using gcs(3) unfolding objectRefs_mem rewriteRef_ref by blast+
    then show ?thesis by blast
  qed
qed

lemma objectRefs_place: "r \<in> set (objectRefs d) \<Longrightarrow> r' \<in> set (objectRefs d) \<Longrightarrow> or_place r = or_place r' \<Longrightarrow> r = r'"
  unfolding objectRefs_mem by (elim disjE exE conjE) (auto simp: objectRef_def partRef_def gcsRef_def)

lemma upgraded_ref:
  assumes "r \<in> set (objectRefs (fold (upgradeRef E objs) rs d))"
    and "\<forall>r1 \<in> set rs. \<forall>r0 \<in> set (objectRefs d). or_place r1 = or_place r0 \<longrightarrow> or_file r1 = or_file r0"
  shows "\<exists>r0 \<in> set (objectRefs d). r = r0\<lparr>or_sha256 := or_sha256 r\<rparr> \<and>
    or_sha256 r = (if \<exists>r1 \<in> set rs. or_place r1 = or_place r0 \<and> or_sha256 r1 = ''''
      then (case fmlookup objs (or_file r0) of Some b \<Rightarrow> hexEncode (e_sha256 E b) | None \<Rightarrow> '''')
      else or_sha256 r0)"
  using assms
proof (induction rs arbitrary: d)
  case Nil
  then have "r \<in> set (objectRefs d)" by simp
  then show ?case by (rule bexI [rotated]) simp
next
  case (Cons r1 rs)
  let ?t = "\<lambda>f. case fmlookup objs f of Some b \<Rightarrow> hexEncode (e_sha256 E b) | None \<Rightarrow> ''''"
  let ?d1 = "upgradeRef E objs r1 d"
  have prior: "\<exists>r0 \<in> set (objectRefs d). r' = (if or_sha256 r1 = '''' then rewriteRef (or_place r1) (?t (or_file r1)) r0 else r0)"
    if "r' \<in> set (objectRefs ?d1)" for r'
    using that objectRefs_setSHA256 [of r' "or_place r1" "?t (or_file r1)" d]
    by (auto simp: upgradeRef_def split: if_splits)
  have "\<forall>r2 \<in> set rs. \<forall>r0 \<in> set (objectRefs ?d1). or_place r2 = or_place r0 \<longrightarrow> or_file r2 = or_file r0"
  proof (intro ballI impI)
    fix r2 r' assume r2: "r2 \<in> set rs" and r': "r' \<in> set (objectRefs ?d1)" and p: "or_place r2 = or_place r'"
    from prior [OF r'] obtain r0 where "r0 \<in> set (objectRefs d)" "or_place r' = or_place r0" "or_file r' = or_file r0"
      by (auto split: if_splits)
    with Cons.prems(2) r2 p show "or_file r2 = or_file r'" by simp
  qed
  moreover have "r \<in> set (objectRefs (fold (upgradeRef E objs) rs ?d1))" using Cons.prems(1) by simp
  ultimately obtain r' where r': "r' \<in> set (objectRefs ?d1)" "r = r'\<lparr>or_sha256 := or_sha256 r\<rparr>"
    "or_sha256 r = (if \<exists>r2 \<in> set rs. or_place r2 = or_place r' \<and> or_sha256 r2 = '''' then ?t (or_file r') else or_sha256 r')"
    using Cons.IH by blast
  from prior [OF r'(1)] obtain r0 where r0: "r0 \<in> set (objectRefs d)"
    "r' = (if or_sha256 r1 = '''' then rewriteRef (or_place r1) (?t (or_file r1)) r0 else r0)" by blast
  have "or_place r1 = or_place r0 \<Longrightarrow> or_file r1 = or_file r0" using Cons.prems(2) r0(1) by simp
  with r'(2,3) r0(2) have "r = r0\<lparr>or_sha256 := or_sha256 r\<rparr>" and
    "or_sha256 r = (if \<exists>r2 \<in> set (r1 # rs). or_place r2 = or_place r0 \<and> or_sha256 r2 = '''' then ?t (or_file r0) else or_sha256 r0)"
    by (auto simp: rewriteRef_def split: if_splits)
  with r0(1) show ?case by blast
qed

text \<open>A body that is present and matches the recorded size and digests.\<close>

definition bodyMatches :: "env \<Rightarrow> bytes gomap \<Rightarrow> string \<Rightarrow> int \<Rightarrow> string \<Rightarrow> string \<Rightarrow> bool" where
  "bodyMatches E objs f n h c \<longleftrightarrow> validSnapshotObjectName f \<and>
     (\<exists>b. fmlookup objs f = Some b \<and> n = int (length b) \<and> equalFold (hexEncode (e_sha256 E b)) h \<and>
        (c = '''' \<or> c = StdEncoding (e_crc32c E b)))"

lemma refIntact_matches:
  assumes "refIntact E objs r0"
    and "r = r0\<lparr>or_sha256 := or_sha256 r\<rparr>"
    and "or_sha256 r = (if or_sha256 r0 = '''' then (case fmlookup objs (or_file r0) of Some b \<Rightarrow> hexEncode (e_sha256 E b) | None \<Rightarrow> '''')
      else or_sha256 r0)"
  shows "bodyMatches E objs (or_file r) (or_size r) (or_sha256 r) (or_crc32c r)"
proof -
  from assms(2) have f: "or_file r = or_file r0" "or_size r = or_size r0" "or_crc32c r = or_crc32c r0"
    by (cases r; cases r0; simp)+
  from assms(1) obtain b where "validSnapshotObjectName (or_file r0)" "fmlookup objs (or_file r0) = Some b"
    "or_size r0 = int (length b)" "compareIntegrity (integrityOf E b) r0 = None" by (auto simp: refIntact_def)
  with assms(3) f show ?thesis
    by (auto simp: bodyMatches_def compareIntegrity_def integrityOf_def split: if_splits)
qed

lemma checkRefs_matches:
  assumes "checkRefs E (objectRefs d) fmempty d False w = (Inr (cache, d', u), w')"
    and "fileRef d' ns ow k f n h c"
  shows "bodyMatches E (w_objects w) f n h c" "f |\<in>| fmdom cache"
proof -
  have "cacheOK E (w_objects w) fmempty" by (simp add: cacheOK_def)
  note s = checkRefs_sound [OF this assms(1)]
  from assms(2) obtain r where r: "r \<in> set (objectRefs d')" and
    e: "or_file r = f" "or_size r = n" "or_sha256 r = h" "or_crc32c r = c"
    unfolding objectRefs_fileRef [symmetric] by blast
  have d': "d' = fold (upgradeRef E (w_objects w)) (objectRefs d) d" using s by blast
  have one: "\<forall>r1 \<in> set (objectRefs d). \<forall>r0 \<in> set (objectRefs d). or_place r1 = or_place r0 \<longrightarrow> r1 = r0"
    using objectRefs_place by blast
  with r d' upgraded_ref [of r E "w_objects w" "objectRefs d" d] obtain r0 where r0: "r0 \<in> set (objectRefs d)"
    "r = r0\<lparr>or_sha256 := or_sha256 r\<rparr>"
    "or_sha256 r = (if \<exists>r1 \<in> set (objectRefs d). or_place r1 = or_place r0 \<and> or_sha256 r1 = ''''
      then (case fmlookup (w_objects w) (or_file r0) of Some b \<Rightarrow> hexEncode (e_sha256 E b) | None \<Rightarrow> '''')
      else or_sha256 r0)" by blast
  have "(\<exists>r1 \<in> set (objectRefs d). or_place r1 = or_place r0 \<and> or_sha256 r1 = '''') \<longleftrightarrow> or_sha256 r0 = ''''"
    using one r0(1) by blast
  with r0 s refIntact_matches [of E "w_objects w" r0 r] e show "bodyMatches E (w_objects w) f n h c" by auto
  have "or_file r = or_file r0" using r0(2) by (cases r; cases r0; simp)
  moreover have "or_file r0 \<in> fset (fmdom cache)" using s r0(1) by auto
  ultimately show "f |\<in>| fmdom cache" using e(1) by simp
qed

lemma setSHA256_objectRefs:
  assumes "r \<in> set (objectRefs d)"
  shows "rewriteRef pl h r \<in> set (objectRefs (setSHA256 pl h d))"
proof -
  from assms consider
    (s3) b bk k x where "fmlookup (Buckets d) b = Some bk" "fmlookup (bk_Objects bk) k = Some x" "r = objectRef b k x"
  | (multipart) u up i p where "fmlookup (MultipartUploads d) u = Some up" "fmlookup (mu_Parts up) i = Some p" "r = partRef u i p"
  | (gcs) b gb k y where "fmlookup (GCSBuckets d) b = Some gb" "fmlookup (gb_Objects gb) k = Some y" "r = gcsRef b k y"
    unfolding objectRefs_mem by blast
  then show ?thesis
  proof cases
    case s3
    then have "\<exists>bk'. fmlookup (Buckets (setSHA256 pl h d)) b = Some bk' \<and>
        fmlookup (bk_Objects bk') k = Some (if pl = AtObject b k then x\<lparr>obj_SHA256 := h\<rparr> else x)"
      by (cases pl) (auto simp: setSHA256_def)
    then show ?thesis unfolding s3(3) rewriteRef_ref objectRefs_mem by blast
  next
    case multipart
    then have "\<exists>up'. fmlookup (MultipartUploads (setSHA256 pl h d)) u = Some up' \<and>
        fmlookup (mu_Parts up') i = Some (if pl = AtPart u i then p\<lparr>mp_SHA256 := h\<rparr> else p)"
      by (cases pl) (auto simp: setSHA256_def)
    then show ?thesis unfolding multipart(3) rewriteRef_ref objectRefs_mem by blast
  next
    case gcs
    then have "\<exists>gb'. fmlookup (GCSBuckets (setSHA256 pl h d)) b = Some gb' \<and>
        fmlookup (gb_Objects gb') k = Some (if pl = AtGCS b k then y\<lparr>go_SHA256 := h\<rparr> else y)"
      by (cases pl) (auto simp: setSHA256_def)
    then show ?thesis unfolding gcs(3) rewriteRef_ref objectRefs_mem by blast
  qed
qed

lemma refFiles_objectRefs: "refFiles d = or_file ` set (objectRefs d)"
proof (intro set_eqI iffI)
  fix f assume "f \<in> refFiles d"
  then show "f \<in> or_file ` set (objectRefs d)"
    unfolding refFiles_def objectRefs_fileRef [symmetric] by blast
next
  fix f assume "f \<in> or_file ` set (objectRefs d)"
  then obtain r where r: "r \<in> set (objectRefs d)" "f = or_file r" by blast
  obtain ns ow k where "placeKey (or_place r) = (ns, ow, k)" by (cases "placeKey (or_place r)") auto
  with r have "fileRef d ns ow k f (or_size r) (or_sha256 r) (or_crc32c r)"
    unfolding objectRefs_fileRef [symmetric] by blast
  then show "f \<in> refFiles d" unfolding refFiles_def by blast
qed

lemma refFiles_upgrade [simp]: "refFiles (upgradeRef E objs r d) = refFiles d"
proof -
  have "or_file ` set (objectRefs (setSHA256 pl h d)) = or_file ` set (objectRefs d)" for pl h
  proof (intro set_eqI iffI)
    fix f assume "f \<in> or_file ` set (objectRefs (setSHA256 pl h d))"
    then show "f \<in> or_file ` set (objectRefs d)" using objectRefs_setSHA256 by fastforce
  next
    fix f assume "f \<in> or_file ` set (objectRefs d)"
    then obtain r where "r \<in> set (objectRefs d)" "f = or_file (rewriteRef pl h r)" by auto
    then show "f \<in> or_file ` set (objectRefs (setSHA256 pl h d))"
      using setSHA256_objectRefs by blast
  qed
  then show ?thesis by (simp add: refFiles_objectRefs upgradeRef_def)
qed

lemma refFiles_upgrades [simp]: "refFiles (fold (upgradeRef E objs) rs d) = refFiles d"
  by (induction rs arbitrary: d) auto

section \<open>The removal of unreferenced files\<close>

lemma removeUnreferenced_frame:
  "removeUnreferenced E ref fs rm w = (r, w') \<Longrightarrow> objectsOnly w w' \<and>
   (\<forall>g. ref g \<longrightarrow> fmlookup (w_objects w') g = fmlookup (w_objects w) g)"
proof (induction fs arbitrary: rm w)
  case (Cons f fs)
  show ?case
  proof (cases "ref f")
    case True
    with Cons show ?thesis by simp
  next
    case False
    obtain k w1 where s: "runSys E [Lstat, Remove] w = (k, w1)" by fastforce
    note o = runSys_objectsOnly [OF s]
    show ?thesis
    proof (cases k)
      case k: True
      let ?w = "w1\<lparr>w_objects := fmdrop f (w_objects w1)\<rparr>"
      have "removeUnreferenced E ref fs True ?w = (r, w')"
        using Cons.prems s k False by (simp del: runSys.simps)
      from Cons.IH [OF this] o False show ?thesis by (auto simp: objectsOnly_def)
    next
      case nk: False
      with Cons.prems s False o show ?thesis by (simp del: runSys.simps)
    qed
  qed
qed simp

lemma removeUnreferenced_done:
  "removeUnreferenced E ref fs rm w = (Inr v, w') \<Longrightarrow>
   w_objects w' = fmfilter (\<lambda>g. ref g \<or> g \<notin> set fs) (w_objects w)"
proof (induction fs arbitrary: rm w)
  case Nil
  then show ?case by (simp add: fmfilter_true)
next
  case (Cons f fs)
  show ?case
  proof (cases "ref f")
    case True
    with Cons have "w_objects w' = fmfilter (\<lambda>g. ref g \<or> g \<notin> set fs) (w_objects w)" by simp
    also have "\<dots> = fmfilter (\<lambda>g. ref g \<or> g \<notin> set (f # fs)) (w_objects w)"
      using True by (intro fmap_eqI) auto
    finally show ?thesis .
  next
    case False
    obtain k w1 where s: "runSys E [Lstat, Remove] w = (k, w1)" by fastforce
    note o = runSys_objectsOnly [OF s]
    have k: k using Cons.prems s False by (cases k) (simp_all del: runSys.simps)
    let ?w = "w1\<lparr>w_objects := fmdrop f (w_objects w1)\<rparr>"
    have "removeUnreferenced E ref fs True ?w = (Inr v, w')"
      using Cons.prems s k False by (simp del: runSys.simps)
    from Cons.IH [OF this] o False show ?thesis by (auto intro!: fmap_eqI)
  qed
qed

lemma removeUnreferenced_no_fault:
  "\<forall>i. \<not> e_fault E i \<Longrightarrow> \<exists>v w'. removeUnreferenced E ref fs rm w = (Inr v, w')"
  by (induction fs arbitrary: rm w) auto

lemma validateAndCleanup_frame:
  "validateAndCleanupObjectState E d w = (r, w') \<Longrightarrow> objectsOnly w w'"
  unfolding validateAndCleanupObjectState_def
  by (auto simp del: runSys.simps removeUnreferenced.simps split: prod.splits sum.splits bool.splits if_splits
      dest!: runSys_objectsOnly checkRefs_frame removeUnreferenced_frame intro: objectsOnly_trans)

text \<open>A validation that succeeds: bodies match, and no unreferenced file is left.\<close>

lemma validateAndCleanup_sound:
  assumes "validateAndCleanupObjectState E d w = (Inr (d', u), w')"
  shows "fileRef d' ns ow k f n h c \<Longrightarrow> bodyMatches E (w_objects w') f n h c"
    "fset (fmdom (w_objects w')) = refFiles d'"
    "w_objects w' = fmfilter (\<lambda>g. g \<in> refFiles d) (w_objects w)"
    "d' = fold (upgradeRef E (w_objects w)) (objectRefs d) d"
    "u \<longleftrightarrow> (\<exists>r \<in> set (objectRefs d). or_sha256 r = '''')"
proof -
  from assms obtain cache w1 where ck: "checkRefs E (objectRefs d) fmempty d False w = (Inr (cache, d', u), w1)"
    unfolding validateAndCleanupObjectState_def
    by (auto simp del: runSys.simps split: prod.splits sum.splits bool.splits if_splits)
  obtain ok2 w2 where rd: "runSys E [ReadDir] w1 = (ok2, w2)" by fastforce
  let ?ref = "\<lambda>f. fmlookup cache f \<noteq> None"
  from assms ck rd obtain v w3 where rm: "removeUnreferenced E ?ref (fmkeys (w_objects w2)) False w2 = (Inr v, w3)"
    and w': "w_objects w' = w_objects w3"
    unfolding validateAndCleanupObjectState_def
    by (auto simp del: runSys.simps split: prod.splits sum.splits bool.splits if_splits
        dest!: runSys_objectsOnly [of E "[OpenDir, SyncDir]"])
  have "cacheOK E (w_objects w) fmempty" by (simp add: cacheOK_def)
  note s = checkRefs_sound [OF this ck]
  have o2: "w_objects w2 = w_objects w" using s runSys_objectsOnly [OF rd] by simp
  have dom: "fset (fmdom cache) = refFiles d" using s by (simp add: refFiles_objectRefs)
  have "w_objects w' = fmfilter (\<lambda>g. ?ref g \<or> g \<notin> set (fmkeys (w_objects w))) (w_objects w)"
    using removeUnreferenced_done [OF rm] unfolding w' o2 .
  also have "\<dots> = fmfilter (\<lambda>g. g \<in> refFiles d) (w_objects w)"
    unfolding dom [symmetric] by (rule fmap_eqI) (auto simp: in_fmkeys fmlookup_dom_iff)
  finally show objs: "w_objects w' = fmfilter (\<lambda>g. g \<in> refFiles d) (w_objects w)" .
  show d': "d' = fold (upgradeRef E (w_objects w)) (objectRefs d) d" using s by blast
  show "u \<longleftrightarrow> (\<exists>r \<in> set (objectRefs d). or_sha256 r = '''')" using s by blast
  have same: "refFiles d' = refFiles d" unfolding d' by simp
  show m: "bodyMatches E (w_objects w') f n h c" if "fileRef d' ns ow k f n h c" for ns ow k f n h c
    using checkRefs_matches [OF ck that] dom unfolding bodyMatches_def objs by auto
  show "fset (fmdom (w_objects w')) = refFiles d'"
  proof (intro set_eqI iffI)
    fix f assume "f \<in> fset (fmdom (w_objects w'))"
    then show "f \<in> refFiles d'" unfolding same objs by (auto simp: fmdom_filter)
  next
    fix f assume "f \<in> refFiles d'"
    then obtain ns ow k n h c where "fileRef d' ns ow k f n h c" unfolding refFiles_def by blast
    from m [OF this] show "f \<in> fset (fmdom (w_objects w'))" by (auto simp: bodyMatches_def intro: fmdomI)
  qed
qed

section \<open>Opening\<close>

lemma readPersistentStateFile_frame:
  assumes "readPersistentStateFile E sf w = (r, w')"
  shows "objectsOnly w w' \<and> w_objects w' = w_objects w"
  using assms unfolding readPersistentStateFile_def
  by (auto simp del: runSys.simps split: state_file.splits prod.splits bool.splits if_splits
      dest!: runSys_objectsOnly intro: objectsOnly_trans)

lemma readPersistentStateFile_doc:
  "readPersistentStateFile E sf w = (ReadRaw (Doc doc), w') \<Longrightarrow> sf = Doc doc"
  unfolding readPersistentStateFile_def
  by (auto simp del: runSys.simps split: state_file.splits prod.splits bool.splits if_splits)

lemma readPersistentStateFile_missing:
  "readPersistentStateFile E sf w = (ReadMissing, w') \<Longrightarrow> sf = NoFile"
  unfolding readPersistentStateFile_def
  by (auto simp del: runSys.simps split: state_file.splits prod.splits bool.splits if_splits)

text \<open>A data directory that opens: the state read, validated, and perhaps rewritten with digests.\<close>

abbreviation openedWith :: "world \<Rightarrow> IntegrityMode \<Rightarrow> snapshot \<Rightarrow> state_doc option \<Rightarrow> world" where
  "openedWith w0 mode d raw \<equiv> w0\<lparr>w_data := d, w_committedRaw := raw, w_integrityMode := mode\<rparr>"

lemma openData_cases [consumes 1, case_names missing read]:
  assumes "openData E mode sf w0 = (Inr (), w')"
  obtains w1 w2 d u where "sf = NoFile" "objectsOnly (openedWith w0 mode emptySnapshot None) w1"
      "w_objects w1 = w_objects w0" "validateAndCleanupObjectState E emptySnapshot w1 = (Inr (d, u), w2)"
      "w_data w' = d" "w_objects w' = w_objects w2" "w_integrityMode w' = mode" "w_ids w' = w_ids w0"
      "w_state_json w' = w_state_json w0" "w_committedRaw w' = encodeSnapshot d"
  | w1 w2 doc d u where "sf = Doc doc"
      "objectsOnly (openedWith w0 mode (normalizeSnapshot doc) (encodeSnapshot (normalizeSnapshot doc))) w1"
      "w_objects w1 = w_objects w0" "validateAndCleanupObjectState E (normalizeSnapshot doc) w1 = (Inr (d, u), w2)"
      "w_data w' = d" "w_objects w' = w_objects w2" "w_integrityMode w' = mode" "w_ids w' = w_ids w0"
      "\<not> u \<Longrightarrow> w_state_json w' = w_state_json w0 \<and> w_committedRaw w' = encodeSnapshot (normalizeSnapshot doc)"
proof -
  let ?w = "openedWith w0 mode emptySnapshot None"
  obtain r w1 where rd: "readPersistentStateFile E sf ?w = (r, w1)" by fastforce
  note f = readPersistentStateFile_frame [OF rd]
  show thesis
  proof (cases r)
    case ReadMissing
    then have sf: "sf = NoFile" using rd readPersistentStateFile_missing by blast
    from ReadMissing assms rd f obtain d u w2 where "validateAndCleanupObjectState E emptySnapshot w1 = (Inr (d, u), w2)"
      "initializeCommittedState (w2\<lparr>w_data := d\<rparr>) = (None, w')"
      by (auto simp: openData_def objectsOnly_def split: prod.splits sum.splits option.splits)
    with f sf that(1) [of w1 d u w2] validateAndCleanup_frame show thesis
      by (auto simp: initializeCommittedState_def objectsOnly_def split: option.splits)
  next
    case (ReadError e)
    with assms rd show thesis by (simp add: openData_def)
  next
    case (ReadRaw sf')
    with assms rd obtain doc where doc: "sf' = Doc doc" by (cases sf') (auto simp: openData_def)
    with rd ReadRaw have sf: "sf = Doc doc" using readPersistentStateFile_doc by blast
    from assms rd ReadRaw doc obtain raw where raw: "encodeSnapshot (normalizeSnapshot doc) = Some raw"
      by (auto simp: openData_def initializeCommittedState_def split: option.splits)
    let ?w1 = "w1\<lparr>w_data := normalizeSnapshot doc, w_committedRaw := Some raw\<rparr>"
    from assms rd ReadRaw doc raw obtain d u w2 where v: "validateAndCleanupObjectState E (normalizeSnapshot doc) ?w1 = (Inr (d, u), w2)"
      and w': "if u then saveLocked E (w2\<lparr>w_data := d\<rparr>) = (None, w') else w' = w2\<lparr>w_data := d\<rparr>"
      by (auto simp: openData_def initializeCommittedState_def split: option.splits prod.splits sum.splits if_splits)
    have "w_data w' = d \<and> w_objects w' = w_objects w2 \<and> w_integrityMode w' = w_integrityMode w2 \<and> w_ids w' = w_ids w2"
    proof (cases u)
      case True
      with w' have "saveLocked E (w2\<lparr>w_data := d\<rparr>) = (None, w')" by simp
      then show ?thesis by (cases rule: saveLocked_cases) auto
    qed (use w' in simp)
    with that(2) [OF sf, of ?w1 d u w2] f v validateAndCleanup_frame [OF v] raw w' show thesis
      by (auto simp: objectsOnly_def)
  qed
qed
lemma openData_sound:
  assumes "openData E mode sf w0 = (Inr (), w')"
  shows "fileRef (w_data w') ns ow k f n h c \<Longrightarrow> bodyMatches E (w_objects w') f n h c"
    "fset (fmdom (w_objects w')) = refFiles (w_data w')" "w_integrityMode w' = mode"
proof -
  from assms have "(\<forall>ns ow k f n h c. fileRef (w_data w') ns ow k f n h c \<longrightarrow> bodyMatches E (w_objects w') f n h c) \<and>
      fset (fmdom (w_objects w')) = refFiles (w_data w') \<and> w_integrityMode w' = mode"
  proof (cases rule: openData_cases)
    case (missing w1 w2 d u)
    note v = validateAndCleanup_sound [OF missing(4)]
    from v(1,2) missing(5-7) show ?thesis by simp
  next
    case (read w1 w2 doc d u)
    note v = validateAndCleanup_sound [OF read(4)]
    from v(1,2) read(5-7) show ?thesis by simp
  qed
  then show "fileRef (w_data w') ns ow k f n h c \<Longrightarrow> bodyMatches E (w_objects w') f n h c"
    "fset (fmdom (w_objects w')) = refFiles (w_data w')" "w_integrityMode w' = mode" by auto
qed

section \<open>Reopening\<close>

text \<open>The content of \<open>state.json\<close> in a data directory.\<close>

definition diskFile :: "world \<Rightarrow> state_file" where
  "diskFile w = (case w_state_json w of None \<Rightarrow> NoFile | Some doc \<Rightarrow> Doc doc)"

lemma bodiesOK_refIntact:
  assumes dig: "digests_ok E S" and b: "bodiesOK E S d objs" and r: "r \<in> set (objectRefs d)"
  shows "refIntact E objs r" "or_sha256 r \<noteq> ''''"
proof -
  obtain ns ow k where "placeKey (or_place r) = (ns, ow, k)" by (cases "placeKey (or_place r)") auto
  with r have "fileRef d ns ow k (or_file r) (or_size r) (or_sha256 r) (or_crc32c r)"
    unfolding objectRefs_fileRef [symmetric] by blast
  with b have "bodyOK E S objs ns ow k (or_file r) (or_size r) (or_sha256 r) (or_crc32c r)"
    by (simp add: bodiesOK_def)
  then obtain x where x: "fmlookup objs (or_file r) = Some x" "or_size r = int (length x)"
    "or_sha256 r = hexEncode (e_sha256 E x)" "or_file r = generationObjectFile E ns ow k (e_sha256 E x)"
    "or_crc32c r = '''' \<or> or_crc32c r = StdEncoding (e_crc32c E x)" unfolding bodyOK_def by blast
  have len: "length (e_sha256 E y) = 32" for y using dig by (simp add: digests_ok_def)
  show sha: "or_sha256 r \<noteq> ''''" using x(3) len [of x] by auto
  have "validSnapshotObjectName (or_file r)" unfolding x(4) using len by (simp add: generationObjectFile_valid)
  moreover have "compareIntegrity (integrityOf E x) r = None"
    using x(3,5) sha by (auto simp: compareIntegrity_def integrityOf_def)
  ultimately show "refIntact E objs r" using x(1,2) by (simp add: refIntact_def)
qed

lemma fold_upgrade_id: "\<forall>r \<in> set rs. or_sha256 r \<noteq> '''' \<Longrightarrow> fold (upgradeRef E objs) rs d = d"
  by (induction rs) (auto simp: upgradeRef_def)

text \<open>Without faults, the validation of a state whose bodies are intact succeeds and keeps it.\<close>

lemma validateAndCleanup_complete:
  assumes nf: "\<forall>i. \<not> e_fault E i" and dig: "digests_ok E S" and b: "bodiesOK E S d (w_objects w)"
  obtains w' where "validateAndCleanupObjectState E d w = (Inr (d, False), w')" "objectsOnly w w'"
    "w_objects w' = fmfilter (\<lambda>g. g \<in> refFiles d) (w_objects w)"
proof -
  note i = bodiesOK_refIntact [OF dig b]
  have "cacheOK E (w_objects w) fmempty" by (simp add: cacheOK_def)
  from checkRefs_complete [OF nf this] i(1) obtain v w1 where
    ck: "checkRefs E (objectRefs d) fmempty d False w = (Inr v, w1)" by blast
  obtain cache d' u where v: "v = (cache, d', u)" by (cases v) auto
  obtain w2 where rd: "runSys E [ReadDir] w1 = (True, w2)" using nf by (simp add: runSys_no_fault del: runSys.simps)
  from removeUnreferenced_no_fault [OF nf] obtain rm w3 where
    rmv: "removeUnreferenced E (\<lambda>f. fmlookup cache f \<noteq> None) (fmkeys (w_objects w2)) False w2 = (Inr rm, w3)" by blast
  obtain w4 where sy: "runSys E [OpenDir, SyncDir] w3 = (True, w4)" using nf by (simp add: runSys_no_fault del: runSys.simps)
  have "validateAndCleanupObjectState E d w = (Inr (d', u), if rm then w4 else w3)"
    using ck v rd rmv sy by (simp add: validateAndCleanupObjectState_def del: runSys.simps)
  then obtain w' where run: "validateAndCleanupObjectState E d w = (Inr (d', u), w')" by blast
  note s = validateAndCleanup_sound(3-5) [OF run]
  have "d' = d" "\<not> u" using s(2,3) i(2) fold_upgrade_id by auto
  with run s(1) validateAndCleanup_frame [OF run] that show thesis by simp
qed

lemma bodiesOK_cleanup: "bodiesOK E S d objs \<Longrightarrow> bodiesOK E S d (fmfilter (\<lambda>g. g \<in> refFiles d) objs)"
  unfolding bodiesOK_def
proof (intro allI impI)
  fix ns ow k f n h c
  assume "\<forall>ns ow k f n h c. fileRef d ns ow k f n h c \<longrightarrow> bodyOK E S objs ns ow k f n h c"
    and r: "fileRef d ns ow k f n h c"
  then have "bodyOK E S objs ns ow k f n h c" by blast
  moreover have "f \<in> refFiles d" using r unfolding refFiles_def by blast
  ultimately show "bodyOK E S (fmfilter (\<lambda>g. g \<in> refFiles d) objs) ns ow k f n h c"
    by (auto intro: bodyOK_lookup_cong)
qed

lemma disk_storeOK:
  assumes "ok.holds E S w"
  shows "storeOK E S (w_ids w) (w_objects w) (diskState w)" "dynamo_clean (diskState w)"
    "encodeSnapshot (diskState w) = Some (diskDoc w)" "refFiles (diskState w) = refFiles (w_data w)"
proof -
  note p = ok_holds_parts [OF assms]
  have live: "sameLive (w_data w) (diskState w)" and "encodeSnapshot (diskState w) = Some (diskDoc w)"
    using p(1) by (auto simp: durable_def)
  then show "storeOK E S (w_ids w) (w_objects w) (diskState w)" "dynamo_clean (diskState w)"
    "encodeSnapshot (diskState w) = Some (diskDoc w)" "refFiles (diskState w) = refFiles (w_data w)"
    using ok.inv_sameLive [OF live p(2)] p(3) sameLive_fields(3) [OF live] refFiles_sameLive [OF live]
    by (auto simp: dynamo_clean_def)
qed

text \<open>A world with the committed state in memory, and on disk only the files it refers to.\<close>

lemma reopened_holds:
  assumes h: "ok.holds E S w" and "w_data w' = diskState w" "w_committedRaw w' = Some (diskDoc w)"
    "w_state_json w' = w_state_json w" "w_ids w' = w_ids w"
    "w_objects w' = fmfilter (\<lambda>g. g \<in> refFiles (diskState w)) (w_objects w)"
  shows "ok.holds E S w'"
proof -
  note d = disk_storeOK [OF h]
  have "bodiesOK E S (diskState w) (w_objects w)" using d(1) by (simp add: storeOK_def)
  from storeOK_objects [OF d(1) bodiesOK_cleanup [OF this]] assms
  have "storeOK E S (w_ids w') (w_objects w') (w_data w')" by simp
  moreover have "diskDoc w' = diskDoc w" "diskState w' = diskState w"
    using assms(4) by (simp_all add: diskState_def diskDoc_def)
  ultimately show ?thesis using assms d by (simp add: durable_def ok.holds_def)
qed

lemma diskFile_cases:
  "diskFile w = NoFile \<Longrightarrow> diskState w = emptySnapshot \<and> diskDoc w = snapshotDoc emptySnapshot"
  "diskFile w = Doc doc \<Longrightarrow> diskState w = normalizeSnapshot doc \<and> diskDoc w = doc"
  using decode_encode [of emptySnapshot]
  by (auto simp: diskFile_def diskState_def diskDoc_def split: option.splits)

text \<open>
  The data directory of a store opened by a new process, which knows nothing of the old memory:
  whenever opening succeeds, whatever faults occurred, the store has the committed state.
\<close>

lemma open_committed:
  assumes h: "ok.holds E S w" and w0: "w0 = openedWith w m0 d0 c0"
    and run: "openData E mode (diskFile w) w0 = (Inr (), w')"
  shows "ok.holds E S w'" "w_data w' = diskState w" "w_state_json w' = w_state_json w"
    "w_objects w' = fmfilter (\<lambda>g. g \<in> refFiles (diskState w)) (w_objects w)"
proof -
  note d = disk_storeOK [OF h]
  have b: "bodiesOK E S (diskState w) (w_objects w)" using d(1) by (simp add: storeOK_def)
  note i = bodiesOK_refIntact(2) [OF holds_env [OF h] b]
  have "w_data w' = diskState w \<and> w_committedRaw w' = Some (diskDoc w) \<and> w_state_json w' = w_state_json w \<and>
      w_ids w' = w_ids w \<and> w_objects w' = fmfilter (\<lambda>g. g \<in> refFiles (diskState w)) (w_objects w)"
    using run
  proof (cases rule: openData_cases)
    case (missing w1 w2 d' u)
    note e = diskFile_cases(1) [OF missing(1)]
    note v = validateAndCleanup_sound(3-5) [OF missing(4)]
    have "d' = emptySnapshot" using v(2) i e fold_upgrade_id by auto
    with missing(3,5-) v(1) e w0 show ?thesis by simp
  next
    case (read w1 w2 doc d' u)
    note e = diskFile_cases(2) [OF read(1)]
    note v = validateAndCleanup_sound(3-5) [OF read(4)]
    have nu: "\<not> u" and "d' = diskState w" using v(2,3) i e fold_upgrade_id by auto
    moreover have o: "w_objects w1 = w_objects w" using read(3) w0 by simp
    have "w_objects w' = fmfilter (\<lambda>g. g \<in> refFiles (diskState w)) (w_objects w)"
      unfolding read(6) v(1) o conjunct1 [OF e] ..
    ultimately show ?thesis using read(5,8) read(9) [OF nu] e d(3) w0 by simp
  qed
  then show "ok.holds E S w'" "w_data w' = diskState w" "w_state_json w' = w_state_json w"
    "w_objects w' = fmfilter (\<lambda>g. g \<in> refFiles (diskState w)) (w_objects w)"
    using reopened_holds [OF h] by auto
qed

text \<open>Without faults, and with a state within the reader's limit, opening does succeed.\<close>

lemma open_succeeds:
  assumes h: "ok.holds E S w" and nf: "\<forall>i. \<not> e_fault E i"
    and sz: "e_stateSize E (diskDoc w) \<le> maxPersistentStateSize"
    and w0: "w0 = openedWith w m0 d0 c0"
  shows "\<exists>w'. openData E mode (diskFile w) w0 = (Inr (), w')"
proof -
  note d = disk_storeOK [OF h] and dig = holds_env [OF h]
  let ?w = "openedWith w0 mode emptySnapshot None"
  show ?thesis
  proof (cases "w_state_json w")
    case None
    then have nofile: "diskFile w = NoFile" by (simp add: diskFile_def)
    obtain w1 where rd: "readPersistentStateFile E NoFile ?w = (ReadMissing, w1)"
      using nf by (simp add: readPersistentStateFile_def)
    obtain w2 where "validateAndCleanupObjectState E emptySnapshot w1 = (Inr (emptySnapshot, False), w2)"
      by (rule validateAndCleanup_complete [OF nf dig bodiesOK_empty])
    with rd nofile readPersistentStateFile_frame [OF rd] show ?thesis
      by (simp add: openData_def initializeCommittedState_def objectsOnly_def)
  next
    case (Some doc)
    then have docfile: "diskFile w = Doc doc" by (simp add: diskFile_def)
    note e = diskFile_cases(2) [OF docfile]
    obtain w1 where rd: "readPersistentStateFile E (Doc doc) ?w = (ReadRaw (Doc doc), w1)"
      using nf sz e by (simp add: readPersistentStateFile_def)
    note f = readPersistentStateFile_frame [OF rd]
    have en: "encodeSnapshot (normalizeSnapshot doc) = Some doc" using d(3) e by simp
    let ?w1 = "w1\<lparr>w_data := normalizeSnapshot doc, w_committedRaw := Some doc\<rparr>"
    have "bodiesOK E S (normalizeSnapshot doc) (w_objects ?w1)" using d(1) f e w0 by (simp add: storeOK_def)
    then obtain w2 where "validateAndCleanupObjectState E (normalizeSnapshot doc) ?w1 =
        (Inr (normalizeSnapshot doc, False), w2)"
      by (rule validateAndCleanup_complete [OF nf dig])
    with rd docfile en encode_validates [OF en] show ?thesis
      by (simp add: openData_def initializeCommittedState_def)
  qed
qed
text \<open>A committed state beyond the size limit of the reader cannot be opened again.\<close>

lemma reopen_too_large:
  assumes "w_state_json w = Some doc" "e_stateSize E doc > maxPersistentStateSize"
  shows "\<exists>e w'. openData E mode (diskFile w) w0 = (Inl e, w')"
  using assms by (cases "e_fault E (w_sys w0)") (simp_all add: openData_def Let_def diskFile_def readPersistentStateFile_def)

end
