(* ===== verification/Store_Runs.thy ===== *)
theory Store_Runs
  imports SQS_Correct S3_Correct GCS_Correct PubSub_Correct DynamoDB_Correct Services_Correct Lifecycle_Correct
begin

text \<open>
  Runs of the whole store: a step relation with one rule per operation of the store, restarts in
  between, and a schedule of failing system calls that may differ from step to step. The invariant
  holds along every run; an operation that returns an error has changed nothing; a process that
  dies inside an operation leaves a directory that opens with the state before or after it.
\<close>

definition failure :: "error + 'a \<Rightarrow> error option" where
  "failure r = (case r of Inl e \<Rightarrow> Some e | Inr _ \<Rightarrow> None)"

text \<open>
  \<open>store_call E S w x w'\<close>: some operation takes \<open>w\<close> to \<open>w'\<close>, failing with \<open>x\<close> or
  succeeding. Bodies and file names that are hashed are members of \<open>S\<close>; bucket names contain
  no NUL byte and published messages carry no acknowledgement identifier, as the request handlers
  ensure.
\<close>

inductive store_call :: "env \<Rightarrow> bytes set \<Rightarrow> world \<Rightarrow> error option \<Rightarrow> world \<Rightarrow> bool"
  for E S where
  "CHR 0x00 \<notin> set name \<Longrightarrow> CreateBucket E name w = (r, w') \<Longrightarrow> store_call E S w (failure r) w'"
| "DeleteBucket E name w = (r, w') \<Longrightarrow> store_call E S w (failure r) w'"
| "SetNotifications E name ns w = (r, w') \<Longrightarrow> store_call E S w (failure r) w'"
| "hashable E S ''s3'' bucket key body \<Longrightarrow> PutObject E bucket key body ct md w = (r, w') \<Longrightarrow> store_call E S w (failure r) w'"
| "GetObject E bucket key w = (r, w') \<Longrightarrow> store_call E S w (failure r) w'"
| "DeleteObject E bucket key w = (r, w') \<Longrightarrow> store_call E S w (failure r) w'"
| "CreateMultipartUpload E bucket key ct md w = (r, w') \<Longrightarrow> store_call E S w (failure r) w'"
| "hashable E S ''multipart'' u (showInt i) body \<Longrightarrow> UploadMultipartPart E bucket key u i body w = (r, w') \<Longrightarrow> store_call E S w (failure r) w'"
| "completionHashable E S bucket key u completed w \<Longrightarrow> CompleteMultipartUpload E bucket key u completed w = (r, w') \<Longrightarrow> store_call E S w (failure r) w'"
| "AbortMultipartUpload E bucket key u w = (r, w') \<Longrightarrow> store_call E S w (failure r) w'"
| "CreateQueue E name attrs w = (r, w') \<Longrightarrow> store_call E S w (failure r) w'"
| "DeleteQueue E name w = (r, w') \<Longrightarrow> store_call E S w (failure r) w'"
| "PurgeQueue E name w = (r, w') \<Longrightarrow> store_call E S w (failure r) w'"
| "SetQueueAttributes E name attrs w = (r, w') \<Longrightarrow> store_call E S w (failure r) w'"
| "QueueAttributes E name w = (r, w') \<Longrightarrow> store_call E S w (failure r) w'"
| "SendMessageWithOptions E name body attrs delay opts w = (r, w') \<Longrightarrow> store_call E S w (failure r) w'"
| "ReceiveMessages E name maxN vis w = (r, w') \<Longrightarrow> store_call E S w (failure r) w'"
| "DeleteMessage E name receipt w = (r, w') \<Longrightarrow> store_call E S w (failure r) w'"
| "ChangeVisibility E name receipt secs w = (r, w') \<Longrightarrow> store_call E S w (failure r) w'"
| "CHR 0x00 \<notin> set name \<Longrightarrow> CreateGCSBucket E project name loc sc w = (r, w') \<Longrightarrow> store_call E S w (failure r) w'"
| "DeleteGCSBucket E name w = (r, w') \<Longrightarrow> store_call E S w (failure r) w'"
| "hashable E S ''gcs'' bucket key body \<Longrightarrow> PutGCSObject E bucket key body ct md w = (r, w') \<Longrightarrow> store_call E S w (failure r) w'"
| "GCSObject_get E bucket key w = (r, w') \<Longrightarrow> store_call E S w (failure r) w'"
| "PatchGCSObject E bucket key ct mo w = (r, w') \<Longrightarrow> store_call E S w (failure r) w'"
| "DeleteGCSObject E bucket key w = (r, w') \<Longrightarrow> store_call E S w (failure r) w'"
| "CreatePubSubTopic E name labels w = (r, w') \<Longrightarrow> store_call E S w (failure r) w'"
| "DeletePubSubTopic E name w = (r, w') \<Longrightarrow> store_call E S w (failure r) w'"
| "CreatePubSubSubscription E name topic dl labels ordr w = (r, w') \<Longrightarrow> store_call E S w (failure r) w'"
| "UpdatePubSubSubscription E name dl labels dlt mx ud ul uq w = (r, w') \<Longrightarrow> store_call E S w (failure r) w'"
| "DeletePubSubSubscription E name w = (r, w') \<Longrightarrow> store_call E S w (failure r) w'"
| "PurgePubSubSubscription E name w = (r, w') \<Longrightarrow> store_call E S w (failure r) w'"
| "\<forall>m \<in> set messages. pm_AckID m = '''' \<Longrightarrow> PublishPubSub E topic messages w = (r, w') \<Longrightarrow> store_call E S w (failure r) w'"
| "PullPubSub E name maxN dl w = (r, w') \<Longrightarrow> store_call E S w (failure r) w'"
| "AckPubSub E name acks w = (r, w') \<Longrightarrow> store_call E S w (failure r) w'"
| "ModifyPubSubAckDeadline E name acks secs w = (r, w') \<Longrightarrow> store_call E S w (failure r) w'"
| "CreateDynamoTable E name ks ads bm w = (r, w') \<Longrightarrow> store_call E S w (failure r) w'"
| "DeleteDynamoTable E name w = (r, w') \<Longrightarrow> store_call E S w (failure r) w'"
| "ClearDynamoTable E name w = (r, w') \<Longrightarrow> store_call E S w (failure r) w'"
| "DynamoPutItem E name item cond w = (r, w') \<Longrightarrow> store_call E S w (failure r) w'"
| "DynamoDeleteItem E name item cond w = (r, w') \<Longrightarrow> store_call E S w (failure r) w'"
| "DynamoUpdateItem E name item cond upd w = (r, w') \<Longrightarrow> store_call E S w (failure r) w'"
| "DynamoTransactWrite E ops w = (r, w') \<Longrightarrow> store_call E S w (failure r) w'"
| "MutateFirestore E cb w = (r, w') \<Longrightarrow> store_call E S w (failure r) w'"
| "CreateSecret E name labels w = (r, w') \<Longrightarrow> store_call E S w (failure r) w'"
| "UpdateSecretLabels E name labels w = (r, w') \<Longrightarrow> store_call E S w (failure r) w'"
| "DeleteSecret E name w = (r, w') \<Longrightarrow> store_call E S w (failure r) w'"
| "AddSecretVersion E name payload w = (r, w') \<Longrightarrow> store_call E S w (failure r) w'"
| "SetSecretVersionState E name number st w = (r, w') \<Longrightarrow> store_call E S w (failure r) w'"
| "CreateKMSKeyRing E name w = (r, w') \<Longrightarrow> store_call E S w (failure r) w'"
| "CreateKMSCryptoKey E ckey w = (r, w') \<Longrightarrow> store_call E S w (failure r) w'"
| "AddKMSKeyVersion E name alg mat w = (r, w') \<Longrightarrow> store_call E S w (failure r) w'"
| "IAMServiceAccount_ensure E name gen w = (r, w') \<Longrightarrow> store_call E S w (failure r) w'"
| "RecordFCMMessage E p js v w = (r, w') \<Longrightarrow> store_call E S w (failure r) w'"
| "ClearFCMMessages E w = (r, w') \<Longrightarrow> store_call E S w (failure r) w'"
| "RecordVertexGeneration E p l m oper ic tc w = (r, w') \<Longrightarrow> store_call E S w (failure r) w'"
| "ClearVertexGenerations E w = (r, w') \<Longrightarrow> store_call E S w (failure r) w'"
| "Reset E w = (r, w') \<Longrightarrow> store_call E S w (failure r) w'"
| "ResetWorkloadData E w = (r, w') \<Longrightarrow> store_call E S w (failure r) w'"

lemma ok_outcomeD:
  "out = (r, w') \<Longrightarrow> x = failure r \<Longrightarrow> ok.outcome E S w out \<Longrightarrow> ok.holds E S w' \<and>
   (x \<noteq> None \<longrightarrow> sameLive (w_data w') (w_data w) \<and> w_state_json w' = w_state_json w)"
  by (auto simp: ok.outcome_def failure_def split: sum.splits)

lemmas store_outcomes =
  CreateBucket_outcome DeleteBucket_outcome SetNotifications_outcome PutObject_outcome GetObject_outcome
  DeleteObject_outcome CreateMultipartUpload_outcome UploadMultipartPart_outcome
  CompleteMultipartUpload_outcome AbortMultipartUpload_outcome
  CreateQueue_outcome DeleteQueue_outcome PurgeQueue_outcome SetQueueAttributes_outcome
  QueueAttributes_outcome SendMessageWithOptions_outcome ReceiveMessages_outcome DeleteMessage_outcome
  ChangeVisibility_outcome
  CreateGCSBucket_outcome DeleteGCSBucket_outcome PutGCSObject_outcome GCSObject_get_outcome
  PatchGCSObject_outcome DeleteGCSObject_outcome
  CreatePubSubTopic_outcome DeletePubSubTopic_outcome CreatePubSubSubscription_outcome
  UpdatePubSubSubscription_outcome DeletePubSubSubscription_outcome PurgePubSubSubscription_outcome
  PublishPubSub_outcome PullPubSub_outcome AckPubSub_outcome ModifyPubSubAckDeadline_outcome
  CreateDynamoTable_outcome DeleteDynamoTable_outcome ClearDynamoTable_outcome DynamoPutItem_outcome
  DynamoDeleteItem_outcome DynamoUpdateItem_outcome DynamoTransactWrite_outcome
  MutateFirestore_outcome CreateSecret_outcome UpdateSecretLabels_outcome DeleteSecret_outcome
  AddSecretVersion_outcome SetSecretVersionState_outcome
  CreateKMSKeyRing_outcome CreateKMSCryptoKey_outcome AddKMSKeyVersion_outcome
  IAMServiceAccount_ensure_outcome RecordFCMMessage_outcome ClearFCMMessages_outcome
  RecordVertexGeneration_outcome ClearVertexGenerations_outcome Reset_outcome ResetWorkloadData_outcome

lemma store_call_outcome:
  assumes "store_call E S w x w'" and "ok.holds E S w"
  shows "ok.holds E S w' \<and> (x \<noteq> None \<longrightarrow> sameLive (w_data w') (w_data w) \<and> w_state_json w' = w_state_json w)"
  using assms by cases (rule ok_outcomeD, assumption, assumption, rule store_outcomes; assumption)+

section \<open>Schedules of failing system calls\<close>

text \<open>The invariant does not depend on which system calls fail.\<close>

definition withFaults :: "(nat \<Rightarrow> bool) \<Rightarrow> env \<Rightarrow> env" where
  "withFaults f E = E\<lparr>e_fault := f\<rparr>"

lemma withFaults_simps [simp]:
  "mint (withFaults f E) = mint E" "e_sha256 (withFaults f E) = e_sha256 E" "e_crc32c (withFaults f E) = e_crc32c E"
  "e_fault (withFaults f E) = f" "e_stateText (withFaults f E) = e_stateText E"
  "parseRedrivePolicy (withFaults f E) = parseRedrivePolicy E"
  by (simp_all add: withFaults_def mint_def fun_eq_iff parseRedrivePolicy_def)

text \<open>The store invariant depends on the environment only through digests, identifiers and JSON.\<close>

lemma storeOK_cong:
  assumes "mint E' = mint E" "e_sha256 E' = e_sha256 E" "e_crc32c E' = e_crc32c E"
    "parseRedrivePolicy E' = parseRedrivePolicy E"
  shows "storeOK E' S = storeOK E S"
proof -
  have "generationObjectFile E' = generationObjectFile E"
    by (simp add: assms fun_eq_iff generationObjectFile_def)
  then have "bodiesOK E' S = bodiesOK E S"
    by (simp add: assms fun_eq_iff bodiesOK_def bodyOK_def fileAt_def hashable_def)
  moreover have "activeRedrive E' = activeRedrive E"
    by (simp add: assms fun_eq_iff activeRedrive_def Let_def)
  then have "queueOK E' = queueOK E"
    by (simp add: assms fun_eq_iff queueOK_def receiptsBelow_def fresh_ids_def redriveOK_def deadLetterName_def)
  moreover have "subOK E' = subOK E"
    by (simp add: assms fun_eq_iff subOK_def acksBelow_def fresh_ids_def)
  moreover have "uploadOK E' = uploadOK E" by (simp add: assms fun_eq_iff uploadOK_def)
  ultimately show ?thesis
    by (simp add: assms fun_eq_iff storeOK_def digests_ok_def queuesOK_def subsOK_def uploadsOK_def)
qed

lemma storeOK_withFaults: "storeOK (withFaults f E) S = storeOK E S"
  by (rule storeOK_cong) simp_all

lemma holds_withFaults [simp]: "ok.holds (withFaults f E) S w = ok.holds E S w"
  by (simp add: ok.holds_def storeOK_withFaults)

section \<open>Runs\<close>

inductive store_step :: "env \<Rightarrow> bytes set \<Rightarrow> world \<Rightarrow> world \<Rightarrow> bool" for E S where
  call: "store_call (withFaults f E) S w x w' \<Longrightarrow> store_step E S w w'"
| restart: "openData (withFaults f E) mode (diskFile w) w = (Inr (), w') \<Longrightarrow> store_step E S w w'"

inductive store_run :: "env \<Rightarrow> bytes set \<Rightarrow> world \<Rightarrow> world \<Rightarrow> bool" for E S where
  start: "store_run E S w w"
| step: "store_run E S w w1 \<Longrightarrow> store_step E S w1 w2 \<Longrightarrow> store_run E S w w2"

lemma openedWith_self: "w = openedWith w (w_integrityMode w) (w_data w) (w_committedRaw w)"
  by simp

lemma store_step_holds: "store_step E S w w' \<Longrightarrow> ok.holds E S w \<Longrightarrow> ok.holds E S w'"
proof (induction rule: store_step.induct)
  case (call f w x w')
  then show ?case using store_call_outcome [of "withFaults f E" S w x w'] by simp
next
  case (restart f mode w w')
  then show ?case using open_committed(1) [of "withFaults f E" S w w, OF _ openedWith_self] by simp
qed

lemma store_run_holds: "store_run E S w w' \<Longrightarrow> ok.holds E S w \<Longrightarrow> ok.holds E S w'"
  by (induction rule: store_run.induct) (auto dest: store_step_holds)

text \<open>The directory of a process that starts with nothing on disk.\<close>

definition freshWorld :: world where
  "freshWorld = \<lparr>w_data = emptySnapshot, w_committedRaw = Some (snapshotDoc emptySnapshot),
     w_integrityMode = IntegrityModeStartup, w_state_json = None, w_objects = fmempty,
     w_clock = 0, w_ids = 0, w_tmps = 0, w_sys = 0\<rparr>"

lemma freshWorld_holds: "digests_ok E S \<Longrightarrow> ok.holds E S freshWorld"
  using decode_encode [of emptySnapshot]
  by (simp add: ok.holds_def durable_def diskState_def diskDoc_def freshWorld_def)

text \<open>
  A process that dies at the \<open>n\<close>-th system call makes no further change to the disk, exactly
  as if that call and every later one, those of the clean-up included, had failed.
\<close>

definition diesAt :: "nat \<Rightarrow> env \<Rightarrow> env" where
  "diesAt n E = withFaults (\<lambda>i. n \<le> i) E"

lemma sameLive_disk: "ok.holds E S w \<Longrightarrow> sameLive (diskState w) (w_data w)"
  by (auto simp: ok.holds_def durable_def intro: sameLive_sym)

lemma crash_reopen:
  assumes h: "ok.holds E S w" and c: "store_call (diesAt n E) S w x w'" and nf: "\<forall>i. \<not> e_fault E i"
    and sz: "e_stateSize E (diskDoc w') \<le> maxPersistentStateSize"
  shows "\<exists>w2. openData E mode (diskFile w') w' = (Inr (), w2) \<and> ok.holds E S w2 \<and>
    sameLive (w_data w2) (w_data w') \<and> (x \<noteq> None \<longrightarrow> sameLive (w_data w2) (w_data w))"
proof -
  have o: "ok.holds E S w'" "x \<noteq> None \<Longrightarrow> sameLive (w_data w') (w_data w)"
    using store_call_outcome [OF c] h by (simp_all add: diesAt_def)
  from open_succeeds [OF o(1) nf sz openedWith_self] obtain w2 where
    run: "openData E mode (diskFile w') w' = (Inr (), w2)" by blast
  note r = open_committed [OF o(1) openedWith_self run]
  have "sameLive (w_data w2) (w_data w')" using r(2) sameLive_disk [OF o(1)] by simp
  with run r(1) o(2) sameLive_trans show ?thesis by blast
qed

end
