(* ===== verification/Samples.thy ===== *)
theory Samples
  imports Store_Invariant
begin

text \<open>
  A concrete environment and concrete worlds, on which the theorems of the other theories are
  evaluated: a clock that ticks in seconds, identifiers with a counter in their last byte, no
  failing system call, and a digest table that separates the inputs the samples hash.
\<close>

definition sampleBody :: bytes where
  "sampleBody = ''hi''"

definition sampleDigest :: "nat \<Rightarrow> bytes" where
  "sampleDigest n = replicate 31 (CHR 0x00) @ [char_of n]"

text \<open>The name of a sample body's file is the digest of this text.\<close>

definition samplePreimage :: "string \<Rightarrow> bytes" where
  "samplePreimage ns = filePreimage ns ''b'' ''k'' (sampleDigest 1)"

definition sampleRand :: "nat \<Rightarrow> bytes" where
  "sampleRand n = replicate 15 (CHR 0x00) @ [char_of n]"

definition sampleUploadID :: string where
  "sampleUploadID = uuid_text (uuid_mark (sampleRand 0))"

definition samplePartPreimage :: bytes where
  "samplePartPreimage = filePreimage ''multipart'' sampleUploadID ''1'' (sampleDigest 1)"

definition sampleEnv :: env where
  "sampleEnv = \<lparr>
     e_now = (\<lambda>n. int n * 1000000000),
     e_rand = sampleRand,
     e_tmp = showNat, e_fault = (\<lambda>_. False),
     e_sha256 = (\<lambda>b. if b = sampleBody then sampleDigest 1
                     else if b = samplePreimage ''s3'' then sampleDigest 2
                     else if b = samplePreimage ''gcs'' then sampleDigest 3
                     else if b = samplePartPreimage then sampleDigest 4 else sampleDigest 0),
     e_md5 = (\<lambda>_. replicate 16 (CHR 0x00)),
     e_crc32c = (\<lambda>_. replicate 4 (CHR 0x00)),
     e_jsonParse = (\<lambda>s. if s = ''{}'' then Some (JObj []) else None),
     e_jsonText = (\<lambda>_. ''{}''), e_timeText = (\<lambda>_. ''''), e_stateText = (\<lambda>_. []), e_stateParse = (\<lambda>_. None)\<rparr>"

definition sampleInputs :: "bytes set" where
  "sampleInputs = {sampleBody, samplePreimage ''s3'', samplePreimage ''gcs'', samplePartPreimage}"

text \<open>A world that has committed the state \<open>d\<close> and drawn \<open>n\<close> identifiers.\<close>

definition sampleWorld :: "nat \<Rightarrow> bytes gomap \<Rightarrow> snapshot \<Rightarrow> world" where
  "sampleWorld n objs d =
     \<lparr>w_data = d, w_committedRaw = Some (snapshotDoc d), w_integrityMode = IntegrityModeStrict,
      w_state_json = Some (snapshotDoc d), w_objects = objs,
      w_clock = 100, w_ids = n, w_tmps = 0, w_sys = 0\<rparr>"

lemma sampleWorld_simps [simp]:
  "w_data (sampleWorld n objs d) = d" "w_objects (sampleWorld n objs d) = objs"
  "w_ids (sampleWorld n objs d) = n" "w_clock (sampleWorld n objs d) = 100"
  "w_state_json (sampleWorld n objs d) = Some (snapshotDoc d)"
  "w_integrityMode (sampleWorld n objs d) = IntegrityModeStrict"
  by (simp_all add: sampleWorld_def)

lemma sample_no_fault [simp]: "e_fault sampleEnv i = False"
  by (simp add: sampleEnv_def)

lemma sample_now [simp]: "e_now sampleEnv n = int n * 1000000000"
  by (simp add: sampleEnv_def)

lemma sampleDigest_length [simp]: "length (sampleDigest n) = 32"
  by (simp add: sampleDigest_def)

lemma sample_inputs_differ:
  "sampleBody \<noteq> samplePreimage ns" "samplePreimage ''s3'' \<noteq> samplePreimage ''gcs''"
  "sampleBody \<noteq> samplePartPreimage" "samplePartPreimage \<noteq> samplePreimage ''s3''" "samplePartPreimage \<noteq> samplePreimage ''gcs''"
  by (auto simp: sampleBody_def samplePreimage_def samplePartPreimage_def filePreimage_def dest: arg_cong [where f = length])

lemma sample_sha256 [simp]:
  "e_sha256 sampleEnv sampleBody = sampleDigest 1"
  "e_sha256 sampleEnv (samplePreimage ''s3'') = sampleDigest 2"
  "e_sha256 sampleEnv (samplePreimage ''gcs'') = sampleDigest 3"
  "e_sha256 sampleEnv samplePartPreimage = sampleDigest 4"
  using sample_inputs_differ sample_inputs_differ(1,3) [symmetric] by (simp_all add: sampleEnv_def)

lemma sample_mint: "mint sampleEnv 0 = sampleUploadID"
  by (simp add: mint_def sampleEnv_def sampleUploadID_def)

lemma sampleDigest_inj: "m < 256 \<Longrightarrow> n < 256 \<Longrightarrow> sampleDigest m = sampleDigest n \<longleftrightarrow> m = n"
  by (auto simp: sampleDigest_def dest!: arg_cong [where f = "of_char :: char \<Rightarrow> nat"])

lemma sample_digests_ok: "digests_ok sampleEnv sampleInputs"
  unfolding digests_ok_def
proof (intro conjI allI)
  show "length (e_sha256 sampleEnv b) = 32" for b by (simp add: sampleEnv_def)
  show "inj_on (e_sha256 sampleEnv) sampleInputs"
    by (auto simp: inj_on_def sampleInputs_def sampleDigest_inj)
qed

lemma fresh_ids_list: "fresh_ids E n \<longleftrightarrow> distinct (map (mint E) [0..<n])"
  by (simp add: fresh_ids_def distinct_map atLeast0LessThan)

lemma sample_fresh_ids: "n \<le> 4 \<Longrightarrow> fresh_ids sampleEnv n"
proof (rule fresh_ids_mono)
  show "fresh_ids sampleEnv 4" unfolding fresh_ids_list by code_simp
qed

text \<open>Without tables every state can be encoded, and a sample world is durable.\<close>

lemma encode_no_tables: "DynamoTables d = fmempty \<Longrightarrow> encodeSnapshot d = Some (snapshotDoc d)"
  by (simp add: encodeSnapshot_def fmpred_lookup)

lemma dynamo_clean_no_tables: "DynamoTables d = fmempty \<Longrightarrow> dynamo_clean d"
  by (simp add: dynamo_clean_def fmpred_lookup)

lemma sample_durable:
  assumes "encodeSnapshot d = Some (snapshotDoc d)" "dynamo_clean d"
  shows "durable (sampleWorld n objs d)"
  using assms decode_encode [of d "snapshotDoc d"]
  by (simp add: durable_def diskState_def diskDoc_def sampleWorld_def)

lemma sample_holds:
  assumes "storeOK sampleEnv sampleInputs n objs d" "DynamoTables d = fmempty"
  shows "ok.holds sampleEnv sampleInputs (sampleWorld n objs d)"
  using assms sample_durable [OF encode_no_tables dynamo_clean_no_tables]
  by (simp add: ok.holds_def)

text \<open>Without faults a save succeeds.\<close>

lemma saveThen_no_fault:
  assumes "\<forall>i. \<not> e_fault E i" "encodeSnapshot (w_data w) = Some raw"
  shows "fst (saveThen E v w) = Inr v" "w_data (snd (saveThen E v w)) = w_data w"
    "w_objects (snd (saveThen E v w)) = w_objects w" "w_state_json (snd (saveThen E v w)) = Some raw"
  using assms by (simp_all add: saveThen_def saveLocked_def sysDone_def runSys_no_fault del: runSys.simps)

lemma saveThen_sample:
  assumes "DynamoTables (w_data w) = fmempty"
  shows "\<exists>w'. saveThen sampleEnv v w = (Inr v, w') \<and> w_data w' = w_data w \<and> w_objects w' = w_objects w"
  using saveThen_no_fault [of sampleEnv w _ v, OF _ encode_no_tables [OF assms]]
  by (cases "saveThen sampleEnv v w") auto

lemma saveThen_sample_ok: "DynamoTables (w_data w) = fmempty \<Longrightarrow> \<exists>w'. saveThen sampleEnv v w = (Inr v, w')"
  using saveThen_sample [of w v] by auto

end
