(* ===== verification/SQS_Theorems.thy ===== *)
theory SQS_Theorems
  imports SQS_Correct Samples
begin

text \<open>
  The properties of the queue service: receiving, FIFO order and deduplication, redrive, deleting by
  receipt, and the message counts.
\<close>

section \<open>What a successful receive leaves behind\<close>

lemma ReceiveMessages_success:
  assumes h: "ok.holds E S w" and run: "ReceiveMessages E name maxN vis w = (Inr ms, w')"
  obtains q s where "fmlookup (Queues (w_data w)) name = Some q" "s = recvRun E w q maxN vis" "ms = rv_result s"
    "Queues (w_data w') = recvQueues E name q s (Queues (w_data w))" "w_ids w' = rv_ids s"
proof (cases "fmlookup (Queues (w_data w)) name")
  case None
  with run show thesis by (simp add: ReceiveMessages_def)
next
  case (Some q)
  define s where "s = recvRun E w q maxN vis"
  define qs where "qs = recvQueues E name q s (Queues (w_data w))"
  let ?w0 = "w\<lparr>w_clock := Suc (w_clock w), w_ids := rv_ids s\<rparr>"
  let ?d = "(w_data w)\<lparr>Queues := qs\<rparr>"
  have eq: "(if rv_changed s then saveThen E (rv_result s) (?w0\<lparr>w_data := ?d\<rparr>)
      else (Inr (rv_result s), ?w0\<lparr>w_data := ?d\<rparr>)) = (Inr ms, w')"
    using run unfolding ReceiveMessages_eq [OF h Some, of maxN vis] s_def qs_def Let_def by simp
  have ah: "ahead w ?w0" using recvQueues_OK(2) [OF h Some, of maxN vis] by (simp add: ahead_def s_def)
  have cl: "dynamo_clean ?d" using holds_clean [OF h] by simp
  have "ms = rv_result s \<and> w_data w' = ?d \<and> w_ids w' = rv_ids s"
  proof (cases "rv_changed s")
    case True
    with eq have "saveThen E (rv_result s) (?w0\<lparr>w_data := ?d\<rparr>) = (Inr ms, w')" by simp
    from saveThen_Inr [OF h ah cl this] show ?thesis by simp
  next
    case False
    with eq show ?thesis by auto
  qed
  with that [OF Some s_def] show thesis by (simp add: qs_def)
qed

lemma receive_keeps_queue:
  assumes "ok.holds E S w" "ReceiveMessages E name maxN vis w = (Inr ms, w')"
  shows "\<exists>q'. fmlookup (Queues (w_data w')) name = Some q'"
  by (rule ReceiveMessages_success [OF assms]) (simp add: recvQueues_def)

lemma recv_subseq:
  "subseq (rv_result (loopRun E t maxN vis fifo mr ms dlq ids)) (rv_remaining (loopRun E t maxN vis fifo mr ms dlq ids))"
proof (induction ms rule: rev_induct)
  case (snoc x ms)
  show ?case
    by (cases rule: recvStep_cases [of fifo x "loopRun E t maxN vis fifo mr ms dlq ids" E t maxN vis mr])
      (use snoc in \<open>auto intro: list_emb_append_mono subseq_rev_drop_many simp: subseq_append'\<close>)
qed simp

lemma clampMax_range: "1 \<le> clampMax n \<and> clampMax n \<le> 10 \<and> (1 \<le> n \<longrightarrow> clampMax n \<le> n)"
  by (simp add: clampMax_def)

section \<open>A sample queue\<close>

definition sampleMsg :: "string \<Rightarrow> string \<Rightarrow> Message" where
  "sampleMsg i receipt = \<lparr>msg_MessageID = i, msg_Body = ''hi'', msg_MD5OfBody = '''', msg_SentAt = 0,
     msg_VisibleAt = 0, msg_ReceiptHandle = receipt, msg_ReceiveCount = 0, msg_MessageGroupID = ''g'',
     msg_MessageDeduplicationID = '''', msg_SequenceNumber = '''', msg_MessageAttributes = fmempty\<rparr>"

definition sampleQueue :: "string \<Rightarrow> Message list \<Rightarrow> Queue" where
  "sampleQueue name ms = \<lparr>q_Name = name, q_CreatedAt = 0, q_Attributes = defaultAttributes name,
     q_Messages = ms, q_Deduplication = fmempty, q_NextSequenceNumber = 0\<rparr>"

definition sampleQueueWorld :: "string \<Rightarrow> Message list \<Rightarrow> world" where
  "sampleQueueWorld name ms =
     sampleWorld 2 fmempty (emptySnapshot\<lparr>Queues := fmupd name (sampleQueue name ms) fmempty\<rparr>)"

lemma sampleQueueWorld_simps [simp]:
  "fmlookup (Queues (w_data (sampleQueueWorld name ms))) name = Some (sampleQueue name ms)"
  "w_ids (sampleQueueWorld name ms) = 2" "w_clock (sampleQueueWorld name ms) = 100"
  "DynamoTables (w_data (sampleQueueWorld name ms)) = fmempty"
  "q_Messages (sampleQueue name ms) = ms"
  "fmlookup (Queues (w_data (sampleQueueWorld name ms))) other =
     (if other = name then Some (sampleQueue name ms) else None)"
  by (auto simp: sampleQueueWorld_def sampleQueue_def emptySnapshot_def)

lemma sample_suffix [simp]: "hasSuffix ''q.fifo'' ''.fifo'' = True" "hasSuffix ''q'' ''.fifo'' = False"
  by code_simp+

lemma sample_fifo_attributes:
  "queueIsFIFO (sampleQueue ''q.fifo'' ms)" "\<not> queueIsFIFO (sampleQueue ''q'' ms)"
  by (simp_all add: queueIsFIFO_def sampleQueue_def default_attribute_get)

lemma sampleQueue_OK:
  assumes "receiptsBelow sampleEnv 2 ms" "distinct (liveReceipts ms)" "name = ''q'' \<or> name = ''q.fifo''"
  shows "queueOK sampleEnv 2 name (sampleQueue name ms)"
proof -
  have "redriveOK sampleEnv (sampleQueue name ms)"
    by (simp add: redriveOK_def deadLetterName_def activeRedrive_def sampleQueue_def default_attribute_get)
  then show ?thesis using assms sample_fifo_attributes
    by (auto simp: queueOK_def sampleQueue_def)
qed

lemma sampleQueueWorld_holds:
  assumes "receiptsBelow sampleEnv 2 ms" "distinct (liveReceipts ms)" "name = ''q'' \<or> name = ''q.fifo''"
  shows "ok.holds sampleEnv sampleInputs (sampleQueueWorld name ms)"
  unfolding sampleQueueWorld_def
proof (rule sample_holds)
  have "storeOK sampleEnv sampleInputs 2 fmempty emptySnapshot" using sample_digests_ok by simp
  then show "storeOK sampleEnv sampleInputs 2 fmempty
      (emptySnapshot\<lparr>Queues := fmupd name (sampleQueue name ms) fmempty\<rparr>)"
    using sampleQueue_OK [OF assms] by (intro storeOK_Queues) (auto simp: queuesOK_def)
qed (simp add: emptySnapshot_def)

lemma sample_unreceived:
  "\<forall>m \<in> set ms. msg_ReceiptHandle m = '''' \<Longrightarrow> receiptsBelow sampleEnv 2 ms \<and> distinct (liveReceipts ms)"
  by (simp add: receiptsBelow_def liveReceipts_def filter_False)

text \<open>Without faults a receive from a queue of the sample store succeeds.\<close>

lemma sample_receive:
  assumes h: "ok.holds sampleEnv sampleInputs (sampleQueueWorld name ms)"
  shows "\<exists>w'. ReceiveMessages sampleEnv name maxN vis (sampleQueueWorld name ms) =
     (Inr (rv_result (recvRun sampleEnv (sampleQueueWorld name ms) (sampleQueue name ms) maxN vis)), w')"
  unfolding ReceiveMessages_eq [OF h sampleQueueWorld_simps(1)] Let_def
  by (simp add: saveThen_sample_ok)

section \<open>Receiving\<close>

definition visibilityOf :: "Queue \<Rightarrow> int \<Rightarrow> int" where
  "visibilityOf q vis = (if vis < 0 then intValue (fmget (q_Attributes q) ''VisibilityTimeout'') 30 else vis)"

definition handedOutFrom :: "time \<Rightarrow> int \<Rightarrow> Message \<Rightarrow> Message \<Rightarrow> bool" where
  "handedOutFrom t vis m r \<longleftrightarrow> msg_VisibleAt m \<le> t \<and> msg_MessageID r = msg_MessageID m \<and> msg_Body r = msg_Body m \<and>
     msg_ReceiveCount r = msg_ReceiveCount m + 1 \<and> msg_VisibleAt r = t + duration_s vis"

definition redriveLimit :: "env \<Rightarrow> Queue gomap \<Rightarrow> Queue \<Rightarrow> int option" where
  "redriveLimit E qs q = Option.bind (activeRedrive E q) (\<lambda>p.
     if fmlookup qs (queueNameFromARN (rp_DeadLetterTargetARN p)) = None then None else Some (rp_MaxReceiveCount p))"

text \<open>
  C10. A receive hands out between zero and the requested number of messages, never more than ten (and
  at most one when the caller asks for less than one). Each was in the queue and visible; it comes
  with its receive count raised by one, hidden until the visibility timeout has passed, and the same
  message is what the queue now stores. With a redrive policy whose target exists, no message is
  handed out more often than the policy allows. As long as no random identifier has repeated, the
  receipt handles are distinct.
\<close>

theorem receive_hands_out_visible:
  assumes h: "ok.holds E S w" and run: "ReceiveMessages E name maxN vis w = (Inr ms, w')"
    and q: "fmlookup (Queues (w_data w)) name = Some q" and q': "fmlookup (Queues (w_data w')) name = Some q'"
  shows "length ms \<le> 10 \<and> int (length ms) \<le> max 1 maxN \<and>
    (\<forall>r \<in> set ms. r \<in> set (q_Messages q') \<and>
       (\<exists>m \<in> set (q_Messages q). handedOutFrom (e_now E (w_clock w)) (visibilityOf q vis) m r) \<and>
       (\<forall>k. redriveLimit E (Queues (w_data w)) q = Some k \<longrightarrow> msg_ReceiveCount r \<le> k)) \<and>
    (fresh_ids E (w_ids w') \<longrightarrow> distinct (map msg_ReceiptHandle ms))"
proof -
  from ReceiveMessages_success [OF h run] q obtain s where s: "s = recvRun E w q maxN vis" and ms: "ms = rv_result s"
    and qs: "Queues (w_data w') = recvQueues E name q s (Queues (w_data w))" and ids: "w_ids w' = rv_ids s" by auto
  define mr where "mr = (case activeRedrive E q of Some p \<Rightarrow> rp_MaxReceiveCount p | None \<Rightarrow> 0)"
  define dlq where "dlq = Option.bind (deadLetterName E q) (fmlookup (Queues (w_data w)))"
  have loop: "s = loopRun E (e_now E (w_clock w)) (clampMax maxN) (visibilityOf q vis) (queueIsFIFO q) mr
      (q_Messages q) dlq (w_ids w)"
    by (simp add: s recvRun_def recvLoop_def visibilityOf_def mr_def dlq_def)
  have "int (length ms) \<le> clampMax maxN" unfolding ms loop by (rule recv_result_bound) (simp add: clampMax_def)
  moreover have "clampMax maxN \<le> 10" "clampMax maxN \<le> max 1 maxN" by (auto simp: clampMax_def)
  ultimately have len: "length ms \<le> 10 \<and> int (length ms) \<le> max 1 maxN" by linarith
  have new: "q_Messages q' = rv_remaining s" using q' unfolding qs by (auto simp: recvQueues_def)
  have each: "r \<in> set (q_Messages q') \<and>
      (\<exists>m \<in> set (q_Messages q). handedOutFrom (e_now E (w_clock w)) (visibilityOf q vis) m r) \<and>
      (\<forall>k. redriveLimit E (Queues (w_data w)) q = Some k \<longrightarrow> msg_ReceiveCount r \<le> k)" if "r \<in> set ms" for r
  proof -
    from that have del: "deliveredFrom E (e_now E (w_clock w)) (visibilityOf q vis) (q_Messages q) r"
      "r \<in> set (rv_remaining s)" "dlq \<noteq> None \<longrightarrow> msg_ReceiveCount r \<le> mr"
      unfolding ms loop by (auto dest: recv_delivered)
    have "dlq \<noteq> None \<and> mr = k" if "redriveLimit E (Queues (w_data w)) q = Some k" for k
      using that by (auto simp: redriveLimit_def dlq_def mr_def deadLetterName_def split: Option.bind_splits if_splits)
    with del new show ?thesis by (auto simp: deliveredFrom_def deliver_def handedOutFrom_def)
  qed
  have "map msg_ReceiptHandle ms = map (mint E) [w_ids w..<w_ids w']"
    unfolding ids ms loop by (rule conjunct1 [OF recv_receipts])
  then have "distinct (map msg_ReceiptHandle ms)" if "fresh_ids E (w_ids w')"
    using that by (auto simp: fresh_ids_def distinct_map intro: inj_on_subset)
  with len each show ?thesis by blast
qed
theorem receive_hands_out_visible_witness:
  "\<exists>r w'. ReceiveMessages sampleEnv ''q'' 5 30 (sampleQueueWorld ''q'' [sampleMsg ''a'' '''']) = (Inr [r], w') \<and>
     msg_MessageID r = ''a'' \<and> msg_ReceiveCount r = 1"
proof -
  let ?w = "sampleQueueWorld ''q'' [sampleMsg ''a'' '''']"
  have "receiptsBelow sampleEnv 2 [sampleMsg ''a'' ''''] \<and> distinct (liveReceipts [sampleMsg ''a'' ''''])"
    by (rule sample_unreceived) (simp add: sampleMsg_def)
  then have h: "ok.holds sampleEnv sampleInputs ?w" by (intro sampleQueueWorld_holds) simp_all
  from sample_receive [OF h] obtain w' where run: "ReceiveMessages sampleEnv ''q'' 5 30 ?w =
      (Inr (rv_result (recvRun sampleEnv ?w (sampleQueue ''q'' [sampleMsg ''a'' '''']) 5 30)), w')" by blast
  have "length (rv_result (recvRun sampleEnv ?w (sampleQueue ''q'' [sampleMsg ''a'' '''']) 5 30)) = 1"
    by (simp add: recvRun_def recvLoop_def recvStep_def sampleMsg_def clampMax_def deadLetterName_def activeRedrive_def
        sampleQueue_def default_attribute_get Let_def)
  then obtain r where r: "rv_result (recvRun sampleEnv ?w (sampleQueue ''q'' [sampleMsg ''a'' '''']) 5 30) = [r]"
    by (auto simp: length_Suc_conv)
  note run' = run [unfolded r]
  from receive_keeps_queue [OF h run] obtain q' where "fmlookup (Queues (w_data w')) ''q'' = Some q'" by blast
  from receive_hands_out_visible [OF h run' sampleQueueWorld_simps(1) this]
  have "msg_MessageID r = ''a'' \<and> msg_ReceiveCount r = 1"
    by (auto simp: sampleMsg_def handedOutFrom_def)
  with run' show ?thesis by blast
qed

text \<open>
  C11. A receive neither loses nor duplicates a message: the identifiers in the queue and in its
  dead-letter queue together are the same as before, and every other queue is unchanged.
\<close>

theorem receive_conserves_messages:
  assumes h: "ok.holds E S w" and run: "ReceiveMessages E name maxN vis w = (Inr ms, w')"
    and q: "fmlookup (Queues (w_data w)) name = Some q"
  defines "dlq \<equiv> \<lambda>qs. Option.bind (deadLetterName E q) (fmlookup qs)"
  shows "queueIDs (fmlookup (Queues (w_data w')) name) + queueIDs (dlq (Queues (w_data w'))) =
      queueIDs (Some q) + queueIDs (dlq (Queues (w_data w))) \<and>
    (\<forall>n. n \<noteq> name \<and> Some n \<noteq> deadLetterName E q \<longrightarrow>
       fmlookup (Queues (w_data w')) n = fmlookup (Queues (w_data w)) n)"
proof -
  from ReceiveMessages_success [OF h run] q obtain s where s: "s = recvRun E w q maxN vis"
    and qs: "Queues (w_data w') = recvQueues E name q s (Queues (w_data w))" by auto
  from recvRun_loop [of E w q maxN vis] obtain mr v where loop: "s = loopRun E (e_now E (w_clock w)) (clampMax maxN) v
      (queueIsFIFO q) mr (q_Messages q) (dlq (Queues (w_data w))) (w_ids w)"
    unfolding s dlq_def by blast
  have none: "deadLetterName E q \<noteq> Some name"
    using holds_queue [OF h q] by (auto simp: queueOK_def redriveOK_def split: option.splits)
  have d: "rv_dlq s = None \<longleftrightarrow> dlq (Queues (w_data w)) = None" unfolding loop by (rule recv_dlq_None)
  have self: "fmlookup (Queues (w_data w')) name = Some (q\<lparr>q_Messages := rv_remaining s\<rparr>)"
    unfolding qs by (simp add: recvQueues_def)
  have dead: "dlq (Queues (w_data w')) = rv_dlq s"
    using none d unfolding qs dlq_def
    by (cases "deadLetterName E q"; cases "rv_dlq s") (auto simp: recvQueues_def)
  have "mset (map msg_MessageID (rv_remaining s)) + queueIDs (rv_dlq s) =
      mset (map msg_MessageID (q_Messages q)) + queueIDs (dlq (Queues (w_data w)))"
    unfolding loop by (rule recv_conservation)
  then have "queueIDs (fmlookup (Queues (w_data w')) name) + queueIDs (dlq (Queues (w_data w'))) =
      queueIDs (Some q) + queueIDs (dlq (Queues (w_data w)))"
    unfolding self dead by (simp add: queueIDs_def)
  moreover have "fmlookup (Queues (w_data w')) n = fmlookup (Queues (w_data w)) n"
    if "n \<noteq> name" "Some n \<noteq> deadLetterName E q" for n
    using that unfolding qs by (auto simp: recvQueues_def split: option.splits)
  ultimately show ?thesis by blast
qed

theorem receive_conserves_messages_witness:
  "\<exists>ms w'. ReceiveMessages sampleEnv ''q'' 1 30 (sampleQueueWorld ''q'' [sampleMsg ''a'' '''', sampleMsg ''b'' '''']) = (Inr ms, w') \<and>
     queueIDs (fmlookup (Queues (w_data w')) ''q'') = {#''a'', ''b''#}"
proof -
  let ?ms = "[sampleMsg ''a'' '''', sampleMsg ''b'' '''']"
  let ?w = "sampleQueueWorld ''q'' ?ms"
  have "receiptsBelow sampleEnv 2 ?ms \<and> distinct (liveReceipts ?ms)"
    by (rule sample_unreceived) (simp add: sampleMsg_def)
  then have h: "ok.holds sampleEnv sampleInputs ?w" by (intro sampleQueueWorld_holds) simp_all
  from sample_receive [OF h] obtain ms w' where run: "ReceiveMessages sampleEnv ''q'' 1 30 ?w = (Inr ms, w')" by blast
  have "deadLetterName sampleEnv (sampleQueue ''q'' ?ms) = None"
    by (simp add: deadLetterName_def activeRedrive_def sampleQueue_def default_attribute_get)
  with receive_conserves_messages [OF h run sampleQueueWorld_simps(1)]
  have "queueIDs (fmlookup (Queues (w_data w')) ''q'') = {#''a'', ''b''#}"
    by (simp add: queueIDs_def sampleMsg_def)
  with run show ?thesis by blast
qed

text \<open>
  C12. A FIFO queue delivers in order: the messages handed out appear in queue order, and none of them
  has an earlier message of its group in the queue that is not handed out with it.
\<close>

theorem fifo_receive_in_order:
  assumes h: "ok.holds E S w" and run: "ReceiveMessages E name maxN vis w = (Inr ms, w')"
    and q: "fmlookup (Queues (w_data w)) name = Some q" "queueIsFIFO q" and fr: "fresh_ids E (w_ids w')"
  shows "\<exists>q'. fmlookup (Queues (w_data w')) name = Some q' \<and> subseq ms (q_Messages q') \<and> fifoOrdered ms (q_Messages q')"
proof -
  from ReceiveMessages_success [OF h run] q obtain s where s: "s = recvRun E w q maxN vis" and ms: "ms = rv_result s"
    and qs: "Queues (w_data w') = recvQueues E name q s (Queues (w_data w))" and ids: "w_ids w' = rv_ids s" by auto
  from recvRun_loop [of E w q maxN vis] q(2) obtain mr v where loop: "s = loopRun E (e_now E (w_clock w)) (clampMax maxN) v
      True mr (q_Messages q) (Option.bind (deadLetterName E q) (fmlookup (Queues (w_data w)))) (w_ids w)"
    unfolding s by auto
  have "fmlookup (Queues (w_data w')) name = Some (q\<lparr>q_Messages := rv_remaining s\<rparr>)"
    unfolding qs by (simp add: recvQueues_def)
  moreover have "subseq ms (rv_remaining s)" unfolding ms loop by (rule recv_subseq)
  moreover have "receiptsBelow E (w_ids w) (q_Messages q)" using holds_queue [OF h q(1)] by (simp add: queueOK_def)
  then have "fifoOrdered ms (rv_remaining s)" unfolding ms loop
    by (rule recv_fifo_order) (use fr ids loop in simp)
  ultimately show ?thesis by auto
qed

theorem fifo_receive_in_order_witness:
  "\<exists>ms w' q'. ReceiveMessages sampleEnv ''q.fifo'' 1 30
       (sampleQueueWorld ''q.fifo'' [sampleMsg ''a'' '''', sampleMsg ''b'' '''']) = (Inr ms, w') \<and>
     fmlookup (Queues (w_data w')) ''q.fifo'' = Some q' \<and> fifoOrdered ms (q_Messages q')"
proof -
  let ?ms = "[sampleMsg ''a'' '''', sampleMsg ''b'' '''']"
  let ?w = "sampleQueueWorld ''q.fifo'' ?ms"
  have "receiptsBelow sampleEnv 2 ?ms \<and> distinct (liveReceipts ?ms)"
    by (rule sample_unreceived) (simp add: sampleMsg_def)
  then have h: "ok.holds sampleEnv sampleInputs ?w" by (intro sampleQueueWorld_holds) simp_all
  from sample_receive [OF h] obtain ms w' where run: "ReceiveMessages sampleEnv ''q.fifo'' 1 30 ?w = (Inr ms, w')" by blast
  from ReceiveMessages_success [OF h run] have ids: "w_ids w' = rv_ids (recvRun sampleEnv ?w (sampleQueue ''q.fifo'' ?ms) 1 30)"
    by auto
  have "rv_ids (recvRun sampleEnv ?w (sampleQueue ''q.fifo'' ?ms) 1 30) \<le> 4"
    by (simp add: recvRun_def recvLoop_def recvStep_def sampleMsg_def clampMax_def deadLetterName_def activeRedrive_def
        sampleQueue_def default_attribute_get Let_def)
  then have "fresh_ids sampleEnv (w_ids w')" unfolding ids by (rule sample_fresh_ids)
  from fifo_receive_in_order [OF h run sampleQueueWorld_simps(1) sample_fifo_attributes(1) this] run show ?thesis by blast
qed

section \<open>Sending\<close>

definition dedupID :: "env \<Rightarrow> string \<Rightarrow> SendMessageOptions \<Rightarrow> string" where
  "dedupID E body opts = (if so_MessageDeduplicationID opts = '''' then hexEncode (e_sha256 E body)
     else so_MessageDeduplicationID opts)"

text \<open>
  The two ways a send can succeed: \<open>wasDuplicate\<close>, the deduplication record is still live and
  nothing is added; \<open>wasAppended\<close>, one message is added at the end of the queue.
\<close>

definition wasDuplicate :: "env \<Rightarrow> time \<Rightarrow> string \<Rightarrow> SendMessageOptions \<Rightarrow> Queue \<Rightarrow> Queue \<Rightarrow> Message \<Rightarrow> bool" where
  "wasDuplicate E t body opts q q' m \<longleftrightarrow> queueIsFIFO q \<and> q_Messages q' = q_Messages q \<and>
     (\<exists>r. fmlookup (q_Deduplication q) (fifoDeduplicationKey q (so_MessageGroupID opts) (dedupID E body opts)) = Some r \<and>
        t < dr_ExpiresAt r \<and> msg_MessageID m = dr_MessageID r \<and> msg_SequenceNumber m = dr_SequenceNumber r)"

definition wasAppended :: "env \<Rightarrow> time \<Rightarrow> string \<Rightarrow> SendMessageOptions \<Rightarrow> nat \<Rightarrow> Queue \<Rightarrow> Queue \<Rightarrow> Message \<Rightarrow> bool" where
  "wasAppended E t body opts ids q q' m \<longleftrightarrow> q_Messages q' = q_Messages q @ [m] \<and> msg_Body m = body \<and>
     msg_MessageID m = mint E ids \<and> msg_ReceiveCount m = 0 \<and> msg_MessageGroupID m = so_MessageGroupID opts \<and>
     (if queueIsFIFO q then
        q_NextSequenceNumber q' = q_NextSequenceNumber q + 1 \<and>
        msg_SequenceNumber m = showNat (unat (q_NextSequenceNumber q + 1)) \<and>
        (let k = fifoDeduplicationKey q (so_MessageGroupID opts) (dedupID E body opts)
         in fmlookup (dropExpired t (q_Deduplication q)) k = None \<and>
            fmlookup (q_Deduplication q') k = Some \<lparr>dr_MessageID = msg_MessageID m,
              dr_SequenceNumber = msg_SequenceNumber m, dr_ExpiresAt = t + fiveMinutes\<rparr>)
      else q_Deduplication q' = q_Deduplication q)"

lemma fifoDeduplicationKey_frame [simp]:
  "fifoDeduplicationKey (q\<lparr>q_Deduplication := x\<rparr>) g d = fifoDeduplicationKey q g d"
  by (simp add: fifoDeduplicationKey_def)

lemma sendFIFO_success:
  assumes h: "ok.holds E S w" and q: "fmlookup (Queues (w_data w)) name = Some q" "queueIsFIFO q"
    and id: "so_MessageDeduplicationID opts \<noteq> ''''"
    and run: "sendFIFO E name q body attrs delay opts w = (Inr m, w')"
  obtains q' where "w_data w' = (w_data w)\<lparr>Queues := fmupd name q' (Queues (w_data w))\<rparr>"
    "q_Attributes q' = q_Attributes q" "q_Name q' = q_Name q"
    "wasDuplicate E (e_now E (w_clock w)) body opts q q' m \<and> w_state_json w' = w_state_json w \<or>
     wasAppended E (e_now E (w_clock w)) body opts (w_ids w) q q' m \<and> w_data w' = diskState w'"
proof -
  define t where "t = e_now E (w_clock w)"
  define q1 where "q1 = q\<lparr>q_Deduplication := dropExpired t (q_Deduplication q)\<rparr>"
  define key where "key = fifoDeduplicationKey q (so_MessageGroupID opts) (so_MessageDeduplicationID opts)"
  have did: "dedupID E body opts = so_MessageDeduplicationID opts" using id by (simp add: dedupID_def)
  show thesis
  proof (cases "fmlookup (q_Deduplication q1) key")
    case (Some r)
    then have "fmlookup (q_Deduplication q) key = Some r" "t < dr_ExpiresAt r"
      by (auto simp: q1_def dropExpired_def split: if_splits)
    moreover have "m = duplicateReply E body opts r" "w' = setQueue name q1 (w\<lparr>w_clock := Suc (w_clock w)\<rparr>)"
      using run Some by (auto simp: sendFIFO_def now_def Let_def q1_def key_def t_def)
    ultimately show thesis using q(2)
      by (intro that [of q1]) (simp_all add: wasDuplicate_def duplicateReply_def did key_def t_def q1_def)
  next
    case None
    define sq where "sq = showNat (unat (q_NextSequenceNumber q + 1))"
    define q2 where "q2 = q1\<lparr>q_NextSequenceNumber := q_NextSequenceNumber q + 1\<rparr>"
    obtain m0 q3 w2 where e: "enqueueMessageLocked E q2 body attrs delay (so_MessageGroupID opts)
        (so_MessageDeduplicationID opts) sq (w\<lparr>w_clock := Suc (w_clock w)\<rparr>) = (m0, q3, w2)" by (metis prod_cases3)
    note en = enqueue_world [OF e]
    define q4 where "q4 = q3\<lparr>q_Deduplication := fmupd key \<lparr>dr_MessageID = msg_MessageID m0, dr_SequenceNumber = sq,
      dr_ExpiresAt = t + fiveMinutes\<rparr> (q_Deduplication q3)\<rparr>"
    have "saveThen E m0 (setQueue name q4 w2) = (Inr m, w')"
      using run None e by (simp add: sendFIFO_def now_def Let_def q1_def key_def t_def q2_def sq_def q4_def
          nextFIFOSequenceNumber_def)
    then have sv: "saveThen E m0 (w2\<lparr>w_data := (w_data w)\<lparr>Queues := fmupd name q4 (Queues (w_data w))\<rparr>\<rparr>) = (Inr m, w')"
      using en by simp
    have "ahead w w2" using en by (simp add: ahead_def)
    note f = saveThen_Inr [OF h this _ sv]
    have "wasAppended E t body opts (w_ids w) q q4 m0"
      using en None by (simp add: wasAppended_def Let_def q4_def q2_def q1_def did key_def sq_def q(2))
    with f holds_clean [OF h] en show thesis
      by (intro that [of q4]) (simp_all add: q4_def q2_def q1_def t_def)
  qed
qed

lemma SendMessage_success:
  assumes h: "ok.holds E S w" and q: "fmlookup (Queues (w_data w)) name = Some q"
    and run: "SendMessageWithOptions E name body attrs delay opts w = (Inr m, w')"
  obtains q' where "w_data w' = (w_data w)\<lparr>Queues := fmupd name q' (Queues (w_data w))\<rparr>"
    "q_Attributes q' = q_Attributes q" "q_Name q' = q_Name q"
    "wasDuplicate E (e_now E (w_clock w)) body opts q q' m \<and> w_state_json w' = w_state_json w \<or>
     wasAppended E (e_now E (w_clock w)) body opts (w_ids w) q q' m \<and> w_data w' = diskState w'"
proof (cases "queueIsFIFO q")
  case True
  let ?o = "opts\<lparr>so_MessageDeduplicationID := dedupID E body opts\<rparr>"
  from run q True obtain dl where r: "sendFIFO E name q body attrs dl ?o w = (Inr m, w')"
    and v: "validFIFOIdentifier (dedupID E body opts)"
    by (auto simp: SendMessageWithOptions_def Let_def dedupID_def split: if_splits)
  have ne: "so_MessageDeduplicationID ?o \<noteq> ''''" using v by (auto simp: validFIFOIdentifier_def)
  have same: "dedupID E body ?o = dedupID E body opts" using ne by (simp add: dedupID_def)
  have eq: "wasDuplicate E t body ?o = wasDuplicate E t body opts" "wasAppended E t body ?o = wasAppended E t body opts" for t
    by (simp_all add: fun_eq_iff wasDuplicate_def wasAppended_def same Let_def)
  show thesis
    by (rule sendFIFO_success [OF h q True ne r]) (rule that, assumption+, simp only: eq)
next
  case False
  from run q False obtain dl m0 q0 w1 where e: "enqueueMessageLocked E q body attrs dl (so_MessageGroupID opts) '''' '''' w = (m0, q0, w1)"
    and sv0: "saveThen E m0 (setQueue name q0 w1) = (Inr m, w')"
    by (auto simp: SendMessageWithOptions_def Let_def split: if_splits prod.splits)
  note en = enqueue_world [OF e]
  have sv: "saveThen E m0 (w1\<lparr>w_data := (w_data w)\<lparr>Queues := fmupd name q0 (Queues (w_data w))\<rparr>\<rparr>) = (Inr m, w')"
    using en sv0 by simp
  have "ahead w w1" using en by (simp add: ahead_def)
  note f = saveThen_Inr [OF h this _ sv]
  have "wasAppended E t body opts (w_ids w) q q0 m0" for t using en False by (simp add: wasAppended_def)
  with f holds_clean [OF h] en show thesis by (intro that [of q0]) simp_all
qed

text \<open>
  A send that succeeds either appends exactly one new message, with a fresh identifier and, on a
  FIFO queue, the next sequence number and a deduplication record for five minutes, and this is on
  disk when the call returns; or, on a FIFO queue only, it recognised a duplicate, added nothing and
  returned the identifiers of the original. No other queue changes.
\<close>

theorem send_appends_or_deduplicates:
  assumes h: "ok.holds E S w" and q: "fmlookup (Queues (w_data w)) name = Some q"
    and run: "SendMessageWithOptions E name body attrs delay opts w = (Inr m, w')"
  shows "\<exists>q'. Queues (w_data w') = fmupd name q' (Queues (w_data w)) \<and>
    (wasDuplicate E (e_now E (w_clock w)) body opts q q' m \<or>
     wasAppended E (e_now E (w_clock w)) body opts (w_ids w) q q' m \<and> fmlookup (Queues (diskState w')) name = Some q')"
  by (rule SendMessage_success [OF assms]) (auto dest!: sym [of _ "diskState w'"])

lemma sample_send:
  assumes "validFIFOIdentifier g" "validFIFOIdentifier d"
  shows "\<exists>m w'. SendMessageWithOptions sampleEnv ''q.fifo'' ''hi'' fmempty 0
    \<lparr>so_MessageGroupID = g, so_MessageDeduplicationID = d, so_DelaySpecified = False\<rparr>
    (sampleQueueWorld ''q.fifo'' []) = (Inr m, w')"
proof -
  have ne: "g \<noteq> ''''" "d \<noteq> ''''" using assms by (auto simp: validFIFOIdentifier_def)
  let ?o = "\<lparr>so_MessageGroupID = g, so_MessageDeduplicationID = d, so_DelaySpecified = False\<rparr>"
  have "\<exists>m w'. sendFIFO sampleEnv ''q.fifo'' (sampleQueue ''q.fifo'' []) ''hi'' fmempty 0 ?o
      (sampleQueueWorld ''q.fifo'' []) = (Inr m, w')"
    by (simp add: sendFIFO_def now_def Let_def dropExpired_def sampleQueue_def nextFIFOSequenceNumber_def
        enqueueMessageLocked_def newID_def saveThen_sample_ok)
      (rule exI, rule saveThen_sample_ok, simp)
  then show ?thesis using assms ne sample_fifo_attributes by (simp add: SendMessageWithOptions_def Let_def)
qed

theorem send_appends_or_deduplicates_witness:
  "\<exists>m w' q'. SendMessageWithOptions sampleEnv ''q.fifo'' ''hi'' fmempty 0
       \<lparr>so_MessageGroupID = ''g'', so_MessageDeduplicationID = ''d'', so_DelaySpecified = False\<rparr>
       (sampleQueueWorld ''q.fifo'' []) = (Inr m, w') \<and>
     fmlookup (Queues (w_data w')) ''q.fifo'' = Some q' \<and> q_Messages q' = [m] \<and> msg_SequenceNumber m = ''1''"
proof -
  let ?w = "sampleQueueWorld ''q.fifo'' []" and
    ?o = "\<lparr>so_MessageGroupID = ''g'', so_MessageDeduplicationID = ''d'', so_DelaySpecified = False\<rparr>"
  have h: "ok.holds sampleEnv sampleInputs ?w"
    by (intro sampleQueueWorld_holds) (simp_all add: receiptsBelow_def liveReceipts_def)
  have "validFIFOIdentifier ''g''" "validFIFOIdentifier ''d''" by code_simp+
  from sample_send [OF this] obtain m w' where
    run: "SendMessageWithOptions sampleEnv ''q.fifo'' ''hi'' fmempty 0 ?o ?w = (Inr m, w')" by blast
  from send_appends_or_deduplicates [OF h sampleQueueWorld_simps(1) run] obtain q' where
    q': "Queues (w_data w') = fmupd ''q.fifo'' q' (Queues (w_data ?w))"
    and d: "wasDuplicate sampleEnv (e_now sampleEnv (w_clock ?w)) ''hi'' ?o (sampleQueue ''q.fifo'' []) q' m \<or>
      wasAppended sampleEnv (e_now sampleEnv (w_clock ?w)) ''hi'' ?o (w_ids ?w) (sampleQueue ''q.fifo'' []) q' m" by blast
  have "\<not> wasDuplicate sampleEnv t ''hi'' ?o (sampleQueue ''q.fifo'' []) q' m" for t
    by (simp add: wasDuplicate_def sampleQueue_def)
  with d have a: "wasAppended sampleEnv (e_now sampleEnv (w_clock ?w)) ''hi'' ?o (w_ids ?w) (sampleQueue ''q.fifo'' []) q' m"
    by blast
  have "showNat 1 = ''1''" by code_simp
  with a have "q_Messages q' = [m] \<and> msg_SequenceNumber m = ''1''"
    using sample_fifo_attributes by (simp add: wasAppended_def sampleQueue_def)
  with run q' show ?thesis by auto
qed

text \<open>
  C13. Exactly-once sending on a FIFO queue: a second send with the same group and deduplication
  identifier within five minutes of the first, whatever its body, returns the identifier and sequence
  number of the first message, adds nothing to the queue and does not touch the disk.
\<close>

theorem fifo_send_twice_once:
  assumes h: "ok.holds E S w" and q: "fmlookup (Queues (w_data w)) name = Some q" "queueIsFIFO q"
    and id: "so_MessageDeduplicationID opts \<noteq> ''''"
    and new: "fmlookup (q_Deduplication q) (fifoDeduplicationKey q (so_MessageGroupID opts) (so_MessageDeduplicationID opts)) = None"
    and send1: "SendMessageWithOptions E name body attrs delay opts w = (Inr m, w1)"
    and send2: "SendMessageWithOptions E name body2 attrs2 delay2 opts w1 = (Inr m2, w2)"
    and time: "e_now E (w_clock w1) < e_now E (w_clock w) + fiveMinutes"
  shows "msg_MessageID m2 = msg_MessageID m \<and> msg_SequenceNumber m2 = msg_SequenceNumber m \<and>
    map_option q_Messages (fmlookup (Queues (w_data w2)) name) = map_option q_Messages (fmlookup (Queues (w_data w1)) name) \<and>
    w_state_json w2 = w_state_json w1"
proof -
  have did: "dedupID E b opts = so_MessageDeduplicationID opts" for b using id by (simp add: dedupID_def)
  from SendMessage_success [OF h q(1) send1] obtain q1 where
    d1: "w_data w1 = (w_data w)\<lparr>Queues := fmupd name q1 (Queues (w_data w))\<rparr>" "q_Attributes q1 = q_Attributes q" "q_Name q1 = q_Name q"
    and c1: "wasDuplicate E (e_now E (w_clock w)) body opts q q1 m \<or> wasAppended E (e_now E (w_clock w)) body opts (w_ids w) q q1 m"
    by blast
  have key: "fifoDeduplicationKey q1 g d = fifoDeduplicationKey q g d" for g d
    using d1(2) by (simp add: fifoDeduplicationKey_def)
  from c1 new have "wasAppended E (e_now E (w_clock w)) body opts (w_ids w) q q1 m"
    by (auto simp: wasDuplicate_def did)
  then have rec1: "fmlookup (q_Deduplication q1) (fifoDeduplicationKey q1 (so_MessageGroupID opts) (so_MessageDeduplicationID opts)) =
      Some \<lparr>dr_MessageID = msg_MessageID m, dr_SequenceNumber = msg_SequenceNumber m, dr_ExpiresAt = e_now E (w_clock w) + fiveMinutes\<rparr>"
    using q(2) by (simp add: wasAppended_def Let_def did key)
  have h1: "ok.holds E S w1" using SendMessage.keeps [OF h send1] .
  have q1: "fmlookup (Queues (w_data w1)) name = Some q1" using d1(1) by simp
  have fifo1: "queueIsFIFO q1" using q(2) d1(2,3) by (simp add: queueIsFIFO_def)
  from SendMessage_success [OF h1 q1 send2] obtain q2 where
    d2: "w_data w2 = (w_data w1)\<lparr>Queues := fmupd name q2 (Queues (w_data w1))\<rparr>"
    and c2: "wasDuplicate E (e_now E (w_clock w1)) body2 opts q1 q2 m2 \<and> w_state_json w2 = w_state_json w1 \<or>
      wasAppended E (e_now E (w_clock w1)) body2 opts (w_ids w1) q1 q2 m2" by blast
  have "\<not> wasAppended E (e_now E (w_clock w1)) body2 opts (w_ids w1) q1 q2 m2"
    using rec1 time fifo1 by (simp add: wasAppended_def Let_def did dropExpired_def)
  with c2 rec1 q1 d2 show ?thesis by (auto simp: wasDuplicate_def did)
qed

lemma sample_send_again:
  assumes h: "ok.holds sampleEnv sampleInputs w" and q: "fmlookup (Queues (w_data w)) name = Some q" "queueIsFIFO q"
    and live: "fmlookup (dropExpired (e_now sampleEnv (w_clock w)) (q_Deduplication q))
      (fifoDeduplicationKey q (so_MessageGroupID opts) (so_MessageDeduplicationID opts)) = Some r"
    and v: "validFIFOIdentifier (so_MessageGroupID opts)" "validFIFOIdentifier (so_MessageDeduplicationID opts)"
  shows "\<exists>m w'. SendMessageWithOptions sampleEnv name ''yo'' fmempty 0 opts w = (Inr m, w')"
proof -
  have ne: "so_MessageGroupID opts \<noteq> ''''" "so_MessageDeduplicationID opts \<noteq> ''''"
    using v by (auto simp: validFIFOIdentifier_def)
  then show ?thesis using q live v
    by (simp add: SendMessageWithOptions_def sendFIFO_def now_def Let_def)
qed

theorem fifo_send_twice_once_witness:
  "\<exists>m w1 m2 w2. SendMessageWithOptions sampleEnv ''q.fifo'' ''hi'' fmempty 0
       \<lparr>so_MessageGroupID = ''g'', so_MessageDeduplicationID = ''d'', so_DelaySpecified = False\<rparr>
       (sampleQueueWorld ''q.fifo'' []) = (Inr m, w1) \<and>
     SendMessageWithOptions sampleEnv ''q.fifo'' ''yo'' fmempty 0
       \<lparr>so_MessageGroupID = ''g'', so_MessageDeduplicationID = ''d'', so_DelaySpecified = False\<rparr> w1 = (Inr m2, w2) \<and>
     msg_MessageID m2 = msg_MessageID m"
proof -
  let ?w = "sampleQueueWorld ''q.fifo'' []" and
    ?o = "\<lparr>so_MessageGroupID = ''g'', so_MessageDeduplicationID = ''d'', so_DelaySpecified = False\<rparr>"
  have h: "ok.holds sampleEnv sampleInputs ?w"
    by (intro sampleQueueWorld_holds) (simp_all add: receiptsBelow_def liveReceipts_def)
  have v: "validFIFOIdentifier ''g''" "validFIFOIdentifier ''d''" by code_simp+
  from sample_send [OF this] obtain m w1 where
    run: "SendMessageWithOptions sampleEnv ''q.fifo'' ''hi'' fmempty 0 ?o ?w = (Inr m, w1)" by blast
  have clk: "w_clock w1 = 103"
  proof -
    from run sample_fifo_attributes v have "sendFIFO sampleEnv ''q.fifo'' (sampleQueue ''q.fifo'' []) ''hi'' fmempty 0 ?o ?w = (Inr m, w1)"
      by (simp add: SendMessageWithOptions_def Let_def split: if_splits)
    then obtain v0 w0 where "saveThen sampleEnv v0 w0 = (Inr m, w1)" "w_clock w0 = 103"
      by (auto simp: sendFIFO_def now_def Let_def dropExpired_def sampleQueue_def nextFIFOSequenceNumber_def
          enqueueMessageLocked_def newID_def)
    then show ?thesis by (auto simp: saveThen_def split: prod.splits option.splits elim!: saveLocked_cases)
  qed
  note h1 = SendMessage.keeps [OF h run]
  from SendMessage_success [OF h sampleQueueWorld_simps(1) run] obtain q1 where
    d1: "w_data w1 = (w_data ?w)\<lparr>Queues := fmupd ''q.fifo'' q1 (Queues (w_data ?w))\<rparr>"
      "q_Attributes q1 = q_Attributes (sampleQueue ''q.fifo'' [])" "q_Name q1 = q_Name (sampleQueue ''q.fifo'' [])"
    and c1: "wasDuplicate sampleEnv (e_now sampleEnv (w_clock ?w)) ''hi'' ?o (sampleQueue ''q.fifo'' []) q1 m \<or>
      wasAppended sampleEnv (e_now sampleEnv (w_clock ?w)) ''hi'' ?o (w_ids ?w) (sampleQueue ''q.fifo'' []) q1 m" by blast
  from d1 have q1: "fmlookup (Queues (w_data w1)) ''q.fifo'' = Some q1" by simp
  have fifo: "queueIsFIFO q1" using d1(2,3) sample_fifo_attributes by (simp add: queueIsFIFO_def)
  have none: "fmlookup (q_Deduplication (sampleQueue ''q.fifo'' [])) k = None" for k by (simp add: sampleQueue_def)
  with c1 have a: "wasAppended sampleEnv (e_now sampleEnv (w_clock ?w)) ''hi'' ?o (w_ids ?w) (sampleQueue ''q.fifo'' []) q1 m"
    by (simp add: wasDuplicate_def)
  have k: "fifoDeduplicationKey q1 g d = fifoDeduplicationKey (sampleQueue ''q.fifo'' []) g d" for g d
    using d1(2) by (simp add: fifoDeduplicationKey_def)
  from a have "\<exists>r. fmlookup (dropExpired (e_now sampleEnv (w_clock w1)) (q_Deduplication q1))
      (fifoDeduplicationKey q1 ''g'' ''d'') = Some r"
    using sample_fifo_attributes clk by (simp add: wasAppended_def Let_def dedupID_def dropExpired_def k fiveMinutes_def)
  then obtain r where "fmlookup (dropExpired (e_now sampleEnv (w_clock w1)) (q_Deduplication q1))
      (fifoDeduplicationKey q1 ''g'' ''d'') = Some r" by blast
  with sample_send_again [OF h1 q1 fifo, of ?o] v obtain m2 w2 where
    run2: "SendMessageWithOptions sampleEnv ''q.fifo'' ''yo'' fmempty 0 ?o w1 = (Inr m2, w2)" by auto
  have "e_now sampleEnv (w_clock w1) < e_now sampleEnv (w_clock ?w) + fiveMinutes" using clk by (simp add: fiveMinutes_def)
  from fifo_send_twice_once [OF h sampleQueueWorld_simps(1) sample_fifo_attributes(1) _ none run run2 this] run run2
  show ?thesis by auto
qed

section \<open>Deleting by receipt\<close>

lemma removeFirst_None: "removeFirst P xs = None \<longleftrightarrow> (\<forall>x \<in> set xs. \<not> P x)"
  by (induction xs) auto

lemma removeFirst_filter:
  assumes "removeFirst (\<lambda>m. msg_ReceiptHandle m = r) ms = Some ms'" "r \<noteq> ''''" "distinct (liveReceipts ms)"
  shows "ms' = filter (\<lambda>m. msg_ReceiptHandle m \<noteq> r) ms"
  using assms
proof (induction ms arbitrary: ms')
  case (Cons m ms)
  show ?case
  proof (cases "msg_ReceiptHandle m = r")
    case True
    with Cons.prems have "r \<notin> set (liveReceipts ms)" by (simp add: liveReceipts_def)
    then have "\<forall>x \<in> set ms. msg_ReceiptHandle x \<noteq> r" using Cons.prems(2) by (auto simp: set_liveReceipts)
    then show ?thesis using True Cons.prems(1) by (simp add: filter_id_conv [THEN iffD2])
  next
    case False
    with Cons.prems obtain zs where "removeFirst (\<lambda>m. msg_ReceiptHandle m = r) ms = Some zs" "ms' = m # zs" by auto
    with Cons False show ?thesis by (simp add: liveReceipts_def split: if_splits)
  qed
qed simp

lemma DeleteMessage_success:
  assumes h: "ok.holds E S w" and run: "DeleteMessage E name receipt w = (Inr r, w')"
  obtains q ms where "fmlookup (Queues (w_data w)) name = Some q"
    "removeFirst (\<lambda>m. msg_ReceiptHandle m = receipt) (q_Messages q) = Some ms"
    "w_data w' = (w_data w)\<lparr>Queues := fmupd name (q\<lparr>q_Messages := ms\<rparr>) (Queues (w_data w))\<rparr>"
    "diskState w' = w_data w'"
proof -
  from run obtain q ms where q: "fmlookup (Queues (w_data w)) name = Some q"
    and rm: "removeFirst (\<lambda>m. msg_ReceiptHandle m = receipt) (q_Messages q) = Some ms"
    and sv: "saveThen E () (setQueue name (q\<lparr>q_Messages := ms\<rparr>) w) = (Inr r, w')"
    by (auto simp: DeleteMessage_def split: option.splits)
  note f = saved_Inr [OF h sv]
  show thesis by (rule that [OF q rm]) (use f in simp_all)
qed

text \<open>
  Deleting by a receipt handle that some message carries: as long as no random identifier has
  repeated, exactly the message with that handle goes, from memory and from disk; every other message
  of the queue keeps its place. A handle no message carries is an error and changes nothing.
\<close>

theorem delete_removes_exactly:
  assumes h: "ok.holds E S w" and q: "fmlookup (Queues (w_data w)) name = Some q"
    and r: "receipt \<noteq> ''''" and fresh: "fresh_ids E (w_ids w)"
    and run: "DeleteMessage E name receipt w = (x, w')"
  shows "case x of
      Inr u \<Rightarrow> fmlookup (Queues (w_data w')) name =
          Some (q\<lparr>q_Messages := filter (\<lambda>m. msg_ReceiptHandle m \<noteq> receipt) (q_Messages q)\<rparr>) \<and>
        length (q_Messages q) = Suc (length (filter (\<lambda>m. msg_ReceiptHandle m \<noteq> receipt) (q_Messages q))) \<and>
        diskState w' = w_data w'
    | Inl e \<Rightarrow> (receipt \<notin> msg_ReceiptHandle ` set (q_Messages q) \<longrightarrow> e = ErrReceiptInvalid \<and> w' = w) \<and>
        sameLive (w_data w') (w_data w) \<and> diskState w' = diskState w"
proof (cases x)
  case (Inr u)
  from DeleteMessage_success [OF h run [unfolded Inr]] q obtain ms where
    rm: "removeFirst (\<lambda>m. msg_ReceiptHandle m = receipt) (q_Messages q) = Some ms"
    and d: "w_data w' = (w_data w)\<lparr>Queues := fmupd name (q\<lparr>q_Messages := ms\<rparr>) (Queues (w_data w))\<rparr>" "diskState w' = w_data w'"
    by auto
  have "distinct (liveReceipts (q_Messages q))" using holds_queue [OF h q] fresh by (simp add: queueOK_def)
  from removeFirst_filter [OF rm r this] removeFirst_Some [OF rm] d Inr show ?thesis by auto
next
  case (Inl e)
  have "receipt \<notin> msg_ReceiptHandle ` set (q_Messages q) \<Longrightarrow>
      removeFirst (\<lambda>m. msg_ReceiptHandle m = receipt) (q_Messages q) = None"
    by (auto simp: removeFirst_None)
  with Inl run q DeleteMessage.atomic [OF h run [unfolded Inl]] DeleteMessage.failed_restart [OF h run [unfolded Inl]]
  show ?thesis by (auto simp: DeleteMessage_def)
qed

lemma sample_delete:
  assumes "removeFirst (\<lambda>m. msg_ReceiptHandle m = r) ms = Some ms'"
  shows "\<exists>w'. DeleteMessage sampleEnv name r (sampleQueueWorld name ms) = (Inr (), w')"
  using assms by (simp add: DeleteMessage_def saveThen_sample_ok)

theorem delete_removes_exactly_witness:
  "\<exists>w'. DeleteMessage sampleEnv ''q'' (mint sampleEnv 0)
       (sampleQueueWorld ''q'' [sampleMsg ''m1'' (mint sampleEnv 1), sampleMsg ''m2'' (mint sampleEnv 0)]) = (Inr (), w') \<and>
     map_option (map msg_MessageID \<circ> q_Messages) (fmlookup (Queues (w_data w')) ''q'') = Some [''m1'']"
proof -
  let ?ms = "[sampleMsg ''m1'' (mint sampleEnv 1), sampleMsg ''m2'' (mint sampleEnv 0)]"
  let ?w = "sampleQueueWorld ''q'' ?ms"
  have ne: "mint sampleEnv 1 \<noteq> mint sampleEnv 0" using mint_eq_iff [OF sample_fresh_ids [of 2], of 1 0] by simp
  have h: "ok.holds sampleEnv sampleInputs ?w"
    by (intro sampleQueueWorld_holds)
      (use ne in \<open>auto simp: receiptsBelow_def liveReceipts_def sampleMsg_def intro: exI [of _ 0] exI [of _ "Suc 0"]\<close>)
  from sample_delete [of "mint sampleEnv 0" ?ms] ne obtain w' where
    run: "DeleteMessage sampleEnv ''q'' (mint sampleEnv 0) ?w = (Inr (), w')" by (auto simp: sampleMsg_def)
  have "fresh_ids sampleEnv (w_ids ?w)" using sample_fresh_ids by simp
  from delete_removes_exactly [OF h sampleQueueWorld_simps(1) mint_not_Nil this run] run ne
  show ?thesis by (simp add: sampleMsg_def)
qed

text \<open>
  The empty receipt handle, however, is not rejected: it deletes the first message of the queue
  that nobody has received yet, without waiting for its delay or for a consumer.
\<close>

theorem empty_receipt_deletes_unreceived:
  assumes "ok.holds E S w" and "fmlookup (Queues (w_data w)) name = Some q"
    and "q_Messages q = as @ m # bs" and "msg_ReceiptHandle m = ''''" and "\<forall>x \<in> set as. msg_ReceiptHandle x \<noteq> ''''"
    and "DeleteMessage E name '''' w = (Inr u, w')"
  shows "fmlookup (Queues (w_data w')) name = Some (q\<lparr>q_Messages := as @ bs\<rparr>)"
proof -
  have "removeFirst (\<lambda>m. msg_ReceiptHandle m = '''') (as @ m # bs) = Some (as @ bs)"
    using assms(4,5) by (induction as) auto
  with DeleteMessage_success [OF assms(1,6)] assms(2,3) show ?thesis by fastforce
qed

theorem empty_receipt_deletes_unreceived_witness:
  "\<exists>w'. DeleteMessage sampleEnv ''q'' '''' (sampleQueueWorld ''q'' [sampleMsg ''m1'' '''']) = (Inr (), w') \<and>
     map_option q_Messages (fmlookup (Queues (w_data w')) ''q'') = Some []"
proof -
  let ?w = "sampleQueueWorld ''q'' [sampleMsg ''m1'' '''']"
  have h: "ok.holds sampleEnv sampleInputs ?w"
    using sample_unreceived [of "[sampleMsg ''m1'' '''']"] by (intro sampleQueueWorld_holds) (auto simp: sampleMsg_def)
  from sample_delete [of "''''" "[sampleMsg ''m1'' '''']" "[]" "''q''"] obtain w' where
    run: "DeleteMessage sampleEnv ''q'' '''' ?w = (Inr (), w')" by (auto simp: sampleMsg_def)
  from empty_receipt_deletes_unreceived [OF h sampleQueueWorld_simps(1) _ _ _ run, of "[]" "sampleMsg ''m1'' ''''" "[]"] run
  show ?thesis by (simp add: sampleMsg_def)
qed

section \<open>The message counts\<close>

lemma counts_partition:
  "countMsgs (visibleMsg t) ms + countMsgs (delayedMsg t) ms + countMsgs (invisibleMsg t) ms = length ms"
  by (induction ms) (auto simp: countMsgs_def visibleMsg_def delayedMsg_def invisibleMsg_def)

lemma recv_result_full:
  assumes "1 \<le> maxN"
  shows "int (length (rv_result (loopRun E t maxN vis False mr ms None ids))) =
    min maxN (int (countMsgs (visibleMsg t) ms))"
proof (induction ms rule: rev_induct)
  case (snoc x ms)
  define s where "s = loopRun E t maxN vis False mr ms None ids"
  have "rv_dlq s = None" using recv_dlq_None [of E t maxN vis False mr ms None ids] by (simp add: s_def)
  then have "int (length (rv_result (recvStep E t maxN vis False mr x s))) =
      (if t < msg_VisibleAt x \<or> maxN \<le> int (length (rv_result s)) then int (length (rv_result s))
       else int (length (rv_result s)) + 1)"
    by (simp add: recvStep_def Let_def)
  moreover have "countMsgs (visibleMsg t) (ms @ [x]) =
      countMsgs (visibleMsg t) ms + (if t < msg_VisibleAt x then 0 else 1)"
    by (simp add: countMsgs_def visibleMsg_def delayedMsg_def)
  ultimately show ?case using snoc assms by (simp add: s_def split: if_splits)
qed (use assms in \<open>simp add: countMsgs_def\<close>)

text \<open>
  The counts reported with a queue's attributes partition its messages: visible, delayed and in
  flight add up to all of them. A receive from a standard queue without a redrive target, made at the
  moment of the count, hands out every visible message up to its limit: none is starved.
\<close>

theorem counts_match_receive:
  assumes h: "ok.holds E S w" and q: "fmlookup (Queues (w_data w)) name = Some q" "\<not> queueIsFIFO q"
    and redrive: "redriveLimit E (Queues (w_data w)) q = None"
    and attrs: "QueueAttributes E name w = (Inr attrs, w1)"
    and run: "ReceiveMessages E name maxN vis w = (Inr ms, w2)"
  shows "\<exists>v d i. fmlookup attrs ''ApproximateNumberOfMessages'' = Some (showNat v) \<and>
    fmlookup attrs ''ApproximateNumberOfMessagesDelayed'' = Some (showNat d) \<and>
    fmlookup attrs ''ApproximateNumberOfMessagesNotVisible'' = Some (showNat i) \<and>
    v + d + i = length (q_Messages q) \<and> int (length ms) = min (clampMax maxN) (int v)"
proof -
  let ?t = "e_now E (w_clock w)"
  from ReceiveMessages_success [OF h run] q(1) have ms: "ms = rv_result (recvRun E w q maxN vis)" by auto
  have "Option.bind (deadLetterName E q) (fmlookup (Queues (w_data w))) = None"
    using redrive by (cases "activeRedrive E q") (auto simp: redriveLimit_def deadLetterName_def split: if_splits)
  then have "int (length ms) = min (clampMax maxN) (int (countMsgs (visibleMsg ?t) (q_Messages q)))"
    unfolding ms recvRun_def recvLoop_def
    using recv_result_full [of "clampMax maxN" E ?t] q(2) by (simp add: clampMax_def)
  moreover have "fmlookup attrs ''ApproximateNumberOfMessages'' = Some (showNat (countMsgs (visibleMsg ?t) (q_Messages q)))"
    "fmlookup attrs ''ApproximateNumberOfMessagesDelayed'' = Some (showNat (countMsgs (delayedMsg ?t) (q_Messages q)))"
    "fmlookup attrs ''ApproximateNumberOfMessagesNotVisible'' = Some (showNat (countMsgs (invisibleMsg ?t) (q_Messages q)))"
    using attrs q(1) by (auto simp: QueueAttributes_def now_def Let_def)
  ultimately show ?thesis using counts_partition by blast
qed

theorem counts_match_receive_witness:
  "\<exists>attrs w1 ms w2. QueueAttributes sampleEnv ''q'' (sampleQueueWorld ''q'' [sampleMsg ''m1'' '''', sampleMsg ''m2'' '''']) = (Inr attrs, w1) \<and>
     ReceiveMessages sampleEnv ''q'' 10 30 (sampleQueueWorld ''q'' [sampleMsg ''m1'' '''', sampleMsg ''m2'' '''']) = (Inr ms, w2) \<and>
     fmlookup attrs ''ApproximateNumberOfMessages'' = Some (showNat 2) \<and> length ms = 2"
proof -
  let ?ms = "[sampleMsg ''m1'' '''', sampleMsg ''m2'' '''']"
  let ?w = "sampleQueueWorld ''q'' ?ms"
  have h: "ok.holds sampleEnv sampleInputs ?w"
    using sample_unreceived [of ?ms] by (intro sampleQueueWorld_holds) (auto simp: sampleMsg_def)
  from sample_receive [OF h, of 10 30] obtain ms w2 where run: "ReceiveMessages sampleEnv ''q'' 10 30 ?w = (Inr ms, w2)" by blast
  let ?t = "e_now sampleEnv (w_clock ?w)"
  have v: "countMsgs (visibleMsg ?t) ?ms = 2" by (simp add: countMsgs_def visibleMsg_def delayedMsg_def sampleMsg_def)
  obtain attrs w1 where a: "QueueAttributes sampleEnv ''q'' ?w = (Inr attrs, w1)"
    "fmlookup attrs ''ApproximateNumberOfMessages'' = Some (showNat (countMsgs (visibleMsg ?t) ?ms))"
    unfolding QueueAttributes_def sampleQueueWorld_simps(1) now_def Let_def by simp  have r: "redriveLimit sampleEnv (Queues (w_data ?w)) (sampleQueue ''q'' ?ms) = None"
    by (simp add: redriveLimit_def activeRedrive_def sampleQueue_def default_attribute_get)
  have inj: "2 = v" if "showNat 2 = showNat v" for v using that by (metis prod.inject readDigits_showNat)
  from counts_match_receive [OF h sampleQueueWorld_simps(1) sample_fifo_attributes(2) r a(1) run]
  obtain v where "fmlookup attrs ''ApproximateNumberOfMessages'' = Some (showNat v)" "int (length ms) = min (clampMax 10) (int v)"
    by blast
  with a(2) inj [of v] have "length ms = 2" unfolding v by (simp add: clampMax_def)
  with a run show ?thesis unfolding v by blast
qed

end
