(* ===== verification/S3_Theorems.thy ===== *)
theory S3_Theorems
  imports S3_Correct SQS_Theorems
begin

text \<open>
  The properties of the object store: reading back what was put, detection of a body that changed
  on disk, completing a multipart upload, listing page by page, the guard on deleting buckets, and
  the messages an object created sends to queues.
\<close>

section \<open>Reading back what was put\<close>

lemma PutObject_success:
  assumes run: "PutObject E bucket key body ct md w = (Inr x, w')"
  obtains b w1 qs where "fmlookup (Buckets (w_data w)) bucket = Some b" "objectsOnly w w1"
    "x = putObjectAt E bucket key body ct md w1"
    "w_data w' = (w_data w)\<lparr>Buckets := fmupd bucket (b\<lparr>bk_Objects := fmupd key x (bk_Objects b)\<rparr>) (Buckets (w_data w)),
       Queues := qs\<rparr>"
    "w_data w' = w_data (enterObject E ''ObjectCreated:Put'' bucket b key x w1)"
proof (cases "fmlookup (Buckets (w_data w)) bucket")
  case None
  with run show thesis by (simp add: PutObject_def)
next
  case (Some b)
  let ?x = "putObjectAt E bucket key body ct md"
  from run [unfolded PutObject_eq [OF Some]] obtain w1 where o: "objectsOnly w w1" and
    c: "commitBody E (dropPreviousSync E) (map_option obj_File (fmlookup (bk_Objects b) key))
      (bodyFile E ''s3'' bucket key body) (?x w1) (enterObject E ''ObjectCreated:Put'' bucket b key (?x w1) w1) = (Inr x, w')"
    by (rule writeBody_Inr) simp_all
  note r = commitBody_Inr [OF c tidy_objectsOnly(2)]
  show thesis
    by (rule enterObject_world [of E "''ObjectCreated:Put''" bucket b key "?x w1" w1])
      (rule that [OF Some o r(1)], use r o in \<open>simp_all add: objectsOnly_def\<close>)
qed

lemma holds_object_body:
  assumes "ok.holds E S w" "fmlookup (Buckets (w_data w)) bucket = Some b" "fmlookup (bk_Objects b) key = Some x"
  shows "bodyOK E S (w_objects w) ''s3'' bucket key (obj_File x) (obj_Size x) (obj_SHA256 x) ''''"
  using holds_refs [OF assms(1) fileRef.s3 [OF assms(2,3)]] .

text \<open>Under the invariant the body stored for an object is determined by its recorded SHA-256.\<close>

lemma bodyOK_body:
  assumes "digests_ok E S" "bodyOK E S objs ns ow k f n (hexEncode (e_sha256 E body)) c" "body \<in> S"
  shows "fmlookup objs f = Some body"
  using assms by (auto simp: bodyOK_def hashable_def digests_ok_def hexEncode_inj dest: inj_onD)

lemma GetObject_ok:
  assumes h: "ok.holds E S w" and b: "fmlookup (Buckets (w_data w)) bucket = Some b"
    and x: "fmlookup (bk_Objects b) key = Some x" and nf: "\<forall>i. \<not> e_fault E i"
  obtains body w' where "GetObject E bucket key w = (Inr (x, body), w')" "fmlookup (w_objects w) (obj_File x) = Some body"
proof -
  from readObjectBody_ok [OF holds_env [OF h] holds_object_body [OF h b x] nf] obtain body w' where
    "fmlookup (w_objects w) (obj_File x) = Some body" "readObjectBody E (obj_File x) (obj_Size x) (obj_SHA256 x) w = (Inr body, w')"
    by blast
  with b x show thesis by (intro that [of body w']) (simp_all add: GetObject_def)
qed

text \<open>With no failing system call a put into an existing bucket succeeds.\<close>

lemma publishObject_no_fault:
  "\<forall>i. \<not> e_fault E i \<Longrightarrow> \<exists>w1. publishObject E pat f body w = (PubDone, w1)"
  by (simp add: publishObject_def createTemp_def writeTemp_def renameTemp_def runSys_no_fault Let_def)

lemma saveLocked_no_fault:
  assumes "\<forall>i. \<not> e_fault E i" "encodeSnapshot (w_data w) = Some raw"
  shows "\<exists>w'. saveLocked E w = (None, w')"
  using assms by (simp add: saveLocked_def runSys_no_fault del: runSys.simps)

lemma holds_encodes:
  assumes "ok.holds E S w" "DynamoTables d = DynamoTables (w_data w)"
  shows "\<exists>raw. encodeSnapshot d = Some raw"
proof -
  have "DynamoTables (diskState w) = DynamoTables d" and "encodeSnapshot (diskState w) = Some (diskDoc w)"
    using assms ok_holds_parts(1) [OF assms(1)] by (auto simp: durable_def sameLive_fields)
  then show ?thesis by (simp add: encodeSnapshot_def split: if_splits)
qed

lemma commitBody_no_fault:
  assumes "ok.holds E S w" "\<forall>i. \<not> e_fault E i" "DynamoTables (w_data w1) = DynamoTables (w_data w)"
  shows "\<exists>w'. commitBody E tidy p f v w1 = (Inr v, w')"
proof -
  from holds_encodes [OF assms(1,3)] obtain raw where "encodeSnapshot (w_data w1) = Some raw" by blast
  from saveLocked_no_fault [OF assms(2) this] show ?thesis by (auto simp: commitBody_def)
qed

lemma enterObject_tables: "DynamoTables (w_data (enterObject E ev bucket b key x w)) = DynamoTables (w_data w)"
  by (rule enterObject_world [of E ev bucket b key x w]) simp

lemma PutObject_no_fault:
  assumes h: "ok.holds E S w" and nf: "\<forall>i. \<not> e_fault E i" and b: "fmlookup (Buckets (w_data w)) bucket = Some b"
  shows "\<exists>x w'. PutObject E bucket key body ct md w = (Inr x, w')"
proof -
  from publishObject_no_fault [OF nf] obtain w1 where
    p: "publishObject E ''.object-'' (bodyFile E ''s3'' bucket key body) body w = (PubDone, w1)" by blast
  have "objectsOnly w w1" by (rule publishObject_spec(1) [OF p]) simp_all
  then have "DynamoTables (w_data w1) = DynamoTables (w_data w)" by (simp add: objectsOnly_def)
  then have "\<exists>w'. commitBody E tidy prev f v (enterObject E ev bucket b key x w1) = (Inr v, w')" for tidy prev f ev x and v :: Object
    by (intro commitBody_no_fault [OF h nf]) (simp add: enterObject_tables)
  then show ?thesis unfolding PutObject_eq [OF b] writeBody_def p by (simp only: prod.case publish_result.case) blast
qed

text \<open>
  C15. Round trip. After a successful \<open>PutObject\<close> the object can be read back, in both integrity modes:
  exactly the bytes that were put, with their length, MD5 ETag, content type and metadata. No other
  object, bucket or upload has changed.
\<close>

theorem put_then_get:
  assumes h: "ok.holds E S w" and hb: "hashable E S ''s3'' bucket key body"
    and run: "PutObject E bucket key body ct md w = (Inr x, w')" and nf: "\<forall>i. \<not> e_fault E i"
  shows "(\<exists>w2. GetObject E bucket key w' = (Inr (x, body), w2)) \<and>
    obj_Size x = int (length body) \<and> obj_ETag x = hexEncode (e_md5 E body) \<and> obj_ContentType x = ct \<and> obj_Metadata x = md \<and>
    (\<forall>ob ok. (ob, ok) \<noteq> (bucket, key) \<longrightarrow>
       Option.bind (fmlookup (Buckets (w_data w')) ob) (\<lambda>b. fmlookup (bk_Objects b) ok) =
       Option.bind (fmlookup (Buckets (w_data w)) ob) (\<lambda>b. fmlookup (bk_Objects b) ok)) \<and>
    MultipartUploads (w_data w') = MultipartUploads (w_data w) \<and> GCSBuckets (w_data w') = GCSBuckets (w_data w)"
proof -
  from PutObject_success [OF run] obtain b w1 qs where b: "fmlookup (Buckets (w_data w)) bucket = Some b"
    and x: "x = putObjectAt E bucket key body ct md w1"
    and d: "w_data w' = (w_data w)\<lparr>Buckets := fmupd bucket (b\<lparr>bk_Objects := fmupd key x (bk_Objects b)\<rparr>) (Buckets (w_data w)),
       Queues := qs\<rparr>" by blast
  have h': "ok.holds E S w'" using PutObject.keeps [OF conjI [OF h hb] run] by blast
  let ?b = "b\<lparr>bk_Objects := fmupd key x (bk_Objects b)\<rparr>"
  have b': "fmlookup (Buckets (w_data w')) bucket = Some ?b" and x': "fmlookup (bk_Objects ?b) key = Some x"
    by (simp_all add: d)
  have "fmlookup (w_objects w') (obj_File x) = Some body"
    using bodyOK_body [OF holds_env [OF h]] holds_object_body [OF h' b' x'] hb
    by (simp add: hashable_def x putObjectAt_def)
  with GetObject_ok [OF h' b' x' nf] have "\<exists>w2. GetObject E bucket key w' = (Inr (x, body), w2)" by auto
  with b show ?thesis by (auto simp: d x putObjectAt_def)
qed

section \<open>A sample bucket\<close>

definition sampleBucketWorld :: world where
  "sampleBucketWorld = sampleWorld 0 fmempty (emptySnapshot\<lparr>Buckets := fmupd ''b''
     \<lparr>bk_Name = ''b'', bk_CreatedAt = 0, bk_Objects = fmempty, bk_Notifications = []\<rparr> fmempty\<rparr>)"

lemma sampleBucketWorld_simps [simp]:
  "fmlookup (Buckets (w_data sampleBucketWorld)) ''b'' =
     Some \<lparr>bk_Name = ''b'', bk_CreatedAt = 0, bk_Objects = fmempty, bk_Notifications = []\<rparr>"
  "DynamoTables (w_data sampleBucketWorld) = fmempty" "MultipartUploads (w_data sampleBucketWorld) = fmempty"
  "w_integrityMode sampleBucketWorld = IntegrityModeStrict"
  by (simp_all add: sampleBucketWorld_def emptySnapshot_def)

lemma sampleBucketWorld_holds: "ok.holds sampleEnv sampleInputs sampleBucketWorld"
  unfolding sampleBucketWorld_def
proof (rule sample_holds)
  have "storeOK sampleEnv sampleInputs 0 fmempty emptySnapshot" using sample_digests_ok by simp
  then show "storeOK sampleEnv sampleInputs 0 fmempty (emptySnapshot\<lparr>Buckets := fmupd ''b''
     \<lparr>bk_Name = ''b'', bk_CreatedAt = 0, bk_Objects = fmempty, bk_Notifications = []\<rparr> fmempty\<rparr>)"
    by (auto simp: storeOK_def bucketsOK_def bucketOK_def bodiesOK_def emptySnapshot_def uploadsOK_def elim!: fileRefE split: if_splits)
qed (simp add: emptySnapshot_def)

lemma sample_hashable: "hashable sampleEnv sampleInputs ''s3'' ''b'' ''k'' sampleBody"
  by (simp add: hashable_def sampleInputs_def samplePreimage_def)

lemma sample_put:
  "\<exists>x w'. PutObject sampleEnv ''b'' ''k'' sampleBody ct md sampleBucketWorld = (Inr x, w')"
  using PutObject_no_fault [OF sampleBucketWorld_holds _ sampleBucketWorld_simps(1)] sample_no_fault by blast

theorem put_then_get_witness:
  "\<exists>x w' w2. PutObject sampleEnv ''b'' ''k'' sampleBody ''text/plain'' fmempty sampleBucketWorld = (Inr x, w') \<and>
     GetObject sampleEnv ''b'' ''k'' w' = (Inr (x, sampleBody), w2) \<and> obj_Size x = 2"
proof -
  from sample_put obtain x w' where
    run: "PutObject sampleEnv ''b'' ''k'' sampleBody ''text/plain'' fmempty sampleBucketWorld = (Inr x, w')" by blast
  from put_then_get [OF sampleBucketWorld_holds sample_hashable run] run show ?thesis
    by (auto simp: sampleBody_def)
qed

section \<open>Detecting a changed body\<close>

lemma lower_hexDigit: "d < 16 \<Longrightarrow> lowerChar (hexDigit d) = hexDigit d"
  by (auto simp: lowerChar_def hexDigit_def Let_def)
lemma lower_hexEncode: "toLower (hexEncode b) = hexEncode b"
  unfolding toLower_def by (rule map_idI) (use hexEncode_chars lower_hexDigit in blast)

lemma equalFold_hex: "equalFold (hexEncode a) (hexEncode b) \<longleftrightarrow> hexEncode a = hexEncode b"
  by (simp add: equalFold_def lower_hexEncode)

text \<open>
  C16. In strict mode nothing but the committed body is ever served. Whatever has happened to the object
  directory behind the store's back, a read either fails or returns the bytes that were committed
  (for bytes among those SHA-256 is assumed to separate).
\<close>

theorem strict_read_detects_corruption:
  assumes h: "ok.holds E S w" and mode: "w_integrityMode w = IntegrityModeStrict"
    and b: "fmlookup (Buckets (w_data w)) bucket = Some b" "fmlookup (bk_Objects b) key = Some x"
    and run: "GetObject E bucket key (w\<lparr>w_objects := tampered\<rparr>) = (Inr (y, body), w')" and S: "body \<in> S"
  shows "y = x \<and> fmlookup (w_objects w) (obj_File x) = Some body"
proof -
  note ok = holds_object_body [OF h b]
  from run b have y: "y = x" and
    r: "readObjectBody E (obj_File x) (obj_Size x) (obj_SHA256 x) (w\<lparr>w_objects := tampered\<rparr>) = (Inr body, w')"
    by (auto simp: GetObject_def split: prod.splits sum.splits)
  from ok obtain c where c: "obj_SHA256 x = hexEncode (e_sha256 E c)" "fmlookup (w_objects w) (obj_File x) = Some c" "c \<in> S"
    by (auto simp: bodyOK_def hashable_def)
  from readObjectBody_strict [OF r] mode have "equalFold (obj_SHA256 x) (hexEncode (e_sha256 E body))" by simp
  with c(1) have "e_sha256 E c = e_sha256 E body" by (simp add: equalFold_hex hexEncode_inj)
  with c(3) S holds_env [OF h] have "c = body" by (auto simp: digests_ok_def dest: inj_onD)
  with y c show ?thesis by simp
qed

definition sampleObject :: Object where
  "sampleObject = putObjectAt sampleEnv ''b'' ''k'' sampleBody ''text/plain'' fmempty sampleBucketWorld"

definition sampleObjectWorld :: world where
  "sampleObjectWorld = sampleWorld 0 (fmupd (obj_File sampleObject) sampleBody fmempty) (emptySnapshot\<lparr>Buckets := fmupd ''b''
     \<lparr>bk_Name = ''b'', bk_CreatedAt = 0, bk_Objects = fmupd ''k'' sampleObject fmempty, bk_Notifications = []\<rparr> fmempty\<rparr>)"

lemma sampleObjectWorld_simps [simp]:
  "fmlookup (Buckets (w_data sampleObjectWorld)) ''b'' =
     Some \<lparr>bk_Name = ''b'', bk_CreatedAt = 0, bk_Objects = fmupd ''k'' sampleObject fmempty, bk_Notifications = []\<rparr>"
  "w_integrityMode sampleObjectWorld = IntegrityModeStrict"
  "w_objects sampleObjectWorld = fmupd (obj_File sampleObject) sampleBody fmempty"
  by (simp_all add: sampleObjectWorld_def)

lemma sampleObjectWorld_holds: "ok.holds sampleEnv sampleInputs sampleObjectWorld"
  unfolding sampleObjectWorld_def
proof (rule sample_holds)
  let ?objs = "fmupd (obj_File sampleObject) sampleBody fmempty"
  let ?d = "emptySnapshot\<lparr>Buckets := fmupd ''b'' \<lparr>bk_Name = ''b'', bk_CreatedAt = 0,
      bk_Objects = fmupd ''k'' sampleObject fmempty, bk_Notifications = []\<rparr> fmempty\<rparr>"
  have s: "storeOK sampleEnv sampleInputs 0 ?objs emptySnapshot" using sample_digests_ok by simp
  have nul: "CHR 0x00 \<notin> set ''s3''" "CHR 0x00 \<notin> set ''b''" by simp_all
  have "bodyOK sampleEnv sampleInputs ?objs ''s3'' ''b'' ''k'' (obj_File sampleObject) (obj_Size sampleObject) (obj_SHA256 sampleObject) ''''"
    using sample_hashable fileAt_bodyFile [OF sample_digests_ok sample_hashable nul]
    by (simp add: bodyOK_def sampleObject_def putObjectAt_def)
  then have "bodiesOK sampleEnv sampleInputs ?d ?objs"
    by (auto simp: bodiesOK_def emptySnapshot_def elim!: fileRefE split: if_splits)
  with s show "storeOK sampleEnv sampleInputs 0 ?objs ?d"
    by (auto simp: storeOK_def bucketsOK_def bucketOK_def uploadsOK_def emptySnapshot_def sampleObject_def putObjectAt_def)
qed (simp add: emptySnapshot_def)

theorem strict_read_detects_corruption_witness:
  "\<exists>w'. GetObject sampleEnv ''b'' ''k'' (sampleObjectWorld\<lparr>w_objects := w_objects sampleObjectWorld\<rparr>) =
       (Inr (sampleObject, sampleBody), w') \<and>
     fmlookup (w_objects sampleObjectWorld) (obj_File sampleObject) = Some sampleBody"
proof -
  let ?b = "\<lparr>bk_Name = ''b'', bk_CreatedAt = 0, bk_Objects = fmupd ''k'' sampleObject fmempty, bk_Notifications = []\<rparr>"
  have k: "fmlookup (bk_Objects ?b) ''k'' = Some sampleObject" by simp
  have same: "sampleObjectWorld\<lparr>w_objects := w_objects sampleObjectWorld\<rparr> = sampleObjectWorld" by (cases sampleObjectWorld) simp
  obtain body w' where g: "GetObject sampleEnv ''b'' ''k'' sampleObjectWorld = (Inr (sampleObject, body), w')"
    "fmlookup (w_objects sampleObjectWorld) (obj_File sampleObject) = Some body"
    by (rule GetObject_ok [OF sampleObjectWorld_holds sampleObjectWorld_simps(1) k]) (rule allI, rule notI, simp)
  from g(2) have "body = sampleBody" unfolding sampleObjectWorld_simps(3) by (simp del: sampleObjectWorld_simps)
  with g(1) have run: "GetObject sampleEnv ''b'' ''k'' (sampleObjectWorld\<lparr>w_objects := w_objects sampleObjectWorld\<rparr>) =
       (Inr (sampleObject, sampleBody), w')" unfolding same by simp
  have "sampleBody \<in> sampleInputs" by (simp add: sampleInputs_def)
  from strict_read_detects_corruption [OF sampleObjectWorld_holds sampleObjectWorld_simps(2,1) k run this] run
  show ?thesis by blast
qed

section \<open>Listing\<close>








section \<open>Completing a multipart upload\<close>

text \<open>What the checks on the named parts establish.\<close>

lemma selectParts_spec:
  assumes "selectParts parts prev rs = Inr ps"
  shows "map (\<lambda>r. fmlookup parts (cp_PartNumber r)) rs = map Some ps \<and> sorted_wrt (<) (prev # map cp_PartNumber rs) \<and>
    (\<forall>p \<in> set (butlast ps). minPartSize \<le> mp_Size p)"
  using assms
proof (induction parts prev rs arbitrary: ps rule: selectParts.induct)
  case (2 parts prev r rs)
  from 2(2) obtain p qs where p: "prev < cp_PartNumber r" "fmlookup parts (cp_PartNumber r) = Some p"
    "rs = [] \<or> minPartSize \<le> mp_Size p" "selectParts parts (cp_PartNumber r) rs = Inr qs" "ps = p # qs"
    "\<not> (\<not> equalFold (trimChar (CHR 0x22) (cp_ETag r)) (mp_ETag p))" "\<not> (rs \<noteq> [] \<and> mp_Size p < minPartSize)"
    by (auto split: if_splits option.splits sum.splits)
  have IH: "map (\<lambda>r. fmlookup parts (cp_PartNumber r)) rs = map Some qs"
    "sorted_wrt (<) (cp_PartNumber r # map cp_PartNumber rs)" "\<forall>p \<in> set (butlast qs). minPartSize \<le> mp_Size p"
    using "2.IH" [OF _ p(2,6,7,4)] p(1) by auto
  have "length rs = length qs" using arg_cong [OF IH(1), of length] by simp
  with p IH show ?case by (cases qs) (auto dest: less_trans)
qed simp

lemma read_no_panic: "openObjectFileForRead E f n w \<noteq> (Inl GoPanic, w')" "requireMatchingSHA256 a b \<noteq> Some GoPanic"
  by (auto simp: openObjectFileForRead_def requireMatchingSHA256_def simp del: runSys.simps
      split: prod.splits bool.splits option.splits if_splits)

lemma copyParts_no_panic: "copyParts E t ps c d w \<noteq> (Inl GoPanic, w')"
proof (induction ps arbitrary: c d w)
  case (Cons p ps)
  show ?case
    by (simp add: read_no_panic Cons del: runSys.simps split: prod.split sum.split bool.split option.split)
      (use read_no_panic(2) in blast)
qed simp
lemma saveLocked_no_panic: "saveLocked E w \<noteq> (Some GoPanic, w')"
  by (auto simp: saveLocked_def rollbackSaveLocked_def marshalError_def simp del: runSys.simps
      split: prod.splits bool.splits option.splits)

lemma complete_no_panic:
  assumes h: "ok.holds E S w"
  shows "CompleteMultipartUpload E bucket key u completed w \<noteq> (Inl GoPanic, w')"
proof (cases "findUpload bucket key u (w_data w)")
  case None
  then show ?thesis by (simp add: CompleteMultipartUpload_def)
next
  case fu: (Some up)
  from completing_upload [OF h fu] obtain b where b: "fmlookup (Buckets (w_data w)) bucket = Some b" by blast
  have sel: "selectParts parts prev rs \<noteq> Inl GoPanic" for parts prev rs
    by (induction parts prev rs rule: selectParts.induct) (auto split: if_splits option.splits sum.splits)
  have asm: "assembleParts E bucket key parts prev w \<noteq> (Inl GoPanic, w2)" for parts prev w2
    by (auto simp: assembleParts_def Let_def copyParts_no_panic simp del: runSys.simps
        split: prod.splits sum.splits bool.splits option.splits)
  have com: "commitBody E tidy prev f (v :: Object) w3 \<noteq> (Inl GoPanic, w')" for tidy prev f v w3
    using saveLocked_no_panic by (auto simp: commitBody_def split: prod.splits option.splits)
  show ?thesis
  proof (cases "completed \<noteq> [] \<and> (\<exists>parts. selectParts (mu_Parts up) 0 completed = Inr parts)")
    case True
    then obtain parts where ne: "completed \<noteq> []" and s: "selectParts (mu_Parts up) 0 completed = Inr parts" by blast
    show ?thesis unfolding CompleteMultipartUpload_eq [OF fu ne b s] Let_def
      using asm com by (auto split: prod.splits sum.splits)
  next
    case False
    with fu b sel show ?thesis
      by (auto simp: CompleteMultipartUpload_def Let_def split: sum.splits)
  qed
qed

text \<open>With no failing system call the parts of an intact upload are assembled.\<close>

definition partReadable :: "env \<Rightarrow> bytes gomap \<Rightarrow> MultipartPart \<Rightarrow> bool" where
  "partReadable E objs p \<longleftrightarrow> validSnapshotObjectName (mp_File p) \<and> hexDecode (mp_ETag p) \<noteq> None \<and>
     (\<exists>b. fmlookup objs (mp_File p) = Some b \<and> mp_Size p = int (length b) \<and>
        mp_SHA256 p = hexEncode (e_sha256 E b) \<and> e_sha256 E b \<noteq> [])"

lemma copyParts_no_fault:
  assumes "\<forall>i. \<not> e_fault E i" "\<forall>p \<in> set ps. partReadable E (w_objects w) p \<and> mp_File p \<noteq> t"
  shows "\<exists>r w'. copyParts E t ps c d w = (Inr r, w')"
  using assms(2)
proof (induction ps arbitrary: c d w)
  case (Cons p ps)
  from Cons.prems obtain b dg where b: "fmlookup (w_objects w) (mp_File p) = Some b" "mp_Size p = int (length b)"
    "mp_SHA256 p = hexEncode (e_sha256 E b)" "e_sha256 E b \<noteq> []" "hexDecode (mp_ETag p) = Some dg"
    "validSnapshotObjectName (mp_File p)" by (auto simp: partReadable_def)
  note nf = runSys_no_fault [OF assms(1)]
  have "\<exists>w1. openObjectFileForRead E (mp_File p) (mp_Size p) w = (Inr b, w1) \<and> w_objects w1 = w_objects w"
    using b(1,2,6) by (simp add: openObjectFileForRead_def nf del: runSys.simps)
  then obtain w1 where o: "openObjectFileForRead E (mp_File p) (mp_Size p) w = (Inr b, w1)" and w1: "w_objects w1 = w_objects w"
    by blast
  have "\<exists>w4. copyParts E t (p # ps) c d w = copyParts E t ps (c @ b) (d @ dg) w4 \<and> w_objects w4 = fmupd t (c @ b) (w_objects w)"
    using o w1 b by (simp add: writeTemp_def nf requireMatchingSHA256_def del: runSys.simps) (rule exI, rule conjI, rule refl, simp)
  then obtain w4 where step: "copyParts E t (p # ps) c d w = copyParts E t ps (c @ b) (d @ dg) w4"
    and w4: "w_objects w4 = fmupd t (c @ b) (w_objects w)" by blast
  have "\<forall>p \<in> set ps. partReadable E (w_objects w4) p \<and> mp_File p \<noteq> t"
    using Cons.prems by (auto simp: w4 partReadable_def)
  from Cons.IH [OF this] step show ?case by simp
qed simp

lemma assembleParts_no_fault:
  assumes nf: "\<forall>i. \<not> e_fault E i" and ps: "\<forall>p \<in> set ps. partReadable E (w_objects w) p \<and> \<not> isTemp (mp_File p)"
  shows "\<exists>r w'. assembleParts E bucket key ps previous w = (Inr r, w')"
proof -
  let ?t = "''.multipart-complete-'' @ e_tmp E (w_tmps w)"
  obtain w1 where ct: "createTemp E ''.multipart-complete-'' w = (Some ?t, w1)" "w_objects w1 = fmupd ?t [] (w_objects w)"
    using nf by (auto simp: createTemp_def runSys_no_fault Let_def simp del: runSys.simps)
  have "\<forall>p \<in> set ps. partReadable E (w_objects w1) p \<and> mp_File p \<noteq> ?t"
  proof
    fix p
    assume p: "p \<in> set ps"
    have "isTemp ?t" by simp
    with ps p have ne: "mp_File p \<noteq> ?t" by metis
    then have "fmlookup (w_objects w1) (mp_File p) = fmlookup (w_objects w) (mp_File p)" unfolding ct(2) by simp
    with ne ps p show "partReadable E (w_objects w1) p \<and> mp_File p \<noteq> ?t" by (simp add: partReadable_def)
  qed
  from copyParts_no_fault [OF nf this] obtain c d w2 where "copyParts E ?t ps [] [] w1 = (Inr (c, d), w2)" by fast
  with ct(1) nf show ?thesis
    by (simp add: assembleParts_def renameTemp_def runSys_no_fault Let_def del: runSys.simps)
qed

lemma holds_part_readable:
  assumes h: "ok.holds E S w" and up: "fmlookup (MultipartUploads (w_data w)) u = Some up"
    and p: "fmlookup (mu_Parts up) i = Some p"
  shows "partReadable E (w_objects w) p"
proof -
  have len: "length (e_sha256 E x) = 32" for x using holds_env [OF h] by (simp add: digests_ok_def)
  then have ne: "e_sha256 E x \<noteq> []" for x by (metis length_0_conv zero_neq_numeral)
  have "hexDecode (mp_ETag p) \<noteq> None" using holds_upload [OF h up] p by (auto simp: uploadOK_def partOK_def)
  with holds_refs [OF h fileRef.multipart [OF up p]] len ne show ?thesis
    by (auto simp: bodyOK_def partReadable_def generationObjectFile_valid)
qed

lemma CompleteMultipartUpload_no_fault:
  assumes h: "ok.holds E S w" and nf: "\<forall>i. \<not> e_fault E i"
    and fu: "findUpload bucket key u (w_data w) = Some up" and ne: "completed \<noteq> []"
    and sel: "selectParts (mu_Parts up) 0 completed = Inr parts"
    and hb: "hashable E S ''s3'' bucket key (partsContent (w_objects w) parts)"
  shows "\<exists>x w'. CompleteMultipartUpload E bucket key u completed w = (Inr x, w')"
proof -
  from completing_upload [OF h fu] obtain b where up: "fmlookup (MultipartUploads (w_data w)) u = Some up"
    and b: "fmlookup (Buckets (w_data w)) bucket = Some b" and nul: "CHR 0x00 \<notin> set bucket" by blast
  let ?prev = "map_option obj_File (fmlookup (bk_Objects b) key)"
  have old: "?prev = Some f \<longleftrightarrow> (\<exists>n hh c. fileRef (w_data w) ''s3'' bucket key f n hh c)" for f
    using b by (auto simp: fileRef_s3)
  note np = selected_not_temp [OF h up sel]
  have "\<forall>p \<in> set parts. partReadable E (w_objects w) p \<and> \<not> isTemp (mp_File p)"
    using np selectParts_mem [OF sel] holds_part_readable [OF h up] by blast
  from assembleParts_no_fault [OF nf this] obtain content digests w1 where
    as: "assembleParts E bucket key parts ?prev w = (Inr (content, digests), w1)" by fast
  have "ahead w w1" using assembleParts_spec(1) [OF h hb nul np old as] by blast
  then have "DynamoTables (w_data w1) = DynamoTables (w_data w)" by (simp add: ahead_def)
  then have "\<exists>w'. commitBody E tidy p f v (enterObject E ev bucket b key x (withoutUpload u w1)) = (Inr v, w')" for tidy p f ev x and v :: Object
    by (intro commitBody_no_fault [OF h nf]) (simp add: enterObject_tables)
  then show ?thesis unfolding CompleteMultipartUpload_eq [OF fu ne b sel] Let_def as
    by (simp only: prod.case sum.case) blast
qed
lemma complete_success:
  assumes h: "ok.holds E S w" and hyp: "completionHashable E S bucket key u completed w"
    and run: "CompleteMultipartUpload E bucket key u completed w = (Inr x, w')"
  obtains up parts where "findUpload bucket key u (w_data w) = Some up" "selectParts (mu_Parts up) 0 completed = Inr parts"
    "fmlookup (w_objects w') (obj_File x) = Some (partsContent (w_objects w) parts)"
    "obj_Size x = int (length (partsContent (w_objects w) parts))"
    "obj_ETag x = hexEncode (e_md5 E (partsDigests parts)) @ ''-'' @ showNat (length parts)"
    "fmlookup (MultipartUploads (w_data w')) u = None"
    "Option.bind (fmlookup (Buckets (w_data w')) bucket) (\<lambda>b. fmlookup (bk_Objects b) key) = Some x"
proof -
  from run obtain up where fu: "findUpload bucket key u (w_data w) = Some up" and ne: "completed \<noteq> []"
    by (auto simp: CompleteMultipartUpload_def split: option.splits if_splits)
  from completing_upload [OF h fu] obtain b where up: "fmlookup (MultipartUploads (w_data w)) u = Some up"
    and b: "fmlookup (Buckets (w_data w)) bucket = Some b" and nul: "CHR 0x00 \<notin> set bucket" by blast
  from run fu ne b obtain parts where sel: "selectParts (mu_Parts up) 0 completed = Inr parts"
    by (auto simp: CompleteMultipartUpload_def Let_def split: sum.splits)
  let ?prev = "map_option obj_File (fmlookup (bk_Objects b) key)"
  have old: "?prev = Some f \<longleftrightarrow> (\<exists>n hh c. fileRef (w_data w) ''s3'' bucket key f n hh c)" for f
    using b by (auto simp: fileRef_s3)
  have hb: "hashable E S ''s3'' bucket key (partsContent (w_objects w) parts)"
    using hyp fu sel by (auto simp: completionHashable_def)
  from run obtain content digests w1 where as: "assembleParts E bucket key parts ?prev w = (Inr (content, digests), w1)"
    and c: "commitBody E (tidyUpload E up) ?prev (bodyFile E ''s3'' bucket key content)
      (completedObjectAt E bucket key up parts content digests w1)
      (enterObject E ''ObjectCreated:CompleteMultipartUpload'' bucket b key
        (completedObjectAt E bucket key up parts content digests w1) (withoutUpload u w1)) = (Inr x, w')"
    unfolding CompleteMultipartUpload_eq [OF fu ne b sel] Let_def by (auto split: prod.splits sum.splits)
  have asp: "content = partsContent (w_objects w) parts" "digests = partsDigests parts"
    using assembleParts_spec(2) [OF h hb nul selected_not_temp [OF h up sel] old as] by auto
  have tidy: "objectsOnly w5 (tidyUpload E up p f w5)" for p f w5
    unfolding tidyUpload_def
    by (rule objectsOnly_trans [OF objectsOnly_trans [OF removeFiles_objectsOnly tidy_objectsOnly(1)] conjunct1 [OF sysDone_objectsOnly]])
  note r = commitBody_Inr [OF c tidy]
  obtain qs where d: "w_data w' = (w_data w1)\<lparr>MultipartUploads := fmdrop u (MultipartUploads (w_data w1)),
      Buckets := fmupd bucket (b\<lparr>bk_Objects := fmupd key x (bk_Objects b)\<rparr>) (Buckets (w_data w1)), Queues := qs\<rparr>"
    unfolding r(2) r(1) [symmetric]
    by (rule enterObject_world [of E "''ObjectCreated:CompleteMultipartUpload''" bucket b key x "withoutUpload u w1"]) simp
  have h': "ok.holds E S w'" using CompleteMultipartUpload_outcome [OF h hyp] run by (simp add: ok.outcome_def)
  have b': "fmlookup (Buckets (w_data w')) bucket = Some (b\<lparr>bk_Objects := fmupd key x (bk_Objects b)\<rparr>)"
    and x': "fmlookup (bk_Objects (b\<lparr>bk_Objects := fmupd key x (bk_Objects b)\<rparr>)) key = Some x" by (simp_all add: d)
  have "fmlookup (w_objects w') (obj_File x) = Some content"
    using bodyOK_body [OF holds_env [OF h]] holds_object_body [OF h' b' x'] hb
    by (simp add: hashable_def r(1) completedObjectAt_def asp)
  with b' show thesis
    by (intro that [OF fu sel]) (simp_all add: r(1) completedObjectAt_def asp d)
qed

text \<open>The object \<open>x\<close> was assembled from the named parts of an upload.\<close>

definition assembledFrom ::
  "env \<Rightarrow> bytes gomap \<Rightarrow> MultipartUpload \<Rightarrow> CompletedMultipartPart list \<Rightarrow> bytes gomap \<Rightarrow> Object \<Rightarrow> bool" where
  "assembledFrom E objs up completed objs' x \<longleftrightarrow>
     sorted_wrt (<) (map cp_PartNumber completed) \<and>
     (\<exists>parts. map (\<lambda>c. fmlookup (mu_Parts up) (cp_PartNumber c)) completed = map Some parts \<and>
        (\<forall>p \<in> set (butlast parts). minPartSize \<le> mp_Size p) \<and>
        fmlookup objs' (obj_File x) = Some (partsContent objs parts) \<and>
        obj_Size x = int (length (partsContent objs parts)) \<and>
        obj_ETag x = hexEncode (e_md5 E (partsDigests parts)) @ ''-'' @ showNat (length completed))"

text \<open>
  C9. Completing a multipart upload never panics. When it succeeds, the parts the client named had
  strictly ascending numbers, each was an uploaded part, all but the last had at least 5 MiB, and the
  object now stored under the key has as its body exactly the bodies of these parts one after the
  other, with the combined ETag; the upload is gone. It succeeds whenever no system call fails and the
  named parts pass these checks.
\<close>

theorem multipart_complete_concatenates:
  assumes h: "ok.holds E S w" and hyp: "completionHashable E S bucket key u completed w"
    and run: "CompleteMultipartUpload E bucket key u completed w = (r, w')"
  shows "r \<noteq> Inl GoPanic \<and>
    (\<forall>x. r = Inr x \<longrightarrow> (\<exists>up. findUpload bucket key u (w_data w) = Some up \<and>
       assembledFrom E (w_objects w) up completed (w_objects w') x) \<and>
       fmlookup (MultipartUploads (w_data w')) u = None \<and>
       Option.bind (fmlookup (Buckets (w_data w')) bucket) (\<lambda>b. fmlookup (bk_Objects b) key) = Some x) \<and>    ((\<forall>i. \<not> e_fault E i) \<and> completed \<noteq> [] \<and> (\<exists>up parts. findUpload bucket key u (w_data w) = Some up \<and>
       selectParts (mu_Parts up) 0 completed = Inr parts) \<longrightarrow> (\<exists>x. r = Inr x))"
proof -
  have "r \<noteq> Inl GoPanic" using complete_no_panic [OF h] run by metis
  moreover have "\<exists>x. r = Inr x" if "\<forall>i. \<not> e_fault E i" "completed \<noteq> []"
      "findUpload bucket key u (w_data w) = Some up" "selectParts (mu_Parts up) 0 completed = Inr parts" for up parts
    using CompleteMultipartUpload_no_fault [OF h that(1,3,2,4)] hyp that(3,4) run by (auto simp: completionHashable_def)
  moreover have "(\<exists>up. findUpload bucket key u (w_data w) = Some up \<and> assembledFrom E (w_objects w) up completed (w_objects w') x) \<and>
       fmlookup (MultipartUploads (w_data w')) u = None \<and>
       Option.bind (fmlookup (Buckets (w_data w')) bucket) (\<lambda>b. fmlookup (bk_Objects b) key) = Some x" if r: "r = Inr x" for x
  proof -
    obtain up parts where c: "findUpload bucket key u (w_data w) = Some up" "selectParts (mu_Parts up) 0 completed = Inr parts"
      "fmlookup (w_objects w') (obj_File x) = Some (partsContent (w_objects w) parts)"
      "obj_Size x = int (length (partsContent (w_objects w) parts))"
      "obj_ETag x = hexEncode (e_md5 E (partsDigests parts)) @ ''-'' @ showNat (length parts)"
      "fmlookup (MultipartUploads (w_data w')) u = None"
      "Option.bind (fmlookup (Buckets (w_data w')) bucket) (\<lambda>b. fmlookup (bk_Objects b) key) = Some x"
      by (rule complete_success [OF h hyp run [unfolded r]])
    note s = selectParts_spec [OF c(2)]
    have "length parts = length completed" using arg_cong [OF conjunct1 [OF s], of length] by simp
    with s c(3,4,5) have "assembledFrom E (w_objects w) up completed (w_objects w') x"
      unfolding assembledFrom_def by (intro conjI exI [of _ parts]) simp_all
    with c show ?thesis by blast
  qed
  ultimately show ?thesis by blast
qed
text \<open>A sample upload with one part.\<close>

definition samplePart :: MultipartPart where
  "samplePart = \<lparr>mp_PartNumber = 1, mp_ETag = hexEncode (e_md5 sampleEnv sampleBody), mp_SHA256 = hexEncode (sampleDigest 1),
     mp_Size = 2, mp_LastModified = 0, mp_File = bodyFile sampleEnv ''multipart'' sampleUploadID ''1'' sampleBody\<rparr>"

definition sampleUpload :: MultipartUpload where
  "sampleUpload = \<lparr>mu_ID = sampleUploadID, mu_Bucket = ''b'', mu_Key = ''k'', mu_CreatedAt = 0, mu_ContentType = '''',
     mu_Metadata = fmempty, mu_Parts = fmupd 1 samplePart fmempty\<rparr>"

definition sampleUploadWorld :: world where
  "sampleUploadWorld = sampleWorld 1 (fmupd (mp_File samplePart) sampleBody fmempty) (emptySnapshot\<lparr>Buckets := fmupd ''b''
     \<lparr>bk_Name = ''b'', bk_CreatedAt = 0, bk_Objects = fmempty, bk_Notifications = []\<rparr> fmempty,
     MultipartUploads := fmupd sampleUploadID sampleUpload fmempty\<rparr>)"

lemma sample_part_hashable: "hashable sampleEnv sampleInputs ''multipart'' sampleUploadID ''1'' sampleBody"
  by (simp add: hashable_def sampleInputs_def samplePartPreimage_def)

lemma sampleUploadWorld_holds: "ok.holds sampleEnv sampleInputs sampleUploadWorld"
  unfolding sampleUploadWorld_def
proof (rule sample_holds)
  let ?objs = "fmupd (mp_File samplePart) sampleBody fmempty"
  let ?d = "emptySnapshot\<lparr>Buckets := fmupd ''b'' \<lparr>bk_Name = ''b'', bk_CreatedAt = 0, bk_Objects = fmempty, bk_Notifications = []\<rparr> fmempty,
     MultipartUploads := fmupd sampleUploadID sampleUpload fmempty\<rparr>"
  have s: "storeOK sampleEnv sampleInputs 1 ?objs emptySnapshot" using sample_digests_ok by simp
  have nul: "CHR 0x00 \<notin> set ''multipart''" "CHR 0x00 \<notin> set sampleUploadID"
    using mint_no_nul [of sampleEnv 0] by (simp_all add: sample_mint)
  have one: "showInt 1 = ''1''" by code_simp
  have "bodyOK sampleEnv sampleInputs ?objs ''multipart'' sampleUploadID ''1'' (mp_File samplePart) (mp_Size samplePart) (mp_SHA256 samplePart) ''''"
    using sample_part_hashable fileAt_bodyFile [OF sample_digests_ok sample_part_hashable nul]
    by (simp add: bodyOK_def samplePart_def) (simp add: sampleBody_def)
  then have b: "bodiesOK sampleEnv sampleInputs ?d ?objs"
    by (auto simp: bodiesOK_def emptySnapshot_def sampleUpload_def one elim!: fileRefE split: if_splits)
  have "uploadOK sampleEnv 1 (Buckets ?d) sampleUploadID sampleUpload"
    using sample_mint by (auto simp: uploadOK_def sampleUpload_def partOK_def samplePart_def hexDecode_hexEncode intro!: exI [of _ 0])
  then have "uploadsOK sampleEnv 1 (Buckets ?d) (MultipartUploads ?d)" by (simp add: uploadsOK_def emptySnapshot_def)
  with s b show "storeOK sampleEnv sampleInputs 1 ?objs ?d"
    by (simp add: storeOK_def) (simp add: emptySnapshot_def bucketsOK_def bucketOK_def)
qed (simp add: emptySnapshot_def)

lemma sample_part_etag: "trimChar (CHR 0x22) (mp_ETag samplePart) = mp_ETag samplePart"
  unfolding samplePart_def sampleEnv_def by simp code_simp

theorem multipart_complete_concatenates_witness:
  "\<exists>x w'. CompleteMultipartUpload sampleEnv ''b'' ''k'' sampleUploadID
       [\<lparr>cp_PartNumber = 1, cp_ETag = mp_ETag samplePart\<rparr>] sampleUploadWorld = (Inr x, w') \<and>
     fmlookup (w_objects w') (obj_File x) = Some sampleBody"
proof -
  let ?c = "[\<lparr>cp_PartNumber = 1, cp_ETag = mp_ETag samplePart\<rparr>]"
  have fu: "findUpload ''b'' ''k'' sampleUploadID (w_data sampleUploadWorld) = Some sampleUpload"
    by (simp add: findUpload_def sampleUploadWorld_def sampleUpload_def)
  have sel: "selectParts (mu_Parts sampleUpload) 0 ?c = Inr [samplePart]"
    by (simp add: sampleUpload_def sample_part_etag)
  have pc: "partsContent (w_objects sampleUploadWorld) [samplePart] = sampleBody"
    by (simp add: partsContent_def sampleUploadWorld_def)
  have hyp: "completionHashable sampleEnv sampleInputs ''b'' ''k'' sampleUploadID ?c sampleUploadWorld"
    using fu sel pc sample_hashable by (auto simp: completionHashable_def)
  obtain r w' where run: "CompleteMultipartUpload sampleEnv ''b'' ''k'' sampleUploadID ?c sampleUploadWorld = (r, w')" by fastforce
  note m = multipart_complete_concatenates [OF sampleUploadWorld_holds hyp run]
  with fu sel obtain x where x: "r = Inr x" by auto
  with m fu have "assembledFrom sampleEnv (w_objects sampleUploadWorld) sampleUpload ?c (w_objects w') x" by auto
  then obtain parts where "map (\<lambda>c. fmlookup (mu_Parts sampleUpload) (cp_PartNumber c)) ?c = map Some parts"
    "fmlookup (w_objects w') (obj_File x) = Some (partsContent (w_objects sampleUploadWorld) parts)"
    unfolding assembledFrom_def by blast
  moreover from this have "parts = [samplePart]" by (auto simp: sampleUpload_def)
  ultimately show ?thesis using run x pc by auto
qed

section \<open>Deleting a bucket\<close>

lemma uploads_in_bucket:
  "list_ex (\<lambda>u. mu_Bucket u = name) (fmvalues ups) \<longleftrightarrow> (\<exists>i u. fmlookup ups i = Some u \<and> mu_Bucket u = name)"
  by (auto simp: list_ex_iff set_fmvalues)

text \<open>
  A bucket can be deleted only when it is empty: \<open>DeleteBucket\<close> fails with "bucket not empty" when the
  bucket has an object or an unfinished upload, and then changes nothing. When it succeeds the bucket is
  gone, it had neither, and no other bucket is affected.
\<close>

theorem delete_bucket_only_empty:
  assumes h: "ok.holds E S w" and b: "fmlookup (Buckets (w_data w)) name = Some b"
    and run: "DeleteBucket E name w = (r, w')"
  shows "if bk_Objects b \<noteq> fmempty \<or> (\<exists>i u. fmlookup (MultipartUploads (w_data w)) i = Some u \<and> mu_Bucket u = name)
    then r = Inl ErrBucketNotEmpty \<and> w' = w
    else (case r of Inr u \<Rightarrow> w_data w' = (w_data w)\<lparr>Buckets := fmdrop name (Buckets (w_data w))\<rparr> \<and> diskState w' = w_data w'
          | Inl e \<Rightarrow> sameLive (w_data w') (w_data w) \<and> diskState w' = diskState w)"
proof (cases "bk_Objects b \<noteq> fmempty \<or> (\<exists>i u. fmlookup (MultipartUploads (w_data w)) i = Some u \<and> mu_Bucket u = name)")
  case True
  then show ?thesis using run b by (auto simp: DeleteBucket_def fmnull_iff uploads_in_bucket split: if_splits)
next
  case False
  then have sv: "saveThen E () (mutate (\<lambda>d. d\<lparr>Buckets := fmdrop name (Buckets d)\<rparr>) w) = (r, w')"
    using run b by (auto simp: DeleteBucket_def fmnull_iff uploads_in_bucket split: if_splits)
  show ?thesis
  proof (cases r)
    case (Inr u)
    note f = saved_Inr [OF h sv [unfolded Inr]]
    show ?thesis unfolding if_not_P [OF False] using f Inr by simp
  next
    case (Inl e)
    with DeleteBucket.atomic [OF h run [unfolded Inl]] DeleteBucket.failed_restart [OF h run [unfolded Inl]]
    show ?thesis unfolding if_not_P [OF False] by simp
  qed
qed

theorem delete_bucket_only_empty_witness:
  "DeleteBucket sampleEnv ''b'' sampleUploadWorld = (Inl ErrBucketNotEmpty, sampleUploadWorld)"
proof -
  obtain r w' where run: "DeleteBucket sampleEnv ''b'' sampleUploadWorld = (r, w')" by fastforce
  have b: "fmlookup (Buckets (w_data sampleUploadWorld)) ''b'' =
      Some \<lparr>bk_Name = ''b'', bk_CreatedAt = 0, bk_Objects = fmempty, bk_Notifications = []\<rparr>"
    and u: "fmlookup (MultipartUploads (w_data sampleUploadWorld)) sampleUploadID = Some sampleUpload" "mu_Bucket sampleUpload = ''b''"
    by (simp_all add: sampleUploadWorld_def sampleUpload_def)
  from delete_bucket_only_empty [OF sampleUploadWorld_holds b run] u run show ?thesis by (auto split: if_splits)
qed

section \<open>Notifications\<close>

text \<open>The notifications of a bucket that send to a queue for an object created.\<close>

definition notificationsFor :: "Object \<Rightarrow> string \<Rightarrow> string \<Rightarrow> Notification list \<Rightarrow> Notification list" where
  "notificationsFor x eventName qn ns = filter (\<lambda>n. notificationApplies x eventName n \<and> notificationQueue n = qn) ns"

lemma notifyOne_queue:
  assumes "fmlookup (Queues (w_data w)) qn = Some q"
  shows "\<exists>q' new. fmlookup (Queues (w_data (notifyOne E bn x ev n w))) qn = Some q' \<and>
    q_Messages q' = q_Messages q @ new \<and> length new = length (notificationsFor x ev qn [n]) \<and>
    (\<forall>m \<in> set new. msg_ReceiptHandle m = '''' \<and> msg_ReceiveCount m = 0)"
proof (cases "notificationApplies x ev n \<and> fmlookup (Queues (w_data w)) (notificationQueue n) \<noteq> None")
  case False
  with assms have "notifyOne E bn x ev n w = w" "notificationsFor x ev qn [n] = []"
    by (auto simp: notifyOne_def notificationsFor_def)
  with assms show ?thesis by simp
next
  case True
  then obtain q0 where q0: "fmlookup (Queues (w_data w)) (notificationQueue n) = Some q0" and ap: "notificationApplies x ev n"
    by auto
  then show ?thesis using assms
    by (cases "notificationQueue n = qn")
      (auto simp: notifyOne_def notificationsFor_def now_def newID_def enqueueLocked_def enqueueMessageLocked_def Let_def)
qed

lemma notifyAll_queue:
  assumes "fmlookup (Queues (w_data w)) qn = Some q"
  shows "\<exists>q' new. fmlookup (Queues (w_data (fold (notifyOne E bn x ev) ns w))) qn = Some q' \<and>
    q_Messages q' = q_Messages q @ new \<and> length new = length (notificationsFor x ev qn ns) \<and>
    (\<forall>m \<in> set new. msg_ReceiptHandle m = '''' \<and> msg_ReceiveCount m = 0)"
  using assms
proof (induction ns arbitrary: w q)
  case (Cons n ns)
  from notifyOne_queue [OF Cons.prems] obtain q1 new1 where
    1: "fmlookup (Queues (w_data (notifyOne E bn x ev n w))) qn = Some q1" "q_Messages q1 = q_Messages q @ new1"
      "length new1 = length (notificationsFor x ev qn [n])" "\<forall>m \<in> set new1. msg_ReceiptHandle m = '''' \<and> msg_ReceiveCount m = 0"
    by blast
  from Cons.IH [OF 1(1)] obtain q2 new2 where
    2: "fmlookup (Queues (w_data (fold (notifyOne E bn x ev) (n # ns) w))) qn = Some q2" "q_Messages q2 = q_Messages q1 @ new2"
      "length new2 = length (notificationsFor x ev qn ns)" "\<forall>m \<in> set new2. msg_ReceiptHandle m = '''' \<and> msg_ReceiveCount m = 0"
    by auto
  have "length (new1 @ new2) = length (notificationsFor x ev qn (n # ns))"
    using 1(3) 2(3) by (simp add: notificationsFor_def split: if_splits)
  with 1 2 show ?case by (intro exI [of _ q2] exI [of _ "new1 @ new2"]) auto
qed (auto simp: notificationsFor_def)

text \<open>
  C35. Object notifications. A successful \<open>PutObject\<close> appends to every queue exactly one fresh message per
  notification of the bucket that names the queue and whose events, prefix and suffix match the object,
  in the same commit as the object itself, and keeps the messages that were there. Notifications that
  name a queue deleted meanwhile are skipped.
\<close>

theorem put_notifies_queues:
  assumes h: "ok.holds E S w" and hb: "hashable E S ''s3'' bucket key body"
    and run: "PutObject E bucket key body ct md w = (Inr x, w')"
    and b: "fmlookup (Buckets (w_data w)) bucket = Some b" and q: "fmlookup (Queues (w_data w)) qn = Some q"
  shows "\<exists>q' new. fmlookup (Queues (w_data w')) qn = Some q' \<and> q_Messages q' = q_Messages q @ new \<and>
    length new = length (notificationsFor x ''ObjectCreated:Put'' qn (bk_Notifications b)) \<and>
    (\<forall>m \<in> set new. msg_ReceiptHandle m = '''' \<and> msg_ReceiveCount m = 0) \<and>
    map_option q_Messages (fmlookup (Queues (diskState w')) qn) = Some (q_Messages q @ new)"
proof -
  obtain b0 w1 where b0: "fmlookup (Buckets (w_data w)) bucket = Some b0" and o: "objectsOnly w w1"
    and d0: "w_data w' = w_data (enterObject E ''ObjectCreated:Put'' bucket b0 key x w1)"
    by (rule PutObject_success [OF run])
  note d = d0 [unfolded option.inject [THEN iffD1, OF trans [OF b0 [symmetric] b]]]
  let ?w = "w1\<lparr>w_clock := Suc (w_clock w1), w_data := (w_data w1)\<lparr>Buckets :=
    fmupd bucket (b\<lparr>bk_Objects := fmupd key x (bk_Objects b)\<rparr>) (Buckets (w_data w1))\<rparr>\<rparr>"
  have "fmlookup (Queues (w_data ?w)) qn = Some q" using q o by (simp add: objectsOnly_def)
  from notifyAll_queue [OF this, of E "bk_Name b" x "''ObjectCreated:Put''" "bk_Notifications b"]
  obtain q' new where n: "fmlookup (Queues (w_data w')) qn = Some q'" "q_Messages q' = q_Messages q @ new"
    "length new = length (notificationsFor x ''ObjectCreated:Put'' qn (bk_Notifications b))"
    "\<forall>m \<in> set new. msg_ReceiptHandle m = '''' \<and> msg_ReceiveCount m = 0"
    unfolding d enterObject_def Let_def by blast
  have "sameLive (diskState w') (w_data w')" using PutObject.restart_agrees [OF conjI [OF h hb] run] .
  from sameLive_queue [OF this, of qn] n(1) obtain q2 where
    "fmlookup (Queues (diskState w')) qn = Some q2" "q2\<lparr>q_Deduplication := fmempty\<rparr> = q'\<lparr>q_Deduplication := fmempty\<rparr>" by auto
  moreover from this(2) have "q_Messages q2 = q_Messages q'" by (metis Queue_of.select_convs(4) Queue_of.surjective Queue_of.update_convs(5))
  ultimately show ?thesis using n by auto
qed

definition sampleNotification :: Notification where
  "sampleNotification = \<lparr>nt_ID = ''n'', nt_QueueARN = ''arn:aws:sqs:us-east-1:000000000000:q'',
     nt_Events = [''s3:ObjectCreated:*''], nt_Prefix = '''', nt_Suffix = ''''\<rparr>"

definition sampleNotifyWorld :: world where
  "sampleNotifyWorld = sampleWorld 0 fmempty (emptySnapshot\<lparr>Queues := fmupd ''q'' (sampleQueue ''q'' []) fmempty, Buckets := fmupd ''b''
     \<lparr>bk_Name = ''b'', bk_CreatedAt = 0, bk_Objects = fmempty, bk_Notifications = [sampleNotification]\<rparr> fmempty\<rparr>)"

lemma sampleNotifyWorld_simps [simp]:
  "fmlookup (Buckets (w_data sampleNotifyWorld)) ''b'' =
     Some \<lparr>bk_Name = ''b'', bk_CreatedAt = 0, bk_Objects = fmempty, bk_Notifications = [sampleNotification]\<rparr>"
  "fmlookup (Queues (w_data sampleNotifyWorld)) ''q'' = Some (sampleQueue ''q'' [])"
  "DynamoTables (w_data sampleNotifyWorld) = fmempty"
  by (simp_all add: sampleNotifyWorld_def emptySnapshot_def)

lemma sampleNotifyWorld_holds: "ok.holds sampleEnv sampleInputs sampleNotifyWorld"
  unfolding sampleNotifyWorld_def
proof (rule sample_holds)
  have "storeOK sampleEnv sampleInputs 0 fmempty emptySnapshot" using sample_digests_ok by simp
  moreover have "queueOK sampleEnv 0 ''q'' (sampleQueue ''q'' [])"
    using sampleQueue_OK [of "[]" "''q''"] by (simp add: queueOK_def receiptsBelow_def liveReceipts_def)
  ultimately show "storeOK sampleEnv sampleInputs 0 fmempty (emptySnapshot\<lparr>Queues := fmupd ''q'' (sampleQueue ''q'' []) fmempty,
     Buckets := fmupd ''b'' \<lparr>bk_Name = ''b'', bk_CreatedAt = 0, bk_Objects = fmempty, bk_Notifications = [sampleNotification]\<rparr> fmempty\<rparr>)"
    by (auto simp: storeOK_def queuesOK_def bucketsOK_def bucketOK_def bodiesOK_def emptySnapshot_def uploadsOK_def
        elim!: fileRefE split: if_splits)
qed (simp add: emptySnapshot_def)

lemma sample_notification_for: "notificationsFor x ''ObjectCreated:Put'' ''q'' [sampleNotification] = [sampleNotification]"
proof -
  have "notificationQueue sampleNotification = ''q''" unfolding sampleNotification_def by code_simp
  then show ?thesis
    by (simp add: notificationsFor_def notificationApplies_def matchesObjectCreated_def hasPrefix_def hasSuffix_def)
      (simp add: sampleNotification_def)
qed

theorem put_notifies_queues_witness:
  "\<exists>x w' q' m. PutObject sampleEnv ''b'' ''k'' sampleBody '''' fmempty sampleNotifyWorld = (Inr x, w') \<and>
     fmlookup (Queues (w_data w')) ''q'' = Some q' \<and> q_Messages q' = [m]"
proof -
  from PutObject_no_fault [OF sampleNotifyWorld_holds _ sampleNotifyWorld_simps(1)] sample_no_fault obtain x w' where
    run: "PutObject sampleEnv ''b'' ''k'' sampleBody '''' fmempty sampleNotifyWorld = (Inr x, w')" by blast
  from put_notifies_queues [OF sampleNotifyWorld_holds sample_hashable run sampleNotifyWorld_simps(1,2)]
  obtain q' new where q': "fmlookup (Queues (w_data w')) ''q'' = Some q'" "q_Messages q' = new" "length new = 1"
    by (auto simp: sample_notification_for)
  then obtain m where "new = [m]" by (auto simp: length_Suc_conv)
  with run q' show ?thesis by blast
qed

lemma readObjectBody_content:
  assumes "readObjectBody E f n h w = (Inr b, w')"
  shows "fmlookup (w_objects w) f = Some b"
proof -
  have *: "fmlookup (w_objects w) f = Some c" if "openObjectFileForRead E f n w = (Inr c, w1)" for c w1
    using openObjectFileForRead_frame [OF that] by blast
  show ?thesis using assms unfolding readObjectBody_def
    by (auto simp del: runSys.simps split: if_splits prod.splits bool.splits option.splits sum.splits
        dest!: * runSys_objectsOnly)
qed

section \<open>The object store as a map\<close>

text \<open>
  The abstract content of the object store: a partial map from places to bodies. Under the invariant it is
  determined by the metadata alone, because the recorded SHA-256 determines the body.
\<close>

definition objectMap :: "world \<Rightarrow> string \<times> string \<Rightarrow> bytes option" where
  "objectMap w = (\<lambda>(bucket, key). Option.bind (Option.bind (fmlookup (Buckets (w_data w)) bucket) (\<lambda>b. fmlookup (bk_Objects b) key))
     (\<lambda>x. fmlookup (w_objects w) (obj_File x)))"

definition objectAt :: "snapshot \<Rightarrow> string \<Rightarrow> string \<Rightarrow> Object option" where
  "objectAt d bucket key = Option.bind (fmlookup (Buckets d) bucket) (\<lambda>b. fmlookup (bk_Objects b) key)"

lemma objectMap_at:
  "objectMap w (bucket, key) = Option.bind (objectAt (w_data w) bucket key) (\<lambda>x. fmlookup (w_objects w) (obj_File x))"
  by (simp only: objectMap_def objectAt_def prod.case)

lemma objectAt_body:
  assumes "ok.holds E S w" "objectAt (w_data w) bucket key = Some x"
  obtains c where "objectMap w (bucket, key) = Some c" "obj_SHA256 x = hexEncode (e_sha256 E c)" "c \<in> S"
proof -
  from assms(2) obtain b where "fmlookup (Buckets (w_data w)) bucket = Some b" "fmlookup (bk_Objects b) key = Some x"
    by (auto simp: objectAt_def split: Option.bind_splits)
  with holds_object_body [OF assms(1) this] that show thesis
    by (auto simp: objectMap_def bodyOK_def hashable_def)
qed

lemma objectMap_same:
  assumes h: "ok.holds E S w" "ok.holds E S w'" and eq: "objectAt (w_data w') bucket key = objectAt (w_data w) bucket key"
  shows "objectMap w' (bucket, key) = objectMap w (bucket, key)"
proof (cases "objectAt (w_data w) bucket key")
  case None
  with eq show ?thesis by (simp add: objectMap_at)
next
  case (Some x)
  obtain c where c: "objectMap w (bucket, key) = Some c" "obj_SHA256 x = hexEncode (e_sha256 E c)" "c \<in> S"
    by (rule objectAt_body [OF h(1) Some])
  obtain c' where c': "objectMap w' (bucket, key) = Some c'" "obj_SHA256 x = hexEncode (e_sha256 E c')" "c' \<in> S"
    by (rule objectAt_body [OF h(2)]) (use eq Some in simp_all)
  have "c = c'" using c c' holds_env [OF h(1)] by (auto simp: hexEncode_inj digests_ok_def dest: inj_onD)
  with c c' show ?thesis by simp
qed

lemma objectMap_update:
  assumes h: "ok.holds E S w" "ok.holds E S w'"
    and eq: "\<And>ob ok. (ob, ok) \<noteq> (bucket, key) \<Longrightarrow> objectAt (w_data w') ob ok = objectAt (w_data w) ob ok"
    and at: "objectMap w' (bucket, key) = v"
  shows "objectMap w' = (objectMap w)((bucket, key) := v)"
proof
  fix p :: "string \<times> string"
  show "objectMap w' p = ((objectMap w)((bucket, key) := v)) p"
  proof (cases "p = (bucket, key)")
    case True
    with at show ?thesis by simp
  next
    case False
    obtain ob ok where p: "p = (ob, ok)" by fastforce
    with False have "(ob, ok) \<noteq> (bucket, key)" by simp
    from objectMap_same [OF h eq [OF this]] show ?thesis unfolding p fun_upd_other [OF \<open>(ob, ok) \<noteq> (bucket, key)\<close>] .
  qed
qed

lemma objectMap_sameLive:
  assumes "ok.holds E S w" "ok.holds E S w'" "sameLive (w_data w') (w_data w)"
  shows "objectMap w' = objectMap w"
proof
  fix p :: "string \<times> string"
  have "objectAt (w_data w') b k = objectAt (w_data w) b k" for b k
    using assms(3) by (simp add: objectAt_def sameLive_fields)
  then show "objectMap w' p = objectMap w p" using objectMap_same [OF assms(1,2)] by (cases p) simp
qed

lemma put_refines:
  assumes h: "ok.holds E S w" and hb: "hashable E S ''s3'' bucket key body"
    and run: "PutObject E bucket key body ct md w = (r, w')"
  shows "objectMap w' = (case r of Inr x \<Rightarrow> (objectMap w)((bucket, key) \<mapsto> body) | Inl e \<Rightarrow> objectMap w)"
proof (cases r)
  case (Inl e)
  with PutObject.keeps [OF conjI [OF h hb] run] PutObject.atomic [OF conjI [OF h hb] run [unfolded Inl]] show ?thesis
    by (simp add: objectMap_sameLive [OF h])
next
  case (Inr x)
  obtain b w1 qs where b: "fmlookup (Buckets (w_data w)) bucket = Some b" and x: "x = putObjectAt E bucket key body ct md w1"
    and d: "w_data w' = (w_data w)\<lparr>Buckets := fmupd bucket (b\<lparr>bk_Objects := fmupd key x (bk_Objects b)\<rparr>) (Buckets (w_data w)), Queues := qs\<rparr>"
    by (rule PutObject_success [OF run [unfolded Inr]])
  have h': "ok.holds E S w'" using PutObject.keeps [OF conjI [OF h hb] run] by blast
  have "objectAt (w_data w') bucket key = Some x" by (simp add: d objectAt_def)
  then obtain c where c: "objectMap w' (bucket, key) = Some c" "obj_SHA256 x = hexEncode (e_sha256 E c)" "c \<in> S"
    by (rule objectAt_body [OF h'])
  have "c = body" using c(2,3) hb holds_env [OF h]
    by (auto simp: x putObjectAt_def hexEncode_inj hashable_def digests_ok_def dest: inj_onD)
  with c(1) have put: "objectMap w' (bucket, key) = Some body" by simp
  have "objectAt (w_data w') ob ok = objectAt (w_data w) ob ok" if "(ob, ok) \<noteq> (bucket, key)" for ob ok
    using b that by (auto simp: d objectAt_def)
  from objectMap_update [OF h h' this put] Inr show ?thesis by simp
qed

lemma delete_refines:
  assumes h: "ok.holds E S w" and run: "DeleteObject E bucket key w = (r, w')"
  shows "objectMap w' = (case r of Inr x \<Rightarrow> (objectMap w)((bucket, key) := None) | Inl e \<Rightarrow> objectMap w)"
proof (cases r)
  case (Inl e)
  with DeleteObject.keeps [OF h run] DeleteObject.atomic [OF h run [unfolded Inl]] show ?thesis
    by (simp add: objectMap_sameLive [OF h])
next
  case (Inr u)
  have h': "ok.holds E S w'" using DeleteObject.keeps [OF h run] .
  from run Inr obtain b where b: "fmlookup (Buckets (w_data w)) bucket = Some b"
    by (auto simp: DeleteObject_def split: option.splits)
  have at: "objectAt (w_data w') ob ok = (if (ob, ok) = (bucket, key) then None else objectAt (w_data w) ob ok)" for ob ok
  proof (cases "fmlookup (bk_Objects b) key")
    case None
    with run Inr b have "w' = w" by (simp add: DeleteObject_def)
    with None b show ?thesis by (simp add: objectAt_def)
  next
    case (Some x)
    let ?w = "setBucket bucket (b\<lparr>bk_Objects := fmdrop key (bk_Objects b)\<rparr>) w"
    from run Inr b Some obtain w1 where s: "saveLocked E ?w = (None, w1)" and w': "w' = removeFile E (obj_File x) w1"
      by (auto simp: DeleteObject_def split: prod.splits option.splits)
    from s have "w_data w1 = w_data ?w" by (cases rule: saveLocked_cases) auto
    with w' removeFile_spec [of w1 E "obj_File x"] have "w_data w' = w_data ?w" by (simp add: objectsOnly_def)
    with b show ?thesis by (auto simp: objectAt_def)
  qed
  have "objectMap w' (bucket, key) = None" using at [of bucket key] by (simp add: objectMap_at)
  moreover have "objectAt (w_data w') ob ok = objectAt (w_data w) ob ok" if "(ob, ok) \<noteq> (bucket, key)" for ob ok
    unfolding at if_not_P [OF that] ..
  ultimately show ?thesis using objectMap_update [OF h h'] Inr by simp
qed

text \<open>
  C3. Refinement. Seen as a partial map from bucket and key to bytes, the object store behaves as a map does:
  a put that succeeds updates it at its place, a delete that succeeds removes its place, an operation that
  fails leaves it, and a read leaves it and returns nothing but what it holds.
\<close>

theorem object_store_refines_map:
  assumes h: "ok.holds E S w" and hb: "hashable E S ''s3'' bucket key body"
    and put: "PutObject E bucket key body ct md w = (rp, wp)"
    and del: "DeleteObject E bucket key w = (rd, wd)"
    and get: "GetObject E bucket key w = (rg, wg)"
  shows "objectMap wp = (case rp of Inr x \<Rightarrow> (objectMap w)((bucket, key) \<mapsto> body) | Inl e \<Rightarrow> objectMap w) \<and>
    objectMap wd = (case rd of Inr x \<Rightarrow> (objectMap w)((bucket, key) := None) | Inl e \<Rightarrow> objectMap w) \<and>
    objectMap wg = objectMap w \<and> (\<forall>x b. rg = Inr (x, b) \<longrightarrow> objectMap w (bucket, key) = Some b)"
proof (intro conjI allI impI)
  show "objectMap wp = (case rp of Inr x \<Rightarrow> (objectMap w)((bucket, key) \<mapsto> body) | Inl e \<Rightarrow> objectMap w)"
    by (rule put_refines [OF h hb put])
  show "objectMap wd = (case rd of Inr x \<Rightarrow> (objectMap w)((bucket, key) := None) | Inl e \<Rightarrow> objectMap w)"
    by (rule delete_refines [OF h del])
  have "w_data wg = w_data w" "w_objects wg = w_objects w"
    using get readObjectBody_frame by (auto simp: GetObject_def objectsOnly_def split: option.splits prod.splits sum.splits dest!: readObjectBody_frame)
  then show "objectMap wg = objectMap w" by (simp add: objectMap_def)
  fix x b
  assume "rg = Inr (x, b)"
  with get obtain bk where "fmlookup (Buckets (w_data w)) bucket = Some bk" "fmlookup (bk_Objects bk) key = Some x"
    "readObjectBody E (obj_File x) (obj_Size x) (obj_SHA256 x) w = (Inr b, wg)"
    by (auto simp: GetObject_def split: option.splits prod.splits sum.splits)
  then show "objectMap w (bucket, key) = Some b" by (simp add: objectMap_def readObjectBody_content)
qed

lemma sample_delete_object: "\<exists>wd. DeleteObject sampleEnv ''b'' ''k'' sampleObjectWorld = (Inr (), wd)"
proof -
  define b where "b = \<lparr>bk_Name = ''b'', bk_CreatedAt = 0, bk_Objects = fmdrop ''k'' (fmupd ''k'' sampleObject fmempty), bk_Notifications = []\<rparr>"
  have "encodeSnapshot (w_data (setBucket ''b'' b sampleObjectWorld)) = Some (snapshotDoc (w_data (setBucket ''b'' b sampleObjectWorld)))"
    by (rule encode_no_tables) (simp add: sampleObjectWorld_def emptySnapshot_def)
  from saveLocked_no_fault [OF _ this] sample_no_fault obtain w' where "saveLocked sampleEnv (setBucket ''b'' b sampleObjectWorld) = (None, w')"
    by blast
  then show ?thesis by (simp add: DeleteObject_def b_def)
qed

theorem object_store_refines_map_witness:
  "\<exists>x wp wd. PutObject sampleEnv ''b'' ''k'' sampleBody '''' fmempty sampleObjectWorld = (Inr x, wp) \<and>
     DeleteObject sampleEnv ''b'' ''k'' sampleObjectWorld = (Inr (), wd) \<and>
     objectMap wp (''b'', ''k'') = Some sampleBody \<and> objectMap wd (''b'', ''k'') = None"
proof -
  from PutObject_no_fault [OF sampleObjectWorld_holds _ sampleObjectWorld_simps(1)] sample_no_fault obtain x wp where
    p: "PutObject sampleEnv ''b'' ''k'' sampleBody '''' fmempty sampleObjectWorld = (Inr x, wp)" by blast
  obtain wd where d: "DeleteObject sampleEnv ''b'' ''k'' sampleObjectWorld = (Inr (), wd)"
    using sample_delete_object by blast
  obtain rg wg where g: "GetObject sampleEnv ''b'' ''k'' sampleObjectWorld = (rg, wg)" by fastforce
  from object_store_refines_map [OF sampleObjectWorld_holds sample_hashable p d g] p d show ?thesis by auto
qed

end
