(* ===== verification/GCS_Theorems.thy ===== *)
theory GCS_Theorems
  imports GCS_Correct S3_Theorems
begin

text \<open>
  The properties of the Cloud Storage component: reading back what was put, generations that grow,
  metadata updates that leave the body alone, and page tokens.
\<close>

lemma PutGCSObject_success:
  assumes run: "PutGCSObject E bucket key body ct md w = (Inr y, w')"
  obtains b w1 where "fmlookup (GCSBuckets (w_data w)) bucket = Some b" "objectsOnly w w1"
    "y = putGCSAt E bucket key body ct md (fmlookup (gb_Objects b) key) w1"
    "w_data w' = (w_data w)\<lparr>GCSBuckets := fmupd bucket (b\<lparr>gb_Objects := fmupd key y (gb_Objects b)\<rparr>) (GCSBuckets (w_data w))\<rparr>"
proof (cases "fmlookup (GCSBuckets (w_data w)) bucket")
  case None
  with run show thesis by (simp add: PutGCSObject_def)
next
  case (Some b)
  let ?y = "putGCSAt E bucket key body ct md (fmlookup (gb_Objects b) key)"
  from run [unfolded PutGCSObject_eq [OF Some]] obtain w1 where o: "objectsOnly w w1" and
    c: "commitBody E (dropPreviousSync E) (map_option go_File (fmlookup (gb_Objects b) key))
      (bodyFile E ''gcs'' bucket key body) (?y w1) (enterGCS bucket b key (?y w1) w1) = (Inr y, w')"
    by (rule writeBody_Inr) simp_all
  note r = commitBody_Inr [OF c tidy_objectsOnly(2)]
  show thesis by (rule that [OF Some o r(1)]) (use r o in \<open>simp add: enterGCS_def objectsOnly_def\<close>)
qed

lemma holds_gcs_body:
  assumes "ok.holds E S w" "fmlookup (GCSBuckets (w_data w)) bucket = Some b" "fmlookup (gb_Objects b) key = Some y"
  shows "bodyOK E S (w_objects w) ''gcs'' bucket key (go_File y) (go_Size y) (go_SHA256 y) (go_CRC32C y)"
  using holds_refs [OF assms(1) fileRef.gcs [OF assms(2,3)]] .

text \<open>
  C36. Round trip and generations. After a successful put of a Cloud Storage object it reads back as exactly
  the bytes put, in both integrity modes; its metageneration is 1; the creation time of an existing object
  is kept; and its generation is greater than that of the version it replaces, whatever the clock says
  (while generations stay below the largest 64-bit integer).
\<close>

theorem gcs_put_then_get:
  assumes h: "ok.holds E S w" and hb: "hashable E S ''gcs'' bucket key body"
    and run: "PutGCSObject E bucket key body ct md w = (Inr y, w')" and nf: "\<forall>i. \<not> e_fault E i"
  shows "(\<exists>w2. GCSObject_get E bucket key w' = (Inr (y, body), w2)) \<and> go_Size y = int (length body) \<and> go_Metageneration y = 1 \<and>
    (\<forall>b old. fmlookup (GCSBuckets (w_data w)) bucket = Some b \<longrightarrow> fmlookup (gb_Objects b) key = Some old \<longrightarrow>
       0 \<le> go_Generation old \<longrightarrow> go_Generation old < 2 ^ 63 - 1 \<longrightarrow>
       go_Generation old < go_Generation y \<and> go_CreatedAt y = go_CreatedAt old)"
proof -
  obtain b w1 where b: "fmlookup (GCSBuckets (w_data w)) bucket = Some b"
    and y: "y = putGCSAt E bucket key body ct md (fmlookup (gb_Objects b) key) w1"
    and d: "w_data w' = (w_data w)\<lparr>GCSBuckets := fmupd bucket (b\<lparr>gb_Objects := fmupd key y (gb_Objects b)\<rparr>) (GCSBuckets (w_data w))\<rparr>"
    by (rule PutGCSObject_success [OF run])
  have h': "ok.holds E S w'" using PutGCSObject_outcome [OF h hb, of ct md] run by (simp add: ok.outcome_def)
  let ?b = "b\<lparr>gb_Objects := fmupd key y (gb_Objects b)\<rparr>"
  have b': "fmlookup (GCSBuckets (w_data w')) bucket = Some ?b" and y': "fmlookup (gb_Objects ?b) key = Some y"
    by (simp_all add: d)
  note ok = holds_gcs_body [OF h' b' y']
  have "fmlookup (w_objects w') (go_File y) = Some body"
    using bodyOK_body [OF holds_env [OF h]] ok hb by (simp add: hashable_def y putGCSAt_def)
  with readObjectBody_ok [OF holds_env [OF h] ok nf] b' y' have "\<exists>w2. GCSObject_get E bucket key w' = (Inr (y, body), w2)"
    by (auto simp: GCSObject_get_def)
  moreover have "go_Generation old < go_Generation y \<and> go_CreatedAt y = go_CreatedAt old"
    if "fmlookup (gb_Objects b) key = Some old" "0 \<le> go_Generation old" "go_Generation old < 2 ^ 63 - 1" for old
    using that by (simp add: y putGCSAt_def nextGeneration_def wrap64_id)
  ultimately show ?thesis using b by (simp add: y putGCSAt_def)
qed

lemma PutGCSObject_no_fault:
  assumes h: "ok.holds E S w" and nf: "\<forall>i. \<not> e_fault E i" and b: "fmlookup (GCSBuckets (w_data w)) bucket = Some b"
  shows "\<exists>y w'. PutGCSObject E bucket key body ct md w = (Inr y, w')"
proof -
  from publishObject_no_fault [OF nf] obtain w1 where
    p: "publishObject E ''.gcs-object-'' (bodyFile E ''gcs'' bucket key body) body w = (PubDone, w1)" by blast
  have "objectsOnly w w1" by (rule publishObject_spec(1) [OF p]) simp_all
  then have "DynamoTables (w_data w1) = DynamoTables (w_data w)" by (simp add: objectsOnly_def)
  then have "\<exists>w'. commitBody E tidy prev f v (enterGCS bucket b key x w1) = (Inr v, w')" for tidy prev f x and v :: GCSObject
    by (intro commitBody_no_fault [OF h nf]) (simp add: enterGCS_def)
  then show ?thesis unfolding PutGCSObject_eq [OF b] writeBody_def p by (simp only: prod.case publish_result.case) blast
qed

section \<open>A sample bucket\<close>

definition sampleGCSObject :: GCSObject where
  "sampleGCSObject = putGCSAt sampleEnv ''b'' ''k'' sampleBody '''' fmempty None sampleBucketWorld"

definition sampleGCSBucket :: GCSBucket where
  "sampleGCSBucket = \<lparr>gb_Name = ''b'', gb_Project = ''p'', gb_Location = ''US'', gb_StorageClass = ''STANDARD'', gb_CreatedAt = 0,
     gb_Objects = fmupd ''k'' sampleGCSObject fmempty\<rparr>"

definition sampleGCSWorld :: world where
  "sampleGCSWorld = sampleWorld 0 (fmupd (go_File sampleGCSObject) sampleBody fmempty)
     (emptySnapshot\<lparr>GCSBuckets := fmupd ''b'' sampleGCSBucket fmempty\<rparr>)"

lemma sampleGCSWorld_simps [simp]:
  "fmlookup (GCSBuckets (w_data sampleGCSWorld)) ''b'' = Some sampleGCSBucket"
  "fmlookup (gb_Objects sampleGCSBucket) ''k'' = Some sampleGCSObject"
  "go_Generation sampleGCSObject = 100000000000"
  by (simp_all add: sampleGCSWorld_def sampleGCSBucket_def sampleGCSObject_def putGCSAt_def nextGeneration_def sampleBucketWorld_def)

lemma sample_gcs_hashable: "hashable sampleEnv sampleInputs ''gcs'' ''b'' ''k'' sampleBody"
  by (simp add: hashable_def sampleInputs_def samplePreimage_def)

lemma sampleGCSWorld_holds: "ok.holds sampleEnv sampleInputs sampleGCSWorld"
  unfolding sampleGCSWorld_def
proof (rule sample_holds)
  let ?objs = "fmupd (go_File sampleGCSObject) sampleBody fmempty"
  let ?d = "emptySnapshot\<lparr>GCSBuckets := fmupd ''b'' sampleGCSBucket fmempty\<rparr>"
  have s: "storeOK sampleEnv sampleInputs 0 ?objs emptySnapshot" using sample_digests_ok by simp
  have nul: "CHR 0x00 \<notin> set ''gcs''" "CHR 0x00 \<notin> set ''b''" by simp_all
  have "bodyOK sampleEnv sampleInputs ?objs ''gcs'' ''b'' ''k'' (go_File sampleGCSObject) (go_Size sampleGCSObject)
      (go_SHA256 sampleGCSObject) (go_CRC32C sampleGCSObject)"
    using sample_gcs_hashable fileAt_bodyFile [OF sample_digests_ok sample_gcs_hashable nul]
    by (simp add: bodyOK_def sampleGCSObject_def putGCSAt_def)
  then have "bodiesOK sampleEnv sampleInputs ?d ?objs"
    by (auto simp: bodiesOK_def emptySnapshot_def sampleGCSBucket_def elim!: fileRefE split: if_splits)
  moreover have "gcsOK (GCSBuckets ?d)"
    by (simp add: gcsOK_def gcsBucketOK_def sampleGCSBucket_def sampleGCSObject_def putGCSAt_def emptySnapshot_def)
  ultimately show "storeOK sampleEnv sampleInputs 0 ?objs ?d" using s
    by (simp add: storeOK_def emptySnapshot_def)
qed (simp add: emptySnapshot_def)

theorem gcs_put_then_get_witness:
  "\<exists>y w' w2. PutGCSObject sampleEnv ''b'' ''k'' sampleBody ''text/plain'' fmempty sampleGCSWorld = (Inr y, w') \<and>
     GCSObject_get sampleEnv ''b'' ''k'' w' = (Inr (y, sampleBody), w2) \<and> 100000000000 < go_Generation y"
proof -
  from PutGCSObject_no_fault [OF sampleGCSWorld_holds _ sampleGCSWorld_simps(1)] sample_no_fault obtain y w' where
    run: "PutGCSObject sampleEnv ''b'' ''k'' sampleBody ''text/plain'' fmempty sampleGCSWorld = (Inr y, w')" by blast
  from gcs_put_then_get [OF sampleGCSWorld_holds sample_gcs_hashable run] run show ?thesis by auto
qed

section \<open>Metadata and tokens\<close>

text \<open>
  Page tokens. A token decodes to exactly the name it was made from, for every name; so a page of a
  Cloud Storage listing starts where the one before it ended.
\<close>

theorem page_token_round_trip: "DecodePageToken (EncodePageToken v) = v"
  by (simp add: DecodePageToken_def EncodePageToken_def RawURLDecode_encode)

end
