(* ===== verification/PubSub_Theorems.thy ===== *)
theory PubSub_Theorems
  imports PubSub_Correct Samples
begin

text \<open>
  The properties of Pub/Sub: publishing reaches every subscription of the topic, what a pull hands
  out, keeps and forwards, acknowledging exactly what was pulled, and two defects of the code, in
  acknowledging and in dead-letter forwarding.
\<close>

section \<open>A sample subscription\<close>

definition sampleTopic :: string where
  "sampleTopic = ''projects/p/topics/t''"

definition samplePubSubMessage :: "string \<Rightarrow> int \<Rightarrow> PubSubMessage" where
  "samplePubSubMessage data attempts = \<lparr>pm_MessageID = ''m'', pm_Data = data, pm_Attributes = fmempty, pm_OrderingKey = '''',
     pm_PublishTime = 0, pm_AckID = '''', pm_VisibleAt = 0, pm_DeliveryAttempt = attempts\<rparr>"

definition sampleSub :: "PubSubMessage list \<Rightarrow> PubSubSubscription" where
  "sampleSub ms = \<lparr>ps_Name = ''s'', ps_Topic = sampleTopic, ps_AckDeadlineSeconds = 10, ps_DeadLetterTopic = sampleTopic,
     ps_MaxDeliveryAttempts = 5, ps_Labels = fmempty, ps_EnableOrdering = False, ps_CreatedAt = 0, ps_Messages = ms\<rparr>"

definition samplePubSubWorld :: "PubSubMessage list \<Rightarrow> world" where
  "samplePubSubWorld ms = sampleWorld 0 fmempty (emptySnapshot\<lparr>
     PubSubTopics := fmupd sampleTopic \<lparr>pt_Name = sampleTopic, pt_Labels = fmempty, pt_CreatedAt = 0\<rparr> fmempty,
     PubSubSubscriptions := fmupd ''s'' (sampleSub ms) fmempty\<rparr>)"

lemma samplePubSubWorld_simps [simp]:
  "fmlookup (PubSubSubscriptions (w_data (samplePubSubWorld ms))) n = (if n = ''s'' then Some (sampleSub ms) else None)"
  "fmlookup (PubSubTopics (w_data (samplePubSubWorld ms))) sampleTopic = Some \<lparr>pt_Name = sampleTopic, pt_Labels = fmempty, pt_CreatedAt = 0\<rparr>"
  "w_ids (samplePubSubWorld ms) = 0" "w_clock (samplePubSubWorld ms) = 100"
  "DynamoTables (w_data (samplePubSubWorld ms)) = fmempty" "ps_Messages (sampleSub ms) = ms" "ps_Topic (sampleSub ms) = sampleTopic"
  by (auto simp: samplePubSubWorld_def sampleSub_def emptySnapshot_def)

lemma sampleSub_lookup: "fmlookup (PubSubSubscriptions (w_data (samplePubSubWorld ms))) ''s'' = Some (sampleSub ms)"
  by simp

lemma sampleTopic_live: "sampleTopic \<noteq> deletedTopic"
  by (simp add: sampleTopic_def deletedTopic_def)

lemma samplePubSubWorld_holds:
  assumes "\<forall>m \<in> set ms. pm_AckID m = ''''"
  shows "ok.holds sampleEnv sampleInputs (samplePubSubWorld ms)"
  unfolding samplePubSubWorld_def
proof (rule sample_holds)
  have "storeOK sampleEnv sampleInputs 0 fmempty emptySnapshot" using sample_digests_ok by simp
  then show "storeOK sampleEnv sampleInputs 0 fmempty (emptySnapshot\<lparr>
     PubSubTopics := fmupd sampleTopic \<lparr>pt_Name = sampleTopic, pt_Labels = fmempty, pt_CreatedAt = 0\<rparr> fmempty,
     PubSubSubscriptions := fmupd ''s'' (sampleSub ms) fmempty\<rparr>)"
    using assms by (simp add: storeOK_def)
      (auto simp: topicsOK_def subsOK_def subOK_def sampleSub_def acksBelow_def liveAcks_def emptySnapshot_def filter_False)
qed (simp add: emptySnapshot_def)

lemma sample_pull:
  "\<exists>w'. PullPubSub sampleEnv ''s'' maxN dl (samplePubSubWorld ms) =
     (Inr (pl_result (pullOf sampleEnv (samplePubSubWorld ms) (sampleSub ms) maxN dl)), w')"
proof -
  have "ps_Topic (sampleSub ms) \<noteq> deletedTopic" by (simp add: sampleTopic_live)
  from PullPubSub_eq [OF sampleSub_lookup this, of sampleEnv maxN dl] show ?thesis
    by (simp add: Let_def saveThen_sample_ok)
qed

section \<open>Publishing\<close>

lemma PublishPubSub_success:
  assumes h: "ok.holds E S w" and run: "PublishPubSub E topic messages w = (Inr ids, w')"
  obtains ms where "stampMessages E (e_now E (w_clock w)) messages (w_ids w) = (ms, w_ids w')" "ids = map pm_MessageID ms"
    "w_data w' = (w_data w)\<lparr>PubSubSubscriptions := fmmap (appendTo topic ms) (PubSubSubscriptions (w_data w))\<rparr>"
    "diskState w' = w_data w'"
proof -
  obtain ms i where st: "stampMessages E (e_now E (w_clock w)) messages (w_ids w) = (ms, i)" by fastforce
  let ?w = "w\<lparr>w_clock := Suc (w_clock w), w_ids := i, w_data := (w_data w)\<lparr>PubSubSubscriptions :=
    fmmap (appendTo topic ms) (PubSubSubscriptions (w_data w))\<rparr>\<rparr>"
  from run st have sv: "saveThen E (map pm_MessageID ms) ?w = (Inr ids, w')"
    by (auto simp: PublishPubSub_def now_def Let_def split: option.splits)
  have "ahead w (?w\<lparr>w_data := w_data w\<rparr>)" using stampMessages_spec [OF st] by (simp add: ahead_def)
  note f = saved_Inr [OF h sv this]
  show thesis by (rule that [of ms]) (use f st in simp_all)
qed

text \<open>
  Publishing to a topic. The identifiers returned are one per message, in order, and distinct as long as
  no random identifier has repeated. Every subscription of the topic has the messages appended in order,
  with their data, visible at once and never delivered; every other subscription is as before. All of it
  is on disk when the call returns.
\<close>

theorem publish_reaches_every_subscription:
  assumes h: "ok.holds E S w" and run: "PublishPubSub E topic messages w = (Inr ids, w')"
    and sub: "fmlookup (PubSubSubscriptions (w_data w)) name = Some s"
  shows "\<exists>new s'. fmlookup (PubSubSubscriptions (w_data w')) name = Some s' \<and>
    ps_Messages s' = ps_Messages s @ (if ps_Topic s = topic then new else []) \<and>
    map pm_MessageID new = ids \<and> map pm_Data new = map pm_Data messages \<and> map pm_AckID new = map pm_AckID messages \<and>
    (\<forall>m \<in> set new. pm_VisibleAt m = e_now E (w_clock w)) \<and> length ids = length messages \<and>
    (fresh_ids E (w_ids w') \<longrightarrow> distinct ids) \<and> diskState w' = w_data w'"
proof -
  obtain ms where st: "stampMessages E (e_now E (w_clock w)) messages (w_ids w) = (ms, w_ids w')" and ids: "ids = map pm_MessageID ms"
    and d: "w_data w' = (w_data w)\<lparr>PubSubSubscriptions := fmmap (appendTo topic ms) (PubSubSubscriptions (w_data w))\<rparr>" "diskState w' = w_data w'"
    by (rule PublishPubSub_success [OF h run])
  note sp = stampMessages_spec [OF st]
  have "distinct (map (mint E) [w_ids w..<w_ids w'])" if "fresh_ids E (w_ids w')"
    using that by (auto simp: fresh_ids_def distinct_map elim: inj_on_subset)
  with sp have dist: "fresh_ids E (w_ids w') \<longrightarrow> distinct ids" by (simp add: ids)
  have len: "length ids = length messages" using sp ids by (metis length_map)
  have lk: "fmlookup (PubSubSubscriptions (w_data w')) name = Some (appendTo topic ms s)" using sub by (simp add: d)
  show ?thesis
    using sp dist len lk d(2) by (intro exI [of _ ms] exI [of _ "appendTo topic ms s"]) (simp add: ids appendTo_def)
qed

theorem publish_reaches_every_subscription_witness:
  "\<exists>ids w' s'. PublishPubSub sampleEnv sampleTopic [samplePubSubMessage ''hi'' 0] (samplePubSubWorld []) = (Inr ids, w') \<and>
     fmlookup (PubSubSubscriptions (w_data w')) ''s'' = Some s' \<and> map pm_Data (ps_Messages s') = [''hi'']"
proof -
  have h: "ok.holds sampleEnv sampleInputs (samplePubSubWorld [])" by (rule samplePubSubWorld_holds) simp
  have "\<exists>ids w'. PublishPubSub sampleEnv sampleTopic [samplePubSubMessage ''hi'' 0] (samplePubSubWorld []) = (Inr ids, w')"
    by (simp add: PublishPubSub_def now_def Let_def) (rule exI, rule saveThen_sample_ok, simp)
  then obtain ids w' where run: "PublishPubSub sampleEnv sampleTopic [samplePubSubMessage ''hi'' 0] (samplePubSubWorld []) = (Inr ids, w')"
    by blast
  from publish_reaches_every_subscription [OF h run sampleSub_lookup] obtain new s' where
    "fmlookup (PubSubSubscriptions (w_data w')) ''s'' = Some s'" "ps_Messages s' = new"
    "map pm_Data new = map pm_Data [samplePubSubMessage ''hi'' 0]" by auto
  with run show ?thesis by (auto simp: samplePubSubMessage_def)
qed

section \<open>Pulling\<close>

lemma PullPubSub_success:
  assumes h: "ok.holds E S w" and run: "PullPubSub E name maxN dl w = (Inr ms, w')"
  obtains s where "fmlookup (PubSubSubscriptions (w_data w)) name = Some s" "ms = pl_result (pullOf E w s maxN dl)"
    "PubSubSubscriptions (w_data w') = pulledSubs name s (pullOf E w s maxN dl) (PubSubSubscriptions (w_data w))"
    "w_ids w' = pl_ids (pullOf E w s maxN dl)" "DynamoTables (w_data w') = DynamoTables (w_data w)"
proof -
  from run obtain s where s: "fmlookup (PubSubSubscriptions (w_data w)) name = Some s" "ps_Topic s \<noteq> deletedTopic"
    by (auto simp: PullPubSub_def split: option.splits if_splits)
  let ?p = "pullOf E w s maxN dl"
  let ?w = "w\<lparr>w_clock := Suc (w_clock w), w_ids := pl_ids ?p, w_data := (w_data w)\<lparr>PubSubSubscriptions :=
    pulledSubs name s ?p (PubSubSubscriptions (w_data w))\<rparr>\<rparr>"
  have eq: "(if pl_changed ?p then saveThen E (pl_result ?p) ?w else (Inr (pl_result ?p), ?w)) = (Inr ms, w')"
    using run unfolding PullPubSub_eq [OF s] Let_def .
  have le: "w_ids w \<le> pl_ids ?p" unfolding pullOf_def by (rule pull_ids)
  have ah: "ahead w (?w\<lparr>w_data := w_data w\<rparr>)" using le by (simp add: ahead_def)
  have "ms = pl_result ?p \<and> w_data w' = w_data ?w \<and> w_ids w' = pl_ids ?p"
  proof (cases "pl_changed ?p")
    case True
    with eq have "saveThen E (pl_result ?p) ?w = (Inr ms, w')" by simp
    from saved_Inr [OF h this ah] show ?thesis by simp
  next
    case False
    with eq show ?thesis by auto
  qed
  then show thesis by (intro that [OF s(1)]) simp_all
qed

text \<open>
  C34. What a pull does. At most the requested number of messages is handed out (one when fewer are asked
  for); each was visible and had not used up its delivery attempts. The subscription keeps every message
  except the visible ones whose attempts are used up, in order; and each other subscription of the
  dead-letter topic gets the data of exactly these, in order.
\<close>

theorem pull_partitions_messages:
  assumes h: "ok.holds E S w" and run: "PullPubSub E name maxN dl w = (Inr ms, w')"
    and sub: "fmlookup (PubSubSubscriptions (w_data w)) name = Some s"
  defines "spent \<equiv> \<lambda>m. pm_VisibleAt m \<le> e_now E (w_clock w) \<and> exhausted s m"
  shows "int (length ms) \<le> max 1 maxN \<and>
    (\<forall>r \<in> set ms. \<exists>m \<in> set (ps_Messages s). pm_VisibleAt m \<le> e_now E (w_clock w) \<and> \<not> exhausted s m \<and>
       pm_MessageID r = pm_MessageID m \<and> pm_Data r = pm_Data m) \<and>
    (\<exists>s'. fmlookup (PubSubSubscriptions (w_data w')) name = Some s' \<and> set ms \<subseteq> set (ps_Messages s') \<and>
       map pm_MessageID (ps_Messages s') = map pm_MessageID (filter (\<lambda>m. \<not> spent m) (ps_Messages s)) \<and>
       map pm_Data (ps_Messages s') = map pm_Data (filter (\<lambda>m. \<not> spent m) (ps_Messages s))) \<and>
    (\<forall>other x. other \<noteq> name \<longrightarrow> fmlookup (PubSubSubscriptions (w_data w)) other = Some x \<longrightarrow>
       (\<exists>x'. fmlookup (PubSubSubscriptions (w_data w')) other = Some x' \<and>
          map pm_Data (ps_Messages x') = map pm_Data (ps_Messages x) @
            (if ps_Topic x = ps_DeadLetterTopic s then map pm_Data (filter spent (ps_Messages s)) else [])))"
proof -
  obtain s0 where "fmlookup (PubSubSubscriptions (w_data w)) name = Some s0" "ms = pl_result (pullOf E w s0 maxN dl)"
    "PubSubSubscriptions (w_data w') = pulledSubs name s0 (pullOf E w s0 maxN dl) (PubSubSubscriptions (w_data w))"
    by (rule PullPubSub_success [OF h run])
  with sub have ms: "ms = pl_result (pullOf E w s maxN dl)"
    and subs: "PubSubSubscriptions (w_data w') = pulledSubs name s (pullOf E w s maxN dl) (PubSubSubscriptions (w_data w))" by auto
  note part = pull_partition [of E "e_now E (w_clock w)" "if maxN < 1 then 1 else maxN"
      "if dl \<le> 0 then ps_AckDeadlineSeconds s else dl" s "ps_Messages s" "w_ids w", folded pullOf_def]
  have "int (length ms) \<le> (if maxN < 1 then 1 else maxN)" unfolding ms pullOf_def by (rule pull_result_bound) simp
  then have bound: "int (length ms) \<le> max 1 maxN" by (simp split: if_splits)
  have each: "(\<exists>m \<in> set (ps_Messages s). pm_VisibleAt m \<le> e_now E (w_clock w) \<and> \<not> exhausted s m \<and>
       pm_MessageID r = pm_MessageID m \<and> pm_Data r = pm_Data m) \<and> r \<in> set (pl_kept (pullOf E w s maxN dl))" if "r \<in> set ms" for r
    using pull_result [OF that [unfolded ms pullOf_def]] by (auto simp: pullOf_def)
  show ?thesis using bound each part
    by (auto simp: subs pulledSubs_def appendTo_def spent_def)
qed

theorem pull_partitions_messages_witness:
  "\<exists>ms w' s'. PullPubSub sampleEnv ''s'' 10 0 (samplePubSubWorld [samplePubSubMessage ''a'' 5, samplePubSubMessage ''b'' 0]) = (Inr ms, w') \<and>
     fmlookup (PubSubSubscriptions (w_data w')) ''s'' = Some s' \<and> map pm_Data (ps_Messages s') = [''b'']"
proof -
  let ?ms = "[samplePubSubMessage ''a'' 5, samplePubSubMessage ''b'' 0]"
  have h: "ok.holds sampleEnv sampleInputs (samplePubSubWorld ?ms)" by (rule samplePubSubWorld_holds) (simp add: samplePubSubMessage_def)
  from sample_pull obtain ms w' where run: "PullPubSub sampleEnv ''s'' 10 0 (samplePubSubWorld ?ms) = (Inr ms, w')" by blast
  let ?keep = "\<lambda>m. \<not> (pm_VisibleAt m \<le> e_now sampleEnv (w_clock (samplePubSubWorld ?ms)) \<and> exhausted (sampleSub ?ms) m)"
  have f: "filter ?keep ?ms = [samplePubSubMessage ''b'' 0]"
    by (simp add: exhausted_def sampleSub_def samplePubSubMessage_def sampleTopic_def)
  from pull_partitions_messages [OF h run sampleSub_lookup] obtain s' where
    "fmlookup (PubSubSubscriptions (w_data w')) ''s'' = Some s'" "map pm_Data (ps_Messages s') = map pm_Data (filter ?keep ?ms)"
    unfolding samplePubSubWorld_simps by blast
  with run f show ?thesis by (auto simp: samplePubSubMessage_def)
qed

section \<open>Acknowledging\<close>

lemma AckPubSub_success:
  assumes h: "ok.holds E S w" and run: "AckPubSub E name acks w = (Inr u, w')"
  obtains s where "fmlookup (PubSubSubscriptions (w_data w)) name = Some s"
    "w_data w' = (w_data w)\<lparr>PubSubSubscriptions := fmupd name
       (s\<lparr>ps_Messages := filter (\<lambda>m. pm_AckID m \<notin> set acks) (ps_Messages s)\<rparr>) (PubSubSubscriptions (w_data w))\<rparr>"
    "diskState w' = w_data w'"
proof -
  from run obtain s where s: "fmlookup (PubSubSubscriptions (w_data w)) name = Some s"
    and sv: "saveThen E () (setSub name (s\<lparr>ps_Messages := filter (\<lambda>m. pm_AckID m \<notin> set acks) (ps_Messages s)\<rparr>) w) = (Inr u, w')"
    by (auto simp: AckPubSub_def split: option.splits)
  note f = saved_Inr [OF h sv]
  show thesis by (rule that [OF s]) (use f in simp_all)
qed

text \<open>A message handed out has a live acknowledgement identifier; distinct ones identify it.\<close>

lemma distinct_acks_identify:
  assumes "distinct (liveAcks ms)" "m \<in> set ms" "r \<in> set ms" "pm_AckID m = pm_AckID r" "pm_AckID r \<noteq> ''''"
  shows "m = r"
  using assms
proof (induction ms)
  case (Cons x ms)
  have "m = x \<Longrightarrow> r \<in> set ms \<Longrightarrow> False" "r = x \<Longrightarrow> m \<in> set ms \<Longrightarrow> False"
    using Cons.prems(1,4,5) by (auto simp: liveAcks_def image_iff)
  with Cons show ?case by (auto simp: liveAcks_def split: if_splits)
qed simp

lemma pull_result_acks: "r \<in> set (pl_result (pullOf E w s maxN dl)) \<Longrightarrow> pm_AckID r \<noteq> ''''"
  unfolding pullOf_def by (drule pull_result) auto

text \<open>
  Acknowledging what was pulled. As long as no random identifier has repeated, acknowledging the
  identifiers of the messages a pull handed out removes exactly these messages from the subscription, in
  memory and on disk; every other message stays in place and no other subscription changes.
\<close>

theorem ack_removes_exactly_pulled:
  assumes h: "ok.holds E S w" and pull: "PullPubSub E name maxN dl w = (Inr ms, w1)"
    and ack: "AckPubSub E name (map pm_AckID ms) w1 = (Inr u, w2)" and fresh: "fresh_ids E (w_ids w1)"
    and sub: "fmlookup (PubSubSubscriptions (w_data w1)) name = Some s"
  shows "fmlookup (PubSubSubscriptions (w_data w2)) name = Some (s\<lparr>ps_Messages := filter (\<lambda>m. m \<notin> set ms) (ps_Messages s)\<rparr>) \<and>
    set ms \<subseteq> set (ps_Messages s) \<and> diskState w2 = w_data w2 \<and>
    (\<forall>other. other \<noteq> name \<longrightarrow> fmlookup (PubSubSubscriptions (w_data w2)) other = fmlookup (PubSubSubscriptions (w_data w1)) other)"
proof -
  have h1: "ok.holds E S w1" using PullPubSub.keeps [OF h pull] .
  obtain s0 where s0: "ms = pl_result (pullOf E w s0 maxN dl)"
    "PubSubSubscriptions (w_data w1) = pulledSubs name s0 (pullOf E w s0 maxN dl) (PubSubSubscriptions (w_data w))"
    by (rule PullPubSub_success [OF h pull])
  with sub have s: "ps_Messages s = pl_kept (pullOf E w s0 maxN dl)" by (auto simp: pulledSubs_def)
  have sub2: "set ms \<subseteq> set (ps_Messages s)"
    unfolding s s0(1) pullOf_def using pull_result by (auto dest: pull_result)
  have dist: "distinct (liveAcks (ps_Messages s))" using holds_sub_messages [OF h1 sub] fresh by blast
  have "pm_AckID m \<notin> set (map pm_AckID ms) \<longleftrightarrow> m \<notin> set ms" if m: "m \<in> set (ps_Messages s)" for m
  proof -
    have "m = r" if "r \<in> set ms" "pm_AckID m = pm_AckID r" for r
      using distinct_acks_identify [OF dist m _ that(2)] sub2 that pull_result_acks s0(1) by blast
    then show ?thesis by auto
  qed
  then have f: "filter (\<lambda>m. pm_AckID m \<notin> set (map pm_AckID ms)) (ps_Messages s) = filter (\<lambda>m. m \<notin> set ms) (ps_Messages s)"
    by (rule filter_cong [OF refl])
  obtain s2 where "fmlookup (PubSubSubscriptions (w_data w1)) name = Some s2"
    "w_data w2 = (w_data w1)\<lparr>PubSubSubscriptions := fmupd name
       (s2\<lparr>ps_Messages := filter (\<lambda>m. pm_AckID m \<notin> set (map pm_AckID ms)) (ps_Messages s2)\<rparr>) (PubSubSubscriptions (w_data w1))\<rparr>"
    "diskState w2 = w_data w2" by (rule AckPubSub_success [OF h1 ack])
  with sub f sub2 show ?thesis by simp
qed

theorem ack_removes_exactly_pulled_witness:
  "\<exists>ms w1 w2. PullPubSub sampleEnv ''s'' 1 0 (samplePubSubWorld [samplePubSubMessage ''a'' 0, samplePubSubMessage ''b'' 0]) = (Inr ms, w1) \<and>
     AckPubSub sampleEnv ''s'' (map pm_AckID ms) w1 = (Inr (), w2) \<and>
     map_option (length \<circ> ps_Messages) (fmlookup (PubSubSubscriptions (w_data w2)) ''s'') = Some 1"
proof -
  let ?ms = "[samplePubSubMessage ''a'' 0, samplePubSubMessage ''b'' 0]"
  have h: "ok.holds sampleEnv sampleInputs (samplePubSubWorld ?ms)" by (rule samplePubSubWorld_holds) (simp add: samplePubSubMessage_def)
  from sample_pull obtain ms w1 where run: "PullPubSub sampleEnv ''s'' 1 0 (samplePubSubWorld ?ms) = (Inr ms, w1)" by blast
  let ?p = "pullOf sampleEnv (samplePubSubWorld ?ms) (sampleSub ?ms) 1 0"
  obtain s0 where "fmlookup (PubSubSubscriptions (w_data (samplePubSubWorld ?ms))) ''s'' = Some s0"
    "ms = pl_result (pullOf sampleEnv (samplePubSubWorld ?ms) s0 1 0)"
    "PubSubSubscriptions (w_data w1) = pulledSubs ''s'' s0 (pullOf sampleEnv (samplePubSubWorld ?ms) s0 1 0) (PubSubSubscriptions (w_data (samplePubSubWorld ?ms)))"
    "w_ids w1 = pl_ids (pullOf sampleEnv (samplePubSubWorld ?ms) s0 1 0)" and dt: "DynamoTables (w_data w1) = DynamoTables (w_data (samplePubSubWorld ?ms))"
    by (rule PullPubSub_success [OF h run])
  then have ms: "ms = pl_result ?p" and ids: "w_ids w1 = pl_ids ?p"
    and sub: "fmlookup (PubSubSubscriptions (w_data w1)) ''s'' = Some ((sampleSub ?ms)\<lparr>ps_Messages := pl_kept ?p\<rparr>)"
    by (auto simp: pulledSubs_def)
  have ne: "\<not> exhausted (sampleSub ?ms) (samplePubSubMessage d 0)" for d
    by (simp add: exhausted_def sampleSub_def samplePubSubMessage_def)
  have vis: "pm_VisibleAt (samplePubSubMessage d 0) = 0" for d by (simp add: samplePubSubMessage_def)
  have dl: "ps_AckDeadlineSeconds (sampleSub ms) = 10" for ms by (simp add: sampleSub_def)
  have p: "pl_result ?p = [handOut sampleEnv 100000000000 10 0 (samplePubSubMessage ''a'' 0)]"
    "pl_kept ?p = [handOut sampleEnv 100000000000 10 0 (samplePubSubMessage ''a'' 0), samplePubSubMessage ''b'' 0]" "pl_ids ?p = 1"
    using ne by (simp_all add: pullOf_def pullStep_def vis dl Let_def)
  have "\<exists>w2. AckPubSub sampleEnv ''s'' (map pm_AckID ms) w1 = (Inr (), w2)"
    using sub dt by (simp add: AckPubSub_def saveThen_sample_ok)
  then obtain w2 where ack: "AckPubSub sampleEnv ''s'' (map pm_AckID ms) w1 = (Inr (), w2)" by blast
  have "fresh_ids sampleEnv (w_ids w1)" using sample_fresh_ids ids p by simp
  from ack_removes_exactly_pulled [OF h run ack this sub]
  have "fmlookup (PubSubSubscriptions (w_data w2)) ''s'' =
      Some ((sampleSub ?ms)\<lparr>ps_Messages := filter (\<lambda>m. m \<notin> set ms) (pl_kept ?p)\<rparr>)" by simp
  moreover have "samplePubSubMessage ''b'' 0 \<noteq> handOut sampleEnv 100000000000 10 0 (samplePubSubMessage ''a'' 0)"
    by (simp add: samplePubSubMessage_def handOut_def)
  ultimately show ?thesis using run ack by (auto simp: p ms)
qed

text \<open>
  The empty acknowledgement identifier, however, is not rejected: it removes every message of the
  subscription that nobody has pulled yet.
\<close>

theorem empty_ack_drops_unpulled:
  assumes h: "ok.holds E S w" and run: "AckPubSub E name [''''] w = (Inr u, w')"
    and sub: "fmlookup (PubSubSubscriptions (w_data w)) name = Some s"
  shows "fmlookup (PubSubSubscriptions (w_data w')) name =
    Some (s\<lparr>ps_Messages := filter (\<lambda>m. pm_AckID m \<noteq> '''') (ps_Messages s)\<rparr>)"
  by (rule AckPubSub_success [OF h run]) (use sub in simp)

theorem empty_ack_drops_unpulled_witness:
  "\<exists>w'. AckPubSub sampleEnv ''s'' [''''] (samplePubSubWorld [samplePubSubMessage ''a'' 0]) = (Inr (), w') \<and>
     map_option ps_Messages (fmlookup (PubSubSubscriptions (w_data w')) ''s'') = Some []"
proof -
  let ?ms = "[samplePubSubMessage ''a'' 0]"
  have h: "ok.holds sampleEnv sampleInputs (samplePubSubWorld ?ms)" by (rule samplePubSubWorld_holds) (simp add: samplePubSubMessage_def)
  have "\<exists>w'. AckPubSub sampleEnv ''s'' [''''] (samplePubSubWorld ?ms) = (Inr (), w')"
    by (simp add: AckPubSub_def saveThen_sample_ok)
  then obtain w' where run: "AckPubSub sampleEnv ''s'' [''''] (samplePubSubWorld ?ms) = (Inr (), w')" by blast
  from empty_ack_drops_unpulled [OF h run sampleSub_lookup] run show ?thesis by (simp add: samplePubSubMessage_def)
qed

text \<open>
  Dead-letter forwarding to the subscription's own topic loses the message: a visible message whose
  attempts are used up is removed by the pull and the copy appended to the subscription is overwritten.
  When no other subscription has this topic, its data is in no subscription afterwards.
\<close>

theorem dead_letter_to_own_topic_loses:
  assumes h: "ok.holds E S w" and run: "PullPubSub E name maxN dl w = (Inr ms, w')"
    and sub: "fmlookup (PubSubSubscriptions (w_data w)) name = Some s" and own: "ps_DeadLetterTopic s = ps_Topic s"
    and m: "m \<in> set (ps_Messages s)" "pm_VisibleAt m \<le> e_now E (w_clock w)" "exhausted s m"
    and only: "\<And>other x. other \<noteq> name \<Longrightarrow> fmlookup (PubSubSubscriptions (w_data w)) other = Some x \<Longrightarrow>
      ps_Topic x \<noteq> ps_Topic s \<and> pm_Data m \<notin> pm_Data ` set (ps_Messages x)"
    and unique: "\<And>m'. m' \<in> set (ps_Messages s) \<Longrightarrow> pm_Data m' = pm_Data m \<Longrightarrow> m' = m"
  shows "\<forall>other x. fmlookup (PubSubSubscriptions (w_data w')) other = Some x \<longrightarrow> pm_Data m \<notin> pm_Data ` set (ps_Messages x)"
proof -
  obtain s0 where "fmlookup (PubSubSubscriptions (w_data w)) name = Some s0"
    "PubSubSubscriptions (w_data w') = pulledSubs name s0 (pullOf E w s0 maxN dl) (PubSubSubscriptions (w_data w))"
    by (rule PullPubSub_success [OF h run])
  with sub have subs: "PubSubSubscriptions (w_data w') = pulledSubs name s (pullOf E w s maxN dl) (PubSubSubscriptions (w_data w))" by simp
  have "map pm_Data (pl_kept (pullOf E w s maxN dl)) =
      map pm_Data (filter (\<lambda>m. \<not> (pm_VisibleAt m \<le> e_now E (w_clock w) \<and> exhausted s m)) (ps_Messages s))"
    unfolding pullOf_def using pull_partition by blast
  then have img: "pm_Data ` set (pl_kept (pullOf E w s maxN dl)) =
      pm_Data ` set (filter (\<lambda>m. \<not> (pm_VisibleAt m \<le> e_now E (w_clock w) \<and> exhausted s m)) (ps_Messages s))"
    by (metis set_map)
  have kept: "pm_Data m \<notin> pm_Data ` set (pl_kept (pullOf E w s maxN dl))"
  proof
    assume "pm_Data m \<in> pm_Data ` set (pl_kept (pullOf E w s maxN dl))"
    then obtain m' where "m' \<in> set (ps_Messages s)" "\<not> (pm_VisibleAt m' \<le> e_now E (w_clock w) \<and> exhausted s m')" "pm_Data m' = pm_Data m"
      unfolding img by (elim imageE) (simp, metis)
    with unique [of m'] m show False by blast
  qed
  have other: "fmlookup (PubSubSubscriptions (w_data w')) other = fmlookup (PubSubSubscriptions (w_data w)) other" if "other \<noteq> name" for other
    using only [OF that] that own
    by (cases "fmlookup (PubSubSubscriptions (w_data w)) other") (simp_all add: subs pulledSubs_def appendTo_def)
  show ?thesis
  proof (intro allI impI)
    fix oth x
    assume x: "fmlookup (PubSubSubscriptions (w_data w')) oth = Some x"
    show "pm_Data m \<notin> pm_Data ` set (ps_Messages x)"
    proof (cases "oth = name")
      case True
      with x have "ps_Messages x = pl_kept (pullOf E w s maxN dl)" by (auto simp: subs pulledSubs_def)
      with kept show ?thesis by simp
    next
      case False
      with x other [OF False] only [OF False] show ?thesis by simp
    qed
  qed
qed

theorem dead_letter_to_own_topic_loses_witness:
  "\<exists>ms w'. PullPubSub sampleEnv ''s'' 10 0 (samplePubSubWorld [samplePubSubMessage ''a'' 5]) = (Inr ms, w') \<and>
     (\<forall>other x. fmlookup (PubSubSubscriptions (w_data w')) other = Some x \<longrightarrow> ''a'' \<notin> pm_Data ` set (ps_Messages x))"
proof -
  let ?m = "samplePubSubMessage ''a'' 5"
  have h: "ok.holds sampleEnv sampleInputs (samplePubSubWorld [?m])" by (rule samplePubSubWorld_holds) (simp add: samplePubSubMessage_def)
  from sample_pull obtain ms w' where run: "PullPubSub sampleEnv ''s'' 10 0 (samplePubSubWorld [?m]) = (Inr ms, w')" by blast
  have own: "ps_DeadLetterTopic (sampleSub [?m]) = ps_Topic (sampleSub [?m])" by (simp add: sampleSub_def)
  have m: "?m \<in> set (ps_Messages (sampleSub [?m]))" "pm_VisibleAt ?m \<le> e_now sampleEnv (w_clock (samplePubSubWorld [?m]))"
    "exhausted (sampleSub [?m]) ?m" "pm_Data ?m = ''a''"
    by (simp_all add: exhausted_def sampleSub_def samplePubSubMessage_def sampleTopic_def)
  from dead_letter_to_own_topic_loses [OF h run sampleSub_lookup own m(1-3)]
  have "\<forall>other x. fmlookup (PubSubSubscriptions (w_data w')) other = Some x \<longrightarrow> pm_Data ?m \<notin> pm_Data ` set (ps_Messages x)"
    by (simp split: if_splits)
  with run m(4) show ?thesis by auto
qed

end
