(* ===== verification/DynamoDB_Theorems.thy ===== *)
theory DynamoDB_Theorems
  imports DynamoDB_Correct Samples
begin

text \<open>
  The properties of the table store: reading back an item put, conditions that guard every write, the
  all-or-nothing write transaction, and when the encoding of primary keys separates items.
\<close>

lemma list_all2_left: "list_all2 P xs ys \<Longrightarrow> x \<in> set xs \<Longrightarrow> \<exists>y \<in> set ys. P x y"
  by (induction rule: list_all2_induct) auto

lemma list_all2_right: "list_all2 P xs ys \<Longrightarrow> y \<in> set ys \<Longrightarrow> \<exists>x \<in> set xs. P x y"
  by (induction rule: list_all2_induct) auto

section \<open>A sample table\<close>

definition sampleTable :: "DynamoItem gomap \<Rightarrow> DynamoTable" where
  "sampleTable items = \<lparr>dt_Name = ''tab'', dt_CreatedAt = 0, dt_Status = ''ACTIVE'', dt_BillingMode = ''PROVISIONED'',
     dt_KeySchema = [\<lparr>ks_AttributeName = ''a'', ks_KeyType = ''HASH''\<rparr>, \<lparr>ks_AttributeName = ''b'', ks_KeyType = ''RANGE''\<rparr>],
     dt_AttributeDefinitions = [\<lparr>ad_AttributeName = ''a'', ad_AttributeType = ''S''\<rparr>, \<lparr>ad_AttributeName = ''b'', ad_AttributeType = ''S''\<rparr>],
     dt_Items = items\<rparr>"

definition sampleItem :: "string \<Rightarrow> string \<Rightarrow> DynamoItem" where
  "sampleItem x y = fmupd ''a'' (av_of_S x) (fmupd ''b'' (av_of_S y) fmempty)"

definition sampleTableData :: snapshot where
  "sampleTableData = emptySnapshot\<lparr>DynamoTables := fmupd ''tab'' (sampleTable fmempty) fmempty\<rparr>"

definition sampleTableWorld :: world where
  "sampleTableWorld = sampleWorld 0 fmempty sampleTableData"

lemma sampleTableWorld_lookup [simp]:
  "fmlookup (DynamoTables (w_data sampleTableWorld)) tn = (if tn = ''tab'' then Some (sampleTable fmempty) else None)"
  by (auto simp: sampleTableWorld_def sampleTableData_def emptySnapshot_def)

lemma sampleItem_key:
  "dynamoItemKey (sampleTable items) (sampleItem x y) =
     Inr (''HASH'' @ [CHR 0x00] @ ''a'' @ [CHR 0x00] @ ''S'' @ [CHR 0x00] @ x @ [CHR 0x01] @
          ''RANGE'' @ [CHR 0x00] @ ''b'' @ [CHR 0x00] @ ''S'' @ [CHR 0x00] @ y)"
  by (simp add: dynamoItemKey_def sampleTable_def sampleItem_def dynamoScalarKey_def av_of_S_def)

lemma sampleItem_ok: "item_ok (sampleItem x y)"
  by (simp add: item_ok_def sampleItem_def fmpred_iff)

lemma sampleItem_clean: "cloneDynamoItem (sampleItem x y) = sampleItem x y"
  by (rule fmap_eqI) (simp add: sampleItem_def clone_value_ok)

lemma sampleTableWorld_holds: "ok.holds sampleEnv sampleInputs sampleTableWorld"
proof -
  have en: "encodeSnapshot sampleTableData = Some (snapshotDoc sampleTableData)"
    by (simp add: encodeSnapshot_def sampleTableData_def emptySnapshot_def sampleTable_def table_ok_def fmpred_iff)
  have dc: "dynamo_clean sampleTableData"
    by (simp add: dynamo_clean_def sampleTableData_def emptySnapshot_def sampleTable_def table_clean_def fmpred_iff)
  have "validateDynamoTable ''tab'' (dt_KeySchema (sampleTable fmempty)) (dt_AttributeDefinitions (sampleTable fmempty)) = None"
    unfolding sampleTable_def by code_simp
  then have "tablesOK (DynamoTables sampleTableData)"
    by (simp add: tablesOK_def sampleTableData_def emptySnapshot_def) (simp add: sampleTable_def)
  moreover have "storeOK sampleEnv sampleInputs 0 fmempty emptySnapshot" using sample_digests_ok by simp
  ultimately have "storeOK sampleEnv sampleInputs 0 fmempty sampleTableData"
    unfolding sampleTableData_def by (simp add: storeOK_def)
  with sample_durable [OF en dc] show ?thesis by (simp add: ok.holds_def sampleTableWorld_def)
qed

text \<open>Without faults a save whose items can be encoded succeeds.\<close>

lemma sample_table_save:
  assumes "fmpred (\<lambda>_ i. item_ok i) items"
  shows "\<exists>w'. saveThen sampleEnv v (setTable ''tab'' (sampleTable items) sampleTableWorld) = (Inr v, w')"
proof -
  have "\<exists>raw. encodeSnapshot (w_data (setTable ''tab'' (sampleTable items) sampleTableWorld)) = Some raw"
    using assms by (auto simp: encodeSnapshot_def sampleTableWorld_def sampleTableData_def emptySnapshot_def table_ok_def sampleTable_def fmpred_iff)
  then obtain raw where "encodeSnapshot (w_data (setTable ''tab'' (sampleTable items) sampleTableWorld)) = Some raw" by blast
  from saveThen_no_fault(1) [OF _ this, of sampleEnv v] show ?thesis
    by (cases "saveThen sampleEnv v (setTable ''tab'' (sampleTable items) sampleTableWorld)") simp
qed

lemma sample_put_item:
  "\<exists>w'. DynamoPutItem sampleEnv ''tab'' (sampleItem x y) None sampleTableWorld = (Inr (fmempty, False), w')"
proof -
  have c: "cloneDynamoItem fmempty = fmempty" by (simp add: cloneDynamoItem_def)
  have u: "(sampleTable fmempty)\<lparr>dt_Items := m\<rparr> = sampleTable m" for m by (simp add: sampleTable_def)
  have i: "dt_Items (sampleTable m) = m" for m by (simp add: sampleTable_def)
  have "fmpred (\<lambda>_ i. item_ok i) (fmupd k (sampleItem x y) fmempty)" for k using sampleItem_ok by (simp add: fmpred_iff)
  from sample_table_save [OF this] show ?thesis
    by (simp add: DynamoPutItem_def sampleItem_key conditionHolds_def storedItem_def itemExists_def sampleItem_clean c u i)
qed

section \<open>Items by key\<close>

definition itemAt :: "DynamoTable gomap \<Rightarrow> string \<Rightarrow> string \<Rightarrow> DynamoItem option" where
  "itemAt tables tn k = Option.bind (fmlookup tables tn) (\<lambda>t. fmlookup (dt_Items t) k)"

lemma itemAt_upd:
  "itemAt (fmupd tn t tables) tn' k = (if tn' = tn then fmlookup (dt_Items t) k else itemAt tables tn' k)"
  by (simp add: itemAt_def)

lemma DynamoPutItem_success:
  assumes h: "ok.holds E S w" and run: "DynamoPutItem E tn item c w = (Inr r, w')"
  obtains t k where "fmlookup (DynamoTables (w_data w)) tn = Some t" "dynamoItemKey t item = Inr k" "conditionHolds c t k"
    "r = (cloneDynamoItem (storedItem t k), itemExists t k)"
    "w_data w' = (w_data w)\<lparr>DynamoTables := fmupd tn (t\<lparr>dt_Items := fmupd k (cloneDynamoItem item) (dt_Items t)\<rparr>) (DynamoTables (w_data w))\<rparr>"
    "diskState w' = w_data w'"
proof -
  from run obtain t k where t: "fmlookup (DynamoTables (w_data w)) tn = Some t" and k: "dynamoItemKey t item = Inr k" "conditionHolds c t k"
    and sv: "saveThen E (cloneDynamoItem (storedItem t k), itemExists t k)
      (setTable tn (t\<lparr>dt_Items := fmupd k (cloneDynamoItem item) (dt_Items t)\<rparr>) w) = (Inr r, w')"
    by (auto simp: DynamoPutItem_def split: option.splits sum.splits if_splits)
  have "table_clean (t\<lparr>dt_Items := fmupd k (cloneDynamoItem item) (dt_Items t)\<rparr>)"
    using holds_table_clean [OF h t] by (simp add: table_clean_put)
  then have cl: "dynamo_clean (w_data w) \<Longrightarrow>
      dynamo_clean (w_data (setTable tn (t\<lparr>dt_Items := fmupd k (cloneDynamoItem item) (dt_Items t)\<rparr>) w))"
    by (simp add: dynamo_clean_upd)
  note f = saved_Inr [OF h sv _ cl]
  show thesis by (rule that [OF t k]) (use f in simp_all)
qed

text \<open>
  Round trip. After a successful \<open>DynamoPutItem\<close>, getting any item with the same encoded primary key
  returns the item put, in stored form (which is the item itself when each attribute has one value);
  the call returned the item it replaced, and every item under another key of any table is unchanged.
\<close>

theorem dynamo_put_then_get:
  assumes h: "ok.holds E S w" and run: "DynamoPutItem E tn item c w = (Inr (old, existed), w')"
    and t: "fmlookup (DynamoTables (w_data w)) tn = Some t"
    and key: "dynamoItemKey t keyItem = dynamoItemKey t item"
  shows "DynamoGetItem tn keyItem w' = (Inr (cloneDynamoItem item, True), w') \<and>
    (item_clean item \<longrightarrow> cloneDynamoItem item = item) \<and>
    DynamoGetItem tn keyItem w = (Inr (old, existed), w) \<and>
    (\<forall>tn' k. (tn', Inr k) \<noteq> (tn, dynamoItemKey t item) \<longrightarrow>
       itemAt (DynamoTables (w_data w')) tn' k = itemAt (DynamoTables (w_data w)) tn' k) \<and>
    diskState w' = w_data w'"
proof -
  obtain k where k: "dynamoItemKey t item = Inr k" "(old, existed) = (cloneDynamoItem (storedItem t k), itemExists t k)"
    and d: "w_data w' = (w_data w)\<lparr>DynamoTables := fmupd tn (t\<lparr>dt_Items := fmupd k (cloneDynamoItem item) (dt_Items t)\<rparr>) (DynamoTables (w_data w))\<rparr>"
      "diskState w' = w_data w'"
    by (rule DynamoPutItem_success [OF h run]) (use t in simp)
  let ?t = "t\<lparr>dt_Items := fmupd k (cloneDynamoItem item) (dt_Items t)\<rparr>"
  have sk: "dynamoItemKey ?t i = dynamoItemKey t i" for i by (simp add: dynamoItemKey_def)
  have "DynamoGetItem tn keyItem w' = (Inr (cloneDynamoItem item, True), w')"
    using key k(1) by (simp add: DynamoGetItem_def d(1) sk storedItem_def itemExists_def)
  moreover have "DynamoGetItem tn keyItem w = (Inr (old, existed), w)"
    using key k t by (simp add: DynamoGetItem_def)
  moreover have "itemAt (DynamoTables (w_data w')) tn' j = itemAt (DynamoTables (w_data w)) tn' j"
    if "(tn', Inr j) \<noteq> (tn, dynamoItemKey t item)" for tn' j
    using that t k(1) by (auto simp: d(1) itemAt_def)
  ultimately show ?thesis using d(2) by (simp add: item_clean_def)
qed

theorem dynamo_put_then_get_witness:
  "\<exists>w'. DynamoPutItem sampleEnv ''tab'' (sampleItem ''p'' ''r'') None sampleTableWorld = (Inr (fmempty, False), w') \<and>
     DynamoGetItem ''tab'' (sampleItem ''p'' ''r'') w' = (Inr (sampleItem ''p'' ''r'', True), w')"
proof -
  from sample_put_item obtain w' where
    run: "DynamoPutItem sampleEnv ''tab'' (sampleItem ''p'' ''r'') None sampleTableWorld = (Inr (fmempty, False), w')" by blast
  have t: "fmlookup (DynamoTables (w_data sampleTableWorld)) ''tab'' = Some (sampleTable fmempty)" by simp
  from dynamo_put_then_get [OF sampleTableWorld_holds run t refl] run show ?thesis by (simp add: sampleItem_clean)
qed

text \<open>
  Conditional writes. When the condition does not hold of the stored item, put, delete and update all
  fail with the conditional-check error and leave the store exactly as it was.
\<close>

theorem failed_condition_writes_nothing:
  assumes "fmlookup (DynamoTables (w_data w)) tn = Some t" and "dynamoItemKey t item = Inr k" and "\<not> conditionHolds c t k"
  shows "DynamoPutItem E tn item c w = (Inl ErrDynamoConditionalCheckFailed, w) \<and>
    DynamoDeleteItem E tn item c w = (Inl ErrDynamoConditionalCheckFailed, w) \<and>
    DynamoUpdateItem E tn item c upd w = (Inl ErrDynamoConditionalCheckFailed, w)"
  using assms by (simp add: DynamoPutItem_def DynamoDeleteItem_def DynamoUpdateItem_def)

theorem failed_condition_writes_nothing_witness:
  "DynamoPutItem sampleEnv ''tab'' (sampleItem ''p'' ''r'') (Some (\<lambda>_ exists. exists)) sampleTableWorld =
     (Inl ErrDynamoConditionalCheckFailed, sampleTableWorld)"
proof -
  have t: "fmlookup (DynamoTables (w_data sampleTableWorld)) ''tab'' = Some (sampleTable fmempty)" by simp
  have "\<not> conditionHolds (Some (\<lambda>_ exists. exists)) (sampleTable fmempty) k" for k
    by (simp add: conditionHolds_def itemExists_def sampleTable_def)
  from failed_condition_writes_nothing [OF t sampleItem_key this] show ?thesis by blast
qed

section \<open>Transactions\<close>

text \<open>The place an operation of a transaction writes to.\<close>

definition opTarget :: "DynamoTable gomap \<Rightarrow> DynamoWriteOperation \<Rightarrow> (string \<times> string) option" where
  "opTarget tables op1 = (case resolveOp tables op1 of Inl _ \<Rightarrow> None | Inr (_, k, _) \<Rightarrow> Some (wo_Table op1, k))"

lemma applyOp_itemAt:
  "itemAt (applyOp (k, op1) ts) tn j =
     (if tn = wo_Table op1 \<and> j = k \<and> fmlookup ts tn \<noteq> None
      then (if wo_Kind op1 = ''put'' then Some (cloneDynamoItem (wo_Item op1)) else None) else itemAt ts tn j)"
  by (cases "fmlookup ts (wo_Table op1)") (auto simp: applyOp_def fmmodify_def itemAt_def)

lemma applyOp_tables: "fmlookup (applyOp r ts) tn = None \<longleftrightarrow> fmlookup ts tn = None"
  by (cases r; cases "fmlookup ts (wo_Table (snd r))") (auto simp: applyOp_def fmmodify_def)

lemma applyOps_other:
  "(\<And>k op1. (k, op1) \<in> set rs \<Longrightarrow> (wo_Table op1, k) \<noteq> (tn, j)) \<Longrightarrow> itemAt (fold applyOp rs ts) tn j = itemAt ts tn j"
proof (induction rs arbitrary: ts)
  case (Cons r rs)
  obtain k op1 where r: "r = (k, op1)" by (cases r)
  from Cons.prems [of k op1] have "itemAt (applyOp r ts) tn j = itemAt ts tn j" by (auto simp: r applyOp_itemAt)
  moreover have "itemAt (fold applyOp rs (applyOp r ts)) tn j = itemAt (applyOp r ts) tn j"
    by (rule Cons.IH) (rule Cons.prems, simp)
  ultimately show ?case by simp
qed simp

lemma applyOps_at:
  assumes "(k, op1) \<in> set rs" "distinct (map (\<lambda>(k, op1). (wo_Table op1, k)) rs)" "fmlookup ts (wo_Table op1) \<noteq> None"
  shows "itemAt (fold applyOp rs ts) (wo_Table op1) k = (if wo_Kind op1 = ''put'' then Some (cloneDynamoItem (wo_Item op1)) else None)"
  using assms
proof (induction rs arbitrary: ts)
  case (Cons r rs)
  show ?case
  proof (cases "(k, op1) = r")
    case True
    have "itemAt (fold applyOp rs (applyOp r ts)) (wo_Table op1) k = itemAt (applyOp r ts) (wo_Table op1) k"
      by (rule applyOps_other) (use Cons.prems(2) True in \<open>auto simp: image_iff\<close>)
    with True [symmetric] Cons.prems(3) show ?thesis by (simp add: applyOp_itemAt)
  next
    case False
    with Cons.prems Cons.IH [of "applyOp r ts"] show ?thesis by (auto simp: applyOp_tables simp del: not_None_eq)
  qed
qed simp

text \<open>Different places have different identities: table names contain no NUL.\<close>

lemma table_name_no_nul:
  assumes "tablesOK ts" "fmlookup ts tn = Some t"
  shows "dt_Name t = tn \<and> CHR 0x00 \<notin> set tn"
proof -
  have "dt_Name t = tn" "dynamoTableNamePattern tn"
    using assms by (auto simp: tablesOK_def validateDynamoTable_def split: if_splits)
  moreover have "\<not> tableNameChar (CHR 0x00)" by (simp add: tableNameChar_def)
  ultimately show ?thesis by (auto simp: dynamoTableNamePattern_def list_all_iff)
qed

lemma resolveOp_Inr:
  assumes "resolveOp ts op1 = Inr (ident, k, op2)"
  obtains t where "fmlookup ts (wo_Table op1) = Some t" "ident = dt_Name t @ [CHR 0x00] @ k" "op2 = op1\<lparr>wo_Kind := toLower (wo_Kind op1)\<rparr>"
    "opTarget ts op1 = Some (wo_Table op1, k)"
  using assms by (auto simp: resolveOp_def opTarget_def Let_def split: if_splits option.splits sum.splits)

lemma resolveOps_spec:
  assumes ok: "tablesOK ts" and "resolveOps ts seen ops = Inr rs"
  shows "list_all2 (\<lambda>op1 (k, op2). op2 = op1\<lparr>wo_Kind := toLower (wo_Kind op1)\<rparr> \<and> opTarget ts op1 = Some (wo_Table op1, k) \<and>
      fmlookup ts (wo_Table op1) \<noteq> None) ops rs \<and>
    distinct (map (\<lambda>(k, op1). wo_Table op1 @ [CHR 0x00] @ k) rs) \<and>
    set (map (\<lambda>(k, op1). wo_Table op1 @ [CHR 0x00] @ k) rs) \<inter> set seen = {}"
  using assms(2)
proof (induction ops arbitrary: seen rs)
  case (Cons op1 ops)
  from Cons.prems obtain ident k op2 rest where r: "resolveOp ts op1 = Inr (ident, k, op2)" "ident \<notin> set seen"
    "resolveOps ts (ident # seen) ops = Inr rest" "rs = (k, op2) # rest"
    by (auto split: sum.splits if_splits prod.splits)
  obtain t where t: "fmlookup ts (wo_Table op1) = Some t" "ident = dt_Name t @ [CHR 0x00] @ k"
    "op2 = op1\<lparr>wo_Kind := toLower (wo_Kind op1)\<rparr>" "opTarget ts op1 = Some (wo_Table op1, k)" by (rule resolveOp_Inr [OF r(1)])
  have id: "ident = wo_Table op2 @ [CHR 0x00] @ k" using t table_name_no_nul [OF ok t(1)] by simp
  from Cons.IH [OF r(3)] r(2,4) t id show ?case by auto
qed simp

lemma resolved_distinct:
  assumes "tablesOK ts" "resolveOps ts [] ops = Inr rs"
  shows "distinct (map (\<lambda>(k, op1). (wo_Table op1, k)) rs)"
proof -
  have "distinct (map ((\<lambda>(tn, k). tn @ [CHR 0x00] @ k) \<circ> (\<lambda>(k, op1). (wo_Table op1, k))) rs)"
    using resolveOps_spec [OF assms] by (simp add: comp_def split_def)
  then show ?thesis by (metis distinct_map map_map)
qed

text \<open>
  C14. A write transaction is all or nothing. When it succeeds, every put of the request has its item
  stored under its key, every delete has removed its item, nothing else has changed, and all of it was
  committed at once; no two operations of it had the same target. When it fails, for whatever reason,
  nothing has changed.
\<close>

theorem transaction_all_or_nothing:
  assumes h: "ok.holds E S w" and run: "DynamoTransactWrite E ops w = (r, w')"
  defines "before \<equiv> DynamoTables (w_data w)" and "after \<equiv> DynamoTables (w_data w')"
  shows "case r of
      Inr u \<Rightarrow>
        (\<forall>op1 \<in> set ops. \<exists>tn k. opTarget before op1 = Some (tn, k) \<and>
           itemAt after tn k = (if toLower (wo_Kind op1) = ''put'' then Some (cloneDynamoItem (wo_Item op1)) else None)) \<and>
        distinct (map (opTarget before) ops) \<and>
        (\<forall>tn k. Some (tn, k) \<notin> opTarget before ` set ops \<longrightarrow> itemAt after tn k = itemAt before tn k) \<and> diskState w' = w_data w'
    | Inl e \<Rightarrow> sameLive (w_data w') (w_data w) \<and> diskState w' = diskState w"
proof (cases r)
  case (Inl e)
  with DynamoTransactWrite.atomic [OF h run [unfolded Inl]] DynamoTransactWrite.failed_restart [OF h run [unfolded Inl]]
  show ?thesis by simp
next
  case (Inr u)
  from run Inr obtain rs where rs: "resolveOps before [] ops = Inr rs"
    and sv: "saveThen E () (mutate (\<lambda>d. d\<lparr>DynamoTables := fold applyOp rs (DynamoTables d)\<rparr>) w) = (Inr u, w')"
    by (auto simp: DynamoTransactWrite_def before_def split: sum.splits)
  have ok: "tablesOK before" and clean: "tableMap_clean before"
    using ok_holds_parts [OF h] by (auto simp: before_def storeOK_def dynamo_clean_def tableMap_clean_def)
  have cl: "dynamo_clean (w_data w) \<Longrightarrow> dynamo_clean (w_data (mutate (\<lambda>d. d\<lparr>DynamoTables := fold applyOp rs (DynamoTables d)\<rparr>) w))"
    using applyOps_OK [OF ok clean, of rs] by (simp add: dynamo_clean_def tableMap_clean_def before_def)
  note f = saved_Inr [OF h sv _ cl]
  have after: "after = fold applyOp rs before" using f(2) by (simp add: after_def before_def)
  note sp = conjunct1 [OF resolveOps_spec [OF ok rs]] and ds = resolved_distinct [OF ok rs]
  have targets: "map (opTarget before) ops = map (\<lambda>(k, op1). Some (wo_Table op1, k)) rs"
    using sp by (induction rule: list_all2_induct) auto
  have "distinct (map (opTarget before) ops)"
    unfolding targets using ds by (simp add: distinct_map split_def comp_def inj_on_def)
  moreover have "\<exists>tn k. opTarget before op1 = Some (tn, k) \<and>
      itemAt after tn k = (if toLower (wo_Kind op1) = ''put'' then Some (cloneDynamoItem (wo_Item op1)) else None)"
    if "op1 \<in> set ops" for op1
  proof -
    from sp that obtain k where k: "(k, op1\<lparr>wo_Kind := toLower (wo_Kind op1)\<rparr>) \<in> set rs" "opTarget before op1 = Some (wo_Table op1, k)"
      "fmlookup before (wo_Table op1) \<noteq> None"
      by (auto dest!: list_all2_left)
    from applyOps_at [OF k(1) ds] k(2,3) show ?thesis by (simp add: after)
  qed
  moreover have "itemAt after tn k = itemAt before tn k" if "Some (tn, k) \<notin> opTarget before ` set ops" for tn k
    unfolding after
  proof (rule applyOps_other)
    fix j op1
    assume "(j, op1) \<in> set rs"
    then have "Some (wo_Table op1, j) \<in> set (map (opTarget before) ops)" unfolding targets by force
    with that show "(wo_Table op1, j) \<noteq> (tn, k)" by auto
  qed
  ultimately show ?thesis using Inr f(2,3) by simp
qed

theorem transaction_all_or_nothing_witness:
  "\<exists>w'. DynamoTransactWrite sampleEnv [\<lparr>wo_Kind = ''Put'', wo_Table = ''tab'', wo_Item = sampleItem ''p'' ''r'', wo_Key = fmempty\<rparr>]
       sampleTableWorld = (Inr (), w') \<and>
     (\<exists>k. itemAt (DynamoTables (w_data w')) ''tab'' k = Some (sampleItem ''p'' ''r''))"
proof -
  let ?op = "\<lparr>wo_Kind = ''Put'', wo_Table = ''tab'', wo_Item = sampleItem ''p'' ''r'', wo_Key = fmempty\<rparr>"
  have low: "toLower ''Put'' = ''put''" by code_simp
  obtain k where k: "dynamoItemKey (sampleTable fmempty) (sampleItem ''p'' ''r'') = Inr k" using sampleItem_key by blast
  have rs: "resolveOps (DynamoTables (w_data sampleTableWorld)) [] [?op] = Inr [(k, ?op\<lparr>wo_Kind := ''put''\<rparr>)]"
    by (simp add: resolveOp_def low k)
  have u: "(sampleTable fmempty)\<lparr>dt_Items := m\<rparr> = sampleTable m" "dt_Items (sampleTable m) = m" for m by (simp_all add: sampleTable_def)
  have ap: "fold applyOp [(k, ?op\<lparr>wo_Kind := ''put''\<rparr>)] (DynamoTables (w_data sampleTableWorld)) =
      fmupd ''tab'' (sampleTable (fmupd k (sampleItem ''p'' ''r'') fmempty)) (DynamoTables (w_data sampleTableWorld))"
    by (simp add: applyOp_def fmmodify_def u sampleItem_clean)
  have "fmpred (\<lambda>_ i. item_ok i) (fmupd k (sampleItem ''p'' ''r'') fmempty)" using sampleItem_ok by (simp add: fmpred_iff)
  from sample_table_save [OF this, of "()"] obtain w' where
    run: "DynamoTransactWrite sampleEnv [?op] sampleTableWorld = (Inr (), w')"
    unfolding DynamoTransactWrite_def rs sum.case ap by blast
  from transaction_all_or_nothing [OF sampleTableWorld_holds run] run show ?thesis
    by (auto simp: low sampleItem_clean opTarget_def split: sum.splits)
qed

section \<open>Encoded primary keys\<close>

lemma joinWith_inj:
  assumes "joinWith [c] ps = joinWith [c] qs" "length ps = length qs"
    "\<forall>p \<in> set ps. c \<notin> set p" "\<forall>q \<in> set qs. c \<notin> set q"
  shows "ps = qs"
  using assms
proof (induction ps arbitrary: qs)
  case (Cons p ps)
  then obtain q qs' where qs: "qs = q # qs'" by (cases qs) auto
  show ?case
  proof (cases ps)
    case Nil
    with Cons.prems qs show ?thesis by simp
  next
    case (Cons p2 ps2)
    with Cons.prems(2) qs obtain q2 qs2 where qs': "qs' = q2 # qs2" by (cases qs') auto
    have "p @ c # joinWith [c] ps = q @ c # joinWith [c] qs'" using Cons.prems(1) qs qs' Cons by simp
    from split_at_sep [OF this] Cons.prems(3,4) qs have "p = q" "joinWith [c] ps = joinWith [c] qs'" by auto
    with Cons.IH [of qs'] Cons.prems qs show ?thesis by simp
  qed
qed simp

text \<open>The strings a primary key is made of.\<close>

definition keyTexts :: "DynamoTable \<Rightarrow> DynamoItem \<Rightarrow> (error + string) list" where
  "keyTexts t item = map (\<lambda>el. case fmlookup item (ks_AttributeName el) of None \<Rightarrow> Inl ErrDynamoValidation | Some v \<Rightarrow> dynamoScalarKey v) (dt_KeySchema t)"

definition separatorFree :: "DynamoTable \<Rightarrow> DynamoItem \<Rightarrow> bool" where
  "separatorFree t item \<longleftrightarrow>
     (\<forall>el \<in> set (dt_KeySchema t). CHR 0x01 \<notin> set (ks_AttributeName el) \<and> CHR 0x01 \<notin> set (ks_KeyType el)) \<and>
     (\<forall>s. Inr s \<in> set (keyTexts t item) \<longrightarrow> CHR 0x01 \<notin> set s)"

lemma keyParts_spec:
  "keyParts els item = Inr ps \<Longrightarrow>
   list_all2 (\<lambda>el p. \<exists>v s. fmlookup item (ks_AttributeName el) = Some v \<and> dynamoScalarKey v = Inr s \<and>
     p = ks_KeyType el @ [CHR 0x00] @ ks_AttributeName el @ [CHR 0x00] @ s) els ps"
  by (induction els item arbitrary: ps rule: keyParts.induct) (auto split: option.splits sum.splits)

lemma keyParts_texts:
  assumes "keyParts els item = Inr ps" "keyParts els item' = Inr ps"
  shows "map (\<lambda>el. map_option dynamoScalarKey (fmlookup item (ks_AttributeName el))) els =
    map (\<lambda>el. map_option dynamoScalarKey (fmlookup item' (ks_AttributeName el))) els"
  using assms
proof (induction els arbitrary: ps)
  case (Cons el els)
  then show ?case by (auto split: option.splits sum.splits)
qed simp

text \<open>
  When does the encoded key identify an item? If no key value or attribute name contains the separator
  byte 1, two items have the same encoded key only when their key attributes have the same type and value.
\<close>

theorem encoded_key_identifies:
  assumes i: "dynamoItemKey t item = Inr k" and j: "dynamoItemKey t item' = Inr k"
    and sep: "separatorFree t item" "separatorFree t item'" and el: "el \<in> set (dt_KeySchema t)"
  shows "\<exists>v v'. fmlookup item (ks_AttributeName el) = Some v \<and> fmlookup item' (ks_AttributeName el) = Some v' \<and>
    dynamoScalarKey v = dynamoScalarKey v'"
proof -
  from i j obtain ps qs where p: "keyParts (dt_KeySchema t) item = Inr ps" and q: "keyParts (dt_KeySchema t) item' = Inr qs"
    and eq: "joinWith [CHR 0x01] ps = joinWith [CHR 0x01] qs"
    by (auto simp: dynamoItemKey_def split: sum.splits)
  note ps = keyParts_spec [OF p] and qs = keyParts_spec [OF q]
  have free: "\<forall>x \<in> set xs. CHR 0x01 \<notin> set x" if "separatorFree t it" "keyParts (dt_KeySchema t) it = Inr xs" for it xs
  proof
    fix x
    assume "x \<in> set xs"
    with keyParts_spec [OF that(2)] obtain el v s where e: "el \<in> set (dt_KeySchema t)" "fmlookup it (ks_AttributeName el) = Some v"
      "dynamoScalarKey v = Inr s" "x = ks_KeyType el @ [CHR 0x00] @ ks_AttributeName el @ [CHR 0x00] @ s"
      by (auto dest: list_all2_right)
    from e have "Inr s \<in> set (keyTexts t it)" by (force simp: keyTexts_def)
    with that(1) e show "CHR 0x01 \<notin> set x" by (auto simp: separatorFree_def)
  qed
  have "length ps = length qs" using list_all2_lengthD [OF ps] list_all2_lengthD [OF qs] by simp
  from joinWith_inj [OF eq this free [OF sep(1) p] free [OF sep(2) q]] have "ps = qs" .
  from keyParts_texts [OF p q [folded this]] el
  have "map_option dynamoScalarKey (fmlookup item (ks_AttributeName el)) = map_option dynamoScalarKey (fmlookup item' (ks_AttributeName el))"
    by simp
  moreover from list_all2_left [OF ps el] obtain v where "fmlookup item (ks_AttributeName el) = Some v" by blast
  ultimately show ?thesis by (cases "fmlookup item' (ks_AttributeName el)") auto
qed

theorem encoded_key_identifies_witness:
  "dynamoItemKey (sampleTable fmempty) (sampleItem ''p'' ''r'') = dynamoItemKey (sampleTable fmempty) (sampleItem ''p'' ''r'') \<and>
   (\<exists>v v'. fmlookup (sampleItem ''p'' ''r'') ''a'' = Some v \<and> fmlookup (sampleItem ''p'' ''r'') ''a'' = Some v' \<and>
      dynamoScalarKey v = dynamoScalarKey v')"
proof -
  have el: "\<lparr>ks_AttributeName = ''a'', ks_KeyType = ''HASH''\<rparr> \<in> set (dt_KeySchema (sampleTable fmempty))" by (simp add: sampleTable_def)
  have sep: "separatorFree (sampleTable fmempty) (sampleItem ''p'' ''r'')"
    by (auto simp: separatorFree_def keyTexts_def sampleTable_def sampleItem_def dynamoScalarKey_def av_of_S_def)
  from encoded_key_identifies [OF sampleItem_key sampleItem_key sep sep el] show ?thesis by simp
qed

definition keyGlue :: string where
  "keyGlue = [CHR 0x01] @ ''RANGE'' @ [CHR 0x00] @ ''b'' @ [CHR 0x00] @ ''S'' @ [CHR 0x00]"

lemma sampleItem_collide:
  "dynamoItemKey (sampleTable items) (sampleItem p (q @ keyGlue @ r)) = dynamoItemKey (sampleTable items) (sampleItem (p @ keyGlue @ q) r)"
  by (simp add: sampleItem_key keyGlue_def)

lemma sampleItem_differ: "sampleItem p (q @ keyGlue @ r) \<noteq> sampleItem (p @ keyGlue @ q) r"
proof
  assume "sampleItem p (q @ keyGlue @ r) = sampleItem (p @ keyGlue @ q) r"
  then have "fmlookup (sampleItem p (q @ keyGlue @ r)) ''a'' = fmlookup (sampleItem (p @ keyGlue @ q) r) ''a''" by simp
  then show False by (simp add: sampleItem_def av_of_S_def keyGlue_def)
qed

text \<open>
  The separator is not escaped, however, and with it the encoding of a composite key is ambiguous: the two
  items below differ in both key attributes, yet after putting the first, getting the second returns it
  (and putting the second would overwrite it).
\<close>

theorem composite_keys_collide:
  assumes h: "ok.holds E S w" and t: "fmlookup (DynamoTables (w_data w)) ''tab'' = Some (sampleTable items)"
    and run: "DynamoPutItem E ''tab'' (sampleItem p (q @ keyGlue @ r)) None w = (Inr (old, existed), w')"
  shows "DynamoGetItem ''tab'' (sampleItem (p @ keyGlue @ q) r) w' = (Inr (sampleItem p (q @ keyGlue @ r), True), w') \<and>
    sampleItem p (q @ keyGlue @ r) \<noteq> sampleItem (p @ keyGlue @ q) r"
proof -
  obtain k where k: "dynamoItemKey (sampleTable items) (sampleItem p (q @ keyGlue @ r)) = Inr k"
    and d: "w_data w' = (w_data w)\<lparr>DynamoTables := fmupd ''tab'' ((sampleTable items)\<lparr>dt_Items :=
      fmupd k (cloneDynamoItem (sampleItem p (q @ keyGlue @ r))) (dt_Items (sampleTable items))\<rparr>) (DynamoTables (w_data w))\<rparr>"
    by (rule DynamoPutItem_success [OF h run]) (use t in simp)
  let ?t = "(sampleTable items)\<lparr>dt_Items := fmupd k (cloneDynamoItem (sampleItem p (q @ keyGlue @ r))) (dt_Items (sampleTable items))\<rparr>"
  have "dynamoItemKey ?t (sampleItem (p @ keyGlue @ q) r) = Inr k"
    using k sampleItem_collide [of items p q r] by (simp add: dynamoItemKey_def)
  then show ?thesis
    by (simp add: DynamoGetItem_def d storedItem_def itemExists_def sampleItem_clean sampleItem_differ)
qed

theorem composite_keys_collide_witness:
  "\<exists>w'. DynamoPutItem sampleEnv ''tab'' (sampleItem ''p'' (''q'' @ keyGlue @ ''r'')) None sampleTableWorld = (Inr (fmempty, False), w') \<and>
     DynamoGetItem ''tab'' (sampleItem (''p'' @ keyGlue @ ''q'') ''r'') w' = (Inr (sampleItem ''p'' (''q'' @ keyGlue @ ''r''), True), w')"
proof -
  from sample_put_item obtain w' where
    run: "DynamoPutItem sampleEnv ''tab'' (sampleItem ''p'' (''q'' @ keyGlue @ ''r'')) None sampleTableWorld = (Inr (fmempty, False), w')" by blast
  have t: "fmlookup (DynamoTables (w_data sampleTableWorld)) ''tab'' = Some (sampleTable fmempty)" by simp
  from composite_keys_collide [OF sampleTableWorld_holds t run] run show ?thesis by blast
qed

end
