(* ===== verification/Services_Theorems.thy ===== *)
theory Services_Theorems
  imports Services_Correct Lifecycle_Correct Samples
begin

text \<open>
  The properties of the secret store and of the resets: a version added is the latest, a destroyed
  payload is gone for good, and clearing workload data keeps the resources, secrets and keys.
\<close>

section \<open>Secret versions\<close>

lemma numbered_distinct: "numbered ns \<Longrightarrow> distinct ns"
  unfolding numbered_def by (erule ssubst) (simp add: distinct_map inj_on_def)

lemma find_unique:
  assumes "distinct (map f xs)" "x \<in> set xs"
  shows "find (\<lambda>y. f y = f x) xs = Some x"
  using assms by (induction xs) (auto simp: image_iff)

lemma numbered_bounds: "numbered ns \<Longrightarrow> n \<in> set ns \<Longrightarrow> 1 \<le> n \<and> n \<le> int (length ns)"
proof -
  assume "numbered ns" "n \<in> set ns"
  then have "n \<in> set (map (\<lambda>i. int i + 1) [0..<length ns])" by (simp add: numbered_def)
  then show ?thesis by auto
qed

lemma get_version:
  assumes "ok.holds E S w" "fmlookup (Secrets (w_data w)) name = Some s" "v \<in> set (sc_Versions s)"
  shows "SecretVersion_get name (sv_Number v) w = (Inr v, w)"
proof -
  have n: "numbered (map sv_Number (sc_Versions s))" using holds_secret [OF assms(1,2)] by blast
  have "sv_Number v \<noteq> 0" using numbered_bounds [OF n, of "sv_Number v"] assms(3) by auto
  with find_unique [OF numbered_distinct [OF n] assms(3)] assms(2) show ?thesis by (simp add: SecretVersion_get_def)
qed

lemma AddSecretVersion_success:
  assumes h: "ok.holds E S w" and run: "AddSecretVersion E name payload w = (Inr v, w')"
  obtains s where "fmlookup (Secrets (w_data w)) name = Some s"
    "v = \<lparr>sv_Number = int (length (sc_Versions s) + 1), sv_Payload = payload, sv_State = ''ENABLED'', sv_CreateTime = e_now E (w_clock w)\<rparr>"
    "w_data w' = (w_data w)\<lparr>Secrets := fmupd name (s\<lparr>sc_Versions := sc_Versions s @ [v]\<rparr>) (Secrets (w_data w))\<rparr>"
    "diskState w' = w_data w'"
proof -
  from run obtain s where s: "fmlookup (Secrets (w_data w)) name = Some s"
    by (auto simp: AddSecretVersion_def split: option.splits)
  let ?v = "\<lparr>sv_Number = int (length (sc_Versions s) + 1), sv_Payload = payload, sv_State = ''ENABLED'', sv_CreateTime = e_now E (w_clock w)\<rparr>"
  from run s have sv: "saveThen E ?v (setSecret name (s\<lparr>sc_Versions := sc_Versions s @ [?v]\<rparr>) (w\<lparr>w_clock := Suc (w_clock w)\<rparr>)) = (Inr v, w')"
    by (simp add: AddSecretVersion_def now_def Let_def)
  note f = saved_Inr [OF h sv]
  have "v = ?v" using f(1) by (simp add: ahead_def)
  show thesis by (rule that [OF s]) (use f in \<open>simp_all add: ahead_def\<close>)
qed

text \<open>
  Adding a secret version. The new version has the next number, starting from one; reading that number
  and reading the latest version both return it with the payload given; all earlier versions are still
  returned as they were, and the change is on disk.
\<close>

theorem added_version_is_latest:
  assumes h: "ok.holds E S w" and run: "AddSecretVersion E name payload w = (Inr v, w')"
    and s: "fmlookup (Secrets (w_data w)) name = Some s"
  shows "sv_Number v = int (length (sc_Versions s)) + 1 \<and> sv_Payload v = payload \<and>
    SecretVersion_get name 0 w' = (Inr v, w') \<and> SecretVersion_get name (sv_Number v) w' = (Inr v, w') \<and>
    (\<forall>u \<in> set (sc_Versions s). SecretVersion_get name (sv_Number u) w' = (Inr u, w')) \<and> diskState w' = w_data w'"
proof -
  obtain s0 where "fmlookup (Secrets (w_data w)) name = Some s0"
    and v: "v = \<lparr>sv_Number = int (length (sc_Versions s0) + 1), sv_Payload = payload, sv_State = ''ENABLED'', sv_CreateTime = e_now E (w_clock w)\<rparr>"
    and d: "w_data w' = (w_data w)\<lparr>Secrets := fmupd name (s0\<lparr>sc_Versions := sc_Versions s0 @ [v]\<rparr>) (Secrets (w_data w))\<rparr>" "diskState w' = w_data w'"
    by (rule AddSecretVersion_success [OF h run])
  with s have s0: "s0 = s" by simp
  have h': "ok.holds E S w'" using AddSecretVersion.keeps [OF h run] .
  have lk: "fmlookup (Secrets (w_data w')) name = Some (s\<lparr>sc_Versions := sc_Versions s @ [v]\<rparr>)" by (simp add: d(1) s0)
  have "SecretVersion_get name 0 w' = (Inr v, w')" using lk by (simp add: SecretVersion_get_def v)
  moreover have "SecretVersion_get name (sv_Number u) w' = (Inr u, w')" if "u = v \<or> u \<in> set (sc_Versions s)" for u
    by (rule get_version [OF h' lk]) (use that in auto)
  moreover have "sv_Number v = int (length (sc_Versions s)) + 1" "sv_Payload v = payload" by (simp_all add: v s0)
  ultimately show ?thesis using d(2) by blast
qed

text \<open>
  C37. Destroying a version erases it: afterwards the version is reported as destroyed with an empty payload, in
  memory and on disk; and reading the latest version never returns one that is not enabled.
\<close>

theorem destroyed_payload_is_erased:
  assumes h: "ok.holds E S w" and run: "SetSecretVersionState E name n ''DESTROYED'' w = (Inr v, w')"
  shows "sv_State v = ''DESTROYED'' \<and> sv_Payload v = [] \<and> SecretVersion_get name n w' = (Inr v, w') \<and> diskState w' = w_data w' \<and>
    (\<forall>u. SecretVersion_get name 0 w' = (Inr u, w') \<longrightarrow> sv_State u = ''ENABLED'')"
proof -
  from run obtain s vs where s: "fmlookup (Secrets (w_data w)) name = Some s"
    and vs: "setVersionState n ''DESTROYED'' (sc_Versions s) = Some (v, vs)"
    and sv: "saveThen E v (setSecret name (s\<lparr>sc_Versions := vs\<rparr>) w) = (Inr v, w')"
    by (auto simp: SetSecretVersionState_def saveThen_def split: option.splits prod.splits)
  note f = saved_Inr [OF h sv]
  have lk: "fmlookup (Secrets (w_data w')) name = Some (s\<lparr>sc_Versions := vs\<rparr>)" using f(2) by simp
  have h': "ok.holds E S w'" using SetSecretVersionState.keeps [OF h run] .
  note sp = setVersionState_spec [OF vs]
  then have n: "sv_Number v = n" and v: "v \<in> set vs" "sv_State v = ''DESTROYED''" "sv_Payload v = []" by (auto simp: withState_def)
  have "SecretVersion_get name n w' = (Inr v, w')" using get_version [OF h' lk, of v] v n by simp
  moreover have "sv_State u = ''ENABLED''" if "SecretVersion_get name 0 w' = (Inr u, w')" for u
  proof -
    have "numbered (map sv_Number vs)" using holds_secret [OF h' lk] by simp
    then have "find (\<lambda>x. sv_Number x = 0) vs = None"
      using numbered_bounds by (fastforce simp: find_None_iff)
    with that lk have "find (\<lambda>x. sv_State x = ''ENABLED'') (rev vs) = Some u"
      by (auto simp: SecretVersion_get_def split: option.splits)
    then show ?thesis by (auto simp: find_Some_iff)
  qed
  ultimately show ?thesis using v f(2,3) by simp
qed

section \<open>Clearing workload data\<close>

text \<open>
  Clearing the workload data removes every object, upload, message, item and document, from memory and
  from disk, and keeps what was provisioned: the buckets, queues, tables, topics and subscriptions by name,
  and all secrets, key rings, crypto keys and service accounts unchanged. On failure nothing changes.
\<close>

theorem workload_reset_keeps_provisioned:
  assumes h: "ok.holds E S w" and run: "ResetWorkloadData E w = (r, w')"
  shows "case r of
      Inr u \<Rightarrow> refFiles (w_data w') = {} \<and> MultipartUploads (w_data w') = fmempty \<and> FirestoreDocuments (w_data w') = fmempty \<and>
        (\<forall>n q. fmlookup (Queues (w_data w')) n = Some q \<longrightarrow> q_Messages q = []) \<and>
        (\<forall>n s. fmlookup (PubSubSubscriptions (w_data w')) n = Some s \<longrightarrow> ps_Messages s = []) \<and>
        (\<forall>n t. fmlookup (DynamoTables (w_data w')) n = Some t \<longrightarrow> dt_Items t = fmempty) \<and>
        fmdom (Buckets (w_data w')) = fmdom (Buckets (w_data w)) \<and> fmdom (Queues (w_data w')) = fmdom (Queues (w_data w)) \<and>
        fmdom (DynamoTables (w_data w')) = fmdom (DynamoTables (w_data w)) \<and> PubSubTopics (w_data w') = PubSubTopics (w_data w) \<and>
        Secrets (w_data w') = Secrets (w_data w) \<and> KMSKeyRings (w_data w') = KMSKeyRings (w_data w) \<and>
        KMSCryptoKeys (w_data w') = KMSCryptoKeys (w_data w) \<and> IAMServiceAccounts (w_data w') = IAMServiceAccounts (w_data w) \<and>
        sameLive (diskState w') (w_data w')
    | Inl e \<Rightarrow> sameLive (w_data w') (w_data w) \<and> diskState w' = diskState w"
proof (cases r)
  case (Inl e)
  with ResetWorkloadData.atomic [OF h run [unfolded Inl]] ResetWorkloadData.failed_restart [OF h run [unfolded Inl]]
  show ?thesis by simp
next
  case (Inr u)
  from run Inr obtain w1 where s: "saveLocked E (w\<lparr>w_data := clearWorkload (w_data w)\<rparr>) = (None, w1)"
    and w': "w' = removeFiles E (bucketFiles (w_data w) @ uploadFiles (w_data w) @ gcsFiles (w_data w)) w1"
    by (auto simp: ResetWorkloadData_def Let_def split: prod.splits option.splits)
  from s have "w_data w1 = clearWorkload (w_data w)" by (cases rule: saveLocked_cases) auto
  then have d: "w_data w' = clearWorkload (w_data w)" unfolding w' using removeFiles_objectsOnly by (simp add: objectsOnly_def)
  have "refFiles (clearWorkload (w_data w)) = {}"
    by (auto simp: refFiles_def clearWorkload_def elim!: fileRefE)
  with d Inr ResetWorkloadData.restart_agrees [OF h run] show ?thesis by (auto simp: clearWorkload_def)
qed

section \<open>Samples\<close>

definition sampleSecret :: "SecretVersion list \<Rightarrow> Secret" where
  "sampleSecret vs = \<lparr>sc_Name = ''s'', sc_Labels = fmempty, sc_CreateTime = 0, sc_Versions = vs\<rparr>"

definition sampleVersion :: SecretVersion where
  "sampleVersion = \<lparr>sv_Number = 1, sv_Payload = ''pw'', sv_State = ''ENABLED'', sv_CreateTime = 0\<rparr>"

definition sampleSecretWorld :: world where
  "sampleSecretWorld = sampleWorld 0 fmempty (emptySnapshot\<lparr>Secrets := fmupd ''s'' (sampleSecret [sampleVersion]) fmempty\<rparr>)"

lemma sampleSecretWorld_simps [simp]:
  "fmlookup (Secrets (w_data sampleSecretWorld)) ''s'' = Some (sampleSecret [sampleVersion])"
  "DynamoTables (w_data sampleSecretWorld) = fmempty"
  by (simp_all add: sampleSecretWorld_def emptySnapshot_def)

lemma sampleSecretWorld_holds: "ok.holds sampleEnv sampleInputs sampleSecretWorld"
  unfolding sampleSecretWorld_def
proof (rule sample_holds)
  have "storeOK sampleEnv sampleInputs 0 fmempty emptySnapshot" using sample_digests_ok by simp
  then show "storeOK sampleEnv sampleInputs 0 fmempty (emptySnapshot\<lparr>Secrets := fmupd ''s'' (sampleSecret [sampleVersion]) fmempty\<rparr>)"
    by (rule storeOK_Secrets) (simp add: secretsOK_def sampleSecret_def sampleVersion_def numbered_def)
qed (simp add: emptySnapshot_def)

theorem added_version_is_latest_witness:
  "\<exists>v w'. AddSecretVersion sampleEnv ''s'' ''new'' sampleSecretWorld = (Inr v, w') \<and> sv_Number v = 2 \<and>
     SecretVersion_get ''s'' 0 w' = (Inr v, w')"
proof -
  have "\<exists>v w'. AddSecretVersion sampleEnv ''s'' ''new'' sampleSecretWorld = (Inr v, w')"
    by (simp add: AddSecretVersion_def now_def Let_def) (rule exI, rule saveThen_sample_ok, simp)
  then obtain v w' where run: "AddSecretVersion sampleEnv ''s'' ''new'' sampleSecretWorld = (Inr v, w')" by blast
  from added_version_is_latest [OF sampleSecretWorld_holds run sampleSecretWorld_simps(1)] run show ?thesis
    by (auto simp: sampleSecret_def)
qed

theorem destroyed_payload_is_erased_witness:
  "\<exists>v w'. SetSecretVersionState sampleEnv ''s'' 1 ''DESTROYED'' sampleSecretWorld = (Inr v, w') \<and> sv_Payload v = []"
proof -
  have "\<exists>v w'. SetSecretVersionState sampleEnv ''s'' 1 ''DESTROYED'' sampleSecretWorld = (Inr v, w')"
    by (simp add: SetSecretVersionState_def sampleSecret_def sampleVersion_def) (rule exI, rule saveThen_sample_ok, simp)
  then obtain v w' where run: "SetSecretVersionState sampleEnv ''s'' 1 ''DESTROYED'' sampleSecretWorld = (Inr v, w')" by blast
  from destroyed_payload_is_erased [OF sampleSecretWorld_holds run] run show ?thesis by blast
qed

theorem workload_reset_keeps_provisioned_witness:
  "\<exists>w'. ResetWorkloadData sampleEnv sampleSecretWorld = (Inr (), w') \<and>
     fmlookup (Secrets (w_data w')) ''s'' = Some (sampleSecret [sampleVersion])"
proof -
  have "encodeSnapshot (clearWorkload (w_data sampleSecretWorld)) = Some (snapshotDoc (clearWorkload (w_data sampleSecretWorld)))"
    by (rule encode_no_tables) (simp add: clearWorkload_def)
  then have "fst (saveThen sampleEnv () (sampleSecretWorld\<lparr>w_data := clearWorkload (w_data sampleSecretWorld)\<rparr>)) = Inr ()"
    by (intro saveThen_no_fault(1)) simp_all
  then obtain w1 where "saveLocked sampleEnv (sampleSecretWorld\<lparr>w_data := clearWorkload (w_data sampleSecretWorld)\<rparr>) = (None, w1)"
    by (auto simp: saveThen_def split: prod.splits option.splits)
  then obtain w' where run: "ResetWorkloadData sampleEnv sampleSecretWorld = (Inr (), w')"
    by (auto simp: ResetWorkloadData_def Let_def)
  from workload_reset_keeps_provisioned [OF sampleSecretWorld_holds run] run show ?thesis by simp
qed

end
