(* ===== verification/Dynamo_Expressions.thy ===== *)
theory Dynamo_Expressions
  imports DynamoDB Complex_Main
begin

text \<open>
  The expression language of the DynamoDB handler (\<^verbatim>\<open>internal/server/dynamodb.go\<close>): the tokenizer,
  the recursive-descent parser of condition expressions and the evaluators it builds, the comparison of
  attribute values, and update expressions with their sections.

  Evaluators are functions, as in the code. The parser state is the list of tokens from \<open>position\<close> on.
  The parameter \<open>R\<close> stands for \<open>(*big.Rat).SetString\<close>, which reads the text of a number; its result for
  each text is left open.
\<close>

type_synonym number_reader = "string \<Rightarrow> rat option"
type_synonym dynamoEvaluator = "DynamoItem \<Rightarrow> bool \<Rightarrow> bool"

section \<open>Tokens\<close>

text \<open>
  \<open>unicode.IsSpace\<close> of one byte read as a rune: the ASCII blanks and, as the code looks at bytes and not at
  characters, the bytes \<open>0x85\<close> and \<open>0xA0\<close>.
\<close>

definition byteIsSpace :: "char \<Rightarrow> bool" where
  "byteIsSpace c = (isSpace c \<or> c = CHR 0x85 \<or> c = CHR 0xA0)"

definition isPunctuation :: "char \<Rightarrow> bool" where
  "isPunctuation c = (c \<in> set ''(),='')"

definition isWordByte :: "char \<Rightarrow> bool" where
  "isWordByte c = (\<not> byteIsSpace c \<and> c \<notin> set ''(),=<> '')"

lemma first_word_byte: "\<not> byteIsSpace c \<Longrightarrow> \<not> isPunctuation c \<Longrightarrow> c \<noteq> CHR ''<'' \<Longrightarrow> c \<noteq> CHR ''>'' \<Longrightarrow> isWordByte c"
proof -
  have "byteIsSpace (CHR '' '')" by code_simp
  then show "\<not> byteIsSpace c \<Longrightarrow> \<not> isPunctuation c \<Longrightarrow> c \<noteq> CHR ''<'' \<Longrightarrow> c \<noteq> CHR ''>'' \<Longrightarrow> isWordByte c"
    by (simp add: isWordByte_def isPunctuation_def) blast
qed

function tokenizeDynamoExpression :: "string \<Rightarrow> string list" where
  "tokenizeDynamoExpression [] = []"
| "tokenizeDynamoExpression (c # cs) =
     (if byteIsSpace c then tokenizeDynamoExpression cs
      else if isPunctuation c then [c] # tokenizeDynamoExpression cs
      else if c = CHR ''<'' \<or> c = CHR ''>'' then
        (case cs of
           d # ds \<Rightarrow>
             if d = CHR ''='' \<or> (c = CHR ''<'' \<and> d = CHR ''>'') then [c, d] # tokenizeDynamoExpression ds
             else [c] # tokenizeDynamoExpression cs
         | [] \<Rightarrow> [[c]])
      else takeWhile isWordByte (c # cs) # tokenizeDynamoExpression (dropWhile isWordByte (c # cs)))"
  by pat_completeness auto

termination
proof (relation "measure length")
  fix c cs
  assume "\<not> byteIsSpace c" "\<not> isPunctuation c" "\<not> (c = CHR ''<'' \<or> c = CHR ''>'')"
  then have "isWordByte c" using first_word_byte by blast
  then show "(dropWhile isWordByte (c # cs), c # cs) \<in> measure length"
    by (simp add: le_imp_less_Suc length_dropWhile_le)
qed auto

section \<open>Comparing values\<close>

text \<open>\<open>json.Marshal\<close> of a value, whose error is ignored: equal text means equal wire values.\<close>

definition marshalled :: "DynamoAttributeValue \<Rightarrow> DynamoAttributeValue option" where
  "marshalled v = (case MarshalJSON v of Inl _ \<Rightarrow> None | Inr x \<Rightarrow> Some x)"

definition dynamoAttributeEqual :: "DynamoAttributeValue \<Rightarrow> DynamoAttributeValue \<Rightarrow> bool" where
  "dynamoAttributeEqual l r = (marshalled l = marshalled r)"

text \<open>\<open>strings.Compare\<close> and \<open>(*big.Rat).Cmp\<close>.\<close>

definition threeWay :: "'a::linorder \<Rightarrow> 'a \<Rightarrow> int" where
  "threeWay a b = (if a < b then - 1 else if a = b then 0 else 1)"

definition dynamoCompare :: "number_reader \<Rightarrow> DynamoAttributeValue \<Rightarrow> DynamoAttributeValue \<Rightarrow> int" where
  "dynamoCompare R l r =
     (let rest = (if dynamoAttributeEqual l r then 0 else 1)
      in case (av_S l, av_S r) of
           (Some a, Some b) \<Rightarrow> threeWay a b
         | _ \<Rightarrow>
            (case (av_N l, av_N r) of
               (Some a, Some b) \<Rightarrow>
                 (case (R a, R b) of (Some x, Some y) \<Rightarrow> threeWay x y | _ \<Rightarrow> rest)
             | _ \<Rightarrow>
                (case (av_B l, av_B r) of
                   (Some a, Some b) \<Rightarrow> threeWay a b
                 | _ \<Rightarrow> rest)))"

definition dynamoBeginsWith :: "DynamoAttributeValue \<Rightarrow> DynamoAttributeValue \<Rightarrow> bool" where
  "dynamoBeginsWith actual pre =
     (case (av_S actual, av_S pre) of
        (Some a, Some p) \<Rightarrow> hasPrefix a p
      | _ \<Rightarrow>
         (case (av_B actual, av_B pre) of
            (Some a, Some p) \<Rightarrow> hasPrefix a p
          | _ \<Rightarrow> False))"

section \<open>The parser\<close>

definition resolveDynamoName :: "string \<Rightarrow> strmap \<Rightarrow> string" where
  "resolveDynamoName value names =
     (let v = trimSpace value in case fmlookup names v of Some m \<Rightarrow> m | None \<Rightarrow> v)"

definition pnext :: "string list \<Rightarrow> string \<times> string list" where
  "pnext ts = (case ts of [] \<Rightarrow> ('''', []) | t # ts' \<Rightarrow> (t, ts'))"

definition peekEqual :: "string list \<Rightarrow> string \<Rightarrow> bool" where
  "peekEqual ts v = (case ts of [] \<Rightarrow> False | t # _ \<Rightarrow> equalFold t v)"

definition pmatch :: "string list \<Rightarrow> string \<Rightarrow> bool \<times> string list" where
  "pmatch ts v = (if peekEqual ts v then (True, tl ts) else (False, ts))"

type_synonym 'a parsed = "string + 'a \<times> string list"

definition attributeFunction :: "string \<Rightarrow> string \<Rightarrow> dynamoEvaluator" where
  "attributeFunction function name item exists =
     (let present = (fmlookup item name \<noteq> None)
      in if function = ''attribute_exists'' then exists \<and> present else \<not> exists \<or> \<not> present)"

definition parseAttributeFunction :: "strmap \<Rightarrow> string list \<Rightarrow> dynamoEvaluator parsed" where
  "parseAttributeFunction names ts =
     (let (f, ts1) = pnext ts; (opened, ts2) = pmatch ts1 ''(''
      in if \<not> opened then Inl ''expected (''
         else let (t, ts3) = pnext ts2; name = resolveDynamoName t names; (closed, ts4) = pmatch ts3 '')''
              in if name = '''' \<or> \<not> closed then Inl ''invalid attribute function''
                 else Inr (attributeFunction (toLower f) name, ts4))"

definition beginsWithFunction :: "string \<Rightarrow> DynamoAttributeValue \<Rightarrow> dynamoEvaluator" where
  "beginsWithFunction name expected item exists =
     (case fmlookup item name of None \<Rightarrow> False | Some actual \<Rightarrow> dynamoBeginsWith actual expected)"

definition parseBeginsWith :: "strmap \<Rightarrow> DynamoItem \<Rightarrow> string list \<Rightarrow> dynamoEvaluator parsed" where
  "parseBeginsWith names values ts =
     (let (f, ts1) = pnext ts; (opened, ts2) = pmatch ts1 ''(''
      in if \<not> opened then Inl ''expected (''
         else let (t, ts3) = pnext ts2; name = resolveDynamoName t names; (comma, ts4) = pmatch ts3 '',''
              in if \<not> comma then Inl ''expected comma''
                 else let (v, ts5) = pnext ts4; (closed, ts6) = pmatch ts5 '')''
                      in case fmlookup values v of
                           None \<Rightarrow> Inl ''invalid begins_with value''
                         | Some expected \<Rightarrow>
                            if \<not> closed then Inl ''invalid begins_with value''
                            else Inr (beginsWithFunction name expected, ts6))"

definition betweenFunction :: "number_reader \<Rightarrow> string \<Rightarrow> DynamoAttributeValue \<Rightarrow> DynamoAttributeValue \<Rightarrow> dynamoEvaluator" where
  "betweenFunction R name lower upper item exists =
     (case fmlookup item name of
        None \<Rightarrow> False
      | Some actual \<Rightarrow> dynamoCompare R actual lower \<ge> 0 \<and> dynamoCompare R actual upper \<le> 0)"

definition parseBetween :: "number_reader \<Rightarrow> string \<Rightarrow> DynamoItem \<Rightarrow> string list \<Rightarrow> dynamoEvaluator parsed" where
  "parseBetween R name values ts =
     (let (l, ts1) = pnext ts; (conj, ts2) = pmatch ts1 ''AND''
      in case fmlookup values l of
           None \<Rightarrow> Inl ''invalid BETWEEN expression''
         | Some lower \<Rightarrow>
            if \<not> conj then Inl ''invalid BETWEEN expression''
            else let (u, ts3) = pnext ts2
                 in case fmlookup values u of
                      None \<Rightarrow> Inl ''invalid BETWEEN upper value''
                    | Some upper \<Rightarrow> Inr (betweenFunction R name lower upper, ts3))"

definition compareOperators :: "string list" where
  "compareOperators = [''='', ''<>'', ''<'', ''<='', ''>'', ''>='']"

definition operatorHolds :: "string \<Rightarrow> int \<Rightarrow> bool" where
  "operatorHolds operator comparison =
     (if operator = ''='' then comparison = 0
      else if operator = ''<>'' then comparison \<noteq> 0
      else if operator = ''<'' then comparison < 0
      else if operator = ''<='' then comparison \<le> 0
      else if operator = ''>'' then comparison > 0
      else comparison \<ge> 0)"

definition comparisonFunction :: "number_reader \<Rightarrow> string \<Rightarrow> string \<Rightarrow> DynamoAttributeValue \<Rightarrow> dynamoEvaluator" where
  "comparisonFunction R name operator expected item exists =
     (case fmlookup item name of
        None \<Rightarrow> False
      | Some actual \<Rightarrow> operatorHolds operator (dynamoCompare R actual expected))"

definition parseComparison :: "number_reader \<Rightarrow> string \<Rightarrow> DynamoItem \<Rightarrow> string list \<Rightarrow> dynamoEvaluator parsed" where
  "parseComparison R name values ts =
     (let (operator, ts1) = pnext ts; (v, ts2) = pnext ts1
      in case fmlookup values v of
           None \<Rightarrow> Inl ''invalid comparison''
         | Some expected \<Rightarrow>
            if operator \<notin> set compareOperators then Inl ''invalid comparison''
            else Inr (comparisonFunction R name operator expected, ts2))"

text \<open>The branches of \<open>parsePredicate\<close> after the one for a parenthesis.\<close>

definition parseSimple :: "number_reader \<Rightarrow> strmap \<Rightarrow> DynamoItem \<Rightarrow> string list \<Rightarrow> dynamoEvaluator parsed" where
  "parseSimple R names values ts =
     (if peekEqual ts ''attribute_exists'' \<or> peekEqual ts ''attribute_not_exists'' then parseAttributeFunction names ts
      else if peekEqual ts ''begins_with'' then parseBeginsWith names values ts
      else let (t, ts1) = pnext ts; name = resolveDynamoName t names
           in if name = '''' then Inl ''attribute name is required''
              else let (between, ts2) = pmatch ts1 ''BETWEEN''
                   in if between then parseBetween R name values ts2 else parseComparison R name values ts1)"

function (sequential) parseExpression :: "number_reader \<Rightarrow> strmap \<Rightarrow> DynamoItem \<Rightarrow> string list \<Rightarrow> dynamoEvaluator parsed" and
  parseConjuncts :: "number_reader \<Rightarrow> strmap \<Rightarrow> DynamoItem \<Rightarrow> dynamoEvaluator \<Rightarrow> string list \<Rightarrow> dynamoEvaluator parsed" and
  parsePredicate :: "number_reader \<Rightarrow> strmap \<Rightarrow> DynamoItem \<Rightarrow> string list \<Rightarrow> dynamoEvaluator parsed"
where
  "parseExpression R names values ts =
     (case parsePredicate R names values ts of
        Inl e \<Rightarrow> Inl e
      | Inr (left, ts1) \<Rightarrow> parseConjuncts R names values left ts1)"
| "parseConjuncts R names values left ts =
     (if peekEqual ts ''AND'' then
        (case parsePredicate R names values (tl ts) of
           Inl e \<Rightarrow> Inl e
         | Inr (right, ts1) \<Rightarrow>
             parseConjuncts R names values (\<lambda>item exists. left item exists \<and> right item exists) ts1)
      else Inr (left, ts))"
| "parsePredicate R names values ts =
     (if peekEqual ts ''('' then
        (case parseExpression R names values (tl ts) of
           Inl e \<Rightarrow> Inl ''unclosed expression''
         | Inr (nested, ts1) \<Rightarrow>
             let (closed, ts2) = pmatch ts1 '')''
             in if \<not> closed then Inl ''unclosed expression'' else Inr (nested, ts2))
      else parseSimple R names values ts)"
  by pat_completeness auto

text \<open>
  Termination of the parser rests on what it returns: a predicate consumes at least one token. This is
  proved for the arguments on which the functions are defined, before they are known to be total.
\<close>

lemma pnext_length: "length (snd (pnext ts)) \<le> length ts"
  by (simp add: pnext_def split: list.split)

lemma pmatch_length: "length (snd (pmatch ts v)) \<le> length ts"
  by (simp add: pmatch_def)

lemma pmatch_True: "pmatch ts v = (True, ts') \<Longrightarrow> length ts' < length ts"
  by (cases ts) (auto simp: pmatch_def peekEqual_def split: if_splits)

lemma pnext_shorter: "ts \<noteq> [] \<Longrightarrow> length (snd (pnext ts)) < length ts"
  by (cases ts) (auto simp: pnext_def)

lemma pnext_Nil [simp]: "pnext [] = ('''', [])"
  by (simp add: pnext_def)

lemma peekEqual_not_Nil: "peekEqual ts v \<Longrightarrow> ts \<noteq> []"
  by (cases ts) (auto simp: peekEqual_def)

lemma parseAttributeFunction_shorter: "parseAttributeFunction names ts = Inr (f, ts') \<Longrightarrow> length ts' < length ts"
  using pnext_length pmatch_True
  by (auto simp: parseAttributeFunction_def Let_def split: prod.splits if_splits)
    (metis (no_types, lifting) order.strict_trans1 order.strict_trans2 order.strict_trans snd_conv pnext_length pmatch_True less_imp_le_nat)

lemma parseBeginsWith_shorter: "parseBeginsWith names values ts = Inr (f, ts') \<Longrightarrow> length ts' < length ts"
  by (auto simp: parseBeginsWith_def Let_def split: prod.splits if_splits option.splits)
    (metis (no_types, lifting) order.strict_trans1 order.strict_trans2 order.strict_trans snd_conv pnext_length pmatch_True less_imp_le_nat)

lemma parseBetween_length: "parseBetween R name values ts = Inr (f, ts') \<Longrightarrow> length ts' < length ts"
  by (auto simp: parseBetween_def Let_def split: prod.splits if_splits option.splits)
    (metis (no_types, lifting) order.strict_trans1 order.strict_trans2 snd_conv pnext_length pmatch_True)

lemma parseComparison_length:
  assumes "parseComparison R name values ts = Inr (f, ts')"
  shows "length ts' < length ts"
proof -
  have "ts \<noteq> []" using assms by (auto simp: parseComparison_def compareOperators_def split: option.splits)
  with assms show ?thesis
    by (auto simp: parseComparison_def Let_def split: prod.splits if_splits option.splits)
      (metis order.strict_trans1 snd_conv pnext_length pnext_shorter)
qed

lemma parseSimple_shorter: "parseSimple R names values ts = Inr (f, ts') \<Longrightarrow> length ts' < length ts"
  using pnext_length [of ts]
  by (auto simp: parseSimple_def Let_def split: prod.splits if_splits
      dest!: parseAttributeFunction_shorter parseBeginsWith_shorter parseBetween_length parseComparison_length pmatch_True)

lemma parser_shorter:
  "parseExpression_parseConjuncts_parsePredicate_dom (Inl (R, names, vs, ts)) \<Longrightarrow>
     (\<And>f ts'. parseExpression R names vs ts = Inr (f, ts') \<Longrightarrow> length ts' < length ts)"
  "parseExpression_parseConjuncts_parsePredicate_dom (Inr (Inl (R, names, vs, left, ts))) \<Longrightarrow>
     (\<And>f ts'. parseConjuncts R names vs left ts = Inr (f, ts') \<Longrightarrow> length ts' \<le> length ts)"
  "parseExpression_parseConjuncts_parsePredicate_dom (Inr (Inr (R, names, vs, ts))) \<Longrightarrow>
     (\<And>f ts'. parsePredicate R names vs ts = Inr (f, ts') \<Longrightarrow> length ts' < length ts)"
proof (induction R names vs ts and R names vs left ts and R names vs ts
    rule: parseExpression_parseConjuncts_parsePredicate.pinduct)
  case (1 R names vs ts)
  then show ?case
    by (auto simp: parseExpression.psimps split: sum.splits) (meson le_less_trans)
next
  case (2 R names vs left ts)
  then show ?case
    by (cases ts) (auto simp: parseConjuncts.psimps split: sum.splits if_splits dest!: peekEqual_not_Nil, fastforce)
next
  case (3 R names vs ts)
  show ?case
  proof (cases "peekEqual ts ''(''")
    case True
    then obtain t us where "ts = t # us" by (cases ts) (auto dest: peekEqual_not_Nil)
    with 3 True show ?thesis
      by (auto simp: parsePredicate.psimps split: sum.splits prod.splits if_splits dest!: pmatch_True)
  next
    case False
    with 3 have "parseSimple R names vs ts = Inr (f, ts')" by (simp add: parsePredicate.psimps)
    then show ?thesis by (rule parseSimple_shorter)
  qed
qed

termination parseExpression
  by (relation "measure (\<lambda>x. case x of Inl (R, names, values, ts) \<Rightarrow> 2 * length ts + 1
        | Inr (Inl (R, names, values, left, ts)) \<Rightarrow> 2 * length ts + 1
        | Inr (Inr (R, names, values, ts)) \<Rightarrow> 2 * length ts)")
    (auto dest!: parser_shorter(3) peekEqual_not_Nil simp: neq_Nil_conv)

declare parseExpression.simps [simp del] parseConjuncts.simps [simp del] parsePredicate.simps [simp del]

lemma parsePredicate_simple: "\<not> peekEqual ts ''('' \<Longrightarrow> parsePredicate R names values ts = parseSimple R names values ts"
  by (simp add: parsePredicate.simps)

lemma parseConjuncts_end: "\<not> peekEqual ts ''AND'' \<Longrightarrow> parseConjuncts R names values left ts = Inr (left, ts)"
  by (simp add: parseConjuncts.simps)

lemma parseConjuncts_and:
  "parsePredicate R names values ts = Inr (right, ts') \<Longrightarrow>
     parseConjuncts R names values left (''AND'' # ts) =
       parseConjuncts R names values (\<lambda>item exists. left item exists \<and> right item exists) ts'"
  by (simp add: parseConjuncts.simps [of R names "values" left "''AND'' # ts"] peekEqual_def)

definition compileDynamoCondition ::
  "number_reader \<Rightarrow> string \<Rightarrow> strmap \<Rightarrow> DynamoItem \<Rightarrow> error + DynamoCondition option" where
  "compileDynamoCondition R expression names values =
     (if trimSpace expression = '''' then Inr None
      else case parseExpression R names values (tokenizeDynamoExpression expression) of
             Inl e \<Rightarrow> Inl (invalid (''invalid expression: '' @ e))
           | Inr (evaluator, []) \<Rightarrow> Inr (Some evaluator)
           | Inr (evaluator, t # _) \<Rightarrow> Inl (invalid (''invalid expression: unexpected token '' @ t)))"

section \<open>Numbers\<close>

text \<open>
  \<open>(*big.Rat).FloatString(38)\<close> of a fraction: the integer part, a point and 38 digits, rounded half away
  from zero; the carry of a rounded fraction goes to the integer part.
\<close>

definition floatString :: "nat \<Rightarrow> rat \<Rightarrow> string" where
  "floatString prec x =
     (let (a, b) = quotient_of x; q = \<bar>a\<bar> div b; p = 10 ^ prec; s = (\<bar>a\<bar> mod b) * p;
          r = (if b \<le> 2 * (s mod b) then s div b + 1 else s div b);
          (q', r') = (if p \<le> r then (q + 1, r - p) else (q, r));
          ds = showNat (nat r')
      in (if a < 0 then ''-'' else '''') @ showNat (nat q') @ ''.'' @ replicate (prec - length ds) (CHR ''0'') @ ds)"

definition trimRight :: "char \<Rightarrow> string \<Rightarrow> string" where
  "trimRight c s = rev (dropWhile ((=) c) (rev s))"

definition numberText :: "rat \<Rightarrow> string" where
  "numberText x =
     (let (a, b) = quotient_of x
      in if b = 1 then showInt a else trimRight (CHR ''.'') (trimRight (CHR ''0'') (floatString 38 x)))"

definition addDynamoNumbers :: "number_reader \<Rightarrow> string \<Rightarrow> string \<Rightarrow> error + string" where
  "addDynamoNumbers R left right =
     (case (R left, R right) of
        (Some x, Some y) \<Rightarrow> Inr (numberText (x + y))
      | _ \<Rightarrow> Inl (invalid ''invalid DynamoDB number''))"

section \<open>Update expressions\<close>

text \<open>
  The sections are found with the pattern \<^verbatim>\<open>(?i)(^|\s)(SET|REMOVE|ADD|DELETE)\s+\<close>. \<open>matchHere\<close> matches it
  at the start of a text (of the whole expression when \<open>start\<close> holds) and returns the keyword and the text
  after the match; \<open>firstMatch\<close> finds the leftmost match and returns the text before it too.
\<close>

definition reSpace :: "char \<Rightarrow> bool" where
  "reSpace c = (c \<in> {CHR 0x09, CHR 0x0A, CHR 0x0C, CHR 0x0D, CHR '' ''})"

definition updateKeywords :: "string list" where
  "updateKeywords = [''SET'', ''REMOVE'', ''ADD'', ''DELETE'']"

definition keywordAt :: "string \<Rightarrow> (string \<times> string) option" where
  "keywordAt s =
     (case find (\<lambda>k. equalFold (take (length k) s) k \<and>
                     (case drop (length k) s of c # _ \<Rightarrow> reSpace c | [] \<Rightarrow> False)) updateKeywords of
        Some k \<Rightarrow> Some (take (length k) s, dropWhile reSpace (drop (length k) s))
      | None \<Rightarrow> None)"

definition matchHere :: "bool \<Rightarrow> string \<Rightarrow> (string \<times> string) option" where
  "matchHere start s =
     (case (if start then keywordAt s else None) of
        Some m \<Rightarrow> Some m
      | None \<Rightarrow> (case s of c # cs \<Rightarrow> if reSpace c then keywordAt cs else None | [] \<Rightarrow> None))"

fun firstMatch :: "bool \<Rightarrow> string \<Rightarrow> (string \<times> string \<times> string) option" where
  "firstMatch start [] = None"
| "firstMatch start (c # cs) =
     (case matchHere start (c # cs) of
        Some (k, rest) \<Rightarrow> Some ([], k, rest)
      | None \<Rightarrow> (case firstMatch False cs of None \<Rightarrow> None | Some (b, k, rest) \<Rightarrow> Some (c # b, k, rest)))"

lemma keywordAt_shorter: "keywordAt s = Some (k, rest) \<Longrightarrow> length rest < length s"
proof -
  assume k: "keywordAt s = Some (k, rest)"
  then obtain kw where f: "find (\<lambda>k. equalFold (take (length k) s) k \<and>
      (case drop (length k) s of c # _ \<Rightarrow> reSpace c | [] \<Rightarrow> False)) updateKeywords = Some kw"
    and rest: "rest = dropWhile reSpace (drop (length kw) s)"
    by (auto simp: keywordAt_def split: option.splits)
  from f have "kw \<in> set updateKeywords \<and> (case drop (length kw) s of c # _ \<Rightarrow> reSpace c | [] \<Rightarrow> False)"
    unfolding find_Some_iff by (metis nth_mem)
  then have "kw \<in> set updateKeywords \<and> drop (length kw) s \<noteq> []" by (cases "drop (length kw) s") simp_all  then have "0 < length kw" "length (drop (length kw) s) < length s"
    by (auto simp: updateKeywords_def)
  with rest show "length rest < length s"
    using length_dropWhile_le [of reSpace "drop (length kw) s"] by simp
qed

lemma matchHere_shorter: "matchHere start s = Some (k, rest) \<Longrightarrow> length rest < length s"
  by (auto simp: matchHere_def split: option.splits if_splits list.splits dest!: keywordAt_shorter)

lemma firstMatch_shorter: "firstMatch start s = Some (b, k, rest) \<Longrightarrow> length rest < length s"
proof (induction start s arbitrary: b rule: firstMatch.induct)
  case (2 start c cs)
  show ?case
  proof (cases "matchHere start (c # cs)")
    case None
    with 2 show ?thesis by (fastforce split: option.splits)
  next
    case (Some m)
    with 2 show ?thesis by (cases m) (auto dest: matchHere_shorter)
  qed
qed simp

record dynamoUpdateSection =
  us_kind :: string
  us_body :: string

function sectionsFrom :: "string \<Rightarrow> string \<Rightarrow> dynamoUpdateSection list" where
  "sectionsFrom kind text =
     (case firstMatch False text of
        None \<Rightarrow> [\<lparr>us_kind = toUpper kind, us_body = trimSpace text\<rparr>]
      | Some (b, k, rest) \<Rightarrow> \<lparr>us_kind = toUpper kind, us_body = trimSpace b\<rparr> # sectionsFrom k rest)"
  by pat_completeness auto

termination
  by (relation "measure (length \<circ> snd)") (auto dest: firstMatch_shorter)

definition splitDynamoUpdateSections :: "string \<Rightarrow> dynamoUpdateSection list" where
  "splitDynamoUpdateSections expression =
     (case firstMatch True expression of None \<Rightarrow> [] | Some (b, k, rest) \<Rightarrow> sectionsFrom k rest)"

text \<open>Splitting at a separator outside parentheses; each part is trimmed.\<close>

fun topLevelFrom :: "char \<Rightarrow> int \<Rightarrow> string \<Rightarrow> string \<Rightarrow> string list" where
  "topLevelFrom sep depth part [] = [trimSpace part]"
| "topLevelFrom sep depth part (c # cs) =
     (if c = CHR ''('' then topLevelFrom sep (depth + 1) (part @ [c]) cs
      else if c = CHR '')'' then topLevelFrom sep (depth - 1) (part @ [c]) cs
      else if c = sep \<and> depth = 0 then trimSpace part # topLevelFrom sep depth [] cs
      else topLevelFrom sep depth (part @ [c]) cs)"

definition splitDynamoTopLevel :: "string \<Rightarrow> char \<Rightarrow> string list" where
  "splitDynamoTopLevel value sep = topLevelFrom sep 0 [] value"

text \<open>\<open>strings.Fields\<close>.\<close>

function goFields :: "string \<Rightarrow> string list" where
  "goFields s =
     (let t = dropWhile isSpace s
      in if t = [] then []
         else takeWhile (\<lambda>c. \<not> isSpace c) t # goFields (dropWhile (\<lambda>c. \<not> isSpace c) t))"
  by pat_completeness auto

termination
proof (relation "measure length")
  fix s t :: string
  assume t: "t = dropWhile isSpace s" "t \<noteq> []"
  then have "\<not> isSpace (hd t)" using hd_dropWhile [of isSpace s] by simp
  with t(2) obtain c cs where "t = c # cs" "\<not> isSpace c" by (cases t) auto
  then have "length (dropWhile (\<lambda>c. \<not> isSpace c) t) < length t"
    by (simp add: le_imp_less_Suc length_dropWhile_le)
  also have "length t \<le> length s" using t(1) by (simp add: length_dropWhile_le)
  finally show "(dropWhile (\<lambda>c. \<not> isSpace c) t, s) \<in> measure length" by simp
qed simp

declare goFields.simps [simp del]

text \<open>A loop that stops at the first error.\<close>

fun foldE :: "('x \<Rightarrow> 's \<Rightarrow> 'e + 's) \<Rightarrow> 'x list \<Rightarrow> 's \<Rightarrow> 'e + 's" where
  "foldE f [] s = Inr s"
| "foldE f (x # xs) s = (case f x s of Inl e \<Rightarrow> Inl e | Inr s' \<Rightarrow> foldE f xs s')"

type_synonym update_state = "DynamoItem \<times> string list"

definition ifNotExists :: string where
  "ifNotExists = ''if_not_exists(''"

definition assignValue :: "DynamoItem \<Rightarrow> string \<Rightarrow> string \<Rightarrow> update_state \<Rightarrow> error + update_state" where
  "assignValue values name right = (\<lambda>(item, updated).
     case fmlookup values right of
       None \<Rightarrow> Inl (invalid ''missing expression value'')
     | Some value \<Rightarrow> Inr (fmupd name value item, updated @ [name]))"

definition applySet :: "strmap \<Rightarrow> DynamoItem \<Rightarrow> string \<Rightarrow> update_state \<Rightarrow> error + update_state" where
  "applySet names values assignment s =
     (case splitN 2 (CHR ''='') assignment of
        [l, r] \<Rightarrow>
          (let name = resolveDynamoName (trimSpace l) names; right = trimSpace r
           in if hasPrefix (toLower right) ifNotExists \<and> hasSuffix right '')'' then
                (case splitDynamoTopLevel (butlast (drop (length ifNotExists) right)) (CHR '','') of
                   [a, v] \<Rightarrow>
                     if fmlookup (fst s) (resolveDynamoName (trimSpace a) names) \<noteq> None then Inr s
                     else assignValue values name (trimSpace v) s
                 | _ \<Rightarrow> Inl (invalid ''invalid if_not_exists''))
              else assignValue values name right s)
      | _ \<Rightarrow> Inl (invalid ''invalid SET expression''))"

definition applyRemove :: "strmap \<Rightarrow> string \<Rightarrow> update_state \<Rightarrow> update_state" where
  "applyRemove names token = (\<lambda>(item, updated).
     let name = resolveDynamoName token names in (fmdrop name item, updated @ [name]))"

definition applyAdd :: "number_reader \<Rightarrow> strmap \<Rightarrow> DynamoItem \<Rightarrow> string \<Rightarrow> update_state \<Rightarrow> error + update_state" where
  "applyAdd R names values addition = (\<lambda>(item, updated).
     case goFields addition of
       [n, v] \<Rightarrow>
         (let name = resolveDynamoName n names
          in case Option.bind (fmlookup values v) av_N of
               None \<Rightarrow> Inl (invalid ''ADD currently requires a number'')
             | Some increment \<Rightarrow>
                (case (case fmlookup item name of None \<Rightarrow> Some ''0'' | Some existing \<Rightarrow> av_N existing) of
                   None \<Rightarrow> Inl (invalid ''ADD target is not a number'')
                 | Some current \<Rightarrow>
                    (case addDynamoNumbers R current increment of
                       Inl e \<Rightarrow> Inl e
                     | Inr num \<Rightarrow> Inr (fmupd name (av_of_N num) item, updated @ [name]))))
     | _ \<Rightarrow> Inl (invalid ''invalid ADD expression''))"

definition applySection :: "number_reader \<Rightarrow> strmap \<Rightarrow> DynamoItem \<Rightarrow> dynamoUpdateSection \<Rightarrow> update_state \<Rightarrow> error + update_state" where
  "applySection R names values section s =
     (if us_kind section = ''SET'' then
        foldE (applySet names values) (splitDynamoTopLevel (us_body section) (CHR '','')) s
      else if us_kind section = ''REMOVE'' then
        Inr (fold (applyRemove names) (concat (map goFields (splitOn (CHR '','') (us_body section)))) s)
      else if us_kind section = ''ADD'' then
        foldE (applyAdd R names values) (splitDynamoTopLevel (us_body section) (CHR '','')) s
      else Inl (invalid (''unsupported update section '' @ us_kind section)))"

definition applyDynamoUpdate ::
  "number_reader \<Rightarrow> DynamoItem \<Rightarrow> string \<Rightarrow> strmap \<Rightarrow> DynamoItem \<Rightarrow> error + update_state" where
  "applyDynamoUpdate R item expression names values =
     (case splitDynamoUpdateSections expression of
        [] \<Rightarrow> Inl (invalid ''UpdateExpression is required'')
      | sections \<Rightarrow> foldE (applySection R names values) sections (item, []))"

section \<open>Projections\<close>

definition projectDynamoItem :: "DynamoItem \<Rightarrow> string \<Rightarrow> strmap \<Rightarrow> DynamoItem" where
  "projectDynamoItem item expression names =
     (if trimSpace expression = '''' then item
      else fold (\<lambda>raw res.
             let name = resolveDynamoName (trimSpace raw) names
             in case fmlookup item name of Some v \<Rightarrow> fmupd name v res | None \<Rightarrow> res)
           (splitOn (CHR '','') expression) fmempty)"

definition selectDynamoAttributes :: "DynamoItem \<Rightarrow> string list \<Rightarrow> DynamoItem" where
  "selectDynamoAttributes item names =
     fold (\<lambda>name res. case fmlookup item name of Some v \<Rightarrow> fmupd name v res | None \<Rightarrow> res) names fmempty"

text \<open>The old item is \<open>nil\<close>, and then left out of the response, when there was none: a stored item is not empty.\<close>

definition dynamoReturnAttributes :: "string \<Rightarrow> DynamoItem \<Rightarrow> DynamoItem \<Rightarrow> string list \<Rightarrow> DynamoItem option" where
  "dynamoReturnAttributes mode old next updated =
     (let m = toUpper mode
      in if m = ''ALL_OLD'' then (if fmnull old then None else Some old)
         else if m = ''ALL_NEW'' then Some next
         else if m = ''UPDATED_OLD'' then Some (selectDynamoAttributes old updated)
         else if m = ''UPDATED_NEW'' then Some (selectDynamoAttributes next updated)
         else None)"

end
