(* ===== verification/Dynamo_Numbers.thy ===== *)
theory Dynamo_Numbers
  imports Dynamo_Expressions
begin

text \<open>
  The text of a sum: a reference reader of decimal text, and the proof that what \<open>addDynamoNumbers\<close> writes reads back
  as the sum, exactly when it has at most 38 decimals and otherwise rounded to 38 decimals.
\<close>

section \<open>Reading decimal text\<close>

definition digitsValue :: "string \<Rightarrow> nat" where
  "digitsValue ds = fst (readDigits 0 ds)"

definition allDigits :: "string \<Rightarrow> bool" where
  "allDigits ds \<longleftrightarrow> list_all (\<lambda>c. digitVal c \<noteq> None) ds"

definition unsignedValue :: "string \<Rightarrow> rat option" where
  "unsignedValue s =
     (case splitOn (CHR ''.'') s of
        [q] \<Rightarrow> if allDigits q \<and> q \<noteq> '''' then Some (of_nat (digitsValue q)) else None
      | [q, f] \<Rightarrow> if allDigits q \<and> q \<noteq> '''' \<and> allDigits f then Some (of_nat (digitsValue q) + of_nat (digitsValue f) / 10 ^ length f) else None
      | _ \<Rightarrow> None)"

definition decimalValue :: "string \<Rightarrow> rat option" where
  "decimalValue s = (case s of c # cs \<Rightarrow> if c = CHR ''-'' then map_option uminus (unsignedValue cs) else unsignedValue s | [] \<Rightarrow> None)"

lemma readDigits_acc:
  "allDigits ds \<Longrightarrow> readDigits acc ds = (acc * 10 ^ length ds + fst (readDigits 0 ds), [])"
proof (induction ds arbitrary: acc)
  case (Cons c ds)
  then obtain d where d: "digitVal c = Some d" and ds: "allDigits ds" by (auto simp: allDigits_def)
  from Cons.IH [OF ds, of "acc * 10 + d"] Cons.IH [OF ds, of d] d show ?case by (simp add: algebra_simps)
qed simp

lemma digitsValue_append:
  "allDigits xs \<Longrightarrow> allDigits ys \<Longrightarrow> digitsValue (xs @ ys) = digitsValue xs * 10 ^ length ys + digitsValue ys"
proof -
  assume xs: "allDigits xs" and ys: "allDigits ys"
  then have "allDigits (xs @ ys)" by (simp add: allDigits_def)
  have "readDigits 0 (xs @ ys) = readDigits (digitsValue xs) ys"
    using xs by (auto simp: readDigits_append digitsValue_def allDigits_def list_all_iff)
  with readDigits_acc [OF ys, of "digitsValue xs"] show ?thesis by (simp add: digitsValue_def)
qed

lemma allDigits_append [simp]: "allDigits (xs @ ys) \<longleftrightarrow> allDigits xs \<and> allDigits ys"
  by (simp add: allDigits_def)

lemma allDigits_showNat [simp]: "allDigits (showNat n)"
  using showNat_digits [of n] by (auto simp: allDigits_def list_all_iff)

lemma digitsValue_showNat [simp]: "digitsValue (showNat n) = n"
  by (simp add: digitsValue_def readDigits_showNat)

lemma digit_zero: "digitVal (CHR ''0'') = Some 0"
  by code_simp

lemma zeros [simp]: "allDigits (replicate n (CHR ''0''))" "digitsValue (replicate n (CHR ''0'')) = 0"
proof -
  show a: "allDigits (replicate n (CHR ''0''))" by (simp add: allDigits_def digit_zero list_all_iff)
  show "digitsValue (replicate n (CHR ''0'')) = 0" by (induction n) (simp_all add: digitsValue_def digit_zero)
qed

lemma digits_no_dot: "allDigits ds \<Longrightarrow> CHR ''.'' \<notin> set ds"
proof
  assume "allDigits ds" "CHR ''.'' \<in> set ds"
  then have "digitVal (CHR ''.'') \<noteq> None" by (auto simp: allDigits_def list_all_iff)
  moreover have "digitVal (CHR ''.'') = None" by code_simp
  ultimately show False by simp
qed

lemma splitOn_plain: "c \<notin> set s \<Longrightarrow> splitOn c s = [s]"
  by (induction s) auto

lemma splitOn_once: "c \<notin> set q \<Longrightarrow> splitOn c (q @ c # s) = q # splitOn c s"
  by (induction q) auto

lemma unsigned_integer: "allDigits q \<Longrightarrow> q \<noteq> [] \<Longrightarrow> unsignedValue q = Some (of_nat (digitsValue q))"
  by (simp add: unsignedValue_def splitOn_plain digits_no_dot)

lemma unsigned_fraction:
  "allDigits q \<Longrightarrow> q \<noteq> [] \<Longrightarrow> allDigits f \<Longrightarrow>
     unsignedValue (q @ ''.'' @ f) = Some (of_nat (digitsValue q) + of_nat (digitsValue f) / 10 ^ length f)"
  by (simp add: unsignedValue_def splitOn_once splitOn_plain digits_no_dot)

lemma digit_not_minus: "allDigits q \<Longrightarrow> q = c # cs \<Longrightarrow> c \<noteq> CHR ''-''"
proof -
  assume "allDigits q" "q = c # cs"
  then have "digitVal c \<noteq> None" by (simp add: allDigits_def)
  moreover have "digitVal (CHR ''-'') = None" by code_simp
  ultimately show ?thesis by auto
qed

lemma decimal_signed:
  assumes "allDigits q" "q \<noteq> []"
  shows "decimalValue ((if neg then ''-'' else '''') @ q @ s) = map_option (\<lambda>v. if neg then - v else v) (unsignedValue (q @ s))"
proof -
  from assms(2) obtain c cs where "q = c # cs" by (cases q) auto
  with digit_not_minus [OF assms(1) this] show ?thesis
    by (auto simp: decimalValue_def option.map_comp comp_def option.map_ident)
qed

section \<open>Trailing zeros\<close>

lemma trimRight_append: "\<exists>n. s = trimRight c s @ replicate n c"
proof -
  have "rev s = takeWhile ((=) c) (rev s) @ dropWhile ((=) c) (rev s)" by simp
  moreover have "takeWhile ((=) c) (rev s) = replicate (length (takeWhile ((=) c) (rev s))) c"
    by (rule replicate_eqI) (auto dest: set_takeWhileD)
  ultimately have "s = rev (dropWhile ((=) c) (rev s)) @ rev (replicate (length (takeWhile ((=) c) (rev s))) c)"
    by (metis rev_append rev_rev_ident)
  then show ?thesis unfolding trimRight_def rev_replicate by blast
qed

lemma trimRight_last: "trimRight c s = s' @ [x] \<Longrightarrow> x \<noteq> c"
proof -
  assume "trimRight c s = s' @ [x]"
  then have "dropWhile ((=) c) (rev s) = x # rev s'" unfolding trimRight_def by (metis rev_eq_Cons_iff rev_rev_ident)
  then show "x \<noteq> c" by (metis hd_dropWhile list.discI list.sel(1))
qed

lemma trimRight_stop: "x \<noteq> c \<Longrightarrow> trimRight c (s @ x # ys) = s @ x # trimRight c ys"
  by (simp add: trimRight_def dropWhile_append)

lemma trimRight_id: "x \<noteq> c \<Longrightarrow> trimRight c (s @ [x]) = s @ [x]"
  by (simp add: trimRight_def)

text \<open>Cutting the trailing zeros of a decimal fraction, and the point when no decimal is left, keeps its value.\<close>

lemma trimmed_value:
  assumes q: "allDigits q" "q \<noteq> []" and f: "allDigits f"
  shows "\<exists>s. trimRight (CHR ''.'') (trimRight (CHR ''0'') (p @ q @ ''.'' @ f)) = p @ q @ s \<and>
    unsignedValue (q @ s) = Some (of_nat (digitsValue q) + of_nat (digitsValue f) / 10 ^ length f)"
proof -
  let ?g = "trimRight (CHR ''0'') f"
  have t: "trimRight (CHR ''0'') (p @ q @ ''.'' @ f) = p @ q @ ''.'' @ ?g"
    using trimRight_stop [of "CHR ''.''" "CHR ''0''" "p @ q" f] by simp
  obtain n where n: "f = ?g @ replicate n (CHR ''0'')" using trimRight_append by blast
  with f have g: "allDigits ?g" by (metis allDigits_append)
  have "digitsValue f = digitsValue ?g * 10 ^ n" using digitsValue_append [OF g zeros(1) [of n]] n by simp
  moreover have "length f = length ?g + n" by (subst n) simp
  ultimately have v: "of_nat (digitsValue f) / 10 ^ length f = (of_nat (digitsValue ?g) / 10 ^ length ?g :: rat)"
    by (simp add: power_add)
  show ?thesis
  proof (cases ?g rule: rev_cases)
    case Nil
    obtain q' x where qx: "q = q' @ [x]" using q(2) by (cases q rule: rev_cases) auto
    have "x \<noteq> CHR ''.''" using digits_no_dot [OF q(1)] qx by auto
    then have "trimRight (CHR ''.'') (p @ q @ ''.'') = p @ q"
      using trimRight_id [of x "CHR ''.''" "p @ q'"] by (simp add: qx) (simp add: trimRight_def)
    with t Nil v q show ?thesis by (intro exI [of _ "''''"]) (simp add: unsigned_integer digitsValue_def)
  next
    case (snoc g' x)
    have "x \<noteq> CHR ''.''" using digits_no_dot [OF g] snoc by auto
    then have "trimRight (CHR ''.'') (p @ q @ ''.'' @ ?g) = p @ q @ ''.'' @ ?g"
      using trimRight_id [of x "CHR ''.''" "p @ q @ ''.'' @ g'"] by (simp add: snoc)
    with t v q g show ?thesis by (intro exI [of _ "''.'' @ ?g"]) (simp add: unsigned_fraction [OF q g, simplified])
  qed
qed

section \<open>Rounding\<close>

lemma showNat_bound: "n < 10 ^ k \<Longrightarrow> 0 < k \<Longrightarrow> length (showNat n) \<le> k"
proof (induction k arbitrary: n)
  case (Suc k)
  show ?case
  proof (cases "n < 10")
    case True
    then show ?thesis by (simp add: showNat.simps [of n])
  next
    case False
    then have "0 < k" using Suc.prems by (cases k) auto
    moreover have "n div 10 < 10 ^ k" using Suc.prems by (simp add: less_mult_imp_div_less mult.commute)
    ultimately have "length (showNat (n div 10)) \<le> k" using Suc.IH by blast
    with False show ?thesis by (simp add: showNat.simps [of n])
  qed
qed simp

text \<open>The 38 decimals of the fraction \<open>m / b\<close>, rounded: at most half a unit of the last decimal away.\<close>

definition roundedTo :: "int \<Rightarrow> int \<Rightarrow> int" where
  "roundedTo s b = (if b \<le> 2 * (s mod b) then s div b + 1 else s div b)"

lemma roundedTo_bounds:
  assumes "0 < b" "0 \<le> s"
  shows "0 \<le> roundedTo s b" and "2 * \<bar>b * roundedTo s b - s\<bar> \<le> b" and "s mod b = 0 \<Longrightarrow> b * roundedTo s b = s"
proof -
  have s: "s = b * (s div b) + s mod b" by simp
  have m: "0 \<le> s mod b" "s mod b < b" using assms by simp_all
  show "0 \<le> roundedTo s b" using assms by (simp add: roundedTo_def pos_imp_zdiv_nonneg_iff)
  have "b * roundedTo s b - s = (if b \<le> 2 * (s mod b) then b - s mod b else - (s mod b))"
    using s by (simp add: roundedTo_def algebra_simps)
  with m show "2 * \<bar>b * roundedTo s b - s\<bar> \<le> b" by (simp split: if_splits)
  assume "s mod b = 0"
  with s m assms show "b * roundedTo s b = s" by (simp add: roundedTo_def)
qed

lemma floatString_value:
  assumes "quotient_of x = (a, b)" "0 < prec"
  obtains q f where "floatString prec x = (if a < 0 then ''-'' else '''') @ q @ ''.'' @ f" "allDigits q" "q \<noteq> []" "allDigits f"
    "length f = prec" "of_nat (digitsValue q) + of_nat (digitsValue f) / 10 ^ prec =
       (of_int (\<bar>a\<bar> div b) + of_int (roundedTo ((\<bar>a\<bar> mod b) * 10 ^ prec) b) / 10 ^ prec :: rat)"
proof -
  have b: "0 < b" using quotient_of_denom_pos assms(1) by simp
  let ?p = "10 ^ prec :: int" and ?s = "(\<bar>a\<bar> mod b) * 10 ^ prec"
  let ?r = "roundedTo ?s b" and ?q = "\<bar>a\<bar> div b"
  have s0: "0 \<le> ?s" using b by simp
  have q0: "0 \<le> ?q" using b by (simp add: pos_imp_zdiv_nonneg_iff)
  have "?s < b * ?p" using b by (simp add: mult_strict_right_mono)
  moreover have "b * (?s div b) \<le> ?s" using mult_div_mod_eq [of b ?s] pos_mod_sign [OF b, of ?s] by linarith
  ultimately have "b * (?s div b) < b * ?p" by linarith
  then have "?s div b < ?p" using b by (simp only: mult_less_cancel_left_pos)
  then have r: "0 \<le> ?r" "?r \<le> ?p" using roundedTo_bounds(1) [OF b s0] by (auto simp: roundedTo_def)
  define q' r' where "q' = (if ?p \<le> ?r then ?q + 1 else ?q)" and "r' = (if ?p \<le> ?r then ?r - ?p else ?r)"
  have r': "0 \<le> r'" "r' < ?p" using r by (auto simp: r'_def)
  have q': "0 \<le> q'" using q0 by (simp add: q'_def)
  have sum: "of_int q' + of_int r' / 10 ^ prec = (of_int ?q + of_int ?r / 10 ^ prec :: rat)"
    using r by (auto simp: q'_def r'_def field_simps)
  let ?f = "replicate (prec - length (showNat (nat r'))) (CHR ''0'') @ showNat (nat r')"
  have len: "length (showNat (nat r')) \<le> prec"
    using showNat_bound [of "nat r'" prec] r' assms(2) by (simp add: nat_less_iff)
  have v: "digitsValue ?f = nat r'" using digitsValue_append [OF zeros(1) allDigits_showNat] by simp
  have shown: "floatString prec x = (if a < 0 then ''-'' else '''') @ showNat (nat q') @ ''.'' @ ?f"
    unfolding floatString_def assms(1) Let_def prod.case roundedTo_def [symmetric] q'_def r'_def
    by (cases "?p \<le> ?r") (simp_all only: if_True if_False simp_thms prod.case)
  show thesis
  proof (rule that [OF shown])
    have "(of_nat (nat q') :: rat) = of_int q'" "(of_nat (nat r') :: rat) = of_int r'" using q' r' by simp_all
    with sum show "of_nat (digitsValue (showNat (nat q'))) + of_nat (digitsValue ?f) / 10 ^ prec =
        (of_int ?q + of_int ?r / 10 ^ prec :: rat)" unfolding v digitsValue_showNat by (simp only:)
    show "length ?f = prec" using len by simp
  qed simp_all
qed

lemma scaled_divides: "(a :: int) * p = b * i \<Longrightarrow> (\<bar>a\<bar> mod b) * p mod b = 0"
proof -
  assume eq: "a * p = b * i"
  have "b dvd \<bar>a\<bar> * p"
  proof (cases "a < 0")
    case True
    then have "\<bar>a\<bar> * p = b * (- i)" using eq by simp
    then show ?thesis by simp
  qed (simp add: eq)
  moreover have "(\<bar>a\<bar> mod b) * p = \<bar>a\<bar> * p - b * (\<bar>a\<bar> div b * p)"
    by (simp add: minus_div_mult_eq_mod [symmetric] algebra_simps)
  ultimately show ?thesis by simp
qed

lemma floatText_value:
  assumes ab: "quotient_of x = (a, b)" and prec: "0 < prec"
  obtains v where "decimalValue (trimRight (CHR ''.'') (trimRight (CHR ''0'') (floatString prec x))) = Some v"
    "\<bar>v - x\<bar> \<le> 1 / (2 * 10 ^ prec)" "(\<exists>i. x * 10 ^ prec = of_int i) \<Longrightarrow> v = x"
proof -
  have b: "0 < b" using quotient_of_denom_pos [OF ab] .
  have x: "x = of_int a / of_int b" using quotient_of_div [OF ab] .
  obtain q f where shown: "floatString prec x = (if a < 0 then ''-'' else '''') @ q @ ''.'' @ f"
    and q: "allDigits q" "q \<noteq> []" and f: "allDigits f" and len: "length f = prec"
    and v: "of_nat (digitsValue q) + of_nat (digitsValue f) / 10 ^ prec =
       (of_int (\<bar>a\<bar> div b) + of_int (roundedTo ((\<bar>a\<bar> mod b) * 10 ^ prec) b) / 10 ^ prec :: rat)"
    by (rule floatString_value [OF ab prec])
  let ?s = "(\<bar>a\<bar> mod b) * 10 ^ prec" and ?v = "of_nat (digitsValue q) + of_nat (digitsValue f) / 10 ^ prec :: rat"
  let ?r = "roundedTo ?s b"
  have s0: "0 \<le> ?s" using b by simp
  note rb = roundedTo_bounds [OF b s0]
  obtain s where s: "trimRight (CHR ''.'') (trimRight (CHR ''0'') (floatString prec x)) = (if a < 0 then ''-'' else '''') @ q @ s"
    "unsignedValue (q @ s) = Some ?v"
    using trimmed_value [OF q f, of "if a < 0 then ''-'' else ''''"] len shown by auto
  have num: "decimalValue (trimRight (CHR ''.'') (trimRight (CHR ''0'') (floatString prec x))) = Some (if a < 0 then - ?v else ?v)"
    unfolding s(1) decimal_signed [OF q] s(2) by simp
  have abs_a: "of_int \<bar>a\<bar> = (of_int b * of_int (\<bar>a\<bar> div b) + of_int (\<bar>a\<bar> mod b) :: rat)"
    by (metis mult_div_mod_eq of_int_add of_int_mult)
  have diff: "?v - of_int \<bar>a\<bar> / of_int b = of_int (b * ?r - ?s) / (of_int b * 10 ^ prec)"
    using b unfolding v abs_a by (simp add: field_simps)
  have near: "\<bar>?v - of_int \<bar>a\<bar> / of_int b\<bar> \<le> 1 / (2 * 10 ^ prec)"
  proof -
    have "of_int (2 * \<bar>b * ?r - ?s\<bar>) \<le> (of_int b :: rat)" using rb(2) by (simp only: of_int_le_iff)
    then have "2 * \<bar>of_int (b * ?r - ?s)\<bar> \<le> (of_int b :: rat)" by simp
    then have "\<bar>of_int (b * ?r - ?s)\<bar> / (of_int b * 10 ^ prec) \<le> (1 :: rat) / (2 * 10 ^ prec)"
      using b by (simp add: field_simps)
    then show ?thesis unfolding diff using b by (simp add: abs_divide abs_mult)
  qed
  have exact: "?v = of_int \<bar>a\<bar> / of_int b" if "\<exists>i. x * 10 ^ prec = of_int i"
  proof -
    from that x b obtain i where "of_int a * 10 ^ prec = (of_int b * of_int i :: rat)" by (auto simp: field_simps)
    then have "(of_int (a * 10 ^ prec) :: rat) = of_int (b * i)" by simp
    then have "a * 10 ^ prec = b * i" by (simp only: of_int_eq_iff)
    then have "?s mod b = 0" by (rule scaled_divides)
    from rb(3) [OF this] diff show ?thesis by simp
  qed
  show thesis
  proof (cases "a < 0")
    case True
    then have "of_int \<bar>a\<bar> / of_int b = - x" using x by simp
    with True num near exact that [of "- ?v"] show thesis by (simp add: abs_minus_commute)
  next
    case False
    then have "of_int \<bar>a\<bar> / of_int b = x" using x by simp
    with False num near exact that [of ?v] show thesis by simp
  qed
qed

lemma decimal_integer: "decimalValue (showInt a) = Some (of_int a)"
proof (cases "a < 0")
  case True
  then have "(of_nat (nat (- a)) :: rat) = - of_int a" by simp
  with True show ?thesis using decimal_signed [of "showNat (nat (- a))" True "''''"] by (simp add: showInt_def unsigned_integer)
next
  case False
  then have "(of_nat (nat a) :: rat) = of_int a" by simp
  with False show ?thesis using decimal_signed [of "showNat (nat a)" False "''''"] by (simp add: showInt_def unsigned_integer)
qed

lemma numberText_value:
  "\<exists>v. decimalValue (numberText x) = Some v \<and> \<bar>v - x\<bar> \<le> 1 / (2 * 10 ^ 38) \<and> ((\<exists>i. x * 10 ^ 38 = of_int i) \<longrightarrow> v = x)"
proof -
  obtain a b where ab: "quotient_of x = (a, b)" by fastforce
  show ?thesis
  proof (cases "b = 1")
    case True
    then have "numberText x = showInt a" "x = of_int a" using ab quotient_of_div [OF ab] by (simp_all add: numberText_def)
    then show ?thesis using decimal_integer [of a] by (intro exI [of _ x]) simp
  next
    case False
    then have "numberText x = trimRight (CHR ''.'') (trimRight (CHR ''0'') (floatString 38 x))" using ab by (simp add: numberText_def)
    with floatText_value [OF ab, of 38] show ?thesis by (metis zero_less_numeral)
  qed
qed

text \<open>
  C33. Adding numbers. Whatever reader of numbers is used, the text \<open>addDynamoNumbers\<close> returns for two numbers it
  reads is a decimal number within half a unit of the 38th decimal of their sum; when the sum has at most 38
  decimals the text is exact.
\<close>

theorem added_number_text:
  assumes "addDynamoNumbers R left right = Inr s"
  shows "\<exists>x y v. R left = Some x \<and> R right = Some y \<and> decimalValue s = Some v \<and> \<bar>v - (x + y)\<bar> \<le> 1 / (2 * 10 ^ 38) \<and>
    ((\<exists>i. (x + y) * 10 ^ 38 = of_int i) \<longrightarrow> v = x + y)"
proof -
  from assms obtain x y where "R left = Some x" "R right = Some y" and s: "s = numberText (x + y)"
    by (auto simp: addDynamoNumbers_def split: option.splits)
  with numberText_value [of "x + y"] show ?thesis by blast
qed

theorem added_number_text_witness:
  "addDynamoNumbers decimalValue ''2.5'' ''-3.5'' = Inr ''-1'' \<and> (\<exists>v. decimalValue ''-1'' = Some v)"
proof -
  have r: "decimalValue ''2.5'' = Some (5 / 2)" "decimalValue ''-3.5'' = Some (- 7 / 2)" "showInt (- 1) = ''-1''" by code_simp+
  have "quotient_of (5 / 2 + - 7 / 2) = (- 1, 1)" by code_simp
  then have run: "addDynamoNumbers decimalValue ''2.5'' ''-3.5'' = Inr ''-1''"
    by (simp only: addDynamoNumbers_def r numberText_def prod.case option.case Let_def simp_thms if_True)  with added_number_text [OF run] show ?thesis by blast
qed

end
