(* ===== verification/Handlers.thy ===== *)
theory Handlers
  imports Store_Invariant
begin

text \<open>
  The contract of a protocol handler. A handler answers every request with a reply; some replies report an error.
  \<open>safe\<close> says what a client may rely on: the store invariant holds afterwards, and a request that was answered with
  an error has changed neither the live state nor the state file. The laws are proved once for every protocol
  that writes the errors of the store as error replies.
\<close>

locale error_reply =
  fixes writeError :: "error \<Rightarrow> 'r" and isError :: "'r \<Rightarrow> bool"
  assumes writeError_isError: "isError (writeError e)"
begin

definition safe :: "env \<Rightarrow> bytes set \<Rightarrow> world \<Rightarrow> 'r \<times> world \<Rightarrow> bool" where
  "safe E S w out \<longleftrightarrow> ok.holds E S (snd out) \<and>
     (isError (fst out) \<longrightarrow> sameLive (w_data (snd out)) (w_data w) \<and> w_state_json (snd out) = w_state_json w)"

lemma safe_return: "ok.holds E S w \<Longrightarrow> safe E S w (r, w)"
  by (simp add: safe_def)

lemma safe_store:
  assumes "ok.outcome E S w out" "\<And>x. fst out = Inr x \<Longrightarrow> \<not> isError (f x)"
  shows "safe E S w (case fst out of Inl e \<Rightarrow> writeError e | Inr x \<Rightarrow> f x, snd out)"
  using assms by (auto simp: safe_def ok.outcome_def split: sum.split)

text \<open>A handler that only reads.\<close>

lemma safe_same: "ok.holds E S w \<Longrightarrow> snd out = w \<Longrightarrow> safe E S w out"
  by (simp add: safe_def)
lemma safeD:
  assumes "safe E S w (reply, w')"
  shows "ok.holds E S w'" and "isError reply \<Longrightarrow> sameLive (w_data w') (w_data w) \<and> diskState w' = diskState w"
  using assms by (auto simp: safe_def diskState_def diskDoc_def)

end

end
