(* ===== verification/Dynamo_Handlers.thy ===== *)
theory Dynamo_Handlers
  imports Dynamo_Expressions
begin

text \<open>
  The DynamoDB protocol handler (\<^verbatim>\<open>internal/server/dynamodb.go\<close>): the operations a client can name in
  \<^verbatim>\<open>X-Amz-Target\<close>, from the decoded request to the reply, over the table store. A reply is the JSON
  document the handler writes, as a datatype with one constructor per shape; an error reply carries the
  error code and the message (for an internal error, the error whose text is the message).

  Go iterates over maps in an unspecified order. The maps of the batch requests are therefore association
  lists: the order of the list is the order of that iteration.
\<close>

section \<open>Requests\<close>

record dynamoCreateTableRequest =
  ct_TableName :: string
  ct_KeySchema :: "DynamoKeySchemaElement list"
  ct_AttributeDefinitions :: "DynamoAttributeDefinition list"
  ct_BillingMode :: string

record dynamoTableRequest =
  tr_TableName :: string

record dynamoListTablesRequest =
  lt_ExclusiveStartTableName :: string
  lt_Limit :: int

record dynamoItemRequest =
  ir_TableName :: string
  ir_Item :: DynamoItem
  ir_Key :: DynamoItem
  ir_ConditionExpression :: string
  ir_UpdateExpression :: string
  ir_KeyConditionExpression :: string
  ir_FilterExpression :: string
  ir_ProjectionExpression :: string
  ir_ExpressionAttributeNames :: strmap
  ir_ExpressionAttributeValues :: DynamoItem
  ir_ExclusiveStartKey :: DynamoItem
  ir_Limit :: int
  ir_ScanIndexForward :: "bool option"
  ir_ReturnValues :: string
  ir_Select :: string

text \<open>One element of \<open>TransactItems\<close>: table name and item of \<open>Put\<close>, table name and key of \<open>Delete\<close>.\<close>

record transactItem =
  ti_Put :: "(string \<times> DynamoItem) option"
  ti_Delete :: "(string \<times> DynamoItem) option"

record batchGetTable =
  bg_Keys :: "DynamoItem list"
  bg_ProjectionExpression :: string
  bg_ExpressionAttributeNames :: strmap
  bg_AttributesToGet :: "string list"

record batchWrite =
  bw_PutRequest :: "DynamoItem option"
  bw_DeleteRequest :: "DynamoItem option"

text \<open>What \<open>decoder.Decode\<close> makes of the body for each type of request: \<open>None\<close> is a decoding error.\<close>

record dynamoBody =
  body_CreateTable :: "dynamoCreateTableRequest option"
  body_Table :: "dynamoTableRequest option"
  body_ListTables :: "dynamoListTablesRequest option"
  body_Item :: "dynamoItemRequest option"
  body_TransactWrite :: "transactItem list option"
  body_BatchGet :: "(string \<times> batchGetTable) list option"
  body_BatchWrite :: "(string \<times> batchWrite list) list option"

section \<open>Replies\<close>

record tableDescription =
  td_AttributeDefinitions :: "DynamoAttributeDefinition list"
  td_BillingMode :: string
  td_CreationDateTime :: int
  td_ItemCount :: int
  td_KeySchema :: "DynamoKeySchemaElement list"
  td_TableArn :: string
  td_TableId :: string
  td_TableName :: string
  td_TableStatus :: string

record itemPage =
  pg_Count :: int
  pg_ScannedCount :: int
  pg_Items :: "DynamoItem list option"
  pg_LastEvaluatedKey :: "DynamoItem option"

datatype dynamoReply =
    MethodNotAllowed
  | DynamoError string string
  | InternalServerError error
  | TableDescriptionReply tableDescription
  | TableReply tableDescription
  | TableNamesReply "string list" "string option"
  | AttributesReply "DynamoItem option"
  | ItemReply "DynamoItem option"
  | PageReply itemPage
  | EmptyReply
  | ResponsesReply "(string \<times> DynamoItem list) list"
  | UnprocessedItemsReply

definition dynamoTableDescription :: "DynamoTable \<Rightarrow> tableDescription" where
  "dynamoTableDescription table =
     \<lparr>td_AttributeDefinitions = dt_AttributeDefinitions table, td_BillingMode = dt_BillingMode table,
      td_CreationDateTime = dt_CreatedAt table div 1000000000, td_ItemCount = int (size (fmkeys (dt_Items table))),
      td_KeySchema = dt_KeySchema table,
      td_TableArn = ''arn:aws:dynamodb:us-east-1:000000000000:table/'' @ dt_Name table,
      td_TableId = ''fcp-'' @ dt_Name table, td_TableName = dt_Name table, td_TableStatus = dt_Status table\<rparr>"

definition validationMessage :: "error \<Rightarrow> string" where
  "validationMessage e =
     (case e of
        Wrap e1 m \<Rightarrow> if e1 = ErrDynamoValidation then m else ''DynamoDB validation failed''
      | _ \<Rightarrow> ''DynamoDB validation failed'')"
definition writeDynamoStateError :: "error \<Rightarrow> dynamoReply" where
  "writeDynamoStateError e =
     (if errors_Is e ErrDynamoTableNotFound then DynamoError ''ResourceNotFoundException'' ''Requested resource not found''
      else if errors_Is e ErrDynamoTableExists then DynamoError ''ResourceInUseException'' ''Table already exists''
      else if errors_Is e ErrDynamoConditionalCheckFailed then
        DynamoError ''ConditionalCheckFailedException'' ''The conditional request failed''
      else if errors_Is e ErrDynamoValidation then DynamoError ''ValidationException'' (validationMessage e)
      else InternalServerError e)"

text \<open>The ending of every handler: an error of the store is written, a value becomes a reply.\<close>

definition dynamoReplyOf :: "('a \<Rightarrow> dynamoReply) \<Rightarrow> 'a result \<Rightarrow> dynamoReply \<times> world" where
  "dynamoReplyOf f = (\<lambda>(r, w). (case r of Inl e \<Rightarrow> writeDynamoStateError e | Inr x \<Rightarrow> f x, w))"

section \<open>Reading pages of items\<close>

definition dynamoPrimaryKey :: "DynamoTable \<Rightarrow> DynamoItem \<Rightarrow> DynamoItem" where
  "dynamoPrimaryKey table item =
     fold (\<lambda>element key. case fmlookup item (ks_AttributeName element) of
             Some v \<Rightarrow> fmupd (ks_AttributeName element) v key | None \<Rightarrow> key)
       (dt_KeySchema table) fmempty"

text \<open>A missing attribute reads as the zero value.\<close>

definition attributeOf :: "DynamoItem \<Rightarrow> string \<Rightarrow> DynamoAttributeValue" where
  "attributeOf item name = (case fmlookup item name of Some v \<Rightarrow> v | None \<Rightarrow> av_empty)"

definition dynamoKeysEqual :: "DynamoTable \<Rightarrow> DynamoItem \<Rightarrow> DynamoItem \<Rightarrow> bool" where
  "dynamoKeysEqual table l r =
     list_all (\<lambda>element. dynamoAttributeEqual (attributeOf l (ks_AttributeName element)) (attributeOf r (ks_AttributeName element)))
       (dt_KeySchema table)"

definition holdsFor :: "DynamoCondition option \<Rightarrow> DynamoItem \<Rightarrow> bool" where
  "holdsFor c item = (case c of None \<Rightarrow> True | Some f \<Rightarrow> f item True)"

fun selectLoop :: "DynamoTable \<Rightarrow> dynamoItemRequest \<Rightarrow> DynamoCondition option \<Rightarrow> DynamoCondition option \<Rightarrow>
    DynamoItem list \<Rightarrow> bool \<Rightarrow> int \<Rightarrow> DynamoItem list \<Rightarrow> DynamoItem list \<times> int \<times> DynamoItem option" where
  "selectLoop table request keyCondition fltr [] started scanned res = (res, scanned, None)"
| "selectLoop table request keyCondition fltr (item # items) started scanned res =
     (if \<not> started then
        selectLoop table request keyCondition fltr items
          (dynamoKeysEqual table item (ir_ExclusiveStartKey request)) scanned res
      else if \<not> holdsFor keyCondition item then
        selectLoop table request keyCondition fltr items started scanned res
      else
        (let scanned' = scanned + 1;
             res' = (if holdsFor fltr item
                     then res @ [projectDynamoItem item (ir_ProjectionExpression request) (ir_ExpressionAttributeNames request)]
                     else res)
         in if 0 < ir_Limit request \<and> ir_Limit request \<le> scanned' then
              (res', scanned', if items \<noteq> [] then Some (dynamoPrimaryKey table item) else None)
            else selectLoop table request keyCondition fltr items started scanned' res'))"

definition selectDynamoItems :: "DynamoTable \<Rightarrow> DynamoItem list \<Rightarrow> dynamoItemRequest \<Rightarrow> DynamoCondition option \<Rightarrow>
    DynamoCondition option \<Rightarrow> DynamoItem list \<times> int \<times> DynamoItem option" where
  "selectDynamoItems table items request keyCondition fltr =
     selectLoop table request keyCondition fltr items (fmnull (ir_ExclusiveStartKey request)) 0 []"

text \<open>\<open>reverseDynamoItems\<close> swaps the ends of the slice in place, moving inwards.\<close>

function reverseLoop :: "nat \<Rightarrow> nat \<Rightarrow> 'a list \<Rightarrow> 'a list" where
  "reverseLoop left right xs =
     (if left < right then reverseLoop (left + 1) (right - 1) (xs[left := xs ! right, right := xs ! left]) else xs)"
  by pat_completeness auto

termination
  by (relation "measure (\<lambda>(l, r, _). r - l)") auto

declare reverseLoop.simps [simp del]

definition reverseDynamoItems :: "DynamoItem list \<Rightarrow> DynamoItem list" where
  "reverseDynamoItems items = reverseLoop 0 (length items - 1) items"

definition pageReply :: "dynamoItemRequest \<Rightarrow> DynamoItem list \<times> int \<times> DynamoItem option \<Rightarrow> dynamoReply" where
  "pageReply request = (\<lambda>(items, scanned, lastKey).
     PageReply \<lparr>pg_Count = int (length items), pg_ScannedCount = scanned,
       pg_Items = (if equalFold (ir_Select request) ''COUNT'' then None else Some items),
       pg_LastEvaluatedKey = lastKey\<rparr>)"

definition handleDynamoQuery :: "number_reader \<Rightarrow> DynamoTable \<Rightarrow> dynamoItemRequest \<Rightarrow> world \<Rightarrow> dynamoReply \<times> world" where
  "handleDynamoQuery R table request w =
     (case compileDynamoCondition R (ir_KeyConditionExpression request) (ir_ExpressionAttributeNames request)
             (ir_ExpressionAttributeValues request) of
        Inl e \<Rightarrow> (writeDynamoStateError e, w)
      | Inr None \<Rightarrow> (writeDynamoStateError (invalid ''KeyConditionExpression is required''), w)
      | Inr (Some keyCondition) \<Rightarrow>
         (case compileDynamoCondition R (ir_FilterExpression request) (ir_ExpressionAttributeNames request)
                 (ir_ExpressionAttributeValues request) of
            Inl e \<Rightarrow> (writeDynamoStateError e, w)
          | Inr fltr \<Rightarrow>
              dynamoReplyOf
                (\<lambda>items.
                   let items' = (if ir_ScanIndexForward request = Some False then reverseDynamoItems items else items)
                   in pageReply request (selectDynamoItems table items' request (Some keyCondition) fltr))
                (DynamoListItems (dt_Name table) w)))"

definition handleDynamoScan :: "number_reader \<Rightarrow> DynamoTable \<Rightarrow> dynamoItemRequest \<Rightarrow> world \<Rightarrow> dynamoReply \<times> world" where
  "handleDynamoScan R table request w =
     (case compileDynamoCondition R (ir_FilterExpression request) (ir_ExpressionAttributeNames request)
             (ir_ExpressionAttributeValues request) of
        Inl e \<Rightarrow> (writeDynamoStateError e, w)
      | Inr fltr \<Rightarrow>
          dynamoReplyOf (\<lambda>items. pageReply request (selectDynamoItems table items request None fltr))
            (DynamoListItems (dt_Name table) w))"

section \<open>Single items\<close>

definition oldAttributes :: "dynamoItemRequest \<Rightarrow> DynamoItem \<times> bool \<Rightarrow> dynamoReply" where
  "oldAttributes request = (\<lambda>(old, existed).
     AttributesReply (if equalFold (ir_ReturnValues request) ''ALL_OLD'' \<and> existed then Some old else None))"

text \<open>
  The closure \<open>UpdateItem\<close> passes to the store also records the names it updated. \<open>updatedNamesOf\<close> is what
  its run on the item the store passes to it leaves in \<open>updatedNames\<close>.
\<close>

definition updateOf :: "number_reader \<Rightarrow> dynamoItemRequest \<Rightarrow> DynamoItem \<Rightarrow> error + update_state" where
  "updateOf R request item =
     applyDynamoUpdate R item (ir_UpdateExpression request) (ir_ExpressionAttributeNames request)
       (ir_ExpressionAttributeValues request)"

definition updateClosure :: "number_reader \<Rightarrow> dynamoItemRequest \<Rightarrow> DynamoUpdate" where
  "updateClosure R request item = map_sum (\<lambda>e. e) fst (updateOf R request item)"

definition updateBase :: "DynamoTable \<Rightarrow> DynamoItem \<Rightarrow> DynamoItem" where
  "updateBase t keyItem =
     (case dynamoItemKey t keyItem of
        Inl e \<Rightarrow> fmempty
      | Inr k \<Rightarrow> if itemExists t k then cloneDynamoItem (storedItem t k) else cloneDynamoItem keyItem)"

definition updatedNamesOf :: "number_reader \<Rightarrow> dynamoItemRequest \<Rightarrow> world \<Rightarrow> string list" where
  "updatedNamesOf R request w =
     (case fmlookup (DynamoTables (w_data w)) (ir_TableName request) of
        None \<Rightarrow> []
      | Some t \<Rightarrow> (case updateOf R request (updateBase t (ir_Key request)) of Inl e \<Rightarrow> [] | Inr (_, ns) \<Rightarrow> ns))"

definition handleDynamoItemOperation ::
  "env \<Rightarrow> number_reader \<Rightarrow> string \<Rightarrow> dynamoItemRequest \<Rightarrow> world \<Rightarrow> dynamoReply \<times> world" where
  "handleDynamoItemOperation E R operation request w =
     (case DynamoTable_get (ir_TableName request) w of
        (Inl e, w1) \<Rightarrow> (writeDynamoStateError e, w1)
      | (Inr table, w1) \<Rightarrow>
         (case compileDynamoCondition R (ir_ConditionExpression request) (ir_ExpressionAttributeNames request)
                 (ir_ExpressionAttributeValues request) of
            Inl e \<Rightarrow> (writeDynamoStateError e, w1)
          | Inr condition \<Rightarrow>
              if operation = ''PutItem'' then
                dynamoReplyOf (oldAttributes request) (DynamoPutItem E (ir_TableName request) (ir_Item request) condition w1)
              else if operation = ''GetItem'' then
                dynamoReplyOf (\<lambda>(item, exists). ItemReply
                    (if exists then Some (projectDynamoItem item (ir_ProjectionExpression request) (ir_ExpressionAttributeNames request))
                     else None))
                  (DynamoGetItem (ir_TableName request) (ir_Key request) w1)
              else if operation = ''DeleteItem'' then
                dynamoReplyOf (oldAttributes request) (DynamoDeleteItem E (ir_TableName request) (ir_Key request) condition w1)
              else if operation = ''UpdateItem'' then
                dynamoReplyOf (\<lambda>(old, next). AttributesReply
                    (dynamoReturnAttributes (ir_ReturnValues request) old next (updatedNamesOf R request w1)))
                  (DynamoUpdateItem E (ir_TableName request) (ir_Key request) condition (updateClosure R request) w1)
              else if operation = ''Query'' then handleDynamoQuery R table request w1
              else handleDynamoScan R table request w1))"

section \<open>Tables, transactions and batches\<close>

definition handleDynamoListTables :: "dynamoListTablesRequest \<Rightarrow> world \<Rightarrow> dynamoReply \<times> world" where
  "handleDynamoListTables request w =
     (let names = filter (\<lambda>n. lt_ExclusiveStartTableName request < n) (map dt_Name (ListDynamoTables w));
          limit = lt_Limit request
      in (if 0 < limit \<and> limit < int (length names)
          then TableNamesReply (take (nat limit) names) (Some (names ! nat (limit - 1)))
          else TableNamesReply names None, w))"

definition transactOperation :: "transactItem \<Rightarrow> error + DynamoWriteOperation" where
  "transactOperation item =
     (case (ti_Put item, ti_Delete item) of
        (Some (t, i), None) \<Rightarrow> Inr \<lparr>wo_Kind = ''put'', wo_Table = t, wo_Item = i, wo_Key = fmempty\<rparr>
      | (None, Some (t, k)) \<Rightarrow> Inr \<lparr>wo_Kind = ''delete'', wo_Table = t, wo_Item = fmempty, wo_Key = k\<rparr>
      | _ \<Rightarrow> Inl (invalid ''unsupported transaction item''))"

definition batchOperation :: "string \<Rightarrow> batchWrite \<Rightarrow> error + DynamoWriteOperation" where
  "batchOperation tableName write =
     (case (bw_PutRequest write, bw_DeleteRequest write) of
        (Some i, None) \<Rightarrow> Inr \<lparr>wo_Kind = ''put'', wo_Table = tableName, wo_Item = i, wo_Key = fmempty\<rparr>
      | (None, Some k) \<Rightarrow> Inr \<lparr>wo_Kind = ''delete'', wo_Table = tableName, wo_Item = fmempty, wo_Key = k\<rparr>
      | _ \<Rightarrow> Inl (invalid ''each batch write must contain exactly one PutRequest or DeleteRequest''))"

fun mapE :: "('x \<Rightarrow> 'e + 'y) \<Rightarrow> 'x list \<Rightarrow> 'e + 'y list" where
  "mapE f [] = Inr []"
| "mapE f (x # xs) = (case f x of Inl e \<Rightarrow> Inl e | Inr y \<Rightarrow> (case mapE f xs of Inl e \<Rightarrow> Inl e | Inr ys \<Rightarrow> Inr (y # ys)))"

definition handleDynamoTransactWrite :: "env \<Rightarrow> transactItem list \<Rightarrow> world \<Rightarrow> dynamoReply \<times> world" where
  "handleDynamoTransactWrite E items w =
     (if items = [] \<or> length items > 100 then
        (writeDynamoStateError (invalid ''TransactItems must contain 1 to 100 items''), w)
      else case mapE transactOperation items of
        Inl e \<Rightarrow> (writeDynamoStateError e, w)
      | Inr operations \<Rightarrow> dynamoReplyOf (\<lambda>_. EmptyReply) (DynamoTransactWrite E operations w))"

definition handleDynamoBatchWrite :: "env \<Rightarrow> (string \<times> batchWrite list) list \<Rightarrow> world \<Rightarrow> dynamoReply \<times> world" where
  "handleDynamoBatchWrite E requestItems w =
     (case mapE (\<lambda>(t, write). batchOperation t write) (concat (map (\<lambda>(t, writes). map (Pair t) writes) requestItems)) of
        Inl e \<Rightarrow> (writeDynamoStateError e, w)
      | Inr operations \<Rightarrow>
          if operations = [] \<or> length operations > 25 then
            (writeDynamoStateError (invalid ''BatchWriteItem must contain 1 to 25 operations''), w)
          else dynamoReplyOf (\<lambda>_. UnprocessedItemsReply) (DynamoTransactWrite E operations w))"

definition batchProjection :: "batchGetTable \<Rightarrow> string" where
  "batchProjection tableRequest =
     (if bg_ProjectionExpression tableRequest = '''' \<and> bg_AttributesToGet tableRequest \<noteq> []
      then joinWith '','' (bg_AttributesToGet tableRequest) else bg_ProjectionExpression tableRequest)"

fun batchGetKeys :: "string \<Rightarrow> batchGetTable \<Rightarrow> DynamoItem list \<Rightarrow> world \<Rightarrow> error + DynamoItem list" where
  "batchGetKeys tableName tableRequest [] w = Inr []"
| "batchGetKeys tableName tableRequest (key # keys) w =
     (case fst (DynamoGetItem tableName key w) of
        Inl e \<Rightarrow> Inl e
      | Inr (item, exists) \<Rightarrow>
         (case batchGetKeys tableName tableRequest keys w of
            Inl e \<Rightarrow> Inl e
          | Inr items \<Rightarrow>
              Inr (if exists then projectDynamoItem item (batchProjection tableRequest) (bg_ExpressionAttributeNames tableRequest) # items
                   else items)))"

fun batchGetTables :: "(string \<times> batchGetTable) list \<Rightarrow> world \<Rightarrow> error + (string \<times> DynamoItem list) list" where
  "batchGetTables [] w = Inr []"
| "batchGetTables ((tableName, tableRequest) # rest) w =
     (case fst (DynamoTable_get tableName w) of
        Inl e \<Rightarrow> Inl e
      | Inr _ \<Rightarrow>
         (case batchGetKeys tableName tableRequest (bg_Keys tableRequest) w of
            Inl e \<Rightarrow> Inl e
          | Inr items \<Rightarrow> (case batchGetTables rest w of Inl e \<Rightarrow> Inl e | Inr rs \<Rightarrow> Inr ((tableName, items) # rs))))"

definition handleDynamoBatchGet :: "(string \<times> batchGetTable) list \<Rightarrow> world \<Rightarrow> dynamoReply \<times> world" where
  "handleDynamoBatchGet requestItems w =
     (let totalKeys = sum_list (map (\<lambda>(_, t). length (bg_Keys t)) requestItems)
      in if totalKeys = 0 \<or> totalKeys > 100 then
           (writeDynamoStateError (invalid ''BatchGetItem must contain 1 to 100 keys''), w)
         else (case batchGetTables requestItems w of
                 Inl e \<Rightarrow> writeDynamoStateError e | Inr responses \<Rightarrow> ResponsesReply responses, w))"

section \<open>Dispatch\<close>

definition dynamoTargetPrefix :: string where
  "dynamoTargetPrefix = ''DynamoDB_20120810.''"

definition decodeDynamoRequest :: "'q option \<Rightarrow> ('q \<Rightarrow> world \<Rightarrow> dynamoReply \<times> world) \<Rightarrow> world \<Rightarrow> dynamoReply \<times> world" where
  "decodeDynamoRequest decoded handler w =
     (case decoded of
        None \<Rightarrow> (DynamoError ''SerializationException'' ''invalid DynamoDB JSON request'', w)
      | Some q \<Rightarrow> handler q w)"

definition deleteTable :: "env \<Rightarrow> dynamoTableRequest \<Rightarrow> world \<Rightarrow> dynamoReply \<times> world" where
  "deleteTable E q w =
     (case DynamoTable_get (tr_TableName q) w of
        (Inl e, w1) \<Rightarrow> (writeDynamoStateError e, w1)
      | (Inr t, w1) \<Rightarrow>
          dynamoReplyOf (\<lambda>_. TableDescriptionReply ((dynamoTableDescription t)\<lparr>td_TableStatus := ''DELETING''\<rparr>))
            (DeleteDynamoTable E (tr_TableName q) w1))"

definition handleDynamoDB ::
  "env \<Rightarrow> number_reader \<Rightarrow> string \<Rightarrow> string \<Rightarrow> dynamoBody \<Rightarrow> world \<Rightarrow> dynamoReply \<times> world" where
  "handleDynamoDB E R method header body w =
     (let target = drop (length dynamoTargetPrefix) header
      in if method \<noteq> ''POST'' then (MethodNotAllowed, w)
         else if \<not> hasPrefix header dynamoTargetPrefix \<or> target = '''' then
           (DynamoError ''UnknownOperationException'' ''unsupported DynamoDB operation'', w)
         else if target = ''CreateTable'' then
           decodeDynamoRequest (body_CreateTable body) (\<lambda>q w1. dynamoReplyOf (\<lambda>t. TableDescriptionReply (dynamoTableDescription t))
             (CreateDynamoTable E (ct_TableName q) (ct_KeySchema q) (ct_AttributeDefinitions q) (ct_BillingMode q) w1)) w
         else if target = ''DescribeTable'' then
           decodeDynamoRequest (body_Table body) (\<lambda>q w1. dynamoReplyOf (\<lambda>t. TableReply (dynamoTableDescription t))
             (DynamoTable_get (tr_TableName q) w1)) w
         else if target = ''ListTables'' then decodeDynamoRequest (body_ListTables body) handleDynamoListTables w
         else if target = ''DeleteTable'' then decodeDynamoRequest (body_Table body) (deleteTable E) w
         else if target \<in> set [''PutItem'', ''GetItem'', ''DeleteItem'', ''UpdateItem'', ''Query'', ''Scan''] then
           decodeDynamoRequest (body_Item body) (handleDynamoItemOperation E R target) w
         else if target = ''TransactWriteItems'' then decodeDynamoRequest (body_TransactWrite body) (handleDynamoTransactWrite E) w
         else if target = ''BatchGetItem'' then decodeDynamoRequest (body_BatchGet body) handleDynamoBatchGet w
         else if target = ''BatchWriteItem'' then decodeDynamoRequest (body_BatchWrite body) (handleDynamoBatchWrite E) w
         else (DynamoError ''UnknownOperationException'' (''DynamoDB operation '' @ target @ '' is not implemented''), w))"

end
