(* ===== verification/Dynamo_Paging.thy ===== *)
theory Dynamo_Paging
  imports Dynamo_Handlers DynamoDB_Theorems
begin

text \<open>
  Reading a table page by page: what one page selects, that the key it returns makes the next page continue
  behind it, and that a client who follows the keys of a scan or query reads what one request without a limit
  returns, and comes to an end.
\<close>

section \<open>Reversing in place\<close>

lemma reverseLoop_length [simp]: "length (reverseLoop l r xs) = length xs"
proof (induction l r xs rule: reverseLoop.induct)
  case (1 l r xs)
  then show ?case by (simp add: reverseLoop.simps [of l r xs])
qed

lemma reverseLoop_nth:
  "r < length xs \<Longrightarrow> i < length xs \<Longrightarrow> reverseLoop l r xs ! i = (if l \<le> i \<and> i \<le> r then xs ! (r + l - i) else xs ! i)"
proof (induction l r xs rule: reverseLoop.induct)
  case (1 l r xs)
  show ?case
  proof (cases "l < r")
    case False
    then have "l \<le> i \<and> i \<le> r \<Longrightarrow> r + l - i = i" by linarith
    with False show ?thesis by (simp add: reverseLoop.simps [of l r xs])
  next
    case True
    have "reverseLoop l r xs ! i = (if l + 1 \<le> i \<and> i \<le> r - 1 then (xs[l := xs ! r, r := xs ! l]) ! (r - 1 + (l + 1) - i)
        else (xs[l := xs ! r, r := xs ! l]) ! i)"
      using 1 True by (simp add: reverseLoop.simps [of l r xs])
    with True 1(2,3) show ?thesis by (auto simp: nth_list_update)
  qed
qed

lemma reverseDynamoItems_rev: "reverseDynamoItems items = rev items"
proof (cases "items = []")
  case True
  then show ?thesis by (simp add: reverseDynamoItems_def reverseLoop.simps)
next
  case False
  show ?thesis
  proof (rule nth_equalityI)
    fix i
    assume "i < length (reverseDynamoItems items)"
    then have i: "i < length items" by (simp add: reverseDynamoItems_def)
    then have "i \<le> length items - Suc 0" by simp
    with i False show "reverseDynamoItems items ! i = rev items ! i"
      by (simp add: reverseDynamoItems_def reverseLoop_nth rev_nth)
  qed (simp add: reverseDynamoItems_def)
qed

section \<open>Keys of items\<close>

lemma fold_key_lookup:
  "fmlookup (fold (\<lambda>element key. case fmlookup item (ks_AttributeName element) of
       Some v \<Rightarrow> fmupd (ks_AttributeName element) v key | None \<Rightarrow> key) els m) a =
     (if a \<in> ks_AttributeName ` set els \<and> fmlookup item a \<noteq> None then fmlookup item a else fmlookup m a)"
  by (induction els arbitrary: m) (auto split: option.split)

lemma primaryKey_lookup:
  "fmlookup (dynamoPrimaryKey t item) a = (if a \<in> ks_AttributeName ` set (dt_KeySchema t) then fmlookup item a else None)"
  unfolding dynamoPrimaryKey_def fold_key_lookup by auto

lemma keysEqual_primaryKey: "dynamoKeysEqual t i (dynamoPrimaryKey t j) = dynamoKeysEqual t i j"
  by (auto simp: dynamoKeysEqual_def list_all_iff attributeOf_def primaryKey_lookup)

text \<open>
  A table is keyed when every item is stored under the encoding of its own key attributes. Storing an item whose
  attributes have one type each keeps a table keyed.
\<close>

definition keyed :: "DynamoTable \<Rightarrow> bool" where
  "keyed t \<longleftrightarrow> (\<forall>k i. fmlookup (dt_Items t) k = Some i \<longrightarrow> dynamoItemKey t i = Inr k)"

lemma dynamoItemKey_items [simp]: "dynamoItemKey (t\<lparr>dt_Items := x\<rparr>) = dynamoItemKey t"
  by (simp add: dynamoItemKey_def fun_eq_iff)

lemma keyed_put: "keyed t \<Longrightarrow> dynamoItemKey t i = Inr k \<Longrightarrow> item_clean i \<Longrightarrow> keyed (t\<lparr>dt_Items := fmupd k (cloneDynamoItem i) (dt_Items t)\<rparr>)"
  by (simp add: keyed_def item_clean_def)

lemma keyed_delete: "keyed t \<Longrightarrow> keyed (t\<lparr>dt_Items := fmdrop k (dt_Items t)\<rparr>)"
  by (auto simp: keyed_def)

lemma clean_scalar:
  assumes "cloneDynamoAttributeValue v = v" "dynamoScalarKey v = Inr s"
  shows "marshalled v = Some v"
proof -
  have "av_ok v"
  proof (rule ccontr)
    assume "\<not> av_ok v"
    with assms(1) have "v = av_empty" by (simp add: cloneDynamoAttributeValue_def MarshalJSON_def)
    with assms(2) show False by (simp add: dynamoScalarKey_def av_empty_def)
  qed
  with assms(1) show ?thesis by (simp add: marshalled_def MarshalJSON_def cloneDynamoAttributeValue_def)
qed

lemma clean_attribute: "item_clean i \<Longrightarrow> fmlookup i a = Some v \<Longrightarrow> cloneDynamoAttributeValue v = v"
  by (metis fmlookup_clone_item item_clean_def option.simps(9) option.inject)

lemma keyParts_attribute:
  "keyParts els i = Inr ps \<Longrightarrow> el \<in> set els \<Longrightarrow> \<exists>v s. fmlookup i (ks_AttributeName el) = Some v \<and> dynamoScalarKey v = Inr s"
  by (induction els arbitrary: ps) (auto split: option.splits sum.splits)

lemma keysEqual_same_key:
  assumes "item_clean i" "item_clean j" "dynamoItemKey t i = Inr k" "dynamoItemKey t j = Inr l" "dynamoKeysEqual t i j"
  shows "k = l"
proof -
  have same: "fmlookup i (ks_AttributeName el) = fmlookup j (ks_AttributeName el)" if el: "el \<in> set (dt_KeySchema t)" for el
  proof -
    from assms(3,4) obtain ps qs where "keyParts (dt_KeySchema t) i = Inr ps" "keyParts (dt_KeySchema t) j = Inr qs"
      by (auto simp: dynamoItemKey_def split: sum.splits)
    from keyParts_attribute [OF this(1) el] keyParts_attribute [OF this(2) el] obtain v s v' s' where
      v: "fmlookup i (ks_AttributeName el) = Some v" "dynamoScalarKey v = Inr s"
      and v': "fmlookup j (ks_AttributeName el) = Some v'" "dynamoScalarKey v' = Inr s'" by blast
    from assms(5) el have "dynamoAttributeEqual v v'" using v(1) v'(1) by (auto simp: dynamoKeysEqual_def list_all_iff attributeOf_def)
    then have "v = v'"
      using clean_scalar [OF clean_attribute [OF assms(1) v(1)] v(2)] clean_scalar [OF clean_attribute [OF assms(2) v'(1)] v'(2)]
      by (simp add: dynamoAttributeEqual_def)
    with v v' show ?thesis by simp
  qed
  have "keyParts els i = keyParts els j" if "set els \<subseteq> set (dt_KeySchema t)" for els
    using that by (induction els) (auto simp: same split: option.split sum.split)
  then have "dynamoItemKey t i = dynamoItemKey t j" by (simp add: dynamoItemKey_def)
  with assms(3,4) show ?thesis by simp
qed

section \<open>One page\<close>

definition afterKey :: "DynamoTable \<Rightarrow> DynamoItem \<Rightarrow> DynamoItem list \<Rightarrow> DynamoItem list" where
  "afterKey t k items = tl (dropWhile (\<lambda>i. \<not> dynamoKeysEqual t i k) items)"

definition pageStart :: "DynamoTable \<Rightarrow> dynamoItemRequest \<Rightarrow> DynamoItem list \<Rightarrow> DynamoItem list" where
  "pageStart t request items = (if fmnull (ir_ExclusiveStartKey request) then items else afterKey t (ir_ExclusiveStartKey request) items)"

text \<open>What a request without a limit selects from a list of items.\<close>

definition selected :: "dynamoItemRequest \<Rightarrow> DynamoCondition option \<Rightarrow> DynamoCondition option \<Rightarrow> DynamoItem list \<Rightarrow> DynamoItem list" where
  "selected request keyC fltr items =
     map (\<lambda>i. projectDynamoItem i (ir_ProjectionExpression request) (ir_ExpressionAttributeNames request))
       (filter (holdsFor fltr) (filter (holdsFor keyC) items))"

lemma selected_append [simp]: "selected q c f (xs @ ys) = selected q c f xs @ selected q c f ys"
  by (simp add: selected_def)

lemma selected_Nil [simp]: "selected q c f [] = []"
  by (simp add: selected_def)

lemma selectLoop_skip:
  "selectLoop t q c f items False n res = selectLoop t q c f (afterKey t (ir_ExclusiveStartKey q) items) True n res"
  by (induction items) (auto simp: afterKey_def)

lemma selectDynamoItems_start:
  "selectDynamoItems t items q c f = selectLoop t q c f (pageStart t q items) True 0 []"
  by (simp add: selectDynamoItems_def pageStart_def selectLoop_skip)

lemma selectLoop_unlimited:
  "ir_Limit q \<le> 0 \<Longrightarrow> selectLoop t q c f items True n res =
     (res @ selected q c f items, n + int (length (filter (holdsFor c) items)), None)"
  by (induction items arbitrary: n res) (auto simp: selected_def)

lemma selectLoop_page:
  assumes "0 < ir_Limit q" "n < ir_Limit q" "selectLoop t q c f items True n res = (page, scanned, lastKey)"
  shows "n \<le> scanned \<and> scanned \<le> ir_Limit q \<and>
    (case lastKey of
       None \<Rightarrow> page = res @ selected q c f items
     | Some k \<Rightarrow> \<exists>pre item post. items = pre @ item # post \<and> post \<noteq> [] \<and> k = dynamoPrimaryKey t item \<and>
         page = res @ selected q c f (pre @ [item]) \<and> scanned = ir_Limit q)"
  using assms
proof (induction items arbitrary: n res)
  case (Cons item items)
  show ?case
  proof (cases "holdsFor c item")
    case False
    then have skip: "selected q c f (item # xs) = selected q c f xs" for xs by (simp add: selected_def)
    have "selectLoop t q c f items True n res = (page, scanned, lastKey)" using Cons.prems(3) False by simp
    from Cons.IH [OF Cons.prems(1,2) this] show ?thesis
    proof (cases lastKey)
      case (Some k)
      with Cons.IH [OF Cons.prems(1,2) \<open>selectLoop t q c f items True n res = _\<close>] obtain pre x post where
        "items = pre @ x # post" "post \<noteq> []" "k = dynamoPrimaryKey t x" "page = res @ selected q c f (pre @ [x])" "scanned = ir_Limit q"
        by auto
      with Some Cons.prems skip show ?thesis by (auto intro!: exI [of _ "item # pre"])
    qed (simp add: skip)
  next
    case True
    let ?res = "res @ selected q c f [item]"
    show ?thesis
    proof (cases "ir_Limit q \<le> n + 1")
      case stop: True
      with Cons.prems True have r: "page = ?res" "scanned = n + 1" "lastKey = (if items \<noteq> [] then Some (dynamoPrimaryKey t item) else None)"
        by (auto simp: selected_def split: if_splits)
      with stop Cons.prems(2) show ?thesis
        by (cases items) (auto intro!: exI [of _ "[]"])
    next
      case False
      with Cons.prems True have "selectLoop t q c f items True (n + 1) ?res = (page, scanned, lastKey)"
        by (auto simp: selected_def split: if_splits)
      from Cons.IH [OF Cons.prems(1) _ this] False have ih: "n + 1 \<le> scanned \<and> scanned \<le> ir_Limit q \<and>
        (case lastKey of None \<Rightarrow> page = ?res @ selected q c f items
         | Some k \<Rightarrow> \<exists>pre item post. items = pre @ item # post \<and> post \<noteq> [] \<and> k = dynamoPrimaryKey t item \<and>
             page = ?res @ selected q c f (pre @ [item]) \<and> scanned = ir_Limit q)" by simp
      have "selected q c f (item # xs) = selected q c f [item] @ selected q c f xs" for xs by (simp add: selected_def)
      note cons = this
      show ?thesis
      proof (cases lastKey)
        case None
        with ih show ?thesis by (simp add: cons [of items])
      next
        case (Some k)
        with ih obtain pre x post where
          "items = pre @ x # post" "post \<noteq> []" "k = dynamoPrimaryKey t x" "page = ?res @ selected q c f (pre @ [x])" "scanned = ir_Limit q"
          by auto
        with Some Cons.prems(2) cons [of pre] show ?thesis by (auto intro!: exI [of _ "item # pre"])
      qed
    qed
  qed
qed simp

section \<open>The items of a table in reading order\<close>

definition tableItems :: "DynamoTable \<Rightarrow> DynamoItem list" where
  "tableItems t = map (\<lambda>k. cloneDynamoItem (storedItem t k)) (sort (fmkeys (dt_Items t)))"

definition readingOrder :: "string \<Rightarrow> dynamoItemRequest \<Rightarrow> DynamoTable \<Rightarrow> DynamoItem list" where
  "readingOrder operation q t =
     (if operation = ''Query'' \<and> ir_ScanIndexForward q = Some False then rev (tableItems t) else tableItems t)"

definition readable :: "number_reader \<Rightarrow> string \<Rightarrow> dynamoItemRequest \<Rightarrow> DynamoCondition option \<Rightarrow> DynamoCondition option \<Rightarrow> bool" where
  "readable R operation q keyC fltr \<longleftrightarrow>
     (\<exists>c. compileDynamoCondition R (ir_ConditionExpression q) (ir_ExpressionAttributeNames q) (ir_ExpressionAttributeValues q) = Inr c) \<and>
     compileDynamoCondition R (ir_FilterExpression q) (ir_ExpressionAttributeNames q) (ir_ExpressionAttributeValues q) = Inr fltr \<and>
     (if operation = ''Query'' then keyC \<noteq> None \<and>
        compileDynamoCondition R (ir_KeyConditionExpression q) (ir_ExpressionAttributeNames q) (ir_ExpressionAttributeValues q) = Inr keyC
      else keyC = None)"

lemma keysEqual_clone: "dynamoKeysEqual (cloneDynamoTable t) = dynamoKeysEqual t"
  by (simp add: dynamoKeysEqual_def cloneDynamoTable_def fun_eq_iff)

lemma primaryKey_clone: "dynamoPrimaryKey (cloneDynamoTable t) = dynamoPrimaryKey t"
  by (simp add: dynamoPrimaryKey_def cloneDynamoTable_def fun_eq_iff)

lemma selectLoop_clone: "selectLoop (cloneDynamoTable t) q c f items b n res = selectLoop t q c f items b n res"
  by (induction items arbitrary: b n res) (auto simp: keysEqual_clone primaryKey_clone Let_def)

lemma read_reply:
  assumes t: "fmlookup (DynamoTables (w_data w)) (ir_TableName q) = Some t" "dt_Name t = ir_TableName q"
    and op1: "operation \<in> {''Query'', ''Scan''}" and r: "readable R operation q keyC fltr"
  shows "handleDynamoItemOperation E R operation q w =
    (pageReply q (selectDynamoItems t (readingOrder operation q t) q keyC fltr), w)"
proof -
  have "selectDynamoItems (cloneDynamoTable t) = selectDynamoItems t"
    by (simp add: selectDynamoItems_def selectLoop_clone fun_eq_iff)
  moreover have "dt_Name (cloneDynamoTable t) = ir_TableName q" using t(2) by (simp add: cloneDynamoTable_def)
  ultimately show ?thesis using assms
    by (auto simp: handleDynamoItemOperation_def DynamoTable_get_def readable_def handleDynamoQuery_def handleDynamoScan_def
        DynamoListItems_def dynamoReplyOf_def readingOrder_def tableItems_def reverseDynamoItems_rev Let_def)
qed

lemma read_page_readable:
  assumes "operation \<in> {''Query'', ''Scan''}" "handleDynamoItemOperation E R operation q w = (PageReply pg, w')"
  obtains keyC fltr where "readable R operation q keyC fltr"
proof -
  have no: "writeDynamoStateError e \<noteq> PageReply pg" for e by (simp add: writeDynamoStateError_def)
  obtain t where "DynamoTable_get (ir_TableName q) w = (Inr t, w)"
    using assms(2) no by (auto simp: handleDynamoItemOperation_def DynamoTable_get_def split: option.splits)
  with assms no that show thesis
    by (auto simp: handleDynamoItemOperation_def handleDynamoQuery_def handleDynamoScan_def readable_def
        split: sum.splits option.splits)
qed

lemma tableItems_mem:
  assumes "i \<in> set (tableItems t)" "table_clean t"
  shows "\<exists>k. fmlookup (dt_Items t) k = Some i \<and> item_clean i"
proof -
  from assms(1) obtain k i0 where "fmlookup (dt_Items t) k = Some i0" "i = cloneDynamoItem i0"
    by (auto simp: tableItems_def in_fmkeys storedItem_def)
  with assms(2) show ?thesis by (auto simp: table_clean_def fmpred_iff item_clean_def)
qed

text \<open>In a keyed table no two items of the reading order have equal keys, and no key is empty.\<close>

definition separated :: "DynamoTable \<Rightarrow> DynamoItem list \<Rightarrow> bool" where
  "separated t items \<longleftrightarrow> (\<forall>i < length items. \<forall>j < length items. dynamoKeysEqual t (items ! i) (items ! j) \<longleftrightarrow> i = j) \<and>
     (\<forall>i \<in> set items. \<not> fmnull (dynamoPrimaryKey t i))"

lemma keysEqual_refl [simp]: "dynamoKeysEqual t i i"
  by (simp add: dynamoKeysEqual_def dynamoAttributeEqual_def list_all_iff)

lemma tableItems_separated:
  assumes "keyed t" "table_clean t" "dt_KeySchema t \<noteq> []"
  shows "separated t (tableItems t)"
proof -
  let ?ks = "sort (fmkeys (dt_Items t))"
  have at: "fmlookup (dt_Items t) (?ks ! i) = Some (tableItems t ! i) \<and> item_clean (tableItems t ! i)" if "i < length ?ks" for i
  proof -
    from that have "?ks ! i \<in> set (fmkeys (dt_Items t))" by (metis nth_mem set_sort)
    then obtain i0 where "fmlookup (dt_Items t) (?ks ! i) = Some i0" by (auto simp: in_fmkeys)
    with that assms(2) show ?thesis by (auto simp: tableItems_def storedItem_def table_clean_def fmpred_iff item_clean_def)
  qed
  have "i = j" if "i < length ?ks" "j < length ?ks" "dynamoKeysEqual t (tableItems t ! i) (tableItems t ! j)" for i j
  proof -
    have "?ks ! i = ?ks ! j"
      using keysEqual_same_key [OF _ _ _ _ that(3)] at [OF that(1)] at [OF that(2)] assms(1) by (auto simp: keyed_def)
    with that show ?thesis by (simp add: nth_eq_iff_index_eq distinct_fmkeys)
  qed
  moreover have "\<not> fmnull (dynamoPrimaryKey t i)" if "i \<in> set (tableItems t)" for i
  proof -
    from tableItems_mem [OF that assms(2)] assms(1) obtain k where "dynamoItemKey t i = Inr k" by (auto simp: keyed_def)
    then obtain ps where "keyParts (dt_KeySchema t) i = Inr ps" by (auto simp: dynamoItemKey_def split: sum.splits)
    from keyParts_attribute [OF this hd_in_set [OF assms(3)]] assms(3) show ?thesis
      by (auto simp: fmnull_lookup primaryKey_lookup intro!: exI [of _ "ks_AttributeName (hd (dt_KeySchema t))"])
  qed
  moreover have "length (tableItems t) = length ?ks" by (simp add: tableItems_def)
  ultimately show ?thesis by (auto simp: separated_def)
qed

lemma separated_rev: "separated t xs \<Longrightarrow> separated t (rev xs)"
  by (auto simp: separated_def rev_nth)

lemma afterKey_item:
  assumes "separated t (xs @ i # ys)"
  shows "afterKey t (dynamoPrimaryKey t i) (xs @ i # ys) = ys"
proof -
  have "\<not> dynamoKeysEqual t x (dynamoPrimaryKey t i)" if "x \<in> set xs" for x
  proof -
    from that obtain n where "n < length xs" "x = xs ! n" by (auto simp: in_set_conv_nth)
    moreover have eq: "dynamoKeysEqual t ((xs @ i # ys) ! a) ((xs @ i # ys) ! b) \<longleftrightarrow> a = b"
      if "a < length (xs @ i # ys)" "b < length (xs @ i # ys)" for a b
      using assms that unfolding separated_def by blast
    ultimately have "dynamoKeysEqual t x i \<longleftrightarrow> n = length xs"
      using eq [of n "length xs"] by (simp add: nth_append)
    with \<open>n < length xs\<close> show ?thesis by (simp add: keysEqual_primaryKey)
  qed
  then show ?thesis by (simp add: afterKey_def dropWhile_append2 keysEqual_primaryKey)
qed

section \<open>Following the pages\<close>

text \<open>A client that repeats a read with the key each page returns, at most a number of times.\<close>

fun followPages :: "env \<Rightarrow> number_reader \<Rightarrow> string \<Rightarrow> nat \<Rightarrow> dynamoItemRequest \<Rightarrow> world \<Rightarrow> DynamoItem list option" where
  "followPages E R operation 0 q w = None"
| "followPages E R operation (Suc n) q w =
     (case fst (handleDynamoItemOperation E R operation q w) of
        PageReply pg \<Rightarrow>
          (case pg_LastEvaluatedKey pg of
             None \<Rightarrow> pg_Items pg
           | Some k \<Rightarrow>
              (case (pg_Items pg, followPages E R operation n (q\<lparr>ir_ExclusiveStartKey := k\<rparr>) w) of
                 (Some xs, Some ys) \<Rightarrow> Some (xs @ ys) | _ \<Rightarrow> None))
      | _ \<Rightarrow> None)"

lemma readable_start [simp]:
  "readable R operation (q\<lparr>ir_ExclusiveStartKey := k\<rparr>) = readable R operation q"
  "readable R operation (q\<lparr>ir_Limit := l\<rparr>) = readable R operation q"
  by (simp_all add: readable_def fun_eq_iff)

lemma readingOrder_start [simp]:
  "readingOrder operation (q\<lparr>ir_ExclusiveStartKey := k\<rparr>) t = readingOrder operation q t"
  "readingOrder operation (q\<lparr>ir_Limit := l\<rparr>) t = readingOrder operation q t"
  by (simp_all add: readingOrder_def)

lemma selected_start [simp]:
  "selected (q\<lparr>ir_ExclusiveStartKey := k\<rparr>) = selected q" "selected (q\<lparr>ir_Limit := l\<rparr>) = selected q"
  by (simp_all add: selected_def fun_eq_iff)

lemma followPages_suffix:
  assumes t: "fmlookup (DynamoTables (w_data w)) (ir_TableName q) = Some t" "dt_Name t = ir_TableName q"
    and op1: "operation \<in> {''Query'', ''Scan''}" and r: "readable R operation q keyC fltr"
    and sep: "separated t (readingOrder operation q t)" and lim: "0 < ir_Limit q" and sel: "\<not> equalFold (ir_Select q) ''COUNT''"
  shows "readingOrder operation q t = xs @ ys \<Longrightarrow> pageStart t (q\<lparr>ir_ExclusiveStartKey := k\<rparr>) (xs @ ys) = ys \<Longrightarrow> length ys < n \<Longrightarrow>
    followPages E R operation n (q\<lparr>ir_ExclusiveStartKey := k\<rparr>) w = Some (selected q keyC fltr ys)"
proof (induction n arbitrary: xs ys k)
  case (Suc n)
  let ?q = "q\<lparr>ir_ExclusiveStartKey := k\<rparr>"
  obtain page scanned lastKey where s: "selectLoop t ?q keyC fltr ys True 0 [] = (page, scanned, lastKey)" by (metis prod_cases3)
  have reply: "handleDynamoItemOperation E R operation ?q w = (pageReply ?q (page, scanned, lastKey), w)"
    using read_reply [of w ?q t operation R keyC fltr E] t op1 r s Suc.prems by (simp add: selectDynamoItems_start)
  note page = selectLoop_page [OF _ _ s]
  show ?case
  proof (cases lastKey)
    case None
    with page lim reply sel show ?thesis by (simp add: pageReply_def)
  next
    case (Some k')
    with page lim obtain pre i post where
      split: "ys = pre @ i # post" and k': "k' = dynamoPrimaryKey t i" and p: "page = selected q keyC fltr (pre @ [i])" by auto
    have order: "readingOrder operation q t = (xs @ pre @ [i]) @ post" using Suc.prems(1) split by simp
    have "\<not> fmnull k'" using sep order k' by (auto simp: separated_def)
    then have "pageStart t (q\<lparr>ir_ExclusiveStartKey := k'\<rparr>) ((xs @ pre @ [i]) @ post) = post"
      using afterKey_item [of t "xs @ pre" i post] sep order k' by (simp add: pageStart_def)
    from Suc.IH [OF order this] Suc.prems(3) split
    have "followPages E R operation n (q\<lparr>ir_ExclusiveStartKey := k'\<rparr>) w = Some (selected q keyC fltr post)" by simp
    with Some reply sel p split show ?thesis by (simp add: pageReply_def) (simp flip: selected_append)
  qed
qed simp

text \<open>
  C29. Reading page by page ends and is complete. For every scan and every query with a limit, on a table whose
  items are stored under their own keys: no page examines more than the limit; and the client that follows
  \<open>LastEvaluatedKey\<close> needs at most one request more than the table has items and has then read exactly the items, in
  the order, that the same request returns without a limit. Reading changes nothing.
\<close>

theorem paged_reads_complete:
  assumes h: "ok.holds E S w" and t: "fmlookup (DynamoTables (w_data w)) (ir_TableName q) = Some t" and keyed: "keyed t"
    and op1: "operation \<in> {''Query'', ''Scan''}" and start: "ir_ExclusiveStartKey q = fmempty"
    and lim: "0 < ir_Limit q" and sel: "\<not> equalFold (ir_Select q) ''COUNT''"
    and whole: "handleDynamoItemOperation E R operation (q\<lparr>ir_Limit := 0\<rparr>) w = (PageReply pg, w')"
  shows "followPages E R operation (Suc (length (fmkeys (dt_Items t)))) q w = pg_Items pg \<and> pg_Items pg \<noteq> None \<and> w' = w \<and>
    (\<forall>k pg' w2. handleDynamoItemOperation E R operation (q\<lparr>ir_ExclusiveStartKey := k\<rparr>) w = (PageReply pg', w2) \<longrightarrow>
       pg_ScannedCount pg' \<le> ir_Limit q \<and> pg_Count pg' = int (length (the (pg_Items pg'))))"
proof -
  have name: "dt_Name t = ir_TableName q" and valid: "validateDynamoTable (ir_TableName q) (dt_KeySchema t) (dt_AttributeDefinitions t) = None"
    using storeOK_tablesOK [OF ok_holds_parts(2) [OF h]] t by (auto simp: tablesOK_def)
  have schema: "dt_KeySchema t \<noteq> []"
    using valid by (cases "dt_KeySchema t") (auto simp: validateDynamoTable_def split: if_splits)
  obtain keyC fltr where "readable R operation (q\<lparr>ir_Limit := 0\<rparr>) keyC fltr" by (rule read_page_readable [OF op1 whole])
  then have r: "readable R operation q keyC fltr" by simp
  have sep: "separated t (readingOrder operation q t)"
    using tableItems_separated [OF keyed holds_table_clean [OF h t] schema] separated_rev by (auto simp: readingOrder_def)
  have q: "q\<lparr>ir_ExclusiveStartKey := fmempty\<rparr> = q" using start by (cases q) simp
  have "followPages E R operation (Suc (length (fmkeys (dt_Items t)))) q w = Some (selected q keyC fltr (readingOrder operation q t))"
  proof (rule followPages_suffix [OF t name op1 r sep lim sel, of "[]" _ fmempty, unfolded q])
    show "length (readingOrder operation q t) < Suc (length (fmkeys (dt_Items t)))"
      by (simp add: readingOrder_def tableItems_def)
  qed (simp_all add: pageStart_def fmnull_iff start)
  moreover have "(PageReply pg, w') = (pageReply q (selected q keyC fltr (readingOrder operation q t),
      int (length (filter (holdsFor keyC) (readingOrder operation q t))), None), w)"
    using whole read_reply [of w "q\<lparr>ir_Limit := 0\<rparr>" t operation R keyC fltr E] t name op1 r start
    by (simp add: selectDynamoItems_start selectLoop_unlimited pageStart_def fmnull_iff pageReply_def)
  moreover have "pg_ScannedCount pg' \<le> ir_Limit q \<and> pg_Count pg' = int (length (the (pg_Items pg')))"
    if page: "handleDynamoItemOperation E R operation (q\<lparr>ir_ExclusiveStartKey := k\<rparr>) w = (PageReply pg', w2)" for k pg' w2
  proof -
    let ?q = "q\<lparr>ir_ExclusiveStartKey := k\<rparr>"
    obtain xs n l where s: "selectDynamoItems t (readingOrder operation ?q t) ?q keyC fltr = (xs, n, l)" by (metis prod_cases3)
    with page read_reply [of w ?q t operation R keyC fltr E] t name op1 r have "PageReply pg' = pageReply ?q (xs, n, l)" by simp
    moreover from s selectLoop_page [of ?q 0 t keyC fltr _ "[]" xs n l] lim have "n \<le> ir_Limit q"
      by (simp add: selectDynamoItems_start)
    ultimately show ?thesis using sel by (simp add: pageReply_def)
  qed
  ultimately show ?thesis using sel by (auto simp: pageReply_def)
qed

section \<open>A table with two items\<close>

definition sampleKey :: "string \<Rightarrow> string \<Rightarrow> string" where
  "sampleKey x y = ''HASH'' @ [CHR 0x00] @ ''a'' @ [CHR 0x00] @ ''S'' @ [CHR 0x00] @ x @ [CHR 0x01] @
     ''RANGE'' @ [CHR 0x00] @ ''b'' @ [CHR 0x00] @ ''S'' @ [CHR 0x00] @ y"

definition sampleItems :: "DynamoItem gomap" where
  "sampleItems = fmupd (sampleKey ''p'' ''1'') (sampleItem ''p'' ''1'') (fmupd (sampleKey ''p'' ''2'') (sampleItem ''p'' ''2'') fmempty)"

definition sampleItemsWorld :: world where
  "sampleItemsWorld = sampleWorld 0 fmempty (emptySnapshot\<lparr>DynamoTables := fmupd ''tab'' (sampleTable sampleItems) fmempty\<rparr>)"

definition sampleRead :: dynamoItemRequest where
  "sampleRead = \<lparr>ir_TableName = ''tab'', ir_Item = fmempty, ir_Key = fmempty, ir_ConditionExpression = '''', ir_UpdateExpression = '''',
     ir_KeyConditionExpression = '''', ir_FilterExpression = '''', ir_ProjectionExpression = '''', ir_ExpressionAttributeNames = fmempty,
     ir_ExpressionAttributeValues = fmempty, ir_ExclusiveStartKey = fmempty, ir_Limit = 1, ir_ScanIndexForward = None,
     ir_ReturnValues = '''', ir_Select = ''''\<rparr>"

lemma sampleItems_lookup: "fmlookup sampleItems k = Some i \<Longrightarrow> \<exists>x y. k = sampleKey x y \<and> i = sampleItem x y"
  by (auto simp: sampleItems_def split: if_splits)

lemma sampleItemsWorld_lookup [simp]:
  "fmlookup (DynamoTables (w_data sampleItemsWorld)) ''tab'' = Some (sampleTable sampleItems)"
  by (simp add: sampleItemsWorld_def)

lemma sampleTable_keyed: "keyed (sampleTable sampleItems)"
  using sampleItems_lookup sampleItem_key [of sampleItems]
  by (fastforce simp: keyed_def sampleKey_def sampleTable_def)

lemma sampleItemsWorld_holds: "ok.holds sampleEnv sampleInputs sampleItemsWorld"
  unfolding sampleItemsWorld_def
proof -
  let ?d = "emptySnapshot\<lparr>DynamoTables := fmupd ''tab'' (sampleTable sampleItems) fmempty\<rparr>"
  have ok: "fmpred (\<lambda>_ i. item_ok i) sampleItems" "fmpred (\<lambda>_ i. item_clean i) sampleItems"
    using sampleItems_lookup sampleItem_ok sampleItem_clean by (fastforce simp: fmpred_iff item_clean_def)+
  have "table_ok (sampleTable sampleItems)" "table_clean (sampleTable sampleItems)"
    using ok by (simp_all add: table_ok_def table_clean_def sampleTable_def)
  then have en: "encodeSnapshot ?d = Some (snapshotDoc ?d)" and dc: "dynamo_clean ?d"
    by (auto simp: encodeSnapshot_def dynamo_clean_def emptySnapshot_def fmpred_iff)
  have "tablesOK (fmupd ''tab'' (sampleTable sampleItems) fmempty)"
    using storeOK_tablesOK [OF ok_holds_parts(2) [OF sampleTableWorld_holds]]
    by (auto simp: tablesOK_def sampleTable_def split: if_splits)
  then have "storeOK sampleEnv sampleInputs 0 fmempty ?d"
    using sample_digests_ok storeOK_tables [of sampleEnv sampleInputs 0 fmempty emptySnapshot] by simp
  with sample_durable [OF en dc] show "ok.holds sampleEnv sampleInputs (sampleWorld 0 fmempty ?d)" by (simp add: ok.holds_def)
qed

lemma sampleRead_readable: "readable R ''Scan'' sampleRead None None"
  by (simp add: readable_def sampleRead_def compileDynamoCondition_def)

theorem paged_reads_complete_witness:
  "\<exists>pg. handleDynamoItemOperation sampleEnv (\<lambda>_. None) ''Scan'' (sampleRead\<lparr>ir_Limit := 0\<rparr>) sampleItemsWorld = (PageReply pg, sampleItemsWorld) \<and>
     followPages sampleEnv (\<lambda>_. None) ''Scan'' (Suc (length (fmkeys sampleItems))) sampleRead sampleItemsWorld = pg_Items pg \<and>
     pg_Items pg \<noteq> None"
proof -
  have t: "fmlookup (DynamoTables (w_data sampleItemsWorld)) (ir_TableName sampleRead) = Some (sampleTable sampleItems)"
    "dt_Name (sampleTable sampleItems) = ir_TableName sampleRead" "dt_Items (sampleTable sampleItems) = sampleItems"
    by (simp_all add: sampleRead_def sampleTable_def)
  obtain pg where w: "handleDynamoItemOperation sampleEnv (\<lambda>_. None) ''Scan'' (sampleRead\<lparr>ir_Limit := 0\<rparr>) sampleItemsWorld = (PageReply pg, sampleItemsWorld)"
    using read_reply [of sampleItemsWorld "sampleRead\<lparr>ir_Limit := 0\<rparr>" "sampleTable sampleItems" "''Scan''" "\<lambda>_. None" None None sampleEnv]
      t(1,2) sampleRead_readable by (simp add: pageReply_def split: prod.splits)
  have "ir_ExclusiveStartKey sampleRead = fmempty" "0 < ir_Limit sampleRead" "\<not> equalFold (ir_Select sampleRead) ''COUNT''"
    by (simp_all add: sampleRead_def equalFold_def toLower_def)
  from paged_reads_complete [OF sampleItemsWorld_holds t(1) sampleTable_keyed _ this w] w t(3) show ?thesis by simp
qed

text \<open>
  The key of a page must still be in the table when it is used: when its item has been deleted in between, the next
  page is empty and final, although items behind it have not been read.
\<close>

theorem deleted_start_key_ends_reading:
  assumes "\<forall>i \<in> set items. \<not> dynamoKeysEqual t i (ir_ExclusiveStartKey q)" "\<not> fmnull (ir_ExclusiveStartKey q)"
  shows "selectDynamoItems t items q c f = ([], 0, None)"
proof -
  have "dropWhile (\<lambda>i. \<not> dynamoKeysEqual t i (ir_ExclusiveStartKey q)) items = []" using assms(1) by simp
  then have "afterKey t (ir_ExclusiveStartKey q) items = []" by (simp only: afterKey_def list.sel)
  then show ?thesis using assms(2) by (simp add: selectDynamoItems_start pageStart_def)
qed

end
