(* ===== verification/Dynamo_Conditions.thy ===== *)
theory Dynamo_Conditions
  imports Dynamo_Expressions
begin

text \<open>
  The condition language as its users know it: an abstract syntax with an evaluation function, its
  concrete text, and the proof that compiling the text gives the evaluator of the syntax tree.
\<close>

section \<open>Abstract syntax\<close>

datatype condition =
    AttributeExists string
  | AttributeNotExists string
  | BeginsWith string string
  | Between string string string
  | Compare string string string
  | And condition condition

text \<open>Names and values are placeholders; the maps of the request give their meaning.\<close>

fun evalCondition :: "number_reader \<Rightarrow> strmap \<Rightarrow> DynamoItem \<Rightarrow> condition \<Rightarrow> dynamoEvaluator" where
  "evalCondition R names values (AttributeExists n) item exists =
     (exists \<and> fmlookup item (resolveDynamoName n names) \<noteq> None)"
| "evalCondition R names values (AttributeNotExists n) item exists =
     (\<not> exists \<or> fmlookup item (resolveDynamoName n names) = None)"
| "evalCondition R names values (BeginsWith n v) item exists =
     (\<exists>actual expected. fmlookup item (resolveDynamoName n names) = Some actual \<and> fmlookup values v = Some expected \<and>
        dynamoBeginsWith actual expected)"
| "evalCondition R names values (Between n l u) item exists =
     (\<exists>actual lower upper. fmlookup item (resolveDynamoName n names) = Some actual \<and>
        fmlookup values l = Some lower \<and> fmlookup values u = Some upper \<and>
        dynamoCompare R actual lower \<ge> 0 \<and> dynamoCompare R actual upper \<le> 0)"
| "evalCondition R names values (Compare n operator v) item exists =
     (\<exists>actual expected. fmlookup item (resolveDynamoName n names) = Some actual \<and> fmlookup values v = Some expected \<and>
        operatorHolds operator (dynamoCompare R actual expected))"
| "evalCondition R names values (And c d) item exists =
     (evalCondition R names values c item exists \<and> evalCondition R names values d item exists)"

fun isAnd :: "condition \<Rightarrow> bool" where
  "isAnd (And c d) = True"
| "isAnd _ = False"

text \<open>The tokens of a condition: conjunctions associate to the left, one on the right is in parentheses.\<close>

fun conditionTokens :: "condition \<Rightarrow> string list" where
  "conditionTokens (AttributeExists n) = [''attribute_exists'', ''('', n, '')'']"
| "conditionTokens (AttributeNotExists n) = [''attribute_not_exists'', ''('', n, '')'']"
| "conditionTokens (BeginsWith n v) = [''begins_with'', ''('', n, '','', v, '')'']"
| "conditionTokens (Between n l u) = [n, ''BETWEEN'', l, ''AND'', u]"
| "conditionTokens (Compare n operator v) = [n, operator, v]"
| "conditionTokens (And c d) =
     conditionTokens c @ [''AND''] @ (if isAnd d then [''(''] @ conditionTokens d @ ['')''] else conditionTokens d)"

definition conditionText :: "condition \<Rightarrow> string" where
  "conditionText c = joinWith '' '' (conditionTokens c)"

text \<open>
  A name is a word that is not one of the function names of the language and that the request does not map to
  the empty name; a value is a word with a value in the request.
\<close>

definition isWord :: "string \<Rightarrow> bool" where
  "isWord s \<longleftrightarrow> s \<noteq> '''' \<and> list_all isWordByte s"

definition nameOK :: "strmap \<Rightarrow> string \<Rightarrow> bool" where
  "nameOK names n \<longleftrightarrow> isWord n \<and> resolveDynamoName n names \<noteq> '''' \<and>
     \<not> equalFold n ''attribute_exists'' \<and> \<not> equalFold n ''attribute_not_exists'' \<and> \<not> equalFold n ''begins_with''"

definition valueOK :: "DynamoItem \<Rightarrow> string \<Rightarrow> bool" where
  "valueOK values v \<longleftrightarrow> isWord v \<and> fmlookup values v \<noteq> None"

fun conditionOK :: "strmap \<Rightarrow> DynamoItem \<Rightarrow> condition \<Rightarrow> bool" where
  "conditionOK names values (AttributeExists n) = nameOK names n"
| "conditionOK names values (AttributeNotExists n) = nameOK names n"
| "conditionOK names values (BeginsWith n v) = (nameOK names n \<and> valueOK values v)"
| "conditionOK names values (Between n l u) = (nameOK names n \<and> valueOK values l \<and> valueOK values u)"
| "conditionOK names values (Compare n operator v) = (nameOK names n \<and> operator \<in> set compareOperators \<and> valueOK values v)"
| "conditionOK names values (And c d) = (conditionOK names values c \<and> conditionOK names values d)"

section \<open>Tokens\<close>

definition isToken :: "string \<Rightarrow> bool" where
  "isToken t \<longleftrightarrow> isWord t \<or> t \<in> set [''('', '')'', '',''] \<or> t \<in> set compareOperators"

lemma blank_bytes: "byteIsSpace (CHR '' '')" "\<not> isWordByte (CHR '' '')"
  by code_simp+

lemma punctuation_bytes:
  "\<not> byteIsSpace (CHR ''('')" "\<not> byteIsSpace (CHR '')'')" "\<not> byteIsSpace (CHR '','')" "\<not> byteIsSpace (CHR ''='')"
  "\<not> byteIsSpace (CHR ''<'')" "\<not> byteIsSpace (CHR ''>'')"
  "isPunctuation (CHR ''('')" "isPunctuation (CHR '')'')" "isPunctuation (CHR '','')" "isPunctuation (CHR ''='')"
  "\<not> isPunctuation (CHR ''<'')" "\<not> isPunctuation (CHR ''>'')"
  by code_simp+

lemma word_byte_plain: "isWordByte c \<Longrightarrow> \<not> byteIsSpace c \<and> \<not> isPunctuation c \<and> c \<noteq> CHR ''<'' \<and> c \<noteq> CHR ''>''"
  by (auto simp: isWordByte_def isPunctuation_def)

lemma tokenize_word:
  assumes "isWord t" "rest = [] \<or> rest = CHR '' '' # s"
  shows "tokenizeDynamoExpression (t @ rest) = t # tokenizeDynamoExpression rest"
proof -
  from assms(1) obtain c cs where t: "t = c # cs" and w: "isWordByte c" "\<forall>x \<in> set t. isWordByte x"
    by (cases t) (auto simp: isWord_def list_all_iff)
  have "takeWhile isWordByte (t @ rest) = t" "dropWhile isWordByte (t @ rest) = rest"
    using w(2) assms(2) blank_bytes(2) by (auto simp: takeWhile_append2 dropWhile_append2)
  with t word_byte_plain [OF w(1)] show ?thesis by simp
qed

lemma tokenize_token:
  assumes "isToken t" "rest = [] \<or> rest = CHR '' '' # s"
  shows "tokenizeDynamoExpression (t @ rest) = t # tokenizeDynamoExpression rest"
proof (cases "isWord t")
  case True
  with assms(2) show ?thesis by (intro tokenize_word)
next
  case False
  with assms(1) have "t \<in> set [''('', '')'', '','', ''='', ''<>'', ''<'', ''<='', ''>'', ''>='']"
    by (auto simp: isToken_def compareOperators_def)
  with assms(2) show ?thesis by (auto simp: punctuation_bytes split: list.split)
qed

lemma tokenize_join:
  "list_all isToken ts \<Longrightarrow> tokenizeDynamoExpression (joinWith '' '' ts) = ts"
proof (induction ts rule: induct_list012)
  case (2 t)
  then show ?case using tokenize_token [of t "[]"] by simp
next
  case (3 t u ts)
  then show ?case using tokenize_token [of t "CHR '' '' # joinWith '' '' (u # ts)"] by (simp add: blank_bytes)
qed simp

lemma keyword_tokens:
  "isToken ''attribute_exists''" "isToken ''attribute_not_exists''" "isToken ''begins_with''" "isToken ''BETWEEN''" "isToken ''AND''"
  "isToken ''(''" "isToken '')''" "isToken '',''"
  unfolding isToken_def isWord_def by code_simp+

lemma placeholder_tokens:
  "nameOK names n \<Longrightarrow> isToken n" "valueOK values v \<Longrightarrow> isToken v" "operator \<in> set compareOperators \<Longrightarrow> isToken operator"
  by (auto simp: nameOK_def valueOK_def isToken_def)

lemma condition_tokens: "conditionOK names values c \<Longrightarrow> list_all isToken (conditionTokens c)"
  by (induction c) (auto simp: keyword_tokens placeholder_tokens)

section \<open>Parsing the tokens of a condition\<close>

lemma word_not_parenthesis: "isWord n \<Longrightarrow> \<not> equalFold n ''(''"
proof
  assume n: "isWord n" and eq: "equalFold n ''(''"
  then obtain c where c: "n = [c]" "lowerChar c = lowerChar (CHR ''('')"
    by (auto simp: equalFold_def toLower_def map_eq_Cons_conv)
  have "c = CHR ''(''"
  proof -
    have "lowerChar (CHR ''('') = CHR ''(''" by code_simp
    with c(2) have l: "lowerChar c = CHR ''(''" by simp
    show ?thesis
    proof (cases "65 \<le> (of_char c :: nat) \<and> of_char c \<le> (90 :: nat)")
      case True
      with l have "(of_char (char_of (of_char c + 32 :: nat)) :: nat) = of_char (CHR ''('')"
        by (simp add: lowerChar_def Let_def)
      with True show ?thesis by simp
    next
      case False
      with l show ?thesis by (auto simp: lowerChar_def Let_def)
    qed
  qed
  with n c(1) show False by (simp add: isWord_def isWordByte_def)
qed

lemma fold_tokens:
  "equalFold ''attribute_not_exists'' ''attribute_exists'' = False" "equalFold ''attribute_exists'' ''('' = False"
  "equalFold ''attribute_not_exists'' ''('' = False" "equalFold ''begins_with'' ''('' = False"
  "equalFold ''begins_with'' ''attribute_exists'' = False" "equalFold ''begins_with'' ''attribute_not_exists'' = False"
  "toLower ''attribute_exists'' = ''attribute_exists''" "toLower ''attribute_not_exists'' = ''attribute_not_exists''"
  by code_simp+

lemma operator_not_between: "operator \<in> set compareOperators \<Longrightarrow> equalFold operator ''BETWEEN'' = False"
  unfolding compareOperators_def by (auto simp: equalFold_def toLower_def)

lemmas parser_defs = parseSimple_def parseAttributeFunction_def parseBeginsWith_def parseBetween_def parseComparison_def
  pnext_def pmatch_def peekEqual_def Let_def

lemma parse_atom:
  assumes "conditionOK names values c" "\<not> isAnd c"
  shows "parsePredicate R names values (conditionTokens c @ rest) = Inr (evalCondition R names values c, rest)"
proof (cases c)
  case (Compare n operator v)
  with assms show ?thesis
    using word_not_parenthesis [of n]
    by (auto simp: parsePredicate.simps parser_defs nameOK_def valueOK_def operator_not_between comparisonFunction_def fun_eq_iff
        split: option.splits)
qed (use assms word_not_parenthesis in \<open>auto simp: parsePredicate.simps parser_defs nameOK_def valueOK_def fold_tokens
    attributeFunction_def beginsWithFunction_def betweenFunction_def fun_eq_iff split: option.splits\<close>)

lemma parse_condition:
  "conditionOK names values c \<Longrightarrow>
     parseExpression R names values (conditionTokens c @ rest) = parseConjuncts R names values (evalCondition R names values c) rest"
proof (induction c arbitrary: rest)
  case (And c d)
  let ?ts = "if isAnd d then [''(''] @ conditionTokens d @ ['')''] else conditionTokens d"
  have d: "parsePredicate R names values (?ts @ rest) = Inr (evalCondition R names values d, rest)"
  proof (cases "isAnd d")
    case True
    have "parseExpression R names values (conditionTokens d @ '')'' # rest) = Inr (evalCondition R names values d, '')'' # rest)"
      using And.IH(2) [of "'')'' # rest"] And.prems by (simp add: parseConjuncts_end peekEqual_def equalFold_def toLower_def)
    with True show ?thesis by (simp add: parsePredicate.simps peekEqual_def pmatch_def)
  next
    case False
    have "conditionOK names values d" using And.prems by simp
    from parse_atom [OF this False] show ?thesis unfolding if_not_P [OF False] .
  qed
  have "parseExpression R names values (conditionTokens (And c d) @ rest) =
      parseConjuncts R names values (evalCondition R names values c) (''AND'' # ?ts @ rest)"
    using And.IH(1) [of "''AND'' # ?ts @ rest"] And.prems by simp
  also have "\<dots> = parseConjuncts R names values (evalCondition R names values (And c d)) rest"
    unfolding parseConjuncts_and [OF d] evalCondition.simps [symmetric] ..
  finally show ?case .
qed (simp_all only: parse_atom isAnd.simps not_False_eq_True parseExpression.simps sum.case prod.case)

lemma parse_condition_all:
  assumes "conditionOK names values c"
  shows "parseExpression R names values (conditionTokens c) = Inr (evalCondition R names values c, [])"
  using parse_condition [OF assms, of R "[]"] by (simp add: parseConjuncts_end peekEqual_def)

section \<open>The text of a condition is not blank\<close>

lemma isSpace_byteIsSpace: "isSpace c \<Longrightarrow> byteIsSpace c"
  by (simp add: byteIsSpace_def)

lemma tokenize_blank: "list_all isSpace s \<Longrightarrow> tokenizeDynamoExpression s = []"
  by (induction s) (auto simp: isSpace_byteIsSpace)

lemma trimSpace_blank: "trimSpace s = [] \<Longrightarrow> list_all isSpace s"
proof -
  assume "trimSpace s = []"
  then have "dropWhile isSpace (rev (dropWhile isSpace s)) = []" by (simp add: trimSpace_def)
  then have all: "\<forall>x \<in> set (dropWhile isSpace s). isSpace x" by (simp add: dropWhile_eq_Nil_conv)
  have "dropWhile isSpace s = []"
  proof (rule ccontr)
    assume "dropWhile isSpace s \<noteq> []"
    with all hd_dropWhile [of isSpace s] show False by simp
  qed
  then show "list_all isSpace s" by (simp add: dropWhile_eq_Nil_conv list_all_iff)
qed

lemma conditionTokens_not_Nil [simp]: "conditionTokens c \<noteq> []"
  by (cases c) auto

text \<open>
  C30. Compiling a condition expression. Whatever condition a client writes in the grammar of existence tests,
  prefixes, ranges, comparisons and conjunctions, over names and values of its request, the tokenizer and the
  parser accept its text, and the evaluator they build decides exactly that condition, for every item.
\<close>

theorem condition_round_trip:
  assumes "conditionOK names values c"
  shows "compileDynamoCondition R (conditionText c) names values = Inr (Some (evalCondition R names values c))"
proof -
  have tok: "tokenizeDynamoExpression (conditionText c) = conditionTokens c"
    unfolding conditionText_def by (rule tokenize_join [OF condition_tokens [OF assms]])
  have "trimSpace (conditionText c) \<noteq> ''''"
    using tokenize_blank [OF trimSpace_blank, of "conditionText c"] tok by auto
  with tok parse_condition_all [OF assms] show ?thesis by (simp add: compileDynamoCondition_def)
qed

definition sampleCondition :: condition where
  "sampleCondition = And (AttributeExists ''#n'') (And (Compare ''age'' ''>='' '':v'') (BeginsWith ''#n'' '':p''))"

lemma sampleCondition_OK:
  "conditionOK (fmupd ''#n'' ''name'' fmempty) (fmupd '':v'' (av_of_N ''7'') (fmupd '':p'' (av_of_S ''A'') fmempty)) sampleCondition"
  unfolding sampleCondition_def by code_simp

theorem condition_round_trip_witness:
  "compileDynamoCondition (\<lambda>_. Some 1) ''attribute_exists ( #n ) AND ( age >= :v AND begins_with ( #n , :p ) )''
     (fmupd ''#n'' ''name'' fmempty) (fmupd '':v'' (av_of_N ''7'') (fmupd '':p'' (av_of_S ''A'') fmempty)) =
   Inr (Some (evalCondition (\<lambda>_. Some 1) (fmupd ''#n'' ''name'' fmempty)
     (fmupd '':v'' (av_of_N ''7'') (fmupd '':p'' (av_of_S ''A'') fmempty)) sampleCondition))"
proof -
  have "conditionText sampleCondition = ''attribute_exists ( #n ) AND ( age >= :v AND begins_with ( #n , :p ) )''"
    unfolding sampleCondition_def conditionText_def by simp
  with condition_round_trip [OF sampleCondition_OK, of "\<lambda>_. Some 1"] show ?thesis by simp
qed

section \<open>Two defects of the language\<close>

text \<open>
  The order of values of different types. A string is greater than every number: \<open>dynamoCompare\<close> answers 1 when
  the types differ, so the comparisons \<open>>\<close> and \<open>>=\<close> hold where DynamoDB says that values of different types
  do not compare.
\<close>

theorem greater_than_ignores_types:
  "comparisonFunction R name ''>'' (av_of_N n) (fmupd name (av_of_S s) item) exists"
  by (simp add: comparisonFunction_def operatorHolds_def dynamoCompare_def av_of_S_def av_of_N_def dynamoAttributeEqual_def
      marshalled_def MarshalJSON_def)

text \<open>
  The tokenizer reads bytes, not characters: the byte \<open>0xA0\<close>, which occurs inside the UTF-8 form of letters such
  as the one with code point 224, counts as a blank and splits a name in two.
\<close>

theorem tokenizer_splits_letters:
  "tokenizeDynamoExpression (''voil'' @ [CHR 0xC3, CHR 0xA0, CHR ''s'']) = [''voil'' @ [CHR 0xC3], ''s'']"
  by code_simp

end
