(* ===== verification/Snapshots.thy ===== *)
theory Snapshots
  imports Lifecycle_Correct "HOL-Library.Product_Lexorder"
begin

text \<open>
  Snapshots of the data directory (\<^verbatim>\<open>snapshot.go\<close>), the lock of the directory
  (\<^verbatim>\<open>lock.go\<close>) and the opening of a store that uses both (\<open>OpenWithOptions\<close>).

  A \<open>datadir\<close> is a \<open>world\<close> (the fields of \<open>Store\<close>, \<open>state.json\<close> and the
  object directory) with the other entries of the data directory: whether \<open>objects\<close> exists
  at this moment, the directory \<open>snapshots\<close>, the temporary directories of a restore (the stage
  \<^verbatim>\<open>.snapshot-restore-*\<close> and the backup \<^verbatim>\<open>.objects-backup-*\<close>), the restore journal
  and the lock. The state file of a snapshot is its bytes, because a digest of it is taken; a manifest
  and a journal are their decoded content with the size of their text.
\<close>

section \<open>Data\<close>

record SnapshotInfo =
  si_SchemaVersion :: string
  si_Name :: string
  si_CreatedAt :: time
  si_ObjectCount :: int
  si_SizeBytes :: int
  si_ContainsSensitiveData :: bool

record snapshotFile =
  sf_Name :: string
  sf_Size :: int
  sf_SHA256 :: string

record snapshotManifest =
  sm_SchemaVersion :: string
  sm_Name :: string
  sm_CreatedAt :: time
  sm_ContainsSensitiveData :: bool
  sm_State :: snapshotFile
  sm_Objects :: "snapshotFile list"
  sm_SizeBytes :: int

record loadedSnapshot =
  ls_info :: SnapshotInfo
  ls_manifest :: snapshotManifest
  ls_data :: snapshot
  ls_stateRaw :: bytes
  ls_dir :: string

record snapshotRestoreJournal =
  rj_SchemaVersion :: string
  rj_BackupDirectory :: string
  rj_StageDirectory :: string
  rj_TargetStateSHA256 :: string

record dataDirLockOwner =
  lo_PID :: int
  lo_StartedAt :: time

definition snapshotSchemaVersion :: string where
  "snapshotSchemaVersion = ''fcp.snapshot/v1''"

definition snapshotRestoreJournalVersion :: string where
  "snapshotRestoreJournalVersion = ''fcp.snapshot-restore/v1''"

subsection \<open>Directories\<close>

text \<open>An entry of a directory that the code expects to be a directory.\<close>

datatype 'a dirent = Directory 'a | NotDirectory

text \<open>A JSON file: the size of its text, and its content when it decodes.\<close>

datatype 'a jsonfile = NotRegular | JsonFile (jf_size: int) (jf_content: "'a option")

record snapshotDir =
  sd_manifest :: "snapshotManifest jsonfile option"
  sd_state :: "bytes option"
  sd_objects :: "bytes gomap option"

text \<open>A directory a snapshot is materialized into.\<close>

record targetDir =
  td_state :: "bytes option"
  td_objects :: "bytes gomap option"

record datadir =
  dd_world :: world
  dd_hasObjects :: bool
  dd_snapshots :: "snapshotDir dirent gomap option"
  dd_stages :: "targetDir dirent gomap"
  dd_backups :: "bytes gomap dirent gomap"
  dd_journal :: "snapshotRestoreJournal jsonfile option"
  dd_locked :: bool
  dd_owner :: "dataDirLockOwner option"

definition emptySnapshotDir :: snapshotDir where
  "emptySnapshotDir = \<lparr>sd_manifest = None, sd_state = None, sd_objects = None\<rparr>"

definition emptyTarget :: targetDir where
  "emptyTarget = \<lparr>td_state = None, td_objects = None\<rparr>"

abbreviation inWorld :: "(world \<Rightarrow> world) \<Rightarrow> datadir \<Rightarrow> datadir" where
  "inWorld f d \<equiv> d\<lparr>dd_world := f (dd_world d)\<rparr>"

text \<open>The object directory as an entry of the data directory.\<close>

definition objectsEntry :: "datadir \<Rightarrow> bytes gomap dirent option" where
  "objectsEntry d = (if dd_hasObjects d then Some (Directory (w_objects (dd_world d))) else None)"

section \<open>Steps\<close>

text \<open>
  A step on a data directory returns an error or a value, and the directory after it;
  \<open>andThen\<close> is \<open>if err != nil { return err }\<close> between two steps.
\<close>

type_synonym 'a dresult = "(error + 'a) \<times> datadir"

definition andThen :: "'a dresult \<Rightarrow> ('a \<Rightarrow> datadir \<Rightarrow> 'b dresult) \<Rightarrow> 'b dresult" where
  "andThen r f = (case r of (Inl e, d) \<Rightarrow> (Inl e, d) | (Inr x, d) \<Rightarrow> f x d)"

definition sysD :: "env \<Rightarrow> syscall list \<Rightarrow> datadir \<Rightarrow> unit dresult" where
  "sysD E cs d =
     (case runSys E cs (dd_world d) of
        (True, w) \<Rightarrow> (Inr (), d\<lparr>dd_world := w\<rparr>)
      | (False, w) \<Rightarrow> (Inl ErrOS, d\<lparr>dd_world := w\<rparr>))"

definition syncDirectory :: "env \<Rightarrow> datadir \<Rightarrow> unit dresult" where
  "syncDirectory E d = sysD E [OpenDir, SyncDir] d"

text \<open>Running a step on the \<open>world\<close> inside a directory.\<close>

definition onWorld :: "(world \<Rightarrow> 'a \<times> world) \<Rightarrow> datadir \<Rightarrow> 'a \<times> datadir" where
  "onWorld f d = (case f (dd_world d) of (x, w) \<Rightarrow> (x, d\<lparr>dd_world := w\<rparr>))"

definition directoryExists :: "env \<Rightarrow> 'a dirent option \<Rightarrow> datadir \<Rightarrow> bool dresult" where
  "directoryExists E entry d =
     andThen (sysD E [Lstat] d) (\<lambda>_ d.
       case entry of
         None \<Rightarrow> (Inr False, d)
       | Some (Directory _) \<Rightarrow> (Inr True, d)
       | Some NotDirectory \<Rightarrow> (Inl (corrupt ''is not a directory''), d))"

definition requireDirectory :: "env \<Rightarrow> 'a dirent option \<Rightarrow> datadir \<Rightarrow> unit dresult" where
  "requireDirectory E entry d =
     andThen (directoryExists E entry d) (\<lambda>found d.
       if found then (Inr (), d) else (Inl (corrupt ''is missing''), d))"

section \<open>Removing directories\<close>

text \<open>
  \<open>os.RemoveAll\<close> removes the entries one by one and then the directory. A call that fails
  leaves its entry behind, and with it the directory.
\<close>

fun removeEntries :: "env \<Rightarrow> string list \<Rightarrow> bytes gomap \<Rightarrow> world \<Rightarrow> bytes gomap \<times> world" where
  "removeEntries E [] m w = (m, w)"
| "removeEntries E (f # fs) m w =
     (case runSys E [Remove] w of
        (True, w1) \<Rightarrow> removeEntries E fs (fmdrop f m) w1
      | (False, w1) \<Rightarrow> removeEntries E fs m w1)"

text \<open>Removing one file or empty directory, if it is there.\<close>

definition removeEntry :: "env \<Rightarrow> 'a option \<Rightarrow> world \<Rightarrow> 'a option \<times> world" where
  "removeEntry E x w =
     (case x of
        None \<Rightarrow> (None, w)
      | Some v \<Rightarrow> (case runSys E [Remove] w of (True, w1) \<Rightarrow> (None, w1) | (False, w1) \<Rightarrow> (Some v, w1)))"

definition removeObjectTree :: "env \<Rightarrow> bytes gomap option \<Rightarrow> world \<Rightarrow> bytes gomap option \<times> world" where
  "removeObjectTree E x w =
     (case x of
        None \<Rightarrow> (None, w)
      | Some m \<Rightarrow>
         (case removeEntries E (fmkeys m) m w of
            (m1, w1) \<Rightarrow> if fmnull m1 then removeEntry E (Some m1) w1 else (Some m1, w1)))"

definition removeTarget :: "env \<Rightarrow> targetDir \<Rightarrow> world \<Rightarrow> targetDir option \<times> world" where
  "removeTarget E t w =
     (case removeObjectTree E (td_objects t) w of
        (objs, w1) \<Rightarrow>
         (case removeEntry E (td_state t) w1 of
            (st, w2) \<Rightarrow>
             (let t' = t\<lparr>td_objects := objs, td_state := st\<rparr>
              in if objs = None \<and> st = None then removeEntry E (Some t') w2
                 else (Some t', w2))))"

definition removeSnapshotDir :: "env \<Rightarrow> snapshotDir \<Rightarrow> world \<Rightarrow> snapshotDir option \<times> world" where
  "removeSnapshotDir E s w =
     (case removeEntry E (sd_manifest s) w of
        (mf, w1) \<Rightarrow>
         (case removeObjectTree E (sd_objects s) w1 of
            (objs, w2) \<Rightarrow>
             (case removeEntry E (sd_state s) w2 of
                (st, w3) \<Rightarrow>
                 (let s' = \<lparr>sd_manifest = mf, sd_state = st, sd_objects = objs\<rparr>
                  in if mf = None \<and> objs = None \<and> st = None then removeEntry E (Some s') w3
                     else (Some s', w3)))))"

text \<open>Writing back what a removal has left of an entry.\<close>

definition putEntry :: "string \<Rightarrow> 'a option \<Rightarrow> 'a dirent gomap \<Rightarrow> 'a dirent gomap" where
  "putEntry k x m = (case x of None \<Rightarrow> fmdrop k m | Some v \<Rightarrow> fmupd k (Directory v) m)"

definition removalResult :: "'a option \<Rightarrow> error + unit" where
  "removalResult x = (case x of None \<Rightarrow> Inr () | Some _ \<Rightarrow> Inl ErrOS)"

definition removeAllBackup :: "env \<Rightarrow> string \<Rightarrow> datadir \<Rightarrow> unit dresult" where
  "removeAllBackup E name d =
     (case fmlookup (dd_backups d) name of
        Some (Directory m) \<Rightarrow>
         (case removeObjectTree E (Some m) (dd_world d) of
            (x, w) \<Rightarrow> (removalResult x, d\<lparr>dd_world := w, dd_backups := putEntry name x (dd_backups d)\<rparr>))
      | _ \<Rightarrow> (Inr (), d))"

definition removeAllStage :: "env \<Rightarrow> string \<Rightarrow> datadir \<Rightarrow> unit dresult" where
  "removeAllStage E name d =
     (case fmlookup (dd_stages d) name of
        Some (Directory t) \<Rightarrow>
         (case removeTarget E t (dd_world d) of
            (x, w) \<Rightarrow> (removalResult x, d\<lparr>dd_world := w, dd_stages := putEntry name x (dd_stages d)\<rparr>))
      | _ \<Rightarrow> (Inr (), d))"

definition removeAllObjects :: "env \<Rightarrow> datadir \<Rightarrow> unit dresult" where
  "removeAllObjects E d =
     (if \<not> dd_hasObjects d then (Inr (), d)
      else (case removeObjectTree E (Some (w_objects (dd_world d))) (dd_world d) of
              (None, w) \<Rightarrow> (Inr (), d\<lparr>dd_world := w\<lparr>w_objects := fmempty\<rparr>, dd_hasObjects := False\<rparr>)
            | (Some m, w) \<Rightarrow> (Inl ErrOS, d\<lparr>dd_world := w\<lparr>w_objects := m\<rparr>\<rparr>)))"

definition removeDirectoryIfPresent ::
  "env \<Rightarrow> 'a dirent option \<Rightarrow> (datadir \<Rightarrow> unit dresult) \<Rightarrow> datadir \<Rightarrow> unit dresult" where
  "removeDirectoryIfPresent E entry remover d =
     andThen (directoryExists E entry d) (\<lambda>found d.
       if \<not> found then (Inr (), d) else remover d)"

section \<open>Names\<close>

definition isAlnum :: "char \<Rightarrow> bool" where
  "isAlnum c = (let n = (of_char c :: nat)
     in 97 \<le> n \<and> n \<le> 122 \<or> 65 \<le> n \<and> n \<le> 90 \<or> 48 \<le> n \<and> n \<le> 57)"

text \<open>
  \<open>validSnapshotName\<close> ranges over runes; a byte outside ASCII is part of a rune outside the
  accepted ones.
\<close>

definition validSnapshotName :: "string \<Rightarrow> bool" where
  "validSnapshotName name \<longleftrightarrow>
     1 \<le> length name \<and> length name \<le> 64 \<and> isAlnum (hd name) \<and>
     list_all (\<lambda>c. isAlnum c \<or> c \<in> {CHR ''-'', CHR ''_'', CHR ''.''}) (tl name)"

text \<open>
  The name of a temporary directory: \<open>os.MkdirTemp\<close> draws names until one is free, at most
  10000 times.
\<close>

fun freeName :: "env \<Rightarrow> string \<Rightarrow> string list \<Rightarrow> nat \<Rightarrow> nat \<Rightarrow> (string \<times> nat) option" where
  "freeName E pattern taken 0 n = None"
| "freeName E pattern taken (Suc tries) n =
     (let name = pattern @ e_tmp E n
      in if name \<in> set taken then freeName E pattern taken tries (Suc n) else Some (name, Suc n))"

definition mkdirTemp :: "env \<Rightarrow> string \<Rightarrow> string list \<Rightarrow> datadir \<Rightarrow> string dresult" where
  "mkdirTemp E pattern taken d =
     (case freeName E pattern taken 10000 (w_tmps (dd_world d)) of
        None \<Rightarrow> (Inl ErrOS, d)
      | Some (name, n) \<Rightarrow>
         andThen (sysD E [Mkdir] (inWorld (\<lambda>w. w\<lparr>w_tmps := n\<rparr>) d)) (\<lambda>_ d. (Inr name, d)))"

section \<open>Manifests and journals\<close>

text \<open>
  The size of the text \<open>json.MarshalIndent\<close> produces with an indent of two blanks. A string is
  quoted; quotes, backslashes and control characters are escaped, as are the three characters that
  are special in HTML.
\<close>

definition escapedSize :: "char \<Rightarrow> int" where
  "escapedSize c =
     (let n = (of_char c :: nat)
      in if c \<in> {CHR 0x22, CHR 0x5C} \<or> n \<in> {8, 9, 10, 12, 13} then 2
         else if n < 32 \<or> c \<in> {CHR ''<'', CHR ''>'', CHR ''&''} then 6 else 1)"

definition quotedSize :: "string \<Rightarrow> int" where
  "quotedSize s = 2 + sum_list (map escapedSize s)"

text \<open>
  A member on a line of its own: indent, quoted name, colon, blank, value, and the line break before
  it. The values of \<open>fileSize\<close> and \<open>manifestSize\<close> count separators and closing brackets.
\<close>

definition memberSize :: "int \<Rightarrow> string \<Rightarrow> int \<Rightarrow> int" where
  "memberSize indent name size_of_value = 1 + indent + quotedSize name + 2 + size_of_value"

definition decimalSize :: "int \<Rightarrow> int" where
  "decimalSize i = int (length (showInt i))"

definition fileSize :: "int \<Rightarrow> snapshotFile \<Rightarrow> int" where
  "fileSize indent f =
     1 + memberSize (indent + 2) ''name'' (quotedSize (sf_Name f)) + 1 +
     memberSize (indent + 2) ''size'' (decimalSize (sf_Size f)) + 1 +
     memberSize (indent + 2) ''sha256'' (quotedSize (sf_SHA256 f)) + 1 + indent + 1"

definition fileListSize :: "snapshotFile list \<Rightarrow> int" where
  "fileListSize fs =
     (if fs = [] then 2
      else 1 + sum_list (map (\<lambda>f. 1 + 4 + fileSize 4 f) fs) + (int (length fs) - 1) + 1 + 2 + 1)"

definition manifestSize :: "env \<Rightarrow> snapshotManifest \<Rightarrow> int" where
  "manifestSize E m =
     1 + memberSize 2 ''schemaVersion'' (quotedSize (sm_SchemaVersion m)) + 1 +
     memberSize 2 ''name'' (quotedSize (sm_Name m)) + 1 +
     memberSize 2 ''createdAt'' (quotedSize (e_timeText E (sm_CreatedAt m))) + 1 +
     memberSize 2 ''containsSensitiveData'' (if sm_ContainsSensitiveData m then 4 else 5) + 1 +
     memberSize 2 ''state'' (fileSize 2 (sm_State m)) + 1 +
     memberSize 2 ''objects'' (fileListSize (sm_Objects m)) + 1 +
     memberSize 2 ''sizeBytes'' (decimalSize (sm_SizeBytes m)) + 1 + 1 + 1"

definition journalSize :: "snapshotRestoreJournal \<Rightarrow> int" where
  "journalSize j =
     1 + memberSize 2 ''schemaVersion'' (quotedSize (rj_SchemaVersion j)) + 1 +
     memberSize 2 ''backupDirectory'' (quotedSize (rj_BackupDirectory j)) + 1 +
     memberSize 2 ''stageDirectory'' (quotedSize (rj_StageDirectory j)) + 1 +
     memberSize 2 ''targetStateSha256'' (quotedSize (rj_TargetStateSHA256 j)) + 1 + 1 + 1"

definition manifest_info :: "snapshotManifest \<Rightarrow> SnapshotInfo" where
  "manifest_info m = \<lparr>
     si_SchemaVersion = sm_SchemaVersion m, si_Name = sm_Name m, si_CreatedAt = sm_CreatedAt m,
     si_ObjectCount = int (length (sm_Objects m)), si_SizeBytes = sm_SizeBytes m,
     si_ContainsSensitiveData = True\<rparr>"

text \<open>The zero value of \<open>time.Time\<close>: the first instant of the year 1.\<close>

definition zeroTime :: time where
  "zeroTime = - 62135596800000000000"

section \<open>Writing, copying and verifying files\<close>

text \<open>
  \<open>writeSnapshotBytes\<close> creates a file that must not exist yet; the second component is the
  content of the path after it.
\<close>

definition writeSnapshotBytes ::
  "env \<Rightarrow> string \<Rightarrow> bytes \<Rightarrow> bytes option \<Rightarrow> world \<Rightarrow> ((error + snapshotFile) \<times> bytes option) \<times> world" where
  "writeSnapshotBytes E name body old w =
     (case runSys E [Open] w of
        (False, w1) \<Rightarrow> ((Inl ErrOS, old), w1)
      | (True, w1) \<Rightarrow>
         if old \<noteq> None then ((Inl ErrOS, old), w1)
         else (case runSys E [Write] w1 of
                 (False, w2) \<Rightarrow> ((Inl ErrOS, Some []), w2)
               | (True, w2) \<Rightarrow>
                  (case runSys E [Sync, Close] w2 of
                     (False, w3) \<Rightarrow> ((Inl ErrOS, Some body), w3)
                   | (True, w3) \<Rightarrow>
                      ((Inr \<lparr>sf_Name = name, sf_Size = int (length body), sf_SHA256 = hexEncode (e_sha256 E body)\<rparr>,
                        Some body), w3))))"

text \<open>
  \<open>copySnapshotFile\<close> from one object directory to another; the second component is the
  destination directory after it.
\<close>

definition copySnapshotFile ::
  "env \<Rightarrow> bytes gomap \<Rightarrow> bytes gomap \<Rightarrow> string \<Rightarrow> world \<Rightarrow> ((error + snapshotFile) \<times> bytes gomap) \<times> world" where
  "copySnapshotFile E source dest name w =
     (case runSys E [Lstat] w of
        (False, w1) \<Rightarrow> ((Inl ErrOS, dest), w1)
      | (True, w1) \<Rightarrow>
         (case fmlookup source name of
            None \<Rightarrow> ((Inl ErrOS, dest), w1)
          | Some body \<Rightarrow>
             (case runSys E [Open, Open] w1 of
                (False, w2) \<Rightarrow> ((Inl ErrOS, dest), w2)
              | (True, w2) \<Rightarrow>
                 if fmlookup dest name \<noteq> None then ((Inl ErrOS, dest), w2)
                 else (case runSys E [ReadCopy] w2 of
                         (False, w3) \<Rightarrow> ((Inl ErrOS, fmupd name [] dest), w3)
                       | (True, w3) \<Rightarrow>
                          (case runSys E [Sync, Close] w3 of
                             (False, w4) \<Rightarrow> ((Inl ErrOS, fmupd name body dest), w4)
                           | (True, w4) \<Rightarrow>
                              ((Inr \<lparr>sf_Name = name, sf_Size = int (length body),
                                     sf_SHA256 = hexEncode (e_sha256 E body)\<rparr>,
                                fmupd name body dest), w4))))))"

text \<open>The copy loops of \<open>SaveSnapshot\<close> and \<open>materializeLoadedSnapshot\<close>.\<close>

fun copySnapshotFiles ::
  "env \<Rightarrow> bytes gomap \<Rightarrow> bytes gomap \<Rightarrow> string list \<Rightarrow> world
     \<Rightarrow> ((error + snapshotFile list) \<times> bytes gomap) \<times> world" where
  "copySnapshotFiles E source dest [] w = ((Inr [], dest), w)"
| "copySnapshotFiles E source dest (name # names) w =
     (case copySnapshotFile E source dest name w of
        ((Inl e, dest1), w1) \<Rightarrow> ((Inl e, dest1), w1)
      | ((Inr f, dest1), w1) \<Rightarrow>
         (case copySnapshotFiles E source dest1 names w1 of
            ((Inl e, dest2), w2) \<Rightarrow> ((Inl e, dest2), w2)
          | ((Inr fs, dest2), w2) \<Rightarrow> ((Inr (f # fs), dest2), w2)))"

abbreviation snapCorrupt :: "string \<Rightarrow> error" where
  "snapCorrupt msg \<equiv> Wrap ErrSnapshotCorrupt msg"

definition verifySnapshotFile :: "env \<Rightarrow> bytes option \<Rightarrow> snapshotFile \<Rightarrow> int \<Rightarrow> world \<Rightarrow> bytes result" where
  "verifySnapshotFile E content expected limit w =
     (case runSys E [Lstat] w of
        (False, w1) \<Rightarrow> (Inl (snapCorrupt ''is missing''), w1)
      | (True, w1) \<Rightarrow>
         (case content of
            None \<Rightarrow> (Inl (snapCorrupt ''is missing''), w1)
          | Some b \<Rightarrow>
             if int (length b) \<noteq> sf_Size expected \<or> int (length b) > limit then
               (Inl (snapCorrupt ''invalid file metadata''), w1)
             else (case runSys E [Open, ReadCopy] w1 of
                     (False, w2) \<Rightarrow> (Inl ErrOS, w2)
                   | (True, w2) \<Rightarrow>
                      if \<not> equalFold (hexEncode (e_sha256 E b)) (sf_SHA256 expected) then
                        (Inl (snapCorrupt ''checksum mismatch''), w2)
                      else (Inr b, w2))))"

definition readSnapshotFile :: "env \<Rightarrow> bytes option \<Rightarrow> snapshotFile \<Rightarrow> int \<Rightarrow> world \<Rightarrow> bytes result" where
  "readSnapshotFile E content expected limit w =
     (case verifySnapshotFile E content expected limit w of
        (Inl e, w1) \<Rightarrow> (Inl e, w1)
      | (Inr b, w1) \<Rightarrow>
         (case runSys E [ReadFile] w1 of (False, w2) \<Rightarrow> (Inl ErrOS, w2) | (True, w2) \<Rightarrow> (Inr b, w2)))"

text \<open>The files a state refers to, sorted and without repetition.\<close>

definition referencedObjectFiles :: "snapshot \<Rightarrow> error + string list" where
  "referencedObjectFiles d =
     (let names = bucketFiles d @ uploadFiles d @ gcsFiles d
      in if list_all validSnapshotObjectName names then Inr (sort (remdups names))
         else Inl (snapCorrupt ''invalid object filename''))"


section \<open>Saving a snapshot\<close>

text \<open>
  \<open>validateAndCleanupObjectState\<close> fills in missing digests in place; when it fails it leaves
  those of the entries it had passed.
\<close>

fun upgradedSoFar :: "env \<Rightarrow> objRef list \<Rightarrow> objectFileIntegrity gomap \<Rightarrow> snapshot \<Rightarrow> world \<Rightarrow> snapshot" where
  "upgradedSoFar E [] cache d w = d"
| "upgradedSoFar E (r # rs) cache d w =
     (case checkRef E r cache w of
        (Inl e, w1) \<Rightarrow> d
      | (Inr cache', w1) \<Rightarrow>
         upgradedSoFar E rs cache'
           (if or_sha256 r = '''' then
              setSHA256 (or_place r) (case fmlookup cache' (or_file r) of Some fi \<Rightarrow> fi_sha256 fi | None \<Rightarrow> '''') d
            else d) w1)"

text \<open>The strict-mode check at the start of \<open>SaveSnapshot\<close>.\<close>

definition strictCheck :: "env \<Rightarrow> world \<Rightarrow> unit result" where
  "strictCheck E w =
     (if w_integrityMode w \<noteq> IntegrityModeStrict then (Inr (), w)
      else case validateAndCleanupObjectState E (w_data w) w of
        (Inl e, w1) \<Rightarrow>
          (Inl e, w1\<lparr>w_data := upgradedSoFar E (objectRefs (w_data w)) fmempty (w_data w) w\<rparr>)
      | (Inr (data, upgraded), w1) \<Rightarrow>
          if upgraded then
            (case saveLocked E (w1\<lparr>w_data := data\<rparr>) of
               (Some e, w2) \<Rightarrow> (Inl (Wrap e ''persist object integrity metadata''), w2)
             | (None, w2) \<Rightarrow> (Inr (), w2))
          else (Inr (), w1\<lparr>w_data := data\<rparr>))"

text \<open>
  What \<open>SaveSnapshot\<close> writes into its temporary directory: the state, the objects, the manifest
  and the directory syncs. The second component is the directory as it stands when the function
  returns or fails.
\<close>

definition writeManifest ::
  "env \<Rightarrow> snapshotManifest \<Rightarrow> snapshotDir \<Rightarrow> world \<Rightarrow> ((error + snapshotManifest) \<times> snapshotDir) \<times> world" where
  "writeManifest E manifest s w =
     (case runSys E [Open] w of
        (False, w1) \<Rightarrow> ((Inl ErrOS, s), w1)
      | (True, w1) \<Rightarrow>
         (case runSys E [Write] w1 of
            (False, w2) \<Rightarrow> ((Inl ErrOS, s\<lparr>sd_manifest := Some (JsonFile 0 None)\<rparr>), w2)
          | (True, w2) \<Rightarrow>
             (let s' = s\<lparr>sd_manifest := Some (JsonFile (manifestSize E manifest) (Some manifest))\<rparr>
              in case runSys E [Sync, Close, OpenDir, SyncDir, OpenDir, SyncDir] w2 of
                   (False, w3) \<Rightarrow> ((Inl ErrOS, s'), w3)
                 | (True, w3) \<Rightarrow> ((Inr manifest, s'), w3))))"

definition newManifest :: "string \<Rightarrow> time \<Rightarrow> snapshotFile \<Rightarrow> snapshotFile list \<Rightarrow> snapshotManifest" where
  "newManifest name created stateFile objectFiles = \<lparr>
     sm_SchemaVersion = snapshotSchemaVersion, sm_Name = name, sm_CreatedAt = created,
     sm_ContainsSensitiveData = True, sm_State = stateFile, sm_Objects = objectFiles,
     sm_SizeBytes = sf_Size stateFile + sum_list (map sf_Size objectFiles)\<rparr>"

definition fillSnapshotDir ::
  "env \<Rightarrow> string \<Rightarrow> snapshotDir \<Rightarrow> world \<Rightarrow> ((error + snapshotManifest) \<times> snapshotDir) \<times> world" where
  "fillSnapshotDir E name s w =
     (case runSys E [Chmod, Mkdir] w of
        (False, w1) \<Rightarrow> ((Inl ErrOS, s), w1)
      | (True, w1) \<Rightarrow>
         (let s1 = s\<lparr>sd_objects := Some fmempty\<rparr>
          in case encodeSnapshot (w_data w1) of
               None \<Rightarrow> ((Inl (Wrap marshalError ''encode snapshot state''), s1), w1)
             | Some doc \<Rightarrow>
                (case writeSnapshotBytes E ''state.json'' (e_stateText E doc) None w1 of
                   ((Inl e, st), w2) \<Rightarrow> ((Inl e, s1\<lparr>sd_state := st\<rparr>), w2)
                 | ((Inr stateFile, st), w2) \<Rightarrow>
                    (let s2 = s1\<lparr>sd_state := st\<rparr>
                     in case referencedObjectFiles (w_data w2) of
                          Inl e \<Rightarrow> ((Inl e, s2), w2)
                        | Inr objectNames \<Rightarrow>
                           (case copySnapshotFiles E (w_objects w2) fmempty objectNames w2 of
                              ((Inl e, objs), w3) \<Rightarrow>
                                ((Inl (Wrap e ''snapshot object''), s2\<lparr>sd_objects := Some objs\<rparr>), w3)
                            | ((Inr objectFiles, objs), w3) \<Rightarrow>
                                (case now E w3 of
                                   (created, w4) \<Rightarrow>
                                     writeManifest E (newManifest name created stateFile objectFiles)
                                       (s2\<lparr>sd_objects := Some objs\<rparr>) w4))))))"

definition ensureSnapshotRoot :: "env \<Rightarrow> datadir \<Rightarrow> snapshotDir dirent gomap dresult" where
  "ensureSnapshotRoot E d =
     andThen (sysD E [Mkdir] d) (\<lambda>_ d.
       let root = (case dd_snapshots d of None \<Rightarrow> fmempty | Some m \<Rightarrow> m);
           d1 = d\<lparr>dd_snapshots := Some root\<rparr>
       in andThen (sysD E [Chmod] d1) (\<lambda>_ d. (Inr root, d)))"

text \<open>
  The deferred \<open>os.RemoveAll(temporary)\<close>. After the rename there is nothing left under that
  name.
\<close>

definition removeTemporary :: "env \<Rightarrow> string \<Rightarrow> datadir \<Rightarrow> datadir" where
  "removeTemporary E temporary d =
     (case dd_snapshots d of
        None \<Rightarrow> d
      | Some root \<Rightarrow>
         (case fmlookup root temporary of
            Some (Directory s) \<Rightarrow>
              (case removeSnapshotDir E s (dd_world d) of
                 (x, w) \<Rightarrow> d\<lparr>dd_world := w, dd_snapshots := Some (putEntry temporary x root)\<rparr>)
          | _ \<Rightarrow> d))"

definition SaveSnapshot :: "env \<Rightarrow> string \<Rightarrow> datadir \<Rightarrow> SnapshotInfo dresult" where
  "SaveSnapshot E name d0 =
     (if \<not> validSnapshotName name then (Inl ErrSnapshotInvalidName, d0)
      else andThen (onWorld (strictCheck E) d0) (\<lambda>_ d.
        andThen (ensureSnapshotRoot E d) (\<lambda>root d.
        andThen (sysD E [Lstat] d) (\<lambda>_ d.
        if fmlookup root name \<noteq> None then (Inl ErrSnapshotExists, d)
        else andThen (mkdirTemp E ''.snapshot-'' (fmkeys root) d) (\<lambda>temporary d.
          case fillSnapshotDir E name emptySnapshotDir (dd_world d) of
            ((Inl e, s), w) \<Rightarrow>
              (Inl e, removeTemporary E temporary
                 (d\<lparr>dd_world := w, dd_snapshots := Some (fmupd temporary (Directory s) root)\<rparr>))
          | ((Inr manifest, s), w) \<Rightarrow>
              (let d1 = d\<lparr>dd_world := w, dd_snapshots := Some (fmupd temporary (Directory s) root)\<rparr>
               in case sysD E [Rename] d1 of
                    (Inl e, d2) \<Rightarrow> (Inl e, removeTemporary E temporary (snd (sysD E [Lstat] d2)))
                  | (Inr _, d2) \<Rightarrow>
                      (Inr (manifest_info manifest),
                       snd (syncDirectory E (d2\<lparr>dd_snapshots := Some (fmupd name (Directory s) root)\<rparr>)))))))))"


section \<open>Reading a snapshot\<close>

definition readSnapshotManifest :: "env \<Rightarrow> string \<Rightarrow> snapshotDir \<Rightarrow> world \<Rightarrow> snapshotManifest result" where
  "readSnapshotManifest E expectedName s w =
     (case runSys E [ReadFile] w of
        (False, w1) \<Rightarrow> (Inl ErrOS, w1)
      | (True, w1) \<Rightarrow>
         (case sd_manifest s of
            None \<Rightarrow> (Inl (snapCorrupt ''manifest is missing''), w1)
          | Some NotRegular \<Rightarrow> (Inl ErrOS, w1)
          | Some (JsonFile sz content) \<Rightarrow>
             if sz > 1048576 then (Inl (snapCorrupt ''manifest is too large''), w1)
             else (case content of
                     None \<Rightarrow> (Inl (snapCorrupt ''decode manifest''), w1)
                   | Some m \<Rightarrow>
                      if sm_SchemaVersion m \<noteq> snapshotSchemaVersion \<or> sm_Name m \<noteq> expectedName \<or>
                         sf_Name (sm_State m) \<noteq> ''state.json'' \<or> sm_CreatedAt m = zeroTime
                      then (Inl (snapCorrupt ''unsupported manifest''), w1)
                      else (Inr m, w1))))"

text \<open>The loop over the manifest's objects.\<close>

fun checkManifestObjects ::
  "env \<Rightarrow> bytes gomap \<Rightarrow> string list \<Rightarrow> string list \<Rightarrow> snapshotFile list \<Rightarrow> world \<Rightarrow> unit result" where
  "checkManifestObjects E objs expected seen [] w = (Inr (), w)"
| "checkManifestObjects E objs expected seen (f # fs) w =
     (if \<not> validSnapshotObjectName (sf_Name f) then (Inl (snapCorrupt ''invalid object filename''), w)
      else if sf_Name f \<in> set seen then (Inl (snapCorrupt ''duplicate object manifest entry''), w)
      else if sf_Name f \<notin> set expected then (Inl (snapCorrupt ''unexpected object manifest entry''), w)
      else (case verifySnapshotFile E (fmlookup objs (sf_Name f)) f 1099511627776 w of
              (Inl e, w1) \<Rightarrow> (Inl e, w1)
            | (Inr _, w1) \<Rightarrow> checkManifestObjects E objs expected (sf_Name f # seen) fs w1))"

definition readSnapshotDir :: "env \<Rightarrow> string \<Rightarrow> snapshotDir \<Rightarrow> world \<Rightarrow> loadedSnapshot result" where
  "readSnapshotDir E name s w =
     (case readSnapshotManifest E name s w of
        (Inl e, w1) \<Rightarrow> (Inl e, w1)
      | (Inr manifest, w1) \<Rightarrow>
         (case readSnapshotFile E (sd_state s) (sm_State manifest) 67108864 w1 of
            (Inl e, w2) \<Rightarrow> (Inl e, w2)
          | (Inr stateRaw, w2) \<Rightarrow>
             (case e_stateParse E stateRaw of
                None \<Rightarrow> (Inl (snapCorrupt ''decode state''), w2)
              | Some doc \<Rightarrow>
                 if validateSnapshotStructure doc \<noteq> None then (Inl (snapCorrupt ''null entry''), w2)
                 else
                   (let data = normalizeSnapshot doc
                    in case referencedObjectFiles data of
                         Inl e \<Rightarrow> (Inl e, w2)
                       | Inr referenced \<Rightarrow>
                          if length referenced \<noteq> length (sm_Objects manifest) then
                            (Inl (snapCorrupt ''object manifest does not match state''), w2)
                          else
                            (case checkManifestObjects E
                                    (case sd_objects s of None \<Rightarrow> fmempty | Some m \<Rightarrow> m)
                                    referenced [] (sm_Objects manifest) w2 of
                               (Inl e, w3) \<Rightarrow> (Inl e, w3)
                             | (Inr _, w3) \<Rightarrow>
                                if sm_SizeBytes manifest \<noteq>
                                     sf_Size (sm_State manifest) + sum_list (map sf_Size (sm_Objects manifest))
                                then (Inl (snapCorrupt ''snapshot size does not match manifest''), w3)
                                else (Inr \<lparr>ls_info = manifest_info manifest, ls_manifest = manifest,
                                            ls_data = data, ls_stateRaw = stateRaw, ls_dir = name\<rparr>, w3))))))"

text \<open>The entry \<open>snapshots/name\<close> of a data directory.\<close>

definition snapshotEntry :: "string \<Rightarrow> datadir \<Rightarrow> snapshotDir dirent option" where
  "snapshotEntry name d = (case dd_snapshots d of None \<Rightarrow> None | Some root \<Rightarrow> fmlookup root name)"

definition readSnapshot :: "env \<Rightarrow> string \<Rightarrow> datadir \<Rightarrow> loadedSnapshot dresult" where
  "readSnapshot E name d0 =
     (if \<not> validSnapshotName name then (Inl ErrSnapshotInvalidName, d0)
      else andThen (sysD E [Lstat] d0) (\<lambda>_ d.
        case snapshotEntry name d of
          None \<Rightarrow> (Inl ErrSnapshotNotFound, d)
        | Some NotDirectory \<Rightarrow> (Inl (snapCorrupt ''snapshot path is not a directory''), d)
        | Some (Directory s) \<Rightarrow> onWorld (readSnapshotDir E name s) d))"

text \<open>\<open>sort.Slice\<close> by time of creation, then by name; names are unique.\<close>

definition snapshotOrder :: "SnapshotInfo \<Rightarrow> time \<times> string" where
  "snapshotOrder i = (si_CreatedAt i, si_Name i)"

fun readManifests ::
  "env \<Rightarrow> (string \<times> snapshotDir dirent) list \<Rightarrow> world \<Rightarrow> SnapshotInfo list result" where
  "readManifests E [] w = (Inr [], w)"
| "readManifests E ((name, entry) # entries) w =
     (case entry of
        NotDirectory \<Rightarrow> readManifests E entries w
      | Directory s \<Rightarrow>
         if \<not> validSnapshotName name then readManifests E entries w
         else (case readSnapshotManifest E name s w of
                 (Inl e, w1) \<Rightarrow> (Inl e, w1)
               | (Inr m, w1) \<Rightarrow>
                  (case readManifests E entries w1 of
                     (Inl e, w2) \<Rightarrow> (Inl e, w2)
                   | (Inr infos, w2) \<Rightarrow> (Inr (manifest_info m # infos), w2))))"

definition ListSnapshots :: "env \<Rightarrow> datadir \<Rightarrow> SnapshotInfo list dresult" where
  "ListSnapshots E d0 =
     andThen (sysD E [ReadDir] d0) (\<lambda>_ d.
       case dd_snapshots d of
         None \<Rightarrow> (Inr [], d)
       | Some root \<Rightarrow>
          andThen (onWorld (readManifests E (sorted_list_of_fmap root)) d) (\<lambda>infos d.
            (Inr (sort_key snapshotOrder infos), d)))"

definition DeleteSnapshot :: "env \<Rightarrow> string \<Rightarrow> datadir \<Rightarrow> unit dresult" where
  "DeleteSnapshot E name d0 =
     (if \<not> validSnapshotName name then (Inl ErrSnapshotInvalidName, d0)
      else andThen (sysD E [Lstat] d0) (\<lambda>_ d.
        case dd_snapshots d of
          None \<Rightarrow> (Inl ErrSnapshotNotFound, d)
        | Some root \<Rightarrow>
           (case fmlookup root name of
              None \<Rightarrow> (Inl ErrSnapshotNotFound, d)
            | Some NotDirectory \<Rightarrow> (Inl (snapCorrupt ''snapshot path is not a directory''), d)
            | Some (Directory s) \<Rightarrow>
               (case removeSnapshotDir E s (dd_world d) of
                  (x, w) \<Rightarrow>
                    (let d1 = d\<lparr>dd_world := w, dd_snapshots := Some (putEntry name x root)\<rparr>
                     in case removalResult x of
                          Inl e \<Rightarrow> (Inl e, d1)
                        | Inr _ \<Rightarrow> (Inr (), snd (syncDirectory E d1)))))))"

section \<open>Materializing a snapshot\<close>

text \<open>
  \<open>materializeLoadedSnapshot\<close>: the second component is the target directory as it stands when
  the function returns or fails. \<open>source\<close> is the object directory of the snapshot.
\<close>

definition materializeLoadedSnapshot ::
  "env \<Rightarrow> loadedSnapshot \<Rightarrow> bytes gomap \<Rightarrow> targetDir \<Rightarrow> world \<Rightarrow> ((error + unit) \<times> targetDir) \<times> world" where
  "materializeLoadedSnapshot E loaded source t w =
     (case runSys E [Mkdir] w of
        (False, w1) \<Rightarrow> ((Inl ErrOS, t), w1)
      | (True, w1) \<Rightarrow>
         (let objs = (case td_objects t of None \<Rightarrow> fmempty | Some m \<Rightarrow> m);
              t1 = t\<lparr>td_objects := Some objs\<rparr>
          in case runSys E [Chmod] w1 of
               (False, w2) \<Rightarrow> ((Inl ErrOS, t1), w2)
             | (True, w2) \<Rightarrow>
                (case writeSnapshotBytes E ''state.json'' (ls_stateRaw loaded) (td_state t1) w2 of
                   ((Inl e, st), w3) \<Rightarrow> ((Inl e, t1\<lparr>td_state := st\<rparr>), w3)
                 | ((Inr _, st), w3) \<Rightarrow>
                    (case copySnapshotFiles E source objs (map sf_Name (sm_Objects (ls_manifest loaded))) w3 of
                       ((Inl e, objs'), w4) \<Rightarrow> ((Inl e, t1\<lparr>td_state := st, td_objects := Some objs'\<rparr>), w4)
                     | ((Inr _, objs'), w4) \<Rightarrow>
                        (let t2 = t1\<lparr>td_state := st, td_objects := Some objs'\<rparr>
                         in case runSys E [OpenDir, SyncDir, OpenDir, SyncDir] w4 of
                              (False, w5) \<Rightarrow> ((Inl ErrOS, t2), w5)
                            | (True, w5) \<Rightarrow> ((Inr (), t2), w5))))))"

definition snapshotObjects :: "string \<Rightarrow> datadir \<Rightarrow> bytes gomap" where
  "snapshotObjects name d =
     (case snapshotEntry name d of
        Some (Directory s) \<Rightarrow> (case sd_objects s of None \<Rightarrow> fmempty | Some m \<Rightarrow> m)
      | _ \<Rightarrow> fmempty)"

text \<open>
  \<open>ensureEmptySnapshotTarget\<close> on a target directory that does not exist, or exists with the
  entries of \<open>t\<close> and others.
\<close>

definition ensureEmptySnapshotTarget ::
  "env \<Rightarrow> string \<Rightarrow> targetDir option \<Rightarrow> string list \<Rightarrow> datadir \<Rightarrow> unit dresult" where
  "ensureEmptySnapshotTarget E path t others d =
     (if trimSpace path = '''' then (Inl (ErrText ''snapshot target directory is required''), d)
      else andThen (sysD E [Mkdir, Chmod, ReadDir] d) (\<lambda>_ d.
        if others \<noteq> [] \<or> (t \<noteq> None \<and> t \<noteq> Some emptyTarget) then (Inl ErrSnapshotTargetDirty, d)
        else (Inr (), d)))"

text \<open>The second component is the target directory after the call.\<close>

definition MaterializeSnapshot ::
  "env \<Rightarrow> string \<Rightarrow> string \<Rightarrow> targetDir option \<Rightarrow> string list \<Rightarrow> datadir
     \<Rightarrow> ((error + SnapshotInfo) \<times> targetDir option) \<times> datadir" where
  "MaterializeSnapshot E name path t others d0 =
     (case readSnapshot E name d0 of
        (Inl e, d1) \<Rightarrow> ((Inl e, t), d1)
      | (Inr loaded, d1) \<Rightarrow>
         (case ensureEmptySnapshotTarget E path t others d1 of
            (Inl e, d2) \<Rightarrow> ((Inl e, t), d2)
          | (Inr _, d2) \<Rightarrow>
             (case materializeLoadedSnapshot E loaded (snapshotObjects name d2) emptyTarget (dd_world d2) of
                ((r, t'), w) \<Rightarrow>
                  ((case r of Inl e \<Rightarrow> Inl e | Inr _ \<Rightarrow> Inr (ls_info loaded), Some t'),
                   d2\<lparr>dd_world := w\<rparr>))))"


section \<open>Recovering an interrupted restore\<close>

definition validateSnapshotRestoreJournal :: "snapshotRestoreJournal \<Rightarrow> error option" where
  "validateSnapshotRestoreJournal j =
     (let validDirectory = (\<lambda>name pre. CHR ''/'' \<notin> set name \<and> hasPrefix name pre \<and> name \<noteq> pre)
      in if rj_SchemaVersion j \<noteq> snapshotRestoreJournalVersion \<or>
            \<not> validDirectory (rj_BackupDirectory j) ''.objects-backup-'' \<or>
            \<not> validDirectory (rj_StageDirectory j) ''.snapshot-restore-'' \<or>
            (case hexDecode (rj_TargetStateSHA256 j) of None \<Rightarrow> True | Some h \<Rightarrow> length h \<noteq> 32)
         then Some (corrupt ''unsupported snapshot restore journal'') else None)"

text \<open>The digest of the canonical text of the state on disk, or the empty string without a state file.\<close>

definition stateDigest :: "env \<Rightarrow> state_doc \<Rightarrow> string" where
  "stateDigest E doc = hexEncode (e_sha256 E (e_stateText E doc))"

definition persistedStateDigest :: "env \<Rightarrow> state_file \<Rightarrow> datadir \<Rightarrow> string dresult" where
  "persistedStateDigest E file d =
     (case onWorld (readPersistentStateFile E file) d of
        (ReadMissing, d1) \<Rightarrow> (Inr '''', d1)
      | (ReadError e, d1) \<Rightarrow> (Inl e, d1)
      | (ReadRaw (Doc doc), d1) \<Rightarrow>
         if validateSnapshotStructure doc \<noteq> None then (Inl (corrupt ''state during snapshot recovery''), d1)
         else (case encodeSnapshot (normalizeSnapshot doc) of
                 None \<Rightarrow> (Inl marshalError, d1)
               | Some canonical \<Rightarrow> (Inr (stateDigest E canonical), d1))
      | (ReadRaw _, d1) \<Rightarrow> (Inl (corrupt ''decode state during snapshot recovery''), d1))"

text \<open>The three renames of object directories.\<close>

definition renameBackupToObjects :: "env \<Rightarrow> string \<Rightarrow> datadir \<Rightarrow> unit dresult" where
  "renameBackupToObjects E backup d0 =
     andThen (sysD E [Rename] d0) (\<lambda>_ d.
       case (dd_hasObjects d, fmlookup (dd_backups d) backup) of
         (False, Some (Directory m)) \<Rightarrow>
           (Inr (), d\<lparr>dd_world := (dd_world d)\<lparr>w_objects := m\<rparr>, dd_hasObjects := True,
                      dd_backups := fmdrop backup (dd_backups d)\<rparr>)
       | _ \<Rightarrow> (Inl ErrOS, d))"

definition renameObjectsToBackup :: "env \<Rightarrow> string \<Rightarrow> datadir \<Rightarrow> unit dresult" where
  "renameObjectsToBackup E backup d0 =
     andThen (sysD E [Rename] d0) (\<lambda>_ d.
       if dd_hasObjects d then
         (Inr (), d\<lparr>dd_backups := fmupd backup (Directory (w_objects (dd_world d))) (dd_backups d),
                    dd_world := (dd_world d)\<lparr>w_objects := fmempty\<rparr>, dd_hasObjects := False\<rparr>)
       else (Inl ErrOS, d))"

definition renameStagedObjects :: "env \<Rightarrow> string \<Rightarrow> datadir \<Rightarrow> unit dresult" where
  "renameStagedObjects E stage d0 =
     andThen (sysD E [Rename] d0) (\<lambda>_ d.
       case (dd_hasObjects d, fmlookup (dd_stages d) stage) of
         (False, Some (Directory t)) \<Rightarrow>
           (case td_objects t of
              Some m \<Rightarrow>
                (Inr (), d\<lparr>dd_world := (dd_world d)\<lparr>w_objects := m\<rparr>, dd_hasObjects := True,
                           dd_stages := fmupd stage (Directory (t\<lparr>td_objects := None\<rparr>)) (dd_stages d)\<rparr>)
            | None \<Rightarrow> (Inl ErrOS, d))
       | _ \<Rightarrow> (Inl ErrOS, d))"

text \<open>\<open>directoryExists(stage/objects)\<close>; under a stage that is no directory the call fails.\<close>

definition stagedObjectsPresent :: "env \<Rightarrow> string \<Rightarrow> datadir \<Rightarrow> bool dresult" where
  "stagedObjectsPresent E stage d =
     (case fmlookup (dd_stages d) stage of
        None \<Rightarrow> directoryExists E (None :: unit dirent option) d
      | Some (Directory t) \<Rightarrow> directoryExists E (map_option Directory (td_objects t)) d
      | Some NotDirectory \<Rightarrow> (Inl ErrOS, snd (sysD E [Lstat] d)))"

text \<open>The state file is the target: keep or install the new generation of objects.\<close>

definition keepNewObjects :: "env \<Rightarrow> snapshotRestoreJournal \<Rightarrow> datadir \<Rightarrow> unit dresult" where
  "keepNewObjects E j d0 =
     (let backup = rj_BackupDirectory j; stage = rj_StageDirectory j
      in andThen (directoryExists E (objectsEntry d0) d0) (\<lambda>objectsExist d.
         andThen
           (if objectsExist then (Inr (), d)
            else andThen (stagedObjectsPresent E stage d) (\<lambda>stagedObjectsExist d.
                 andThen (directoryExists E (fmlookup (dd_backups d) backup) d) (\<lambda>backupExists d.
                   if stagedObjectsExist then renameStagedObjects E stage d
                   else if backupExists then renameBackupToObjects E backup d
                   else (Inl (corrupt ''restored object directory is missing''), d))))
           (\<lambda>_ d. removeDirectoryIfPresent E (fmlookup (dd_backups d) backup) (removeAllBackup E backup) d)))"

text \<open>The state file is another one: go back to the old generation of objects.\<close>

definition restoreOldObjects :: "env \<Rightarrow> snapshotRestoreJournal \<Rightarrow> datadir \<Rightarrow> unit dresult" where
  "restoreOldObjects E j d0 =
     (let backup = rj_BackupDirectory j
      in andThen (directoryExists E (fmlookup (dd_backups d0) backup) d0) (\<lambda>backupExists d.
         if backupExists then
           andThen (removeDirectoryIfPresent E (objectsEntry d) (removeAllObjects E) d) (\<lambda>_ d.
             renameBackupToObjects E backup d)
         else requireDirectory E (objectsEntry d) d))"

text \<open>The end of a recovery: the stage goes, then the journal.\<close>

definition finishRecovery :: "env \<Rightarrow> snapshotRestoreJournal \<Rightarrow> datadir \<Rightarrow> unit dresult" where
  "finishRecovery E j d0 =
     andThen (removeDirectoryIfPresent E (fmlookup (dd_stages d0) (rj_StageDirectory j))
                (removeAllStage E (rj_StageDirectory j)) d0) (\<lambda>_ d.
     andThen (syncDirectory E d) (\<lambda>_ d.
     andThen (sysD E [Remove] d) (\<lambda>_ d.
     syncDirectory E (d\<lparr>dd_journal := None\<rparr>))))"

definition recoverSnapshotRestore :: "env \<Rightarrow> state_file \<Rightarrow> datadir \<Rightarrow> unit dresult" where
  "recoverSnapshotRestore E file d0 =
     andThen (sysD E [Lstat] d0) (\<lambda>_ d.
       case dd_journal d of
         None \<Rightarrow> (Inr (), d)
       | Some NotRegular \<Rightarrow> (Inl (corrupt ''invalid snapshot restore journal''), d)
       | Some (JsonFile sz content) \<Rightarrow>
          if sz > 16384 then (Inl (corrupt ''invalid snapshot restore journal''), d)
          else andThen (sysD E [ReadFile] d) (\<lambda>_ d.
            case content of
              None \<Rightarrow> (Inl (corrupt ''decode snapshot restore journal''), d)
            | Some j \<Rightarrow>
               (case validateSnapshotRestoreJournal j of
                  Some e \<Rightarrow> (Inl e, d)
                | None \<Rightarrow>
                   andThen (persistedStateDigest E file d) (\<lambda>currentDigest d.
                   andThen (if equalFold currentDigest (rj_TargetStateSHA256 j)
                            then keepNewObjects E j d else restoreOldObjects E j d) (\<lambda>_ d.
                   finishRecovery E j d)))))"


section \<open>Loading a snapshot\<close>

abbreviation recoverNow :: "env \<Rightarrow> datadir \<Rightarrow> unit dresult" where
  "recoverNow E d \<equiv> recoverSnapshotRestore E (diskFile (dd_world d)) d"

text \<open>
  \<open>writeSnapshotRestoreJournal\<close>: a temporary file, synced and renamed. The deferred removal of
  the temporary file is one more call when the rename has not happened; the file has no other reader.
\<close>

definition writeSnapshotRestoreJournal :: "env \<Rightarrow> snapshotRestoreJournal \<Rightarrow> datadir \<Rightarrow> unit dresult" where
  "writeSnapshotRestoreJournal E j d0 =
     andThen (sysD E [Lstat] d0) (\<lambda>_ d.
       if dd_journal d \<noteq> None then (Inl (corrupt ''unfinished snapshot restore journal exists''), d)
       else andThen (sysD E [CreateTemp, Chmod, Write, Sync, Close, OpenDir, SyncDir, Rename] d) (\<lambda>_ d.
         syncDirectory E (d\<lparr>dd_journal := Some (JsonFile (journalSize j) (Some j))\<rparr>)))"

text \<open>A failed step of the restore: recover, and join the errors.\<close>

definition orRecover :: "env \<Rightarrow> unit dresult \<Rightarrow> (datadir \<Rightarrow> 'a dresult) \<Rightarrow> 'a dresult" where
  "orRecover E r f =
     (case r of
        (Inr _, d) \<Rightarrow> f d
      | (Inl e, d) \<Rightarrow>
         (case recoverNow E d of
            (Inl e', d') \<Rightarrow> (Inl (Join e e'), d')
          | (Inr _, d') \<Rightarrow> (Inl e, d')))"

definition saveD :: "env \<Rightarrow> datadir \<Rightarrow> unit dresult" where
  "saveD E d =
     (case saveLocked E (dd_world d) of
        (None, w) \<Rightarrow> (Inr (), d\<lparr>dd_world := w\<rparr>)
      | (Some e, w) \<Rightarrow> (Inl e, d\<lparr>dd_world := w\<rparr>))"

text \<open>From the written journal to the commit.\<close>

definition installSnapshot :: "env \<Rightarrow> loadedSnapshot \<Rightarrow> string \<Rightarrow> string \<Rightarrow> datadir \<Rightarrow> SnapshotInfo dresult" where
  "installSnapshot E loaded stage backup d0 =
     orRecover E (renameObjectsToBackup E backup d0) (\<lambda>d.
     orRecover E (syncDirectory E d) (\<lambda>d.
     orRecover E (renameStagedObjects E stage d) (\<lambda>d.
     orRecover E (syncDirectory E d) (\<lambda>d.
     orRecover E (saveD E (inWorld (\<lambda>w. w\<lparr>w_data := ls_data loaded\<rparr>) d)) (\<lambda>d.
       (Inr (ls_info loaded), snd (recoverNow E d)))))))"

definition newJournal :: "env \<Rightarrow> string \<Rightarrow> string \<Rightarrow> state_doc \<Rightarrow> snapshotRestoreJournal" where
  "newJournal E backup stage target = \<lparr>
     rj_SchemaVersion = snapshotRestoreJournalVersion, rj_BackupDirectory = backup,
     rj_StageDirectory = stage, rj_TargetStateSHA256 = stateDigest E target\<rparr>"

text \<open>\<open>os.MkdirTemp\<close> for the backup, and its removal: only the name is kept.\<close>

definition reserveBackup :: "env \<Rightarrow> datadir \<Rightarrow> string dresult" where
  "reserveBackup E d0 =
     andThen (mkdirTemp E ''.objects-backup-'' (fmkeys (dd_backups d0)) d0) (\<lambda>backup d.
       case sysD E [Remove] d of
         (Inl e, d1) \<Rightarrow> (Inl e, d1\<lparr>dd_backups := fmupd backup (Directory fmempty) (dd_backups d1)\<rparr>)
       | (Inr _, d1) \<Rightarrow> (Inr backup, d1))"

definition restoreFromStage :: "env \<Rightarrow> loadedSnapshot \<Rightarrow> string \<Rightarrow> datadir \<Rightarrow> SnapshotInfo dresult" where
  "restoreFromStage E loaded stage d0 =
     andThen (reserveBackup E d0) (\<lambda>backup d.
       case encodeSnapshot (ls_data loaded) of
         None \<Rightarrow> (Inl marshalError, d)
       | Some target \<Rightarrow>
          (case writeSnapshotRestoreJournal E (newJournal E backup stage target) d of
             (Inl e, d1) \<Rightarrow> (Inl e, snd (recoverNow E d1))
           | (Inr _, d1) \<Rightarrow> installSnapshot E loaded stage backup d1))"

definition fillStage :: "env \<Rightarrow> loadedSnapshot \<Rightarrow> string \<Rightarrow> datadir \<Rightarrow> unit dresult" where
  "fillStage E loaded stage d0 =
     andThen (sysD E [Chmod] (d0\<lparr>dd_stages := fmupd stage (Directory emptyTarget) (dd_stages d0)\<rparr>)) (\<lambda>_ d.
       case materializeLoadedSnapshot E loaded (snapshotObjects (ls_dir loaded) d) emptyTarget (dd_world d) of
         ((r, t), w) \<Rightarrow> (r, d\<lparr>dd_world := w, dd_stages := fmupd stage (Directory t) (dd_stages d)\<rparr>))"

text \<open>\<open>LoadSnapshot\<close>; the removal of the stage is deferred, so it runs on every path.\<close>

definition LoadSnapshot :: "env \<Rightarrow> string \<Rightarrow> datadir \<Rightarrow> SnapshotInfo dresult" where
  "LoadSnapshot E name d0 =
     andThen (recoverNow E d0) (\<lambda>_ d.
     andThen (readSnapshot E name d) (\<lambda>loaded d.
     andThen (mkdirTemp E ''.snapshot-restore-'' (fmkeys (dd_stages d)) d) (\<lambda>stage d.
       case andThen (fillStage E loaded stage d) (\<lambda>_ d. restoreFromStage E loaded stage d) of
         (r, d1) \<Rightarrow> (r, snd (removeAllStage E stage d1)))))"

section \<open>The lock\<close>

definition readDataDirLockOwner :: "env \<Rightarrow> datadir \<Rightarrow> string \<times> datadir" where
  "readDataDirLockOwner E d =
     (case sysD E [Seek, ReadFile] d of
        (Inl _, d1) \<Rightarrow> ('''', d1)
      | (Inr _, d1) \<Rightarrow>
         (case dd_owner d1 of
            None \<Rightarrow> ('''', d1)
          | Some ow \<Rightarrow>
             if lo_PID ow \<le> 0 \<or> lo_StartedAt ow = zeroTime then ('''', d1)
             else (''pid='' @ showInt (lo_PID ow) @ '' started='' @ e_timeText E (lo_StartedAt ow), d1)))"

definition releaseDataDirLock :: "env \<Rightarrow> datadir \<Rightarrow> unit dresult" where
  "releaseDataDirLock E d =
     (case sysD E [Flock] d of
        (r1, d1) \<Rightarrow>
         (case sysD E [Close] d1 of
            (r2, d2) \<Rightarrow>
              ((case (r1, r2) of
                  (Inl a, Inl b) \<Rightarrow> Inl (Join a b) | (Inl a, _) \<Rightarrow> Inl a | (_, r) \<Rightarrow> r),
               d2\<lparr>dd_locked := False\<rparr>)))"

text \<open>
  \<open>acquireDataDirLock\<close>. The advisory lock belongs to the open file: closing it, which happens on
  every error path and when a process ends, gives the lock back.
\<close>

definition acquireDataDirLock :: "env \<Rightarrow> string \<Rightarrow> int \<Rightarrow> datadir \<Rightarrow> unit dresult" where
  "acquireDataDirLock E dir pid d0 =
     (case sysD E [Open] d0 of
        (Inl e, d1) \<Rightarrow> (Inl (Wrap e ''open data directory lock''), d1)
      | (Inr _, d1) \<Rightarrow>
         (case sysD E [Chmod] d1 of
            (Inl e, d2) \<Rightarrow> (Inl (Wrap e ''secure data directory lock''), snd (sysD E [Close] d2))
          | (Inr _, d2) \<Rightarrow>
             (case sysD E [Flock] d2 of
                (Inl e, d3) \<Rightarrow>
                  (Inl (Wrap e ''lock data directory''), snd (sysD E [Close] (snd (readDataDirLockOwner E d3))))
              | (Inr _, d3) \<Rightarrow>
                 if dd_locked d3 then
                   (case readDataDirLockOwner E d3 of
                      (owner, d4) \<Rightarrow>
                        (Inl (Wrap ErrDataDirLocked (if owner \<noteq> '''' then dir @ '' ('' @ owner @ '')'' else dir)),
                         snd (sysD E [Close] d4)))
                 else
                   (case onWorld (now E) (d3\<lparr>dd_locked := True\<rparr>) of
                      (started, d4) \<Rightarrow>
                       (case sysD E [Truncate] d4 of
                          (Inl e, d5) \<Rightarrow> (Inl (Wrap e ''truncate data directory lock''), snd (releaseDataDirLock E d5))
                        | (Inr _, d5) \<Rightarrow>
                           (case sysD E [Seek] (d5\<lparr>dd_owner := None\<rparr>) of
                              (Inl e, d6) \<Rightarrow> (Inl (Wrap e ''seek data directory lock''), snd (releaseDataDirLock E d6))
                            | (Inr _, d6) \<Rightarrow>
                               (case sysD E [Write] d6 of
                                  (Inl e, d7) \<Rightarrow> (Inl (Wrap e ''write data directory lock''), snd (releaseDataDirLock E d7))
                                | (Inr _, d7) \<Rightarrow>
                                   (case sysD E [Sync] (d7\<lparr>dd_owner := Some \<lparr>lo_PID = pid, lo_StartedAt = started\<rparr>\<rparr>) of
                                      (Inl e, d8) \<Rightarrow> (Inl (Wrap e ''sync data directory lock''), snd (releaseDataDirLock E d8))
                                    | (Inr _, d8) \<Rightarrow> (Inr (), d8)))))))))"

section \<open>Opening and closing a store\<close>

text \<open>\<open>os.MkdirAll(objects)\<close>: an empty directory, unless it is there.\<close>

definition makeObjects :: "datadir \<Rightarrow> datadir" where
  "makeObjects d =
     (if dd_hasObjects d then d
      else d\<lparr>dd_hasObjects := True, dd_world := (dd_world d)\<lparr>w_objects := fmempty\<rparr>\<rparr>)"

text \<open>
  \<open>OpenWithOptions\<close> for a process with identifier \<open>pid\<close>. \<open>file\<close> is the content of
  \<open>state.json\<close>. On every error after the lock was taken it is released.
\<close>

definition OpenWithOptions :: "env \<Rightarrow> string \<Rightarrow> string \<Rightarrow> int \<Rightarrow> state_file \<Rightarrow> datadir \<Rightarrow> unit dresult" where
  "OpenWithOptions E dir mode pid file d0 =
     (if dir = '''' then (Inl (ErrText ''data directory is required''), d0)
      else case ParseIntegrityMode mode of
        Inl e \<Rightarrow> (Inl e, d0)
      | Inr m \<Rightarrow>
         andThen (sysD E [Mkdir] d0) (\<lambda>_ d.
         andThen (acquireDataDirLock E dir pid d) (\<lambda>_ d.
           case andThen (recoverSnapshotRestore E file d) (\<lambda>_ d.
                andThen (sysD E [Mkdir] d) (\<lambda>_ d.
                andThen (sysD E [Lstat] (makeObjects d)) (\<lambda>_ d.
                  onWorld (openData E m file) d))) of
             (Inl e, d1) \<Rightarrow> (Inl e, snd (releaseDataDirLock E d1))
           | (Inr _, d1) \<Rightarrow> (Inr (), d1))))"

definition Close_Store :: "env \<Rightarrow> bool \<Rightarrow> datadir \<Rightarrow> unit dresult" where
  "Close_Store E holdsLock d = (if holdsLock then releaseDataDirLock E d else (Inr (), d))"

end
