(* ===== verification/Snapshot_Recovery.thy ===== *)
theory Snapshot_Recovery
  imports Snapshots
begin

text \<open>
  The restore of a snapshot as a protocol: an invariant that says what the data directory holds at
  every point between the journal and its removal, for every schedule of failing system calls. The
  state file decides which generation of objects is the right one.
\<close>

section \<open>Steps that only use supplies of the environment\<close>

definition sysOnly :: "datadir \<Rightarrow> datadir \<Rightarrow> bool" where
  "sysOnly d d' \<longleftrightarrow> (\<exists>n t c. d' = inWorld (\<lambda>w. w\<lparr>w_sys := n, w_tmps := t, w_clock := c\<rparr>) d)"

lemma sysOnly_refl [simp]: "sysOnly d d"
proof -
  have "d = inWorld (\<lambda>w. w\<lparr>w_sys := w_sys w, w_tmps := w_tmps w, w_clock := w_clock w\<rparr>) d" by simp
  then show ?thesis unfolding sysOnly_def by blast
qed

lemma sysOnly_trans: "sysOnly a b \<Longrightarrow> sysOnly b c \<Longrightarrow> sysOnly a c"
  by (clarsimp simp: sysOnly_def) blast

lemma sysOnlyI: "w' = (dd_world d)\<lparr>w_sys := n\<rparr> \<Longrightarrow> sysOnly d (d\<lparr>dd_world := w'\<rparr>)"
proof -
  assume "w' = (dd_world d)\<lparr>w_sys := n\<rparr>"
  then have "d\<lparr>dd_world := w'\<rparr> =
      inWorld (\<lambda>w. w\<lparr>w_sys := n, w_tmps := w_tmps w, w_clock := w_clock w\<rparr>) d" by simp
  then show ?thesis unfolding sysOnly_def by blast
qed

lemma sysOnly_world:
  assumes "sysOnly d d'"
  shows "w_data (dd_world d') = w_data (dd_world d)" "w_state_json (dd_world d') = w_state_json (dd_world d)"
    "w_objects (dd_world d') = w_objects (dd_world d)" "w_committedRaw (dd_world d') = w_committedRaw (dd_world d)"
    "w_ids (dd_world d') = w_ids (dd_world d)" "w_integrityMode (dd_world d') = w_integrityMode (dd_world d)"
    "durable (dd_world d') = durable (dd_world d)" "diskFile (dd_world d') = diskFile (dd_world d)"
    "diskDoc (dd_world d') = diskDoc (dd_world d)"
  using assms by (auto simp: sysOnly_def diskFile_def diskDoc_def)

lemma sysOnly_dirs:
  assumes "sysOnly d d'"
  shows "dd_hasObjects d' = dd_hasObjects d" "dd_snapshots d' = dd_snapshots d" "dd_stages d' = dd_stages d"
    "dd_backups d' = dd_backups d" "dd_journal d' = dd_journal d" "dd_locked d' = dd_locked d"
    "objectsEntry d' = objectsEntry d"
  using assms by (auto simp: sysOnly_def objectsEntry_def)

lemmas sysOnly_same = sysOnly_world sysOnly_dirs

lemma sysD_sysOnly: "sysOnly d (snd (sysD E cs d))"
proof -
  obtain ok w where r: "runSys E cs (dd_world d) = (ok, w)" by fastforce
  from runSys_frame [OF r] obtain n where "w = (dd_world d)\<lparr>w_sys := n\<rparr>" by blast
  from sysOnlyI [OF this] r show ?thesis by (cases ok) (simp_all add: sysD_def)
qed

lemma sysD_D: "sysD E cs d = (r, d') \<Longrightarrow> sysOnly d d'"
  using sysD_sysOnly [of d E cs] by simp

lemma sysD_no_fault: "\<forall>n. \<not> e_fault E n \<Longrightarrow> fst (sysD E cs d) = Inr ()"
  by (simp add: sysD_def runSys_no_fault del: runSys.simps)

lemma andThen_Inr: "andThen m f = (Inr y, d') \<longleftrightarrow> (\<exists>x d. m = (Inr x, d) \<and> f x d = (Inr y, d'))"
  by (cases m) (auto simp: andThen_def split: sum.splits)

lemma andThen_snd:
  "(\<And>e d. m = (Inl e, d) \<Longrightarrow> P d) \<Longrightarrow> (\<And>x d. m = (Inr x, d) \<Longrightarrow> P (snd (f x d))) \<Longrightarrow> P (snd (andThen m f))"
  by (cases m) (auto simp: andThen_def split: sum.splits)

lemma andThen_simps [simp]:
  "andThen (Inl e, d) f = (Inl e, d)" "andThen (Inr x, d) f = f x d"
  by (simp_all add: andThen_def)

lemma andThen_no_fault:
  "fst m = Inr x \<Longrightarrow> andThen m f = f x (snd m)"
  by (cases m) simp

lemma sysD_then_no_fault:
  "\<forall>n. \<not> e_fault E n \<Longrightarrow> andThen (sysD E cs d) f = f () (snd (sysD E cs d))"
  by (rule andThen_no_fault) (rule sysD_no_fault)

lemma directoryExists_sysOnly: "sysOnly d (snd (directoryExists E entry d))"
  unfolding directoryExists_def
  by (rule andThen_snd) (auto dest: sysD_D split: option.splits dirent.splits)

lemma directoryExists_D: "directoryExists E entry d = (r, d') \<Longrightarrow> sysOnly d d'"
  using directoryExists_sysOnly [of d E entry] by simp

lemma directoryExists_Inr:
  "directoryExists E entry d = (Inr b, d') \<Longrightarrow> b = (entry \<noteq> None) \<and> entry \<noteq> Some NotDirectory"
  by (cases entry; cases "the entry") (auto simp: directoryExists_def andThen_Inr)

lemma syncDirectory_D: "syncDirectory E d = (r, d') \<Longrightarrow> sysOnly d d'"
  by (auto simp: syncDirectory_def dest: sysD_D)

lemma requireDirectory_sysOnly: "sysOnly d (snd (requireDirectory E entry d))"
  unfolding requireDirectory_def by (rule andThen_snd) (auto dest: directoryExists_D)

lemma requireDirectory_Inr: "requireDirectory E entry d = (Inr (), d') \<Longrightarrow> entry \<noteq> None"
  by (auto simp: requireDirectory_def andThen_Inr dest!: directoryExists_Inr split: if_splits)

lemma persistedStateDigest_sysOnly: "sysOnly d (snd (persistedStateDigest E file d))"
proof -
  obtain r w where run: "readPersistentStateFile E file (dd_world d) = (r, w)" by fastforce
  have "\<exists>n. w = (dd_world d)\<lparr>w_sys := n\<rparr>"
    using run unfolding readPersistentStateFile_def
    by (auto split: state_file.splits prod.splits bool.splits if_splits dest!: runSys_frame simp del: runSys.simps)
  then have "sysOnly d (d\<lparr>dd_world := w\<rparr>)" using sysOnlyI by blast
  then show ?thesis using run
    by (auto simp: persistedStateDigest_def onWorld_def split: read_state.splits state_file.splits option.splits)
qed


section \<open>Removals\<close>

definition sysAhead :: "world \<Rightarrow> world \<Rightarrow> bool" where
  "sysAhead w w' \<longleftrightarrow> (\<exists>n. w' = w\<lparr>w_sys := n\<rparr>)"

lemma sysAhead_refl [simp]: "sysAhead w w"
proof -
  have "w = w\<lparr>w_sys := w_sys w\<rparr>" by simp
  then show ?thesis unfolding sysAhead_def by blast
qed

lemma sysAhead_trans: "sysAhead a b \<Longrightarrow> sysAhead b c \<Longrightarrow> sysAhead a c"
  by (clarsimp simp: sysAhead_def) blast

lemma runSys_sysAhead: "runSys E cs w = (ok, w') \<Longrightarrow> sysAhead w w'"
  using runSys_frame by (simp add: sysAhead_def)

lemma sysAhead_sysOnly: "sysAhead (dd_world d) w' \<Longrightarrow> sysOnly d (d\<lparr>dd_world := w'\<rparr>)"
  using sysOnlyI by (auto simp: sysAhead_def)

lemma sysAhead_sysOnly_entries:
  "sysAhead (dd_world d) w' \<Longrightarrow> sysOnly (d\<lparr>dd_stages := x\<rparr>) (d\<lparr>dd_world := w', dd_stages := x\<rparr>)"
  "sysAhead (dd_world d) w' \<Longrightarrow> sysOnly (d\<lparr>dd_backups := y\<rparr>) (d\<lparr>dd_world := w', dd_backups := y\<rparr>)"
  using sysAhead_sysOnly [of "d\<lparr>dd_stages := x\<rparr>" w'] sysAhead_sysOnly [of "d\<lparr>dd_backups := y\<rparr>" w']
  by (cases d; simp)+

lemma removeEntries_ahead: "sysAhead w (snd (removeEntries E fs m w))"
proof (induction fs arbitrary: m w)
  case (Cons f fs)
  obtain ok w1 where r: "runSys E [Remove] w = (ok, w1)" by fastforce
  from Cons.IH [of w1 "fmdrop f m"] Cons.IH [of w1 m] r show ?case
    by (cases ok) (auto dest: runSys_sysAhead sysAhead_trans simp del: runSys.simps)
qed simp

lemma removeEntry_ahead: "sysAhead w (snd (removeEntry E x w))"
  by (auto simp: removeEntry_def dest: runSys_sysAhead split: option.split prod.split bool.split simp del: runSys.simps)

lemma removeObjectTree_ahead: "sysAhead w (snd (removeObjectTree E x w))"
proof (cases x)
  case (Some m)
  obtain m1 w1 where r: "removeEntries E (fmkeys m) m w = (m1, w1)" by fastforce
  have "sysAhead w w1" using removeEntries_ahead [of w E "fmkeys m" m] r by simp
  with sysAhead_trans [OF this removeEntry_ahead [of w1 E "Some m1"]] Some r show ?thesis
    by (simp add: removeObjectTree_def)
qed (simp add: removeObjectTree_def)

lemma removeTarget_ahead: "sysAhead w (snd (removeTarget E t w))"
proof -
  obtain objs w1 where r1: "removeObjectTree E (td_objects t) w = (objs, w1)" by fastforce
  obtain st w2 where r2: "removeEntry E (td_state t) w1 = (st, w2)" by fastforce
  have "sysAhead w w1" using removeObjectTree_ahead [of w E "td_objects t"] r1 by simp
  moreover have "sysAhead w1 w2" using removeEntry_ahead [of w1 E "td_state t"] r2 by simp
  ultimately have a: "sysAhead w w2" by (rule sysAhead_trans)
  show ?thesis
    using a sysAhead_trans [OF a removeEntry_ahead [of w2 E "Some t'" for t']]
    by (auto simp: removeTarget_def r1 r2 Let_def)
qed

text \<open>What the three removals leave alone.\<close>

lemma removeAllStage_frame:
  "sysOnly (d\<lparr>dd_stages := dd_stages (snd (removeAllStage E stage d))\<rparr>) (snd (removeAllStage E stage d))"
proof (cases "fmlookup (dd_stages d) stage")
  case (Some e)
  show ?thesis
  proof (cases e)
    case (Directory t)
    obtain x w where r: "removeTarget E t (dd_world d) = (x, w)" by fastforce
    have "sysAhead (dd_world d) w" using removeTarget_ahead [of "dd_world d" E t] r by simp
    from sysAhead_sysOnly_entries(1) [OF this] show ?thesis
      using Some Directory r by (simp add: removeAllStage_def)
  qed (simp add: removeAllStage_def Some)
qed (simp add: removeAllStage_def)

lemma removeAllBackup_frame:
  "sysOnly (d\<lparr>dd_backups := dd_backups (snd (removeAllBackup E backup d))\<rparr>) (snd (removeAllBackup E backup d))"
proof (cases "fmlookup (dd_backups d) backup")
  case (Some e)
  show ?thesis
  proof (cases e)
    case (Directory m)
    obtain x w where r: "removeObjectTree E (Some m) (dd_world d) = (x, w)" by fastforce
    have "sysAhead (dd_world d) w" using removeObjectTree_ahead [of "dd_world d" E "Some m"] r by simp
    from sysAhead_sysOnly_entries(2) [OF this] show ?thesis
      using Some Directory r by (simp add: removeAllBackup_def)
  qed (simp add: removeAllBackup_def Some)
qed (simp add: removeAllBackup_def)

lemma removeAllObjects_frame:
  assumes "removeAllObjects E d = (r, d')"
  shows "dd_backups d' = dd_backups d" "dd_journal d' = dd_journal d" "dd_stages d' = dd_stages d"
    "w_state_json (dd_world d') = w_state_json (dd_world d)" "dd_snapshots d' = dd_snapshots d"
    "w_data (dd_world d') = w_data (dd_world d)" "w_committedRaw (dd_world d') = w_committedRaw (dd_world d)"
    "r = Inr () \<Longrightarrow> \<not> dd_hasObjects d'"
proof -
  have "sysAhead (dd_world d) (snd (removeObjectTree E (Some (w_objects (dd_world d))) (dd_world d)))"
    by (rule removeObjectTree_ahead)
  with assms show "dd_backups d' = dd_backups d" "dd_journal d' = dd_journal d" "dd_stages d' = dd_stages d"
    "w_state_json (dd_world d') = w_state_json (dd_world d)" "dd_snapshots d' = dd_snapshots d"
    "w_data (dd_world d') = w_data (dd_world d)" "w_committedRaw (dd_world d') = w_committedRaw (dd_world d)"
    "r = Inr () \<Longrightarrow> \<not> dd_hasObjects d'"
    by (auto simp: removeAllObjects_def sysAhead_def split: if_splits prod.splits option.splits)
qed


section \<open>What a recovery leaves alone\<close>

text \<open>
  \<open>metaSame\<close>: the live data, the state file, the committed bytes and the snapshots are as before;
  object directories, stages, backups and the journal may differ.
\<close>

definition metaSame :: "datadir \<Rightarrow> datadir \<Rightarrow> bool" where
  "metaSame d d' \<longleftrightarrow>
     w_data (dd_world d') = w_data (dd_world d) \<and> w_committedRaw (dd_world d') = w_committedRaw (dd_world d) \<and>
     w_state_json (dd_world d') = w_state_json (dd_world d) \<and> w_ids (dd_world d') = w_ids (dd_world d) \<and>
     w_integrityMode (dd_world d') = w_integrityMode (dd_world d) \<and> dd_snapshots d' = dd_snapshots d \<and>
     dd_locked d' = dd_locked d"

named_theorems meta_rules \<open>steps that keep \<open>metaSame\<close>\<close>

lemma metaSame_refl [simp]: "metaSame d d"
  by (simp add: metaSame_def)

lemma metaSame_trans: "metaSame a b \<Longrightarrow> metaSame b c \<Longrightarrow> metaSame a c"
  by (simp add: metaSame_def)

lemma metaSame_durable: "metaSame d d' \<Longrightarrow> durable (dd_world d') = durable (dd_world d)"
  by (simp add: metaSame_def durable_def diskState_def diskDoc_def)

lemma sysOnly_metaSame: "sysOnly d d' \<Longrightarrow> metaSame d d'"
  by (simp add: metaSame_def sysOnly_same)

lemma andThen_meta [meta_rules]:
  "metaSame d (snd m) \<Longrightarrow> (\<And>x d1. metaSame d d1 \<Longrightarrow> metaSame d (snd (f x d1))) \<Longrightarrow> metaSame d (snd (andThen m f))"
  by (rule andThen_snd) auto

lemma metaSame_sysOnly: "metaSame d d1 \<Longrightarrow> sysOnly d1 d2 \<Longrightarrow> metaSame d d2"
  using sysOnly_metaSame metaSame_trans by blast

lemma meta_steps [meta_rules]:
  assumes "metaSame d d1"
  shows "metaSame d (snd (sysD E cs d1))" "metaSame d (snd (syncDirectory E d1))"
    "metaSame d (snd (directoryExists E entry d1))" "metaSame d (snd (requireDirectory E entry d1))"
    "metaSame d (snd (persistedStateDigest E file d1))"
  unfolding syncDirectory_def
  by (rule metaSame_sysOnly [OF assms],
      rule sysD_sysOnly directoryExists_sysOnly requireDirectory_sysOnly persistedStateDigest_sysOnly)+

lemma meta_frames [meta_rules]:
  assumes "metaSame d d1"
  shows "metaSame d (snd (removeAllStage E stage d1))" "metaSame d (snd (removeAllBackup E backup d1))"
    "metaSame d (snd (removeAllObjects E d1))"
proof -
  show "metaSame d (snd (removeAllStage E stage d1))"
    using sysOnly_metaSame [OF removeAllStage_frame [where d = d1]] assms by (simp add: metaSame_def)
  show "metaSame d (snd (removeAllBackup E backup d1))"
    using sysOnly_metaSame [OF removeAllBackup_frame [where d = d1]] assms by (simp add: metaSame_def)
  have "sysAhead (dd_world d1) (snd (removeObjectTree E (Some (w_objects (dd_world d1))) (dd_world d1)))"
    by (rule removeObjectTree_ahead)
  with assms show "metaSame d (snd (removeAllObjects E d1))"
    by (auto simp: removeAllObjects_def metaSame_def sysAhead_def split: prod.splits option.splits)
qed

lemma meta_removeDirectoryIfPresent [meta_rules]:
  assumes "metaSame d d1" and "\<And>d2. metaSame d d2 \<Longrightarrow> metaSame d (snd (remover d2))"
  shows "metaSame d (snd (removeDirectoryIfPresent E entry remover d1))"
  unfolding removeDirectoryIfPresent_def using assms by (intro meta_rules) auto

lemma meta_renames [meta_rules]:
  assumes "metaSame d d1"
  shows "metaSame d (snd (renameBackupToObjects E backup d1))" "metaSame d (snd (renameObjectsToBackup E backup d1))"
    "metaSame d (snd (renameStagedObjects E stage d1))" "metaSame d (snd (stagedObjectsPresent E stage d1))"
proof -
  show "metaSame d (snd (renameBackupToObjects E backup d1))" unfolding renameBackupToObjects_def
    by (intro meta_rules assms) (auto simp: metaSame_def split: option.split dirent.split bool.split)
  show "metaSame d (snd (renameObjectsToBackup E backup d1))" unfolding renameObjectsToBackup_def
    by (intro meta_rules assms) (auto simp: metaSame_def)
  show "metaSame d (snd (renameStagedObjects E stage d1))" unfolding renameStagedObjects_def
    by (intro meta_rules assms) (auto simp: metaSame_def split: option.split dirent.split bool.split)
  show "metaSame d (snd (stagedObjectsPresent E stage d1))" unfolding stagedObjectsPresent_def
    using assms by (auto intro!: meta_steps split: option.split dirent.split)
qed

lemma meta_branches [meta_rules]:
  assumes "metaSame d d1"
  shows "metaSame d (snd (keepNewObjects E j d1))" "metaSame d (snd (restoreOldObjects E j d1))"
proof -
  show "metaSame d (snd (keepNewObjects E j d1))" unfolding keepNewObjects_def Let_def
    using assms by (auto intro!: meta_rules)
  show "metaSame d (snd (restoreOldObjects E j d1))" unfolding restoreOldObjects_def Let_def
    using assms by (auto intro!: meta_rules)
qed

lemma finishRecovery_meta [meta_rules]:
  assumes "metaSame d d1"
  shows "metaSame d (snd (finishRecovery E j d1))"
proof -
  have "metaSame d (d3\<lparr>dd_journal := None\<rparr>)" if "metaSame d d3" for d3
    using that by (simp add: metaSame_def)
  with assms show ?thesis unfolding finishRecovery_def by (auto intro!: meta_rules)
qed

lemma recover_meta [meta_rules]:
  assumes "metaSame d d1"
  shows "metaSame d (snd (recoverSnapshotRestore E file d1))"
  unfolding recoverSnapshotRestore_def using assms
  by (auto split: option.split jsonfile.split intro!: meta_rules)

section \<open>The invariant of a restore\<close>

text \<open>\<open>generation s objs d\<close>: the state file \<open>s\<close> with its objects \<open>objs\<close> in place.\<close>

definition generation :: "state_doc option \<Rightarrow> bytes gomap \<Rightarrow> datadir \<Rightarrow> bool" where
  "generation s objs d \<longleftrightarrow>
     dd_hasObjects d \<and> w_state_json (dd_world d) = s \<and> w_objects (dd_world d) = objs"

text \<open>Before the commit: the old objects are in the backup, or nothing has been moved yet.\<close>

definition pending :: "snapshotRestoreJournal \<Rightarrow> state_doc option \<Rightarrow> bytes gomap \<Rightarrow> datadir \<Rightarrow> bool" where
  "pending j old oldObjs d \<longleftrightarrow>
     w_state_json (dd_world d) = old \<and>
     (case fmlookup (dd_backups d) (rj_BackupDirectory j) of
        None \<Rightarrow> dd_hasObjects d \<and> w_objects (dd_world d) = oldObjs
      | Some b \<Rightarrow> b = Directory oldObjs)"

abbreviation journalFile :: "snapshotRestoreJournal \<Rightarrow> snapshotRestoreJournal jsonfile" where
  "journalFile j \<equiv> JsonFile (journalSize j) (Some j)"

definition restoring ::
  "snapshotRestoreJournal \<Rightarrow> state_doc \<Rightarrow> bytes gomap \<Rightarrow> state_doc option \<Rightarrow> bytes gomap \<Rightarrow> datadir \<Rightarrow> bool" where
  "restoring j target newObjs old oldObjs d \<longleftrightarrow>
     (case dd_journal d of
        None \<Rightarrow> generation old oldObjs d \<or> generation (Some target) newObjs d
      | Some f \<Rightarrow> f = journalFile j \<and> (generation (Some target) newObjs d \<or> pending j old oldObjs d))"

text \<open>The digest that \<open>persistedStateDigest\<close> computes from a state file.\<close>

definition canonicalDigest :: "env \<Rightarrow> state_doc option \<Rightarrow> string option" where
  "canonicalDigest E s =
     (case s of
        None \<Rightarrow> Some ''''
      | Some doc \<Rightarrow>
         if validateSnapshotStructure doc \<noteq> None then None
         else map_option (stateDigest E) (encodeSnapshot (normalizeSnapshot doc)))"

lemma persistedStateDigest_Inr:
  "persistedStateDigest E (diskFile w) d = (Inr x, d') \<Longrightarrow> canonicalDigest E (w_state_json w) = Some x"
  by (auto simp: persistedStateDigest_def canonicalDigest_def diskFile_def onWorld_def readPersistentStateFile_def
      split: option.splits prod.splits read_state.splits state_file.splits if_splits bool.splits simp del: runSys.simps)

text \<open>The digest in the journal tells the target from the old state.\<close>

definition decides :: "env \<Rightarrow> snapshotRestoreJournal \<Rightarrow> state_doc \<Rightarrow> state_doc option \<Rightarrow> bool" where
  "decides E j target old \<longleftrightarrow>
     (\<forall>x. canonicalDigest E (Some target) = Some x \<longrightarrow> equalFold x (rj_TargetStateSHA256 j)) \<and>
     (\<forall>x. canonicalDigest E old = Some x \<longrightarrow> \<not> equalFold x (rj_TargetStateSHA256 j))"

lemma generation_sysOnly: "sysOnly d d' \<Longrightarrow> generation s objs d' = generation s objs d"
  by (simp add: generation_def sysOnly_same)

lemma pending_sysOnly: "sysOnly d d' \<Longrightarrow> pending j old oldObjs d' = pending j old oldObjs d"
  by (simp add: pending_def sysOnly_same split: option.split)

lemma restoring_sysOnly: "sysOnly d d' \<Longrightarrow> restoring j t n old oldObjs d' = restoring j t n old oldObjs d"
  by (simp add: restoring_def sysOnly_same generation_sysOnly pending_sysOnly split: option.split)

lemma generation_frames [simp]:
  "generation s objs (d\<lparr>dd_stages := x\<rparr>) = generation s objs d"
  "generation s objs (d\<lparr>dd_backups := y\<rparr>) = generation s objs d"
  "generation s objs (d\<lparr>dd_journal := k\<rparr>) = generation s objs d"
  "pending j old oldObjs (d\<lparr>dd_stages := x\<rparr>) = pending j old oldObjs d"
  "pending j old oldObjs (d\<lparr>dd_journal := k\<rparr>) = pending j old oldObjs d"
  "restoring j t n old oldObjs (d\<lparr>dd_stages := x\<rparr>) = restoring j t n old oldObjs d"
  by (simp_all add: generation_def pending_def restoring_def split: option.split)

lemma removeAllStage_keeps:
  "restoring j t n old oldObjs (snd (removeAllStage E stage d)) = restoring j t n old oldObjs d"
  "generation s objs (snd (removeAllStage E stage d)) = generation s objs d"
  "pending j old oldObjs (snd (removeAllStage E stage d)) = pending j old oldObjs d"
  "dd_journal (snd (removeAllStage E stage d)) = dd_journal d"
  using restoring_sysOnly [OF removeAllStage_frame [where d = d]] generation_sysOnly [OF removeAllStage_frame [where d = d]]
    pending_sysOnly [OF removeAllStage_frame [where d = d]] sysOnly_dirs(5) [OF removeAllStage_frame [where d = d]]
  by simp_all

lemma removeAllBackup_keeps:
  "generation s objs (snd (removeAllBackup E backup d)) = generation s objs d"
  "dd_journal (snd (removeAllBackup E backup d)) = dd_journal d"
  using generation_sysOnly [OF removeAllBackup_frame [where d = d]] sysOnly_dirs(5) [OF removeAllBackup_frame [where d = d]]
  by simp_all

text \<open>The branch for a committed restore keeps the new generation.\<close>

lemma keepNewObjects_generation:
  assumes g: "generation s objs d" and run: "keepNewObjects E j d = (r, d')"
  shows "generation s objs d'" "dd_journal d' = dd_journal d"
proof -
  have entry: "objectsEntry d \<noteq> None" using g by (simp add: objectsEntry_def generation_def)
  obtain q d1 where q: "directoryExists E (objectsEntry d) d = (q, d1)" by fastforce
  note s1 = directoryExists_D [OF q]
  have "generation s objs d' \<and> dd_journal d' = dd_journal d"
  proof (cases q)
    case (Inl e)
    with q run s1 g show ?thesis by (simp add: keepNewObjects_def Let_def generation_sysOnly sysOnly_same)
  next
    case (Inr b)
    with directoryExists_Inr q entry have "b" by fastforce
    let ?e = "fmlookup (dd_backups d1) (rj_BackupDirectory j)"
    obtain q2 d2 where q2: "directoryExists E ?e d1 = (q2, d2)" by fastforce
    note s2 = directoryExists_D [OF q2]
    from run q Inr \<open>b\<close> q2 have "d' = d2 \<or> d' = snd (removeAllBackup E (rj_BackupDirectory j) d2)"
      by (cases q2) (auto simp: keepNewObjects_def Let_def removeDirectoryIfPresent_def split: if_splits)
    with removeAllBackup_keeps [where d = d2] s1 s2 g
    show ?thesis by (auto simp: generation_sysOnly sysOnly_same)
  qed
  then show "generation s objs d'" "dd_journal d' = dd_journal d" by blast+
qed

text \<open>The branch for a restore that was not committed brings the old generation back.\<close>

lemma renameBackupToObjects_cases:
  assumes "renameBackupToObjects E backup d = (r, d')"
  shows "dd_journal d' = dd_journal d" and "r = Inr () \<or> sysOnly d d'"
    and "r = Inr () \<Longrightarrow> fmlookup (dd_backups d) backup = Some (Directory m) \<Longrightarrow>
      dd_hasObjects d' \<and> w_objects (dd_world d') = m \<and> dd_backups d' = fmdrop backup (dd_backups d) \<and>
      w_state_json (dd_world d') = w_state_json (dd_world d)"
proof -
  obtain q d1 where q: "sysD E [Rename] d = (q, d1)" by fastforce
  note s = sysOnly_same [OF sysD_D [OF q]]
  show "dd_journal d' = dd_journal d" "r = Inr () \<or> sysOnly d d'"
    "r = Inr () \<Longrightarrow> fmlookup (dd_backups d) backup = Some (Directory m) \<Longrightarrow>
      dd_hasObjects d' \<and> w_objects (dd_world d') = m \<and> dd_backups d' = fmdrop backup (dd_backups d) \<and>
      w_state_json (dd_world d') = w_state_json (dd_world d)"
    using assms q s sysD_D [OF q]
    by (cases q; auto simp: renameBackupToObjects_def split: option.splits dirent.splits bool.splits)+
qed

lemma restoreOldObjects_pending:
  assumes p: "pending j old oldObjs d" and run: "restoreOldObjects E j d = (r, d')"
  shows "pending j old oldObjs d'" "dd_journal d' = dd_journal d" "r = Inr () \<Longrightarrow> generation old oldObjs d'"
proof -
  let ?b = "rj_BackupDirectory j"
  obtain q d1 where q: "directoryExists E (fmlookup (dd_backups d) ?b) d = (q, d1)" by fastforce
  note s1 = directoryExists_D [OF q]
  have p1: "pending j old oldObjs d1" using p by (simp add: pending_sysOnly [OF s1])
  have "pending j old oldObjs d' \<and> dd_journal d' = dd_journal d \<and> (r = Inr () \<longrightarrow> generation old oldObjs d')"
  proof (cases q)
    case (Inl e)
    with run q p1 s1 show ?thesis by (auto simp: restoreOldObjects_def Let_def sysOnly_same)
  next
    case (Inr found)
    show ?thesis
    proof (cases found)
      case False
      with directoryExists_Inr q Inr have none: "fmlookup (dd_backups d) ?b = None" by fastforce
      from run q Inr False have "requireDirectory E (objectsEntry d1) d1 = (r, d')"
        by (simp add: restoreOldObjects_def Let_def)
      with requireDirectory_sysOnly [of d1 E "objectsEntry d1"] have "sysOnly d1 d'" by simp
      then have s: "sysOnly d d'" using s1 sysOnly_trans by blast
      from p none have "generation old oldObjs d" by (simp add: pending_def generation_def)
      with p s show ?thesis by (simp add: generation_sysOnly [OF s] pending_sysOnly [OF s] sysOnly_same)
    next
      case True
      with directoryExists_Inr q Inr p s1 have b: "fmlookup (dd_backups d1) ?b = Some (Directory oldObjs)"
        by (fastforce simp: pending_def sysOnly_same split: option.splits)
      obtain q2 d2 where q2: "removeDirectoryIfPresent E (objectsEntry d1) (removeAllObjects E) d1 = (q2, d2)"
        by fastforce
      obtain q3 d3 where q3: "directoryExists E (objectsEntry d1) d1 = (q3, d3)" by fastforce
      note s3 = directoryExists_D [OF q3]
      have "d2 = d3 \<or> removeAllObjects E d3 = (q2, d2)"
        using q2 q3 by (cases q3) (auto simp: removeDirectoryIfPresent_def split: if_splits)
      then have d2: "dd_backups d2 = dd_backups d1" "dd_journal d2 = dd_journal d1"
        "w_state_json (dd_world d2) = w_state_json (dd_world d1)"
        using s3 removeAllObjects_frame(1,2,4) [of E d3 q2 d2] by (auto simp: sysOnly_same)
      then have p2: "pending j old oldObjs d2" using p1 b by (simp add: pending_def)
      show ?thesis
      proof (cases q2)
        case (Inl e)
        with run q Inr True q2 have "d' = d2" "r = Inl e" by (auto simp: restoreOldObjects_def Let_def)
        with p2 d2 s1 show ?thesis by (simp add: sysOnly_same)
      next
        case (Inr u)
        with run q \<open>q = Inr found\<close> True q2 have ren: "renameBackupToObjects E ?b d2 = (r, d')"
          by (simp add: restoreOldObjects_def Let_def)
        note c = renameBackupToObjects_cases [OF ren]
        show ?thesis
        proof (cases "r = Inr ()")
          case True
          from c(3) [OF True, of oldObjs] b d2 have "dd_hasObjects d'" "w_objects (dd_world d') = oldObjs"
            "dd_backups d' = fmdrop ?b (dd_backups d2)" "w_state_json (dd_world d') = w_state_json (dd_world d2)" by auto
          with p2 c(1) d2 s1 show ?thesis by (simp add: pending_def generation_def sysOnly_same)
        next
          case False
          with c(2) have "sysOnly d2 d'" by blast
          with p2 d2 s1 False show ?thesis by (simp add: pending_sysOnly sysOnly_same)
        qed
      qed
    qed
  qed
  then show "pending j old oldObjs d'" "dd_journal d' = dd_journal d" "r = Inr () \<Longrightarrow> generation old oldObjs d'"
    by blast+
qed


lemma finishRecovery_keeps:
  assumes "finishRecovery E j d = (r, d')"
  shows "generation s objs d' = generation s objs d" "pending j' old oldObjs d' = pending j' old oldObjs d"
    "dd_journal d' = None \<or> dd_journal d' = dd_journal d" "r = Inr () \<Longrightarrow> dd_journal d' = None"
proof -
  let ?st = "rj_StageDirectory j"
  obtain q1 d1 where q1: "directoryExists E (fmlookup (dd_stages d) ?st) d = (q1, d1)" by fastforce
  obtain q2 d2 where q2: "removeDirectoryIfPresent E (fmlookup (dd_stages d) ?st) (removeAllStage E ?st) d = (q2, d2)"
    by fastforce
  obtain q3 d3 where q3: "syncDirectory E d2 = (q3, d3)" by fastforce
  obtain q4 d4 where q4: "sysD E [Remove] d3 = (q4, d4)" by fastforce
  obtain q5 d5 where q5: "syncDirectory E (d4\<lparr>dd_journal := None\<rparr>) = (q5, d5)" by fastforce
  have "d2 = d1 \<or> d2 = snd (removeAllStage E ?st d1)"
    using q1 q2 by (cases q1) (auto simp: removeDirectoryIfPresent_def split: if_splits)
  then have k2: "generation s objs d2 = generation s objs d" "pending j' old oldObjs d2 = pending j' old oldObjs d"
    "dd_journal d2 = dd_journal d"
    using directoryExists_D [OF q1]
    by (auto simp: removeAllStage_keeps generation_sysOnly pending_sysOnly sysOnly_same)
  have s4: "sysOnly d2 d4" using syncDirectory_D [OF q3] sysD_D [OF q4] by (rule sysOnly_trans)
  note s3 = syncDirectory_D [OF q3] and s5 = syncDirectory_D [OF q5]
  have "d' = d2 \<and> r \<noteq> Inr () \<or> d' = d3 \<and> r \<noteq> Inr () \<or> d' = d4 \<and> r \<noteq> Inr () \<or> d' = d5"
    using assms q2 q3 q4 q5 by (cases q2; cases q3; cases q4) (auto simp: finishRecovery_def)
  then show "generation s objs d' = generation s objs d" "pending j' old oldObjs d' = pending j' old oldObjs d"
    "dd_journal d' = None \<or> dd_journal d' = dd_journal d" "r = Inr () \<Longrightarrow> dd_journal d' = None"
    using k2 s3 s4 s5 by (auto simp: generation_sysOnly pending_sysOnly sysOnly_same)
qed

text \<open>
  A recovery, whichever calls fail, keeps the invariant; one that succeeds removes the journal, and
  what the directory then holds is one of the two generations.
\<close>

lemma recover_restoring:
  assumes inv: "restoring j target newObjs old oldObjs d" and dec: "decides E j target old"
    and run: "recoverNow E d = (r, d')"
  shows "restoring j target newObjs old oldObjs d'" "r = Inr () \<Longrightarrow> dd_journal d' = None"
proof -
  let ?f = "diskFile (dd_world d)"
  obtain q1 d1 where q1: "sysD E [Lstat] d = (q1, d1)" by fastforce
  obtain q2 d2 where q2: "sysD E [ReadFile] d1 = (q2, d2)" by fastforce
  obtain q3 d3 where q3: "persistedStateDigest E ?f d2 = (q3, d3)" by fastforce
  note s1 = sysD_D [OF q1]
  have s2: "sysOnly d d2" using s1 sysD_D [OF q2] by (rule sysOnly_trans)
  have "sysOnly d2 d3" using persistedStateDigest_sysOnly [of d2 E ?f] q3 by simp
  then have s3: "sysOnly d d3" using s2 sysOnly_trans by blast
  have stop: "restoring j target newObjs old oldObjs d'" if "d' = d1 \<or> d' = d2 \<or> d' = d3"
    using that inv by (auto simp: restoring_sysOnly [OF s1] restoring_sysOnly [OF s2] restoring_sysOnly [OF s3])
  have "restoring j target newObjs old oldObjs d' \<and> (r = Inr () \<longrightarrow> dd_journal d' = None)"
  proof (cases "dd_journal d")
    case None
    then have "d' = d1" using run q1 by (cases q1) (auto simp: recoverSnapshotRestore_def sysOnly_same [OF s1])
    with stop None show ?thesis by (simp add: sysOnly_same [OF s1])
  next
    case (Some jf)
    with inv have jf: "jf = journalFile j" and
      gp: "generation (Some target) newObjs d \<or> pending j old oldObjs d" by (auto simp: restoring_def)
    have j1: "dd_journal d1 = Some (journalFile j)" using Some jf by (simp add: sysOnly_same [OF s1])
    show ?thesis
    proof (cases "\<exists>x. q1 = Inr () \<and> journalSize j \<le> 16384 \<and> q2 = Inr () \<and>
        validateSnapshotRestoreJournal j = None \<and> q3 = Inr x")
      case False
      then have "(d' = d1 \<or> d' = d2 \<or> d' = d3) \<and> r \<noteq> Inr ()"
        using run q1 q2 q3 j1
        by (cases q1; cases q2; cases q3) (auto simp: recoverSnapshotRestore_def split: option.splits if_splits)
      with stop show ?thesis by blast
    next
      case True
      then obtain x where q: "q1 = Inr ()" "journalSize j \<le> 16384" "q2 = Inr ()"
        "validateSnapshotRestoreJournal j = None" "q3 = Inr x" by blast
      have dg: "canonicalDigest E (w_state_json (dd_world d)) = Some x"
        using persistedStateDigest_Inr [of E "dd_world d" d2 x d3] q3 q(5) by simp
      let ?branch = "if equalFold x (rj_TargetStateSHA256 j) then keepNewObjects E j d3 else restoreOldObjects E j d3"
      obtain q4 d4 where q4: "?branch = (q4, d4)" by fastforce
      have tail: "(r, d') = (case q4 of Inl e \<Rightarrow> (Inl e, d4) | Inr _ \<Rightarrow> finishRecovery E j d4)"
        using run q1 q2 q3 q4 q j1 by (cases q4) (auto simp: recoverSnapshotRestore_def split: if_splits)
      have j3: "dd_journal d3 = Some (journalFile j)" using Some jf by (simp add: sysOnly_same [OF s3])
      have b: "dd_journal d4 = Some (journalFile j) \<and> (generation (Some target) newObjs d4 \<or>
          pending j old oldObjs d4 \<and> (q4 = Inr () \<longrightarrow> generation old oldObjs d4))"
        using gp
      proof
        assume g: "generation (Some target) newObjs d"
        then have "equalFold x (rj_TargetStateSHA256 j)" using dg dec by (simp add: decides_def generation_def)
        with q4 have k: "keepNewObjects E j d3 = (q4, d4)" by simp
        have "generation (Some target) newObjs d3" using g by (simp add: generation_sysOnly [OF s3])
        from keepNewObjects_generation [OF this k] j3 show ?thesis by simp
      next
        assume p: "pending j old oldObjs d"
        then have "\<not> equalFold x (rj_TargetStateSHA256 j)" using dg dec by (simp add: decides_def pending_def)
        with q4 have k: "restoreOldObjects E j d3 = (q4, d4)" by simp
        have "pending j old oldObjs d3" using p by (simp add: pending_sysOnly [OF s3])
        from restoreOldObjects_pending [OF this k] j3 show ?thesis by simp
      qed
      show ?thesis
      proof (cases q4)
        case (Inl e)
        with tail b show ?thesis by (auto simp: restoring_def)
      next
        case (Inr u)
        with tail have fin: "finishRecovery E j d4 = (r, d')" by simp
        note f = finishRecovery_keeps [OF fin]
        from f(3) b Inr show ?thesis using f(4)
          by (auto simp: restoring_def f(1,2) split: option.split)
      qed
    qed
  qed
  then show "restoring j target newObjs old oldObjs d'" "r = Inr () \<Longrightarrow> dd_journal d' = None" by blast+
qed


section \<open>Installing a snapshot\<close>

text \<open>What a load leaves of the live store: the old data on an error, the data of the snapshot otherwise.\<close>

definition liveAs :: "snapshot \<Rightarrow> state_doc option \<Rightarrow> datadir \<Rightarrow> bool" where
  "liveAs data s d \<longleftrightarrow>
     durable (dd_world d) \<and> sameLive (w_data (dd_world d)) data \<and> w_state_json (dd_world d) = s"

lemma liveAs_meta: "metaSame d d' \<Longrightarrow> liveAs data s d' = liveAs data s d"
  using metaSame_durable [of d d'] by (simp add: liveAs_def metaSame_def)

lemma recover_liveAs: "liveAs data s (snd (recoverSnapshotRestore E f d)) = liveAs data s d"
  by (rule liveAs_meta) (intro recover_meta metaSame_refl)

lemma renameObjectsToBackup_cases:
  assumes "renameObjectsToBackup E backup d = (r, d')"
  shows "r \<noteq> Inr () \<Longrightarrow> sysOnly d d'"
    and "r = Inr () \<Longrightarrow> dd_hasObjects d \<and> \<not> dd_hasObjects d' \<and> dd_journal d' = dd_journal d \<and>
      dd_stages d' = dd_stages d \<and> dd_backups d' = fmupd backup (Directory (w_objects (dd_world d))) (dd_backups d)"
proof -
  obtain q d1 where q: "sysD E [Rename] d = (q, d1)" by fastforce
  note s = sysOnly_same [OF sysD_D [OF q]]
  show "r \<noteq> Inr () \<Longrightarrow> sysOnly d d'"
    "r = Inr () \<Longrightarrow> dd_hasObjects d \<and> \<not> dd_hasObjects d' \<and> dd_journal d' = dd_journal d \<and>
      dd_stages d' = dd_stages d \<and> dd_backups d' = fmupd backup (Directory (w_objects (dd_world d))) (dd_backups d)"
    using assms q s sysD_D [OF q]
    by (cases q; auto simp: renameObjectsToBackup_def split: if_splits)+
qed

lemma renameStagedObjects_cases:
  assumes "renameStagedObjects E stage d = (r, d')"
  shows "r \<noteq> Inr () \<Longrightarrow> sysOnly d d'"
    and "r = Inr () \<Longrightarrow> fmlookup (dd_stages d) stage = Some (Directory t) \<Longrightarrow> td_objects t = Some m \<Longrightarrow>
      dd_hasObjects d' \<and> w_objects (dd_world d') = m \<and> dd_journal d' = dd_journal d \<and> dd_backups d' = dd_backups d"
proof -
  obtain q d1 where q: "sysD E [Rename] d = (q, d1)" by fastforce
  note s = sysOnly_same [OF sysD_D [OF q]]
  show "r \<noteq> Inr () \<Longrightarrow> sysOnly d d'"
    "r = Inr () \<Longrightarrow> fmlookup (dd_stages d) stage = Some (Directory t) \<Longrightarrow> td_objects t = Some m \<Longrightarrow>
      dd_hasObjects d' \<and> w_objects (dd_world d') = m \<and> dd_journal d' = dd_journal d \<and> dd_backups d' = dd_backups d"
    using assms q s sysD_D [OF q]
    by (cases q; auto simp: renameStagedObjects_def split: option.splits dirent.splits bool.splits)+
qed

text \<open>The commit of a restore.\<close>

lemma saveD_cases:
  assumes run: "saveD E (inWorld (\<lambda>w. w\<lparr>w_data := data\<rparr>) d) = (r, d')"
    and dur: "durable (dd_world d)" and clean: "dynamo_clean data" and enc: "encodeSnapshot data = Some target"
  shows "durable (dd_world d')" "w_objects (dd_world d') = w_objects (dd_world d)"
    "dd_hasObjects d' = dd_hasObjects d" "dd_journal d' = dd_journal d" "dd_backups d' = dd_backups d"
    "dd_stages d' = dd_stages d"
    "r = Inr () \<Longrightarrow> w_data (dd_world d') = data \<and> w_state_json (dd_world d') = Some target"
    "r \<noteq> Inr () \<Longrightarrow> sameLive (w_data (dd_world d')) (w_data (dd_world d)) \<and>
       w_state_json (dd_world d') = w_state_json (dd_world d)"
proof -
  obtain x w where sv: "saveLocked E ((dd_world d)\<lparr>w_data := data\<rparr>) = (x, w)" by fastforce
  with run have d': "d' = d\<lparr>dd_world := w\<rparr>" and r: "r = (case x of None \<Rightarrow> Inr () | Some e \<Rightarrow> Inl e)"
    by (auto simp: saveD_def split: option.splits)
  note c = saveLocked_commit [OF dur refl clean sv]
  show "durable (dd_world d')" "w_objects (dd_world d') = w_objects (dd_world d)"
    "dd_hasObjects d' = dd_hasObjects d" "dd_journal d' = dd_journal d" "dd_backups d' = dd_backups d"
    "dd_stages d' = dd_stages d"
    using c(1,4) d' by simp_all
  show "r = Inr () \<Longrightarrow> w_data (dd_world d') = data \<and> w_state_json (dd_world d') = Some target"
    using c(2) d' r enc sv by (cases rule: saveLocked_cases [OF sv]) (auto split: option.splits)
  show "r \<noteq> Inr () \<Longrightarrow> sameLive (w_data (dd_world d')) (w_data (dd_world d)) \<and>
       w_state_json (dd_world d') = w_state_json (dd_world d)"
    using c(3) d' r by (cases x) auto
qed

text \<open>A failed step of the restore.\<close>

lemma orRecover_cases:
  assumes "orRecover E m f = (r, d')"
  obtains d where "m = (Inr (), d)" "f d = (r, d')"
  | e d e' where "m = (Inl e, d)" "r = Inl e'" "d' = snd (recoverNow E d)"
proof (cases m)
  case (Pair a d)
  show ?thesis
  proof (cases a)
    case (Inr u)
    with Pair assms that(1) show ?thesis by (auto simp: orRecover_def)
  next
    case (Inl e)
    obtain q d2 where "recoverNow E d = (q, d2)" by fastforce
    with Pair Inl assms that(2) show ?thesis by (cases q) (auto simp: orRecover_def)
  qed
qed

lemma recover_failed:
  assumes "restoring j target newObjs old oldObjs d" "decides E j target old" "liveAs data old d"
    "d' = snd (recoverNow E d)"
  shows "restoring j target newObjs old oldObjs d' \<and> liveAs data old d'"
  using recover_restoring(1) [OF assms(1,2), of "fst (recoverNow E d)" d'] assms(3,4)
  by (simp add: recover_liveAs)

lemma canonicalDigest_encoded:
  assumes "encodeSnapshot data = Some target" "dynamo_clean data"
  shows "canonicalDigest E (Some target) = Some (stateDigest E target)"
  using decode_encode [OF assms] encode_validates [OF assms(1)] assms(1) by (simp add: canonicalDigest_def)

lemma restoring_committed:
  assumes "restoring j target newObjs old oldObjs d" "decides E j target old"
    "canonicalDigest E (Some target) \<noteq> None" "w_state_json (dd_world d) = Some target"
  shows "generation (Some target) newObjs d"
proof -
  have "old \<noteq> Some target" using assms(2,3) by (auto simp: decides_def)
  with assms(1,4) show ?thesis by (auto simp: restoring_def generation_def pending_def split: option.splits)
qed

text \<open>Between journal and commit, with the old data live.\<close>

definition underway :: "snapshotRestoreJournal \<Rightarrow> snapshot \<Rightarrow> state_doc option \<Rightarrow> bytes gomap \<Rightarrow> datadir \<Rightarrow> bool" where
  "underway j data old oldObjs d \<longleftrightarrow>
     dd_journal d = Some (journalFile j) \<and> pending j old oldObjs d \<and> liveAs data old d"

lemma underway_sysOnly: "sysOnly d d' \<Longrightarrow> underway j data old oldObjs d' = underway j data old oldObjs d"
  by (simp add: underway_def sysOnly_same pending_sysOnly liveAs_meta [OF sysOnly_metaSame])

lemma underway_restoring: "underway j data old oldObjs d \<Longrightarrow> restoring j target newObjs old oldObjs d"
  by (simp add: underway_def restoring_def)

definition installed ::
  "snapshotRestoreJournal \<Rightarrow> loadedSnapshot \<Rightarrow> state_doc \<Rightarrow> bytes gomap \<Rightarrow> snapshot \<Rightarrow> state_doc option
     \<Rightarrow> bytes gomap \<Rightarrow> SnapshotInfo dresult \<Rightarrow> bool" where
  "installed j loaded target newObjs data old oldObjs out \<longleftrightarrow>
     restoring j target newObjs old oldObjs (snd out) \<and>
     (case fst out of
        Inr info \<Rightarrow> info = ls_info loaded \<and> generation (Some target) newObjs (snd out) \<and>
          liveAs (ls_data loaded) (Some target) (snd out)
      | Inl e \<Rightarrow> liveAs data old (snd out))"

lemma orRecover_installed:
  assumes dec: "decides E j target old"
    and fails: "\<And>e d1. m = (Inl e, d1) \<Longrightarrow> underway j data old oldObjs d1"
    and goes: "\<And>d1. m = (Inr (), d1) \<Longrightarrow> installed j loaded target newObjs data old oldObjs (f d1)"
  shows "installed j loaded target newObjs data old oldObjs (orRecover E m f)"
proof -
  obtain r d' where out: "orRecover E m f = (r, d')" by fastforce
  then show ?thesis
  proof (cases rule: orRecover_cases)
    case (1 d1)
    with goes [OF 1(1)] out show ?thesis by simp
  next
    case (2 e d1 e')
    note u = fails [OF 2(1)]
    then have "liveAs data old d1" by (simp add: underway_def)
    from recover_failed [OF underway_restoring [OF u] dec this 2(3)] 2(2) out show ?thesis
      by (simp add: installed_def)
  qed
qed

lemma installed_commit:
  assumes dec: "decides E j target old" and u: "underway j data old oldObjs d"
    and enc: "encodeSnapshot (ls_data loaded) = Some target" and clean: "dynamo_clean (ls_data loaded)"
    and new: "dd_hasObjects d" "w_objects (dd_world d) = newObjs"
    and moved: "fmlookup (dd_backups d) (rj_BackupDirectory j) = Some (Directory oldObjs)"
  shows "installed j loaded target newObjs data old oldObjs
    (orRecover E (saveD E (inWorld (\<lambda>w. w\<lparr>w_data := ls_data loaded\<rparr>) d)) (\<lambda>d.
       (Inr (ls_info loaded), snd (recoverNow E d))))"
proof (rule orRecover_installed [OF dec])
  have dur: "durable (dd_world d)" using u by (simp add: underway_def liveAs_def)
  fix e d1
  assume fail: "saveD E (inWorld (\<lambda>w. w\<lparr>w_data := ls_data loaded\<rparr>) d) = (Inl e, d1)"
  note c = saveD_cases [OF fail dur clean enc]
  show "underway j data old oldObjs d1" using c(1-6,8) u moved
    by (auto simp: underway_def pending_def liveAs_def intro: sameLive_trans)
next
  have dur: "durable (dd_world d)" using u by (simp add: underway_def liveAs_def)
  fix d1
  assume ok: "saveD E (inWorld (\<lambda>w. w\<lparr>w_data := ls_data loaded\<rparr>) d) = (Inr (), d1)"
  note c = saveD_cases [OF ok dur clean enc]
  have "dd_journal d1 = Some (journalFile j)" "generation (Some target) newObjs d1"
    and l: "liveAs (ls_data loaded) (Some target) d1"
    using c(1-4,7) new u by (simp_all add: generation_def liveAs_def underway_def)
  then have "restoring j target newObjs old oldObjs d1" by (simp add: restoring_def)
  from recover_restoring(1) [OF this dec, of "fst (recoverNow E d1)" "snd (recoverNow E d1)"]
  have r: "restoring j target newObjs old oldObjs (snd (recoverNow E d1))" by simp
  have l': "liveAs (ls_data loaded) (Some target) (snd (recoverNow E d1))" using l by (simp add: recover_liveAs)
  from restoring_committed [OF r dec _ ] canonicalDigest_encoded [OF enc clean, of E] l'
  have "generation (Some target) newObjs (snd (recoverNow E d1))" by (simp add: liveAs_def)
  with r l' show "installed j loaded target newObjs data old oldObjs (Inr (ls_info loaded), snd (recoverNow E d1))"
    by (simp add: installed_def)
qed

lemma installSnapshot_installed:
  assumes dec: "decides E j target old" and b: "rj_BackupDirectory j = backup"
    and u: "underway j data old oldObjs d" and none: "fmlookup (dd_backups d) backup = None"
    and enc: "encodeSnapshot (ls_data loaded) = Some target" and clean: "dynamo_clean (ls_data loaded)"
    and staged: "fmlookup (dd_stages d) stage = Some (Directory t)" "td_objects t = Some newObjs"
  shows "installed j loaded target newObjs data old oldObjs (installSnapshot E loaded stage backup d)"
  unfolding installSnapshot_def
proof (rule orRecover_installed [OF dec])
  fix e d1
  assume "renameObjectsToBackup E backup d = (Inl e, d1)"
  from renameObjectsToBackup_cases(1) [OF this] u show "underway j data old oldObjs d1" by (simp add: underway_sysOnly)
next
  fix d1
  assume ok: "renameObjectsToBackup E backup d = (Inr (), d1)"
  note m = renameObjectsToBackup_cases(2) [OF ok refl]
  have "metaSame d d1" using meta_renames(2) [OF metaSame_refl, of d E backup] ok by simp
  then have u1: "underway j data old oldObjs d1" using u m none b
    by (simp add: underway_def liveAs_meta pending_def) (simp add: metaSame_def)
  have keep1: "fmlookup (dd_stages d1) stage = Some (Directory t)" "fmlookup (dd_backups d1) backup = Some (Directory oldObjs)"
    using staged m u none b by (simp_all add: underway_def pending_def)
  show "installed j loaded target newObjs data old oldObjs
    (orRecover E (syncDirectory E d1) (\<lambda>d. orRecover E (renameStagedObjects E stage d) (\<lambda>d.
       orRecover E (syncDirectory E d) (\<lambda>d.
       orRecover E (saveD E (inWorld (\<lambda>w. w\<lparr>w_data := ls_data loaded\<rparr>) d)) (\<lambda>d.
       (Inr (ls_info loaded), snd (recoverNow E d)))))))"
  proof (rule orRecover_installed [OF dec], use u1 underway_sysOnly syncDirectory_D in blast, rule orRecover_installed [OF dec])
    fix d2 e d3
    assume s: "syncDirectory E d1 = (Inr (), d2)" and "renameStagedObjects E stage d2 = (Inl e, d3)"
    from renameStagedObjects_cases(1) [OF this(2)] u1 show "underway j data old oldObjs d3"
      by (simp add: underway_sysOnly underway_sysOnly [OF syncDirectory_D [OF s]])
  next
    fix d2 d3
    assume s: "syncDirectory E d1 = (Inr (), d2)" and ok: "renameStagedObjects E stage d2 = (Inr (), d3)"
    note s2 = sysOnly_same [OF syncDirectory_D [OF s]]
    have st: "fmlookup (dd_stages d2) stage = Some (Directory t)" using keep1 by (simp add: s2)
    note m = renameStagedObjects_cases(2) [OF ok refl st staged(2)]
    have "metaSame d2 d3" using meta_renames(3) [OF metaSame_refl, of d2 E stage] ok by simp
    then have u3: "underway j data old oldObjs d3"
      using u1 m keep1(2) b underway_sysOnly [OF syncDirectory_D [OF s], of j data old oldObjs]
      by (simp add: underway_def liveAs_meta pending_def s2) (simp add: metaSame_def liveAs_def)
    have new: "dd_hasObjects d3" "w_objects (dd_world d3) = newObjs"
      "fmlookup (dd_backups d3) (rj_BackupDirectory j) = Some (Directory oldObjs)"
      using m keep1(2) b by (simp_all add: s2)
    show "installed j loaded target newObjs data old oldObjs
      (orRecover E (syncDirectory E d3) (\<lambda>d.
         orRecover E (saveD E (inWorld (\<lambda>w. w\<lparr>w_data := ls_data loaded\<rparr>) d)) (\<lambda>d.
         (Inr (ls_info loaded), snd (recoverNow E d)))))"
    proof (rule orRecover_installed [OF dec], use u3 underway_sysOnly syncDirectory_D in blast)
      fix d4
      assume "syncDirectory E d3 = (Inr (), d4)"
      note s4 = syncDirectory_D [OF this]
      from installed_commit [OF dec _ enc clean, of data oldObjs d4 newObjs] u3 new
      show "installed j loaded target newObjs data old oldObjs
        (orRecover E (saveD E (inWorld (\<lambda>w. w\<lparr>w_data := ls_data loaded\<rparr>) d4)) (\<lambda>d.
           (Inr (ls_info loaded), snd (recoverNow E d))))"
        by (simp add: underway_sysOnly [OF s4] sysOnly_same [OF s4])
    qed
  qed
qed

end
