(* ===== verification/Snapshot_Load.thy ===== *)
theory Snapshot_Load
  imports Snapshot_Recovery S3_Theorems Store_Runs
begin

text \<open>
  Saving and loading snapshots: what reading a snapshot checks, what a saved snapshot holds, and the
  outcome of a load for every schedule of failing system calls.
\<close>

section \<open>Reading\<close>

lemma verifySnapshotFile_ahead: "sysAhead w (snd (verifySnapshotFile E c f limit w))"
  unfolding verifySnapshotFile_def
  by (auto dest!: runSys_sysAhead dest: sysAhead_trans split: prod.split bool.split option.split simp del: runSys.simps)

lemma verifySnapshotFile_Inr:
  "verifySnapshotFile E c f limit w = (Inr b, w') \<Longrightarrow>
     c = Some b \<and> int (length b) = sf_Size f \<and> int (length b) \<le> limit \<and>
     equalFold (hexEncode (e_sha256 E b)) (sf_SHA256 f)"
  by (auto simp: verifySnapshotFile_def split: prod.splits bool.splits option.splits if_splits simp del: runSys.simps)

lemma readSnapshotFile_ahead: "sysAhead w (snd (readSnapshotFile E c f limit w))"
proof -
  obtain r w1 where v: "verifySnapshotFile E c f limit w = (r, w1)" by fastforce
  have a: "sysAhead w w1" using verifySnapshotFile_ahead [of w E c f limit] v by simp
  then show ?thesis
    by (cases r) (auto simp: readSnapshotFile_def v dest!: runSys_sysAhead
        intro: sysAhead_trans split: prod.split bool.split simp del: runSys.simps)
qed

lemma readSnapshotFile_Inr:
  "readSnapshotFile E c f limit w = (Inr b, w') \<Longrightarrow>
     c = Some b \<and> int (length b) = sf_Size f \<and> int (length b) \<le> limit"
  by (auto simp: readSnapshotFile_def dest!: verifySnapshotFile_Inr
      split: prod.splits sum.splits bool.splits simp del: runSys.simps)

lemma readSnapshotManifest_ahead: "sysAhead w (snd (readSnapshotManifest E name s w))"
  unfolding readSnapshotManifest_def
  by (auto dest!: runSys_sysAhead split: prod.split bool.split option.split jsonfile.split simp del: runSys.simps)

lemma readSnapshotManifest_Inr:
  "readSnapshotManifest E name s w = (Inr m, w') \<Longrightarrow>
     \<exists>sz. sd_manifest s = Some (JsonFile sz (Some m)) \<and> sz \<le> 1048576 \<and> sm_Name m = name"
  by (auto simp: readSnapshotManifest_def split: prod.splits bool.splits option.splits jsonfile.splits if_splits
      simp del: runSys.simps)

lemma checkManifestObjects_ahead: "sysAhead w (snd (checkManifestObjects E objs expected seen fs w))"
proof (induction fs arbitrary: seen w)
  case (Cons f fs)
  obtain r w1 where v: "verifySnapshotFile E (fmlookup objs (sf_Name f)) f 1099511627776 w = (r, w1)" by fastforce
  have "sysAhead w w1" using verifySnapshotFile_ahead v by (metis snd_conv)
  with Cons.IH [of w1] v show ?case by (cases r) (auto intro: sysAhead_trans)
qed simp

lemma checkManifestObjects_Inr:
  "checkManifestObjects E objs expected seen fs w = (Inr (), w') \<Longrightarrow>
     distinct (map sf_Name fs) \<and> set (map sf_Name fs) \<subseteq> set expected \<and> set (map sf_Name fs) \<inter> set seen = {} \<and>
     (\<forall>f \<in> set fs. \<exists>b. fmlookup objs (sf_Name f) = Some b \<and> int (length b) = sf_Size f \<and>
        equalFold (hexEncode (e_sha256 E b)) (sf_SHA256 f))"
proof (induction fs arbitrary: seen w)
  case (Cons f fs)
  obtain r w1 where v: "verifySnapshotFile E (fmlookup objs (sf_Name f)) f 1099511627776 w = (r, w1)" by fastforce
  with Cons.prems obtain b where "r = Inr b" by (cases r) (auto split: if_splits)
  with Cons.prems v have rest: "checkManifestObjects E objs expected (sf_Name f # seen) fs w1 = (Inr (), w')"
    and "sf_Name f \<notin> set seen" "sf_Name f \<in> set expected" by (auto split: if_splits)
  with Cons.IH [OF rest] verifySnapshotFile_Inr [OF v [unfolded \<open>r = Inr b\<close>]] show ?case by auto
qed simp

text \<open>The document a load of a snapshot commits.\<close>

definition snapshotDocOf :: "env \<Rightarrow> snapshotDir \<Rightarrow> state_doc option" where
  "snapshotDocOf E s = (case sd_state s of None \<Rightarrow> None | Some raw \<Rightarrow> e_stateParse E raw)"

definition snapshotFiles :: "snapshotDir \<Rightarrow> bytes gomap" where
  "snapshotFiles s = (case sd_objects s of None \<Rightarrow> fmempty | Some m \<Rightarrow> m)"

lemma readSnapshotDir_ahead: "sysAhead w (snd (readSnapshotDir E name s w))"
proof -
  obtain r1 w1 where 1: "readSnapshotManifest E name s w = (r1, w1)" by fastforce
  have a1: "sysAhead w w1" using readSnapshotManifest_ahead [of w E name s] 1 by simp
  show ?thesis
  proof (cases r1)
    case (Inr m)
    obtain r2 w2 where 2: "readSnapshotFile E (sd_state s) (sm_State m) 67108864 w1 = (r2, w2)" by fastforce
    have a2: "sysAhead w w2" using a1 readSnapshotFile_ahead 2 by (metis snd_conv sysAhead_trans)
    have a3: "sysAhead w (snd (checkManifestObjects E objs expected seen fs w2))" for objs expected seen fs
      using a2 checkManifestObjects_ahead by (rule sysAhead_trans)
    show ?thesis
    proof (cases r2)
      case (Inr raw)
      then show ?thesis using 1 2 \<open>r1 = Inr m\<close> a2 a3
        by (auto simp: readSnapshotDir_def Let_def split: option.split sum.split prod.split) (metis snd_conv)+
    qed (use 1 2 Inr a2 in \<open>simp add: readSnapshotDir_def\<close>)
  qed (use 1 a1 in \<open>simp add: readSnapshotDir_def\<close>)
qed

lemma referencedObjectFiles_Inr:
  assumes "referencedObjectFiles d = Inr names"
  shows "distinct names" "set names = set (bucketFiles d) \<union> set (uploadFiles d) \<union> set (gcsFiles d)"
    "\<forall>f \<in> set names. validSnapshotObjectName f"
  using assms by (auto simp: referencedObjectFiles_def Let_def list_all_iff split: if_splits)

text \<open>What a successful read of a snapshot has checked.\<close>

definition intact :: "env \<Rightarrow> snapshotDir \<Rightarrow> snapshotManifest \<Rightarrow> bytes \<Rightarrow> snapshot \<Rightarrow> bool" where
  "intact E s m raw data \<longleftrightarrow>
     (\<exists>sz. sd_manifest s = Some (JsonFile sz (Some m))) \<and> sd_state s = Some raw \<and>
     map_option normalizeSnapshot (snapshotDocOf E s) = Some data \<and>
     distinct (map sf_Name (sm_Objects m)) \<and>
     (\<exists>names. referencedObjectFiles data = Inr names \<and> set (map sf_Name (sm_Objects m)) = set names) \<and>
     (\<forall>f \<in> set (sm_Objects m). \<exists>b. fmlookup (snapshotFiles s) (sf_Name f) = Some b \<and>
        int (length b) = sf_Size f \<and> equalFold (hexEncode (e_sha256 E b)) (sf_SHA256 f))"

lemma same_set_by_length:
  "distinct xs \<Longrightarrow> distinct ys \<Longrightarrow> set xs \<subseteq> set ys \<Longrightarrow> length ys = length xs \<Longrightarrow> set xs = set ys"
  by (metis List.finite_set card_subset_eq distinct_card)

lemma readSnapshotDir_Inr:
  assumes "readSnapshotDir E name s w = (Inr l, w')"
  shows "intact E s (ls_manifest l) (ls_stateRaw l) (ls_data l)" "ls_dir l = name"
    "ls_info l = manifest_info (ls_manifest l)"
proof -
  obtain r1 w1 where 1: "readSnapshotManifest E name s w = (r1, w1)" by fastforce
  with assms obtain m where r1: "r1 = Inr m" by (cases r1) (auto simp: readSnapshotDir_def)
  note m = readSnapshotManifest_Inr [OF 1 [unfolded r1]]
  obtain r2 w2 where 2: "readSnapshotFile E (sd_state s) (sm_State m) 67108864 w1 = (r2, w2)" by fastforce
  with assms 1 r1 obtain raw where r2: "r2 = Inr raw" by (cases r2) (auto simp: readSnapshotDir_def)
  note f = readSnapshotFile_Inr [OF 2 [unfolded r2]]
  from assms 1 r1 2 r2 obtain doc where p: "e_stateParse E raw = Some doc"
    by (cases "e_stateParse E raw") (auto simp: readSnapshotDir_def)
  from assms 1 r1 2 r2 p obtain names where
    names: "referencedObjectFiles (normalizeSnapshot doc) = Inr names" "length names = length (sm_Objects m)"
    by (auto simp: readSnapshotDir_def Let_def split: sum.splits if_splits option.splits)
  obtain r3 w3 where 3: "checkManifestObjects E (snapshotFiles s) names [] (sm_Objects m) w2 = (r3, w3)" by fastforce
  with assms 1 r1 2 r2 p names have r3: "r3 = Inr ()" and l: "l = \<lparr>ls_info = manifest_info m, ls_manifest = m,
      ls_data = normalizeSnapshot doc, ls_stateRaw = raw, ls_dir = name\<rparr>"
    by (cases r3; auto simp: readSnapshotDir_def Let_def snapshotFiles_def split: if_splits)+
  note c = checkManifestObjects_Inr [OF 3 [unfolded r3]]
  have "set (map sf_Name (sm_Objects m)) = set names"
    using c referencedObjectFiles_Inr(1) [OF names(1)] names(2) by (intro same_set_by_length) auto
  with m f p names c l show "intact E s (ls_manifest l) (ls_stateRaw l) (ls_data l)"
    by (auto simp: intact_def snapshotDocOf_def)
  show "ls_dir l = name" "ls_info l = manifest_info (ls_manifest l)" using l by simp_all
qed

lemma readSnapshot_sysOnly: "sysOnly d (snd (readSnapshot E name d))"
proof -
  obtain q d1 where q: "sysD E [Lstat] d = (q, d1)" by fastforce
  note s1 = sysD_D [OF q]
  have "sysOnly d (snd (onWorld (readSnapshotDir E name s) d1))" for s
    using sysOnly_trans [OF s1 sysAhead_sysOnly [OF readSnapshotDir_ahead [of "dd_world d1" E name s]]]
    by (auto simp: onWorld_def split: prod.split)
  with q s1 show ?thesis
    by (cases q) (auto simp: readSnapshot_def split: option.split dirent.split)
qed

lemma readSnapshot_Inr:
  assumes "readSnapshot E name d = (Inr l, d')"
  obtains s where "snapshotEntry name d = Some (Directory s)"
    "intact E s (ls_manifest l) (ls_stateRaw l) (ls_data l)" "ls_dir l = name"
    "ls_info l = manifest_info (ls_manifest l)"
proof -
  obtain q d1 where q: "sysD E [Lstat] d = (q, d1)" by fastforce
  note s1 = sysOnly_same [OF sysD_D [OF q]]
  have e: "snapshotEntry name d1 = snapshotEntry name d" by (simp add: snapshotEntry_def s1)
  from assms q e obtain s where s: "snapshotEntry name d = Some (Directory s)"
    "onWorld (readSnapshotDir E name s) d1 = (Inr l, d')"
    by (cases q) (auto simp: readSnapshot_def split: if_splits option.splits dirent.splits)
  then obtain w' where "readSnapshotDir E name s (dd_world d1) = (Inr l, w')"
    by (auto simp: onWorld_def split: prod.splits)
  from readSnapshotDir_Inr [OF this] s(1) that show ?thesis by blast
qed

section \<open>Copying\<close>

lemma writeSnapshotBytes_ahead: "sysAhead w (snd (writeSnapshotBytes E name body old w))"
  unfolding writeSnapshotBytes_def
  by (auto dest!: runSys_sysAhead dest: sysAhead_trans split: prod.split bool.split simp del: runSys.simps)

lemma writeSnapshotBytes_Inr:
  "writeSnapshotBytes E name body old w = ((Inr f, st), w') \<Longrightarrow>
     st = Some body \<and> f = \<lparr>sf_Name = name, sf_Size = int (length body), sf_SHA256 = hexEncode (e_sha256 E body)\<rparr>"
  by (auto simp: writeSnapshotBytes_def split: prod.splits bool.splits if_splits simp del: runSys.simps)

lemma copySnapshotFile_ahead: "sysAhead w (snd (copySnapshotFile E source dest name w))"
  unfolding copySnapshotFile_def
  by (auto dest!: runSys_sysAhead dest: sysAhead_trans split: prod.split bool.split option.split simp del: runSys.simps)

lemma copySnapshotFile_Inr:
  "copySnapshotFile E source dest name w = ((Inr f, dest'), w') \<Longrightarrow>
     \<exists>b. fmlookup source name = Some b \<and> dest' = fmupd name b dest \<and>
       f = \<lparr>sf_Name = name, sf_Size = int (length b), sf_SHA256 = hexEncode (e_sha256 E b)\<rparr>"
  by (auto simp: copySnapshotFile_def split: prod.splits bool.splits if_splits option.splits simp del: runSys.simps)

lemma copySnapshotFiles_ahead: "sysAhead w (snd (copySnapshotFiles E source dest names w))"
proof (induction names arbitrary: dest w)
  case (Cons name names)
  obtain r dest1 w1 where c: "copySnapshotFile E source dest name w = ((r, dest1), w1)"
    by (metis surj_pair)
  have a: "sysAhead w w1" using copySnapshotFile_ahead [of w E source dest name] c by simp
  with Cons.IH [of w1 dest1] c show ?case
    by (cases r) (auto intro: sysAhead_trans split: prod.split sum.split)
qed simp

definition fileOf :: "env \<Rightarrow> bytes gomap \<Rightarrow> string \<Rightarrow> snapshotFile" where
  "fileOf E source name =
     (let b = (case fmlookup source name of None \<Rightarrow> [] | Some b \<Rightarrow> b)
      in \<lparr>sf_Name = name, sf_Size = int (length b), sf_SHA256 = hexEncode (e_sha256 E b)\<rparr>)"

lemma copySnapshotFiles_Inr:
  "copySnapshotFiles E source dest names w = ((Inr fs, dest'), w') \<Longrightarrow> distinct names \<Longrightarrow>
     fs = map (fileOf E source) names \<and> (\<forall>f \<in> set names. fmlookup source f \<noteq> None) \<and>
     (\<forall>f. fmlookup dest' f = (if f \<in> set names then fmlookup source f else fmlookup dest f))"
proof (induction names arbitrary: dest w fs)
  case (Cons name names)
  obtain r dest1 w1 where c: "copySnapshotFile E source dest name w = ((r, dest1), w1)"
    by (metis surj_pair)
  with Cons.prems(1) obtain f where r: "r = Inr f" by (cases r) auto
  from copySnapshotFile_Inr [OF c [unfolded r]] obtain b where b: "fmlookup source name = Some b"
    "dest1 = fmupd name b dest" "f = fileOf E source name" by (auto simp: fileOf_def)
  from Cons.prems(1) c r obtain gs where g: "copySnapshotFiles E source dest1 names w1 = ((Inr gs, dest'), w')"
    "fs = f # gs" by (auto split: prod.splits sum.splits)
  from Cons.IH [OF g(1)] Cons.prems(2) b g(2) show ?case by auto
qed simp

text \<open>The objects of a materialized or saved snapshot: those of the source that are named.\<close>

lemma copied_to_empty:
  assumes "copySnapshotFiles E source fmempty names w = ((Inr fs, dest'), w')" "distinct names"
  shows "dest' = fmfilter (\<lambda>f. f \<in> set names) source"
  by (rule fmap_ext) (use copySnapshotFiles_Inr [OF assms] in auto)


lemma materialize_ahead: "sysAhead w (snd (materializeLoadedSnapshot E l source t w))"
proof -
  obtain q1 w1 where 1: "runSys E [Mkdir] w = (q1, w1)" by fastforce
  obtain q2 w2 where 2: "runSys E [Chmod] w1 = (q2, w2)" by fastforce
  have a2: "sysAhead w w1" "sysAhead w w2"
    using runSys_sysAhead [OF 1] runSys_sysAhead [OF 2] sysAhead_trans by blast+
  let ?objs = "case td_objects t of None \<Rightarrow> fmempty | Some m \<Rightarrow> m"
  let ?names = "map sf_Name (sm_Objects (ls_manifest l))"
  obtain q3 st w3 where 3: "writeSnapshotBytes E ''state.json'' (ls_stateRaw l) (td_state t) w2 = ((q3, st), w3)"
    by (metis surj_pair)
  obtain q4 objs' w4 where 4: "copySnapshotFiles E source ?objs ?names w3 = ((q4, objs'), w4)"
    by (metis surj_pair)
  obtain q5 w5 where 5: "runSys E [OpenDir, SyncDir, OpenDir, SyncDir] w4 = (q5, w5)" by fastforce
  have a3: "sysAhead w w3"
    using sysAhead_trans [OF a2(2) writeSnapshotBytes_ahead] arg_cong [OF 3, of snd] by (metis snd_conv)
  have a4: "sysAhead w w4"
    using sysAhead_trans [OF a3 copySnapshotFiles_ahead] arg_cong [OF 4, of snd] by (metis snd_conv)
  have a5: "sysAhead w w5" using a4 runSys_sysAhead [OF 5] by (rule sysAhead_trans)
  have "snd (materializeLoadedSnapshot E l source t w) =
      (if \<not> q1 then w1 else if \<not> q2 then w2 else case q3 of Inl _ \<Rightarrow> w3
       | Inr _ \<Rightarrow> (case q4 of Inl _ \<Rightarrow> w4 | Inr _ \<Rightarrow> w5))"
    by (simp add: materializeLoadedSnapshot_def Let_def 1 2 3 4 5 del: runSys.simps split: bool.split sum.split)
  then show ?thesis using a2 a3 a4 a5 by (simp split: sum.split)
qed

lemma materialize_Inr:
  assumes "materializeLoadedSnapshot E l source emptyTarget w = ((Inr (), t), w')"
    "distinct (map sf_Name (sm_Objects (ls_manifest l)))"
  shows "t = \<lparr>td_state = Some (ls_stateRaw l),
    td_objects = Some (fmfilter (\<lambda>f. f \<in> set (map sf_Name (sm_Objects (ls_manifest l)))) source)\<rparr>"
proof -
  let ?names = "map sf_Name (sm_Objects (ls_manifest l))"
  obtain q1 w1 where 1: "runSys E [Mkdir] w = (q1, w1)" by fastforce
  obtain q2 w2 where 2: "runSys E [Chmod] w1 = (q2, w2)" by fastforce
  obtain q3 st w3 where 3: "writeSnapshotBytes E ''state.json'' (ls_stateRaw l) None w2 = ((q3, st), w3)"
    by (metis surj_pair)
  obtain q4 objs w4 where 4: "copySnapshotFiles E source fmempty ?names w3 = ((q4, objs), w4)"
    by (metis surj_pair)
  obtain q5 w5 where 5: "runSys E [OpenDir, SyncDir, OpenDir, SyncDir] w4 = (q5, w5)" by fastforce
  have t: "t = \<lparr>td_state = st, td_objects = Some objs\<rparr>" "\<exists>f. q3 = Inr f" "\<exists>fs. q4 = Inr fs"
    using assms(1) 1 2 3 4 5 by (cases q1; cases q2; cases q3; cases q4; cases q5;
        auto simp: materializeLoadedSnapshot_def emptyTarget_def Let_def simp del: runSys.simps)+
  from t(2,3) obtain f fs where f: "q3 = Inr f" "q4 = Inr fs" by blast
  from t(1) f writeSnapshotBytes_Inr [OF 3 [unfolded f]] copied_to_empty [OF 4 [unfolded f(2)] assms(2)]
  show ?thesis by simp
qed

section \<open>Loading\<close>

lemma mkdirTemp_sysOnly: "sysOnly d (snd (mkdirTemp E pattern taken d))"
proof -
  have "sysOnly d (inWorld (\<lambda>w. w\<lparr>w_tmps := n\<rparr>) d)" for n
  proof -
    have "inWorld (\<lambda>w. w\<lparr>w_tmps := n\<rparr>) d =
        inWorld (\<lambda>w. w\<lparr>w_sys := w_sys w, w_tmps := n, w_clock := w_clock w\<rparr>) d" by simp
    then show ?thesis unfolding sysOnly_def by blast
  qed
  from sysOnly_trans [OF this sysD_sysOnly]
  have "sysOnly d (snd (sysD E [Mkdir] (inWorld (\<lambda>w. w\<lparr>w_tmps := n\<rparr>) d)))" for n .
  moreover have "snd (andThen m (\<lambda>_ d. (Inr name, d))) = snd m" for m :: "unit dresult" and name :: string
    by (cases m; cases "fst m") auto
  ultimately show ?thesis by (auto simp: mkdirTemp_def split: option.split)
qed

lemma freeName_fresh: "freeName E pattern taken tries n = Some (name, k) \<Longrightarrow>
    name \<notin> set taken \<and> (\<exists>i. name = pattern @ e_tmp E i)"
  by (induction tries arbitrary: n) (auto simp: Let_def split: if_splits)

lemma mkdirTemp_Inr:
  "mkdirTemp E pattern taken d = (Inr name, d') \<Longrightarrow> name \<notin> set taken \<and> (\<exists>i. name = pattern @ e_tmp E i)"
  by (auto simp: mkdirTemp_def andThen_Inr split: option.splits dest: freeName_fresh)

lemma fmkeys_fresh: "name \<notin> set (fmkeys m) \<longleftrightarrow> fmlookup m name = None"
  by (simp add: in_fmkeys)

text \<open>Reserving a backup name changes nothing but, when it fails, may leave an empty directory of its own.\<close>

lemma reserveBackup_cases:
  assumes "reserveBackup E d = (r, d')"
  shows "r = Inr backup \<Longrightarrow> sysOnly d d' \<and> fmlookup (dd_backups d) backup = None \<and> (\<exists>i. backup = ''.objects-backup-'' @ e_tmp E i)"
    and "\<exists>x. sysOnly (d\<lparr>dd_backups := x\<rparr>) d'"
proof -
  obtain q d1 where 1: "mkdirTemp E ''.objects-backup-'' (fmkeys (dd_backups d)) d = (q, d1)" by fastforce
  obtain q2 d2 where 2: "sysD E [Remove] d1 = (q2, d2)" by fastforce
  have s1: "sysOnly d d1" using mkdirTemp_sysOnly 1 by (metis snd_conv)
  have s2: "sysOnly d d2" using s1 sysD_D [OF 2] by (rule sysOnly_trans)
  have keep: "\<exists>y. sysOnly (d\<lparr>dd_backups := y\<rparr>) x" if "sysOnly d x" for x
    using that by (intro exI [of _ "dd_backups d"]) simp
  have upd: "sysOnly (d\<lparr>dd_backups := x\<rparr>) (d2\<lparr>dd_backups := x\<rparr>)" for x
    using s2 by (cases d) (clarsimp simp: sysOnly_def, blast)
  show "r = Inr backup \<Longrightarrow> sysOnly d d' \<and> fmlookup (dd_backups d) backup = None \<and> (\<exists>i. backup = ''.objects-backup-'' @ e_tmp E i)"
    using assms 1 2 s2 mkdirTemp_Inr [of E "''.objects-backup-''" "fmkeys (dd_backups d)" d backup d1]
    by (cases q; cases q2) (simp_all add: reserveBackup_def fmkeys_fresh)
  have "d' = d1 \<or> d' = d2 \<or> (\<exists>x. d' = d2\<lparr>dd_backups := x\<rparr>)"
    using assms 1 2 by (cases q; cases q2) (auto simp: reserveBackup_def)
  then show "\<exists>x. sysOnly (d\<lparr>dd_backups := x\<rparr>) d'" using keep [OF s1] keep [OF s2] upd by blast
qed


text \<open>A directory in which no restore is under way, with a durable store.\<close>

definition settled :: "datadir \<Rightarrow> bool" where
  "settled d \<longleftrightarrow> dd_journal d = None \<and> dd_hasObjects d \<and> durable (dd_world d)"

lemma journal_cases:
  assumes "writeSnapshotRestoreJournal E j d = (r, d')" "dd_journal d = None"
  shows "r = Inr () \<Longrightarrow> sysOnly (d\<lparr>dd_journal := Some (journalFile j)\<rparr>) d'"
    and "sysOnly d d' \<or> sysOnly (d\<lparr>dd_journal := Some (journalFile j)\<rparr>) d'"
proof -
  obtain q1 d1 where 1: "sysD E [Lstat] d = (q1, d1)" by fastforce
  obtain q2 d2 where 2: "sysD E [CreateTemp, Chmod, Write, Sync, Close, OpenDir, SyncDir, Rename] d1 = (q2, d2)" by fastforce
  let ?j = "Some (journalFile j)"
  obtain q3 d3 where 3: "syncDirectory E (d2\<lparr>dd_journal := ?j\<rparr>) = (q3, d3)" by fastforce
  note s1 = sysD_D [OF 1]
  have s2: "sysOnly d d2" using s1 sysD_D [OF 2] by (rule sysOnly_trans)
  have "sysOnly (d\<lparr>dd_journal := ?j\<rparr>) (d2\<lparr>dd_journal := ?j\<rparr>)"
    using s2 by (cases d) (clarsimp simp: sysOnly_def, blast)
  then have s3: "sysOnly (d\<lparr>dd_journal := ?j\<rparr>) d3" using syncDirectory_D [OF 3] by (rule sysOnly_trans)
  have "dd_journal d1 = None" using assms(2) by (simp add: sysOnly_same [OF s1])
  then have "writeSnapshotRestoreJournal E j d =
      (case q1 of Inl e \<Rightarrow> (Inl e, d1) | Inr _ \<Rightarrow> (case q2 of Inl e \<Rightarrow> (Inl e, d2) | Inr _ \<Rightarrow> (q3, d3)))"
    using 1 2 3 by (simp add: writeSnapshotRestoreJournal_def split: sum.split)
  with s1 s2 s3 assms(1) show "r = Inr () \<Longrightarrow> sysOnly (d\<lparr>dd_journal := ?j\<rparr>) d'"
    "sysOnly d d' \<or> sysOnly (d\<lparr>dd_journal := ?j\<rparr>) d'"
    by (auto split: sum.splits)
qed

text \<open>
  The outcome of a load: either no journal was written and everything is as before, or the restore
  was begun and its invariant holds.
\<close>

definition unchanged :: "datadir \<Rightarrow> datadir \<Rightarrow> bool" where
  "unchanged d d' \<longleftrightarrow>
     dd_journal d' = None \<and> generation (w_state_json (dd_world d)) (w_objects (dd_world d)) d' \<and>
     liveAs (w_data (dd_world d)) (w_state_json (dd_world d)) d'"

lemma settled_unchanged: "settled d \<Longrightarrow> sysOnly (d\<lparr>dd_backups := x, dd_stages := y\<rparr>) d' \<Longrightarrow> unchanged d d'"
  using sysOnly_same [of "d\<lparr>dd_backups := x, dd_stages := y\<rparr>" d']
  by (simp add: settled_def unchanged_def generation_def liveAs_def)

lemma restoreFromStage_cases:
  assumes run: "restoreFromStage E l stage d = (r, d')" and set: "settled d"
    and clean: "dynamo_clean (ls_data l)"
    and staged: "fmlookup (dd_stages d) stage = Some (Directory t)" "td_objects t = Some newObjs"
    and dec: "\<And>backup target. encodeSnapshot (ls_data l) = Some target \<Longrightarrow>
        decides E (newJournal E backup stage target) target (w_state_json (dd_world d))"
  obtains e where "r = Inl e" "unchanged d d'"
  | backup target i where "encodeSnapshot (ls_data l) = Some target" "backup = ''.objects-backup-'' @ e_tmp E i"
      "installed (newJournal E backup stage target) l target newObjs (w_data (dd_world d)) (w_state_json (dd_world d))
        (w_objects (dd_world d)) (r, d')"
proof -
  obtain q1 d1 where 1: "reserveBackup E d = (q1, d1)" by fastforce
  show ?thesis
  proof (cases "\<exists>backup target. q1 = Inr backup \<and> encodeSnapshot (ls_data l) = Some target")
    case False
    from reserveBackup_cases(2) [OF 1] obtain x where "sysOnly (d\<lparr>dd_backups := x, dd_stages := dd_stages d\<rparr>) d1" by auto
    with settled_unchanged [OF set] have "unchanged d d1" by blast
    with False run 1 that(1) show ?thesis
      by (cases q1) (auto simp: restoreFromStage_def split: option.splits)
  next
    case True
    then obtain backup target where q1: "q1 = Inr backup" and enc: "encodeSnapshot (ls_data l) = Some target" by blast
    from reserveBackup_cases(1) [OF 1 q1] obtain i where
      s1: "sysOnly d d1" and none: "fmlookup (dd_backups d) backup = None" and i: "backup = ''.objects-backup-'' @ e_tmp E i"
      by blast
    let ?j = "newJournal E backup stage target"
    let ?w = "dd_world d"
    obtain q2 d2 where 2: "writeSnapshotRestoreJournal E ?j d1 = (q2, d2)" by fastforce
    have j1: "dd_journal d1 = None" using set by (simp add: settled_def sysOnly_same [OF s1])
    note jc = journal_cases [OF 2 j1]
    have b: "rj_BackupDirectory ?j = backup" by (simp add: newJournal_def)
    note dec' = dec [OF enc, of backup]
    have u: "underway ?j (w_data ?w) (w_state_json ?w) (w_objects ?w) d2"
      if "sysOnly (d1\<lparr>dd_journal := Some (journalFile ?j)\<rparr>) d2"
      using set none by (simp add: underway_sysOnly [OF that])
        (simp add: underway_def pending_def b sysOnly_same [OF s1] settled_def liveAs_def)
    show ?thesis
    proof (cases q2)
      case (Inr x)
      with jc(1) have s2: "sysOnly (d1\<lparr>dd_journal := Some (journalFile ?j)\<rparr>) d2" by simp
      from run 1 q1 enc 2 Inr have "installSnapshot E l stage backup d2 = (r, d')"
        by (simp add: restoreFromStage_def)
      with installSnapshot_installed [OF dec' b u [OF s2] _ enc clean _ staged(2), of stage] none staged(1) enc i that(2)
      show ?thesis by (simp add: sysOnly_same [OF s2] sysOnly_same [OF s1])
    next
      case (Inl e)
      with run 1 q1 enc 2 have r: "r = Inl e" and d': "d' = snd (recoverNow E d2)" by (simp_all add: restoreFromStage_def)
      from jc(2) show ?thesis
      proof
        assume "sysOnly d1 d2"
        then have s2: "sysOnly d d2" using s1 sysOnly_trans by blast
        then have "dd_journal d2 = None" using set by (simp add: settled_def sysOnly_same)
        then have "sysOnly d2 d'" using d' sysD_sysOnly [of d2 E "[Lstat]"]
          by (cases "sysD E [Lstat] d2"; cases "fst (sysD E [Lstat] d2)")
            (auto simp: recoverSnapshotRestore_def sysOnly_same)
        with s2 have "sysOnly (d\<lparr>dd_backups := dd_backups d, dd_stages := dd_stages d\<rparr>) d'"
          using sysOnly_trans by simp
        with settled_unchanged [OF set] r that(1) show ?thesis by blast
      next
        assume s2: "sysOnly (d1\<lparr>dd_journal := Some (journalFile ?j)\<rparr>) d2"
        note ud = u [OF this]
        then have "liveAs (w_data ?w) (w_state_json ?w) d2" by (simp add: underway_def)
        from recover_failed [OF underway_restoring [OF ud] dec' this d', of newObjs] r enc i that(2)
        show ?thesis by (auto simp: installed_def)
      qed
    qed
  qed
qed


text \<open>
  A snapshot \<open>s\<close> that holds the data \<open>data\<close> and whose restore commits the document
  \<open>target\<close>, which is told from the state on disk by its digest.
\<close>

definition restorable :: "env \<Rightarrow> string \<Rightarrow> snapshotDir \<Rightarrow> snapshot \<Rightarrow> state_doc \<Rightarrow> datadir \<Rightarrow> bool" where
  "restorable E name s data target d \<longleftrightarrow>
     snapshotEntry name d = Some (Directory s) \<and> map_option normalizeSnapshot (snapshotDocOf E s) = Some data \<and>
     dynamo_clean data \<and> encodeSnapshot data = Some target \<and>
     (\<forall>b. length (e_sha256 E b) = 32) \<and> stateDigest E target \<noteq> stateDigest E (diskDoc (dd_world d))"

lemma restorable_decides:
  assumes "durable (dd_world d)" "restorable E name s data target d"
  shows "decides E (newJournal E backup stage target) target (w_state_json (dd_world d))"
proof -
  let ?w = "dd_world d"
  have new: "canonicalDigest E (Some target) = Some (stateDigest E target)"
    using assms(2) by (intro canonicalDigest_encoded [of data]) (auto simp: restorable_def)
  have "\<not> equalFold x (stateDigest E target)" if c: "canonicalDigest E (w_state_json ?w) = Some x" for x
  proof (cases "w_state_json ?w")
    case None
    have "e_sha256 E (e_stateText E target) \<noteq> []" using assms(2) by (auto simp: restorable_def dest: spec [where x = "e_stateText E target"])
    with None c show ?thesis by (simp add: canonicalDigest_def equalFold_def stateDigest_def toLower_def)
  next
    case (Some doc)
    then have "diskDoc ?w = doc" by (simp add: diskDoc_def)
    with assms(1) have "encodeSnapshot (normalizeSnapshot doc) = Some doc" by (simp add: durable_def diskState_def)
    with Some c have "x = stateDigest E doc" by (auto simp: canonicalDigest_def split: if_splits)
    with assms(2) \<open>diskDoc ?w = doc\<close> show ?thesis by (auto simp: restorable_def stateDigest_def equalFold_hex)
  qed
  with new show ?thesis by (simp add: decides_def newJournal_def)
qed

lemma fillStage_cases:
  assumes "fillStage E l stage d = (r, d')"
  shows "\<exists>x. sysOnly (d\<lparr>dd_stages := x\<rparr>) d'"
    and "r = Inr () \<Longrightarrow> distinct (map sf_Name (sm_Objects (ls_manifest l))) \<Longrightarrow>
      \<exists>t. fmlookup (dd_stages d') stage = Some (Directory t) \<and>
        td_objects t = Some (fmfilter (\<lambda>f. f \<in> set (map sf_Name (sm_Objects (ls_manifest l)))) (snapshotObjects (ls_dir l) d))"
proof -
  let ?d0 = "d\<lparr>dd_stages := fmupd stage (Directory emptyTarget) (dd_stages d)\<rparr>"
  obtain q1 d1 where 1: "sysD E [Chmod] ?d0 = (q1, d1)" by fastforce
  note s1 = sysD_D [OF 1]
  obtain q2 t w where 2: "materializeLoadedSnapshot E l (snapshotObjects (ls_dir l) d1) emptyTarget (dd_world d1) = ((q2, t), w)"
    by (metis surj_pair)
  have "sysAhead (dd_world d1) w" using materialize_ahead [of "dd_world d1" E l _ emptyTarget] 2 by (metis snd_conv)
  from sysAhead_sysOnly_entries(1) [OF this]
  have s2: "sysOnly (d1\<lparr>dd_stages := x\<rparr>) (d1\<lparr>dd_world := w, dd_stages := x\<rparr>)" for x .
  have "sysOnly (d\<lparr>dd_stages := x\<rparr>) (d1\<lparr>dd_stages := x\<rparr>)" for x
    using s1 by (cases d) (clarsimp simp: sysOnly_def, blast)
  from sysOnly_trans [OF this s2] have s3: "sysOnly (d\<lparr>dd_stages := x\<rparr>) (d1\<lparr>dd_world := w, dd_stages := x\<rparr>)" for x .
  have run: "fillStage E l stage d = (case q1 of Inl e \<Rightarrow> (Inl e, d1)
      | Inr _ \<Rightarrow> (q2, d1\<lparr>dd_world := w, dd_stages := fmupd stage (Directory t) (dd_stages d1)\<rparr>))"
    using 1 2 by (simp add: fillStage_def split: sum.split)
  show "\<exists>x. sysOnly (d\<lparr>dd_stages := x\<rparr>) d'" using run assms s1 s3 by (auto split: sum.splits)
  have src: "snapshotObjects (ls_dir l) d1 = snapshotObjects (ls_dir l) d"
    by (simp add: snapshotObjects_def snapshotEntry_def sysOnly_same [OF s1])
  show "r = Inr () \<Longrightarrow> distinct (map sf_Name (sm_Objects (ls_manifest l))) \<Longrightarrow>
      \<exists>t. fmlookup (dd_stages d') stage = Some (Directory t) \<and>
        td_objects t = Some (fmfilter (\<lambda>f. f \<in> set (map sf_Name (sm_Objects (ls_manifest l)))) (snapshotObjects (ls_dir l) d))"
    using run assms 2 [unfolded src] materialize_Inr [of E l "snapshotObjects (ls_dir l) d" "dd_world d1" t w]
    by (auto split: sum.splits)
qed

lemma recover_without_journal: "dd_journal d = None \<Longrightarrow> sysOnly d (snd (recoverSnapshotRestore E f d))"
proof -
  assume none: "dd_journal d = None"
  obtain q d1 where q: "sysD E [Lstat] d = (q, d1)" by fastforce
  note s = sysD_D [OF q]
  have "dd_journal d1 = None" using none by (simp add: sysOnly_same [OF s])
  with q s show ?thesis by (cases q) (simp_all add: recoverSnapshotRestore_def)
qed

lemma settled_sysOnly: "sysOnly d d' \<Longrightarrow> settled d' = settled d"
  by (simp add: settled_def sysOnly_same)

lemma removeAllStage_unchanged: "unchanged d (snd (removeAllStage E stage d1)) = unchanged d d1"
  using meta_frames(1) [OF metaSame_refl, of d1 E stage]
  by (simp add: unchanged_def removeAllStage_keeps liveAs_meta)

text \<open>The objects a load of snapshot \<open>s\<close> of \<open>data\<close> installs.\<close>

definition restoredObjects :: "snapshotDir \<Rightarrow> snapshot \<Rightarrow> bytes gomap" where
  "restoredObjects s data =
     fmfilter (\<lambda>f. f \<in> set (bucketFiles data @ uploadFiles data @ gcsFiles data)) (snapshotFiles s)"


lemma installed_removeAllStage:
  "installed j l target newObjs data old oldObjs (r, d1) \<Longrightarrow>
   installed j l target newObjs data old oldObjs (r, snd (removeAllStage E stage d1))"
  using meta_frames(1) [OF metaSame_refl, of d1 E stage]
  by (simp add: installed_def removeAllStage_keeps liveAs_meta split: sum.splits)

lemma restorable_sysOnly: "sysOnly d d' \<Longrightarrow> restorable E name s data target d' = restorable E name s data target d"
  by (simp add: restorable_def snapshotEntry_def sysOnly_same)

lemma unchanged_sysOnly: "sysOnly d0 d \<Longrightarrow> unchanged d d' = unchanged d0 d'"
  by (simp add: unchanged_def sysOnly_same)

lemma intact_restoredObjects:
  assumes "intact E s m raw data" "snapshotEntry name d = Some (Directory s)"
  shows "fmfilter (\<lambda>f. f \<in> set (map sf_Name (sm_Objects m))) (snapshotObjects name d) = restoredObjects s data"
proof -
  from assms(1) obtain names where n: "referencedObjectFiles data = Inr names" "set (map sf_Name (sm_Objects m)) = set names"
    unfolding intact_def by blast
  have src: "snapshotObjects name d = snapshotFiles s" using assms(2) by (simp add: snapshotObjects_def snapshotFiles_def)
  have "set (map sf_Name (sm_Objects m)) = set (bucketFiles data @ uploadFiles data @ gcsFiles data)"
    using n referencedObjectFiles_Inr(2) [OF n(1)] by (simp add: Un_assoc)
  then show ?thesis by (simp only: src restoredObjects_def)
qed

text \<open>From a filled stage on: what \<open>LoadSnapshot\<close> does under its deferred removal.\<close>

lemma stagedRestore_cases:
  assumes run: "andThen (fillStage E l stage d) (\<lambda>_ d. restoreFromStage E l stage d) = (r, d')"
    and set: "settled d" and rs: "restorable E name s data target d"
    and l: "intact E s (ls_manifest l) (ls_stateRaw l) data" "ls_dir l = name" "ls_data l = data"
  obtains e where "r = Inl e" "unchanged d d'"
  | backup i where "backup = ''.objects-backup-'' @ e_tmp E i"
      "installed (newJournal E backup stage target) l target (restoredObjects s data) (w_data (dd_world d))
        (w_state_json (dd_world d)) (w_objects (dd_world d)) (r, d')"
proof -
  obtain q d1 where fill: "fillStage E l stage d = (q, d1)" by fastforce
  note f = fillStage_cases [OF fill]
  from f(1) obtain x where s1: "sysOnly (d\<lparr>dd_stages := x\<rparr>) d1" by blast
  show ?thesis
  proof (cases q)
    case (Inl e)
    have "sysOnly (d\<lparr>dd_backups := dd_backups d, dd_stages := x\<rparr>) d1" using s1 by simp
    from settled_unchanged [OF set this] Inl run fill that(1) show ?thesis by auto
  next
    case (Inr u)
    have entry: "snapshotEntry name d = Some (Directory s)" using rs by (simp add: restorable_def)
    have "distinct (map sf_Name (sm_Objects (ls_manifest l)))" using l(1) by (simp add: intact_def)
    from f(2) [OF _ this] Inr intact_restoredObjects [OF l(1) entry] l(2) obtain t where
      t: "fmlookup (dd_stages d1) stage = Some (Directory t)" "td_objects t = Some (restoredObjects s data)" by auto
    have set1: "settled d1" using set settled_sysOnly [OF s1] by (simp add: settled_def)
    have same: "w_data (dd_world d1) = w_data (dd_world d)" "w_state_json (dd_world d1) = w_state_json (dd_world d)"
      "w_objects (dd_world d1) = w_objects (dd_world d)" by (simp_all add: sysOnly_same [OF s1])
    have dec: "decides E (newJournal E backup stage target') target' (w_state_json (dd_world d1))"
      if "encodeSnapshot (ls_data l) = Some target'" for backup target'
      using restorable_decides [OF _ rs] that rs l(3) set by (simp add: same restorable_def settled_def)
    from run fill Inr have res: "restoreFromStage E l stage d1 = (r, d')" by simp
    have clean: "dynamo_clean (ls_data l)" using rs l(3) by (simp add: restorable_def)
    show ?thesis
    proof (rule restoreFromStage_cases [OF res set1 clean t dec])
      show "encodeSnapshot (ls_data l) = Some target' \<Longrightarrow> encodeSnapshot (ls_data l) = Some target'" for target' .
    next
      fix e
      assume "r = Inl e" "unchanged d1 d'"
      then show ?thesis using that(1) by (simp add: unchanged_def same)
    next
      fix backup target' i
      assume enc: "encodeSnapshot (ls_data l) = Some target'" and b: "backup = ''.objects-backup-'' @ e_tmp E i"
        and ins: "installed (newJournal E backup stage target') l target' (restoredObjects s data) (w_data (dd_world d1))
          (w_state_json (dd_world d1)) (w_objects (dd_world d1)) (r, d')"
      have "target' = target" using enc rs l(3) by (simp add: restorable_def)
      with that(2) [OF b] ins show ?thesis by (simp add: same)
    qed
  qed
qed

lemma LoadSnapshot_cases:
  assumes run: "LoadSnapshot E name d = (r, d')" and set: "settled d" and rs: "restorable E name s data target d"
  obtains e where "r = Inl e" "unchanged d d'"
  | backup stage i k l where "backup = ''.objects-backup-'' @ e_tmp E i" "stage = ''.snapshot-restore-'' @ e_tmp E k"
      "intact E s (ls_manifest l) (ls_stateRaw l) data" "ls_data l = data" "ls_info l = manifest_info (ls_manifest l)"
      "installed (newJournal E backup stage target) l target (restoredObjects s data) (w_data (dd_world d))
        (w_state_json (dd_world d)) (w_objects (dd_world d)) (r, d')"
proof -
  obtain q1 d1 where 1: "recoverNow E d = (q1, d1)" by fastforce
  obtain q2 d2 where 2: "readSnapshot E name d1 = (q2, d2)" by fastforce
  obtain q3 d3 where 3: "mkdirTemp E ''.snapshot-restore-'' (fmkeys (dd_stages d2)) d2 = (q3, d3)" by fastforce
  have s1: "sysOnly d d1" using recover_without_journal [of d E "diskFile (dd_world d)"] set 1 by (simp add: settled_def)
  have s2: "sysOnly d d2" using sysOnly_trans [OF s1 readSnapshot_sysOnly [of d1 E name]] 2 by simp
  have s3: "sysOnly d d3" using sysOnly_trans [OF s2 mkdirTemp_sysOnly] 3 by (metis snd_conv)
  have stop: "unchanged d x" if "sysOnly d x" for x
    using settled_unchanged [OF set, where x = "dd_backups d" and y = "dd_stages d"] that by simp
  show ?thesis
  proof (cases "\<exists>l stage. q1 = Inr () \<and> q2 = Inr l \<and> q3 = Inr stage")
    case False
    then have "(d' = d1 \<or> d' = d2 \<or> d' = d3) \<and> (\<exists>e. r = Inl e)"
      using run 1 2 3 by (cases q1; cases q2; cases q3) (auto simp: LoadSnapshot_def)
    with stop s1 s2 s3 that(1) show ?thesis by blast
  next
    case True
    then obtain l stage where q: "q1 = Inr ()" "q2 = Inr l" "q3 = Inr stage" by blast
    have entry: "snapshotEntry name d1 = Some (Directory s)" using rs by (simp add: restorable_def snapshotEntry_def sysOnly_same [OF s1])
    from readSnapshot_Inr [OF 2 [unfolded q]] entry have
      l: "intact E s (ls_manifest l) (ls_stateRaw l) (ls_data l)" "ls_dir l = name" "ls_info l = manifest_info (ls_manifest l)"
      by auto
    then have data: "ls_data l = data" using rs by (auto simp: intact_def restorable_def)
    from mkdirTemp_Inr [OF 3 [unfolded q]] obtain k where k: "stage = ''.snapshot-restore-'' @ e_tmp E k" by blast
    obtain r4 d4 where 4: "andThen (fillStage E l stage d3) (\<lambda>_ d. restoreFromStage E l stage d) = (r4, d4)" by fastforce
    have r: "r = r4" "d' = snd (removeAllStage E stage d4)" using run 1 2 3 4 q by (simp_all add: LoadSnapshot_def)
    have set3: "settled d3" "restorable E name s data target d3"
      using set rs by (simp_all add: settled_sysOnly [OF s3] restorable_sysOnly [OF s3])
    from 4 set3 l(1) [unfolded data] l(2) data show ?thesis
    proof (cases rule: stagedRestore_cases)
      case (1 e)
      with r that(1) show ?thesis by (auto simp: removeAllStage_unchanged unchanged_sysOnly [OF s3])
    next
      case (2 backup i)
      from installed_removeAllStage [OF 2(2), of E stage] r that(2) [OF 2(1) k l(1) [unfolded data] data l(3)]
      show ?thesis by (simp add: sysOnly_same [OF s3])
    qed
  qed
qed

end
