(* ===== verification/Snapshot_Progress.thy ===== *)
theory Snapshot_Progress
  imports Snapshot_Load
begin

text \<open>
  Progress of a recovery: without failing system calls it succeeds from every directory an
  interrupted load can leave.
\<close>

section \<open>Only directories where directories are expected\<close>

definition strayFree :: "datadir \<Rightarrow> bool" where
  "strayFree d \<longleftrightarrow> (\<forall>k. fmlookup (dd_stages d) k \<noteq> Some NotDirectory \<and> fmlookup (dd_backups d) k \<noteq> Some NotDirectory)"

named_theorems stray_rules \<open>steps that keep \<open>strayFree\<close>\<close>

lemma strayFree_sysOnly: "sysOnly d d' \<Longrightarrow> strayFree d' = strayFree d"
  by (simp add: strayFree_def sysOnly_same)

lemma andThen_stray [stray_rules]:
  "strayFree (snd m) \<Longrightarrow> (\<And>x d1. strayFree d1 \<Longrightarrow> strayFree (snd (f x d1))) \<Longrightarrow> strayFree (snd (andThen m f))"
  by (rule andThen_snd) auto

lemma stray_steps [stray_rules]:
  assumes "strayFree d"
  shows "strayFree (snd (sysD E cs d))" "strayFree (snd (syncDirectory E d))"
    "strayFree (snd (directoryExists E entry d))" "strayFree (snd (requireDirectory E entry d))"
    "strayFree (snd (persistedStateDigest E file d))" "strayFree (snd (readSnapshot E name d))"
    "strayFree (snd (mkdirTemp E pattern taken d))"
  using assms unfolding syncDirectory_def
  by (simp_all add: strayFree_sysOnly [OF sysD_sysOnly] strayFree_sysOnly [OF directoryExists_sysOnly]
      strayFree_sysOnly [OF requireDirectory_sysOnly] strayFree_sysOnly [OF persistedStateDigest_sysOnly]
      strayFree_sysOnly [OF readSnapshot_sysOnly] strayFree_sysOnly [OF mkdirTemp_sysOnly])

lemma putEntry_directory: "fmlookup (putEntry k x m) i = Some NotDirectory \<Longrightarrow> fmlookup m i = Some NotDirectory"
  by (auto simp: putEntry_def split: option.splits if_splits)

lemma stray_removals [stray_rules]:
  assumes "strayFree d"
  shows "strayFree (snd (removeAllStage E stage d))" "strayFree (snd (removeAllBackup E backup d))"
    "strayFree (snd (removeAllObjects E d))"
  using assms
  by (auto simp: strayFree_def removeAllStage_def removeAllBackup_def removeAllObjects_def
      dest: putEntry_directory split: option.split dirent.split prod.split)

lemma stray_removeDirectoryIfPresent [stray_rules]:
  assumes "strayFree d" and "\<And>d2. strayFree d2 \<Longrightarrow> strayFree (snd (remover d2))"
  shows "strayFree (snd (removeDirectoryIfPresent E entry remover d))"
  unfolding removeDirectoryIfPresent_def
  by (rule andThen_stray, rule stray_steps, rule assms(1)) (simp add: assms(2))

lemma stray_renames [stray_rules]:
  assumes "strayFree d"
  shows "strayFree (snd (renameBackupToObjects E backup d))" "strayFree (snd (renameObjectsToBackup E backup d))"
    "strayFree (snd (renameStagedObjects E stage d))" "strayFree (snd (stagedObjectsPresent E stage d))"
proof -
  show "strayFree (snd (renameBackupToObjects E backup d))" unfolding renameBackupToObjects_def
    by (intro stray_rules assms) (auto simp: strayFree_def split: option.split dirent.split bool.split)
  show "strayFree (snd (renameObjectsToBackup E backup d))" unfolding renameObjectsToBackup_def
    by (intro stray_rules assms) (auto simp: strayFree_def)
  show "strayFree (snd (renameStagedObjects E stage d))" unfolding renameStagedObjects_def
    by (intro stray_rules assms) (auto simp: strayFree_def split: option.split dirent.split bool.split)
  show "strayFree (snd (stagedObjectsPresent E stage d))" unfolding stagedObjectsPresent_def
    using assms by (auto intro!: stray_steps split: option.split dirent.split)
qed

lemma strayFree_journal [simp]: "strayFree (d\<lparr>dd_journal := j\<rparr>) = strayFree d"
  by (simp add: strayFree_def)

lemma stray_recover [stray_rules]:
  assumes "strayFree d"
  shows "strayFree (snd (recoverSnapshotRestore E file d))"
  unfolding recoverSnapshotRestore_def keepNewObjects_def restoreOldObjects_def finishRecovery_def Let_def using assms
  by (auto split: option.split jsonfile.split intro!: stray_rules)

lemma stray_orRecover [stray_rules]:
  assumes "strayFree (snd m)" and "\<And>d1. strayFree d1 \<Longrightarrow> strayFree (snd (f d1))"
  shows "strayFree (snd (orRecover E m f))"
proof -
  obtain r d1 where m: "m = (r, d1)" by fastforce
  have "strayFree (snd (recoverNow E d1))" using assms(1) m by (intro stray_rules) simp
  with assms m show ?thesis by (cases r) (auto simp: orRecover_def split: prod.splits sum.splits)
qed

lemma strayFree_world [simp]: "strayFree (d\<lparr>dd_world := w\<rparr>) = strayFree d"
  by (simp add: strayFree_def)

lemma stray_saveD [stray_rules]: "strayFree d \<Longrightarrow> strayFree (snd (saveD E d))"
  by (auto simp: saveD_def split: prod.split option.split)

lemma stray_reserveBackup [stray_rules]:
  assumes "strayFree d"
  shows "strayFree (snd (reserveBackup E d))"
  unfolding reserveBackup_def
proof (intro stray_rules assms)
  fix backup d1
  assume "strayFree d1"
  then have "strayFree (snd (sysD E [Remove] d1))" by (rule stray_rules)
  then show "strayFree (snd (case sysD E [Remove] d1 of
       (Inl e, d1) \<Rightarrow> (Inl e, d1\<lparr>dd_backups := fmupd backup (Directory fmempty) (dd_backups d1)\<rparr>)
     | (Inr _, d1) \<Rightarrow> (Inr backup, d1)))"
    by (auto simp: strayFree_def split: prod.splits sum.splits)
qed

lemma stray_restore [stray_rules]:
  assumes "strayFree d"
  shows "strayFree (snd (restoreFromStage E l stage d))"
proof -
  have journal: "strayFree (snd (writeSnapshotRestoreJournal E j d1))" if "strayFree d1" for j d1
    unfolding writeSnapshotRestoreJournal_def using that by (auto intro!: stray_rules)
  have install: "strayFree (snd (installSnapshot E l stage backup d1))" if "strayFree d1" for backup d1
    unfolding installSnapshot_def using that by (auto intro!: stray_rules)
  show ?thesis unfolding restoreFromStage_def
  proof (rule andThen_stray [OF stray_reserveBackup [OF assms]])
    fix backup d1
    assume s: "strayFree d1"
    have "strayFree (snd (recoverNow E d2))" if "strayFree d2" for d2 using that by (rule stray_rules)
    with s journal [OF s] install show "strayFree (snd (case encodeSnapshot (ls_data l) of
         None \<Rightarrow> (Inl marshalError, d1)
       | Some target \<Rightarrow>
          (case writeSnapshotRestoreJournal E (newJournal E backup stage target) d1 of
             (Inl e, d1) \<Rightarrow> (Inl e, snd (recoverNow E d1))
           | (Inr _, d1) \<Rightarrow> installSnapshot E l stage backup d1)))"
      by (auto split: option.split prod.split sum.split) (metis snd_conv)+
  qed
qed

lemma stray_fillStage:
  assumes "strayFree d"
  shows "strayFree (snd (fillStage E l stage d))"
  unfolding fillStage_def using assms
  by (intro andThen_stray stray_steps) (auto simp: strayFree_def split: prod.splits)

lemma stray_load:
  assumes "strayFree d"
  shows "strayFree (snd (LoadSnapshot E name d))"
proof -
  have "strayFree (snd (andThen (fillStage E l stage d1) (\<lambda>_ d. restoreFromStage E l stage d)))"
    if "strayFree d1" for l stage d1
    using that by (intro andThen_stray stray_restore stray_fillStage)
  then have removed: "strayFree (snd (removeAllStage E stage (snd (andThen (fillStage E l stage d1) (\<lambda>_ d. restoreFromStage E l stage d)))))"
    if "strayFree d1" for l stage d1
    using that by (intro stray_removals(1))
  show ?thesis unfolding LoadSnapshot_def
    by (rule andThen_stray, rule stray_recover, rule assms, rule andThen_stray, rule stray_steps(6), assumption,
        rule andThen_stray, rule stray_steps(7), assumption)
      (simp only: split_beta snd_conv removed)
qed


section \<open>Recovery without faults\<close>

lemma directoryExists_no_fault:
  assumes "\<forall>n. \<not> e_fault E n" "entry \<noteq> Some NotDirectory"
  shows "fst (directoryExists E entry d) = Inr (entry \<noteq> None)"
  using assms by (cases entry; cases "the entry") (simp_all add: directoryExists_def sysD_then_no_fault)

lemma removeEntries_no_fault:
  "\<forall>n. \<not> e_fault E n \<Longrightarrow> fst (removeEntries E fs m w) = fmdrop_set (set fs) m"
proof (induction fs arbitrary: m w)
  case (Cons f fs)
  have "fmdrop_set (set fs) (fmdrop f m) = fmdrop_set (set (f # fs)) m" by (rule fmap_ext) auto
  with Cons show ?case by (simp add: runSys_no_fault del: runSys.simps)
qed simp

lemma removeEntry_no_fault: "\<forall>n. \<not> e_fault E n \<Longrightarrow> fst (removeEntry E x w) = None"
  by (simp add: removeEntry_def runSys_no_fault del: runSys.simps split: option.split)

lemma removeObjectTree_no_fault:
  assumes "\<forall>n. \<not> e_fault E n"
  shows "fst (removeObjectTree E x w) = None"
proof (cases x)
  case (Some m)
  obtain m1 w1 where r: "removeEntries E (fmkeys m) m w = (m1, w1)" by fastforce
  have "m1 = fmdrop_set (set (fmkeys m)) m" using removeEntries_no_fault [OF assms, of "fmkeys m" m w] r by simp
  then have "fmnull m1" by (auto simp: fmnull_lookup set_fmkeys fmdom_notD)
  with removeEntry_no_fault [OF assms, of "Some m1" w1] Some r show ?thesis by (simp add: removeObjectTree_def)
qed (simp add: removeObjectTree_def)

lemma removeTarget_no_fault:
  assumes "\<forall>n. \<not> e_fault E n"
  shows "fst (removeTarget E t w) = None"
proof -
  obtain objs w1 where r1: "removeObjectTree E (td_objects t) w = (objs, w1)" by fastforce
  obtain st w2 where r2: "removeEntry E (td_state t) w1 = (st, w2)" by fastforce
  have "objs = None" "st = None"
    using removeObjectTree_no_fault [OF assms, of "td_objects t" w] removeEntry_no_fault [OF assms, of "td_state t" w1] r1 r2
    by simp_all
  with removeEntry_no_fault [OF assms] r1 r2 show ?thesis by (simp add: removeTarget_def Let_def)
qed

lemma removals_no_fault:
  assumes "\<forall>n. \<not> e_fault E n"
  shows "fst (removeAllStage E stage d) = Inr ()" "fst (removeAllBackup E backup d) = Inr ()"
    "fst (removeAllObjects E d) = Inr ()"
proof -
  show "fst (removeAllStage E stage d) = Inr ()"
    using removeTarget_no_fault [OF assms]
    by (auto simp: removeAllStage_def removalResult_def split: option.split dirent.split prod.split) (metis fst_conv option.distinct(1))
  show "fst (removeAllBackup E backup d) = Inr ()"
    using removeObjectTree_no_fault [OF assms]
    by (auto simp: removeAllBackup_def removalResult_def split: option.split dirent.split prod.split) (metis fst_conv option.distinct(1))
  show "fst (removeAllObjects E d) = Inr ()"
    using removeObjectTree_no_fault [OF assms, of "Some (w_objects (dd_world d))" "dd_world d"]
    by (auto simp: removeAllObjects_def split: option.split prod.split)
qed

lemma removeDirectoryIfPresent_no_fault:
  assumes "\<forall>n. \<not> e_fault E n" "entry \<noteq> Some NotDirectory" "\<And>d. fst (remover d) = Inr ()"
  shows "fst (removeDirectoryIfPresent E entry remover d) = Inr ()"
  by (simp add: removeDirectoryIfPresent_def andThen_no_fault [OF directoryExists_no_fault [OF assms(1,2)]] assms(3))

lemma finishRecovery_no_fault:
  assumes nf: "\<forall>n. \<not> e_fault E n" and "strayFree d"
  shows "fst (finishRecovery E j d) = Inr ()"
proof -
  have e: "fmlookup (dd_stages d) (rj_StageDirectory j) \<noteq> Some NotDirectory" using assms(2) by (simp add: strayFree_def)
  note r = removeDirectoryIfPresent_no_fault [OF nf e removals_no_fault(1) [OF nf]]
  show ?thesis
    by (simp add: finishRecovery_def andThen_no_fault [OF r] syncDirectory_def sysD_then_no_fault [OF nf] sysD_no_fault [OF nf])
qed

lemma objectsEntry_directory [simp]: "objectsEntry d \<noteq> Some NotDirectory"
  by (simp add: objectsEntry_def)

lemma keepNewObjects_no_fault:
  assumes nf: "\<forall>n. \<not> e_fault E n" and "strayFree d" "dd_hasObjects d"
  shows "fst (keepNewObjects E j d) = Inr ()"
proof -
  let ?d1 = "snd (directoryExists E (objectsEntry d) d)"
  have "objectsEntry d \<noteq> None" using assms(3) by (simp add: objectsEntry_def)
  then have q: "fst (directoryExists E (objectsEntry d) d) = Inr True"
    using directoryExists_no_fault [OF nf objectsEntry_directory] by simp
  have "strayFree ?d1" using assms(2) by (rule stray_steps)
  then have "fmlookup (dd_backups ?d1) (rj_BackupDirectory j) \<noteq> Some NotDirectory" by (simp add: strayFree_def)
  from removeDirectoryIfPresent_no_fault [OF nf this removals_no_fault(2) [OF nf]] show ?thesis
    by (simp add: keepNewObjects_def Let_def andThen_no_fault [OF q])
qed

lemma renameBackupToObjects_no_fault:
  assumes nf: "\<forall>n. \<not> e_fault E n" and "\<not> dd_hasObjects d" "fmlookup (dd_backups d) backup = Some (Directory m)"
  shows "fst (renameBackupToObjects E backup d) = Inr ()"
  using assms(2,3) by (simp add: renameBackupToObjects_def sysD_then_no_fault [OF nf] sysOnly_same [OF sysD_sysOnly])

lemma requireDirectory_no_fault:
  assumes "\<forall>n. \<not> e_fault E n" "entry \<noteq> Some NotDirectory" "entry \<noteq> None"
  shows "fst (requireDirectory E entry d) = Inr ()"
  using assms(3) unfolding requireDirectory_def andThen_no_fault [OF directoryExists_no_fault [OF assms(1,2)]] by simp

lemma objectsEntry_None: "objectsEntry d = None \<longleftrightarrow> \<not> dd_hasObjects d"
  by (simp add: objectsEntry_def)

lemma removeObjects_no_fault:
  assumes nf: "\<forall>n. \<not> e_fault E n"
  shows "fst (removeDirectoryIfPresent E (objectsEntry d) (removeAllObjects E) d) = Inr ()"
    "\<not> dd_hasObjects (snd (removeDirectoryIfPresent E (objectsEntry d) (removeAllObjects E) d))"
    "dd_backups (snd (removeDirectoryIfPresent E (objectsEntry d) (removeAllObjects E) d)) = dd_backups d"
proof -
  let ?r = "removeDirectoryIfPresent E (objectsEntry d) (removeAllObjects E) d"
  let ?q = "directoryExists E (objectsEntry d) d"
  show r: "fst ?r = Inr ()"
    by (rule removeDirectoryIfPresent_no_fault [OF nf objectsEntry_directory removals_no_fault(3) [OF nf]])
  have q: "fst ?q = Inr (dd_hasObjects d)"
    using directoryExists_no_fault [OF nf objectsEntry_directory] by (simp only: objectsEntry_None not_not)
  note s = sysOnly_dirs [OF directoryExists_sysOnly [of d E "objectsEntry d"]]
  have "\<not> dd_hasObjects (snd ?r) \<and> dd_backups (snd ?r) = dd_backups d"
  proof (cases "dd_hasObjects d")
    case True
    then have "?r = removeAllObjects E (snd ?q)"
      by (simp add: removeDirectoryIfPresent_def andThen_no_fault [OF q])
    then have e: "removeAllObjects E (snd ?q) = (Inr (), snd ?r)" using r by (metis prod.collapse)
    from removeAllObjects_frame(1,8) [OF e] show ?thesis by (simp add: s)
  next
    case False
    then have "?r = (Inr (), snd ?q)" by (simp add: removeDirectoryIfPresent_def andThen_no_fault [OF q])
    with False show ?thesis by (simp add: s)
  qed
  then show "\<not> dd_hasObjects (snd ?r)" "dd_backups (snd ?r) = dd_backups d" by blast+
qed

lemma restoreOldObjects_no_fault:
  assumes nf: "\<forall>n. \<not> e_fault E n" and p: "pending j old oldObjs d"
  shows "fst (restoreOldObjects E j d) = Inr ()"
proof -
  let ?b = "rj_BackupDirectory j"
  let ?e = "fmlookup (dd_backups d) ?b"
  let ?d1 = "snd (directoryExists E ?e d)"
  have nd: "?e \<noteq> Some NotDirectory" using p by (auto simp: pending_def)
  note q = andThen_no_fault [OF directoryExists_no_fault [OF nf nd]]
  note s = sysOnly_same [OF directoryExists_sysOnly [of d E ?e]]
  show ?thesis
  proof (cases ?e)
    case None
    have "dd_hasObjects ?d1" unfolding sysOnly_dirs(1) [OF directoryExists_sysOnly] using p None by (simp add: pending_def)
    then have "objectsEntry ?d1 \<noteq> None" by (simp add: objectsEntry_def)
    from requireDirectory_no_fault [OF nf objectsEntry_directory this, of ?d1]
    show ?thesis unfolding restoreOldObjects_def Let_def q using None by simp
  next
    case (Some b)
    have b: "fmlookup (dd_backups ?d1) ?b = Some (Directory oldObjs)" unfolding sysOnly_dirs(4) [OF directoryExists_sysOnly]
      using p Some by (simp add: pending_def)
    let ?r = "removeDirectoryIfPresent E (objectsEntry ?d1) (removeAllObjects E) ?d1"
    note r = removeObjects_no_fault [OF nf, of ?d1]
    from r b have "fst (renameBackupToObjects E ?b (snd ?r)) = Inr ()"
      by (intro renameBackupToObjects_no_fault [OF nf, of _ _ oldObjs]) simp_all
    then show ?thesis unfolding restoreOldObjects_def Let_def q andThen_no_fault [OF r(1)] using Some by simp
  qed
qed


lemma persistedStateDigest_no_fault:
  assumes nf: "\<forall>n. \<not> e_fault E n" and c: "canonicalDigest E (w_state_json w) = Some x"
    and sz: "\<And>doc. w_state_json w = Some doc \<Longrightarrow> e_stateSize E doc \<le> maxPersistentStateSize"
  shows "fst (persistedStateDigest E (diskFile w) d) = Inr x"
proof (cases "w_state_json w")
  case None
  with nf c show ?thesis
    by (simp add: persistedStateDigest_def onWorld_def diskFile_def readPersistentStateFile_def runSys_no_fault
        canonicalDigest_def del: runSys.simps)
next
  case (Some doc)
  with sz have "\<not> e_stateSize E doc > maxPersistentStateSize" by simp
  with nf c Some show ?thesis
    by (auto simp: persistedStateDigest_def onWorld_def diskFile_def readPersistentStateFile_def runSys_no_fault
        canonicalDigest_def simp del: runSys.simps split: if_splits)
qed

text \<open>
  The state file is small enough to be read, and its digest can be computed. Every state the store
  commits has a digest.
\<close>

definition readableState :: "env \<Rightarrow> state_doc option \<Rightarrow> bool" where
  "readableState E s \<longleftrightarrow>
     canonicalDigest E s \<noteq> None \<and>
     (case s of None \<Rightarrow> True | Some doc \<Rightarrow> e_stateSize E doc \<le> maxPersistentStateSize)"

lemma recover_no_fault:
  assumes nf: "\<forall>n. \<not> e_fault E n" and inv: "restoring j target newObjs old oldObjs d"
    and dec: "decides E j target old" and stray: "strayFree d"
    and j: "validateSnapshotRestoreJournal j = None" "journalSize j \<le> 16384"
    and rd: "readableState E (w_state_json (dd_world d))"
  shows "fst (recoverNow E d) = Inr ()"
proof (cases "dd_journal d")
  case None
  then show ?thesis
    by (simp add: recoverSnapshotRestore_def sysD_then_no_fault [OF nf] sysOnly_same [OF sysD_sysOnly])
next
  case (Some jf)
  let ?f = "diskFile (dd_world d)"
  let ?d1 = "snd (sysD E [Lstat] d)"
  let ?d2 = "snd (sysD E [ReadFile] ?d1)"
  let ?d3 = "snd (persistedStateDigest E ?f ?d2)"
  have jf: "jf = journalFile j" and gp: "generation (Some target) newObjs d \<or> pending j old oldObjs d"
    using inv Some by (auto simp: restoring_def)
  have s3: "sysOnly d ?d3"
    using sysOnly_trans [OF sysOnly_trans [OF sysD_sysOnly sysD_sysOnly] persistedStateDigest_sysOnly] .
  obtain x where x: "canonicalDigest E (w_state_json (dd_world d)) = Some x"
    and dg: "fst (persistedStateDigest E ?f ?d2) = Inr x"
    using rd persistedStateDigest_no_fault [OF nf, of "dd_world d"]
    by (auto simp: readableState_def split: option.splits)
  let ?branch = "if equalFold x (rj_TargetStateSHA256 j) then keepNewObjects E j ?d3 else restoreOldObjects E j ?d3"
  have st3: "strayFree ?d3" using stray by (simp add: strayFree_sysOnly [OF s3])
  have br: "fst ?branch = Inr ()"
    using gp
  proof
    assume g: "generation (Some target) newObjs d"
    then have "equalFold x (rj_TargetStateSHA256 j)" using x dec by (simp add: decides_def generation_def)
    moreover have "dd_hasObjects ?d3" using g sysOnly_dirs(1) [OF s3] by (simp add: generation_def)
    ultimately show ?thesis using keepNewObjects_no_fault [OF nf st3] by simp
  next
    assume p: "pending j old oldObjs d"
    then have "\<not> equalFold x (rj_TargetStateSHA256 j)" using x dec by (simp add: decides_def pending_def)
    moreover have "pending j old oldObjs ?d3" using p pending_sysOnly [OF s3] by blast
    ultimately show ?thesis using restoreOldObjects_no_fault [OF nf] by simp
  qed
  have "strayFree (snd ?branch)" using st3 unfolding keepNewObjects_def restoreOldObjects_def Let_def
    by (auto intro!: stray_rules)
  then have fin: "fst (finishRecovery E j (snd ?branch)) = Inr ()" by (rule finishRecovery_no_fault [OF nf])
  have "recoverNow E d = finishRecovery E j (snd ?branch)"
    unfolding recoverSnapshotRestore_def sysD_then_no_fault [OF nf]
    using Some jf j by (simp add: sysOnly_same [OF sysD_sysOnly] sysD_then_no_fault [OF nf] andThen_no_fault [OF dg] andThen_no_fault [OF br])
  with fin show ?thesis by simp
qed

section \<open>The journals the code writes\<close>

text \<open>What the code relies on: the random part of a temporary name is a short, non-empty file name.\<close>

definition tempNamesOK :: "env \<Rightarrow> bool" where
  "tempNamesOK E \<longleftrightarrow> (\<forall>n. e_tmp E n \<noteq> [] \<and> CHR ''/'' \<notin> set (e_tmp E n) \<and> length (e_tmp E n) \<le> 200)"

lemma escapedSize_le: "escapedSize c \<le> 6"
  by (simp add: escapedSize_def Let_def)

lemma quotedSize_le: "quotedSize s \<le> 2 + 6 * int (length s)"
proof -
  have "sum_list (map escapedSize s) \<le> 6 * int (length s)"
    by (induction s) (use escapedSize_le in \<open>auto intro: order_trans [OF add_mono]\<close>)
  then show ?thesis by (simp add: quotedSize_def)
qed

lemma newJournal_ok:
  assumes t: "tempNamesOK E" and dl: "\<And>b. length (e_sha256 E b) = 32"
  shows "validateSnapshotRestoreJournal
      (newJournal E (''.objects-backup-'' @ e_tmp E i) (''.snapshot-restore-'' @ e_tmp E k) target) = None"
    and "journalSize (newJournal E (''.objects-backup-'' @ e_tmp E i) (''.snapshot-restore-'' @ e_tmp E k) target) \<le> 16384"
proof -
  let ?b = "''.objects-backup-'' @ e_tmp E i"
  let ?s = "''.snapshot-restore-'' @ e_tmp E k"
  have n: "e_tmp E i \<noteq> []" "e_tmp E k \<noteq> []" "CHR ''/'' \<notin> set (e_tmp E i)" "CHR ''/'' \<notin> set (e_tmp E k)"
    "length (e_tmp E i) \<le> 200" "length (e_tmp E k) \<le> 200" using t by (simp_all add: tempNamesOK_def)
  show "validateSnapshotRestoreJournal (newJournal E ?b ?s target) = None"
    using n dl by (simp add: validateSnapshotRestoreJournal_def newJournal_def Let_def hasPrefix_def stateDigest_def hexDecode_hexEncode)
  have len: "length ?b \<le> 216" "length ?s \<le> 218" "length (stateDigest E target) = 64"
    "length snapshotRestoreJournalVersion = 23"
    using n dl by (simp_all add: stateDigest_def snapshotRestoreJournalVersion_def)
  have "quotedSize ?b \<le> 1298" "quotedSize ?s \<le> 1310" "quotedSize (stateDigest E target) \<le> 386"
    "quotedSize snapshotRestoreJournalVersion \<le> 140"
    using quotedSize_le [of ?b] quotedSize_le [of ?s] quotedSize_le [of "stateDigest E target"]
      quotedSize_le [of snapshotRestoreJournalVersion] len by linarith+
  moreover have "quotedSize ''schemaVersion'' \<le> 80" "quotedSize ''backupDirectory'' \<le> 92"
    "quotedSize ''stageDirectory'' \<le> 86" "quotedSize ''targetStateSha256'' \<le> 104"
    using quotedSize_le [of "''schemaVersion''"] quotedSize_le [of "''backupDirectory''"]
      quotedSize_le [of "''stageDirectory''"] quotedSize_le [of "''targetStateSha256''"] by simp_all
  ultimately show "journalSize (newJournal E ?b ?s target) \<le> 16384"
    unfolding journalSize_def memberSize_def newJournal_def snapshotRestoreJournal.simps by linarith
qed

end
