(* ===== verification/Snapshot_Reopen.thy ===== *)
theory Snapshot_Reopen
  imports Snapshot_Progress
begin

text \<open>
  Interrupted loads end to end: any number of recoveries, each with its own failing calls, and the
  opening of the store by a new process.
\<close>

section \<open>Recoveries in sequence\<close>

text \<open>Attempts to recover, each with its own schedule of failing calls.\<close>

definition recoverAttempts :: "env \<Rightarrow> (nat \<Rightarrow> bool) list \<Rightarrow> datadir \<Rightarrow> datadir" where
  "recoverAttempts E fs d = fold (\<lambda>f d. snd (recoverNow (withFaults f E) d)) fs d"

lemma withFaults_digests [simp]:
  "stateDigest (withFaults f E) = stateDigest E" "canonicalDigest (withFaults f E) = canonicalDigest E"
  "decides (withFaults f E) = decides E" "newJournal (withFaults f E) = newJournal E"
  "e_tmp (withFaults f E) = e_tmp E" "e_stateParse (withFaults f E) = e_stateParse E"
proof -
  show s: "stateDigest (withFaults f E) = stateDigest E" by (simp add: fun_eq_iff stateDigest_def)
  show c: "canonicalDigest (withFaults f E) = canonicalDigest E" by (rule ext) (simp only: canonicalDigest_def s)
  show "decides (withFaults f E) = decides E" by (simp add: fun_eq_iff decides_def c)
  show "newJournal (withFaults f E) = newJournal E" by (simp add: fun_eq_iff newJournal_def s)
  show "e_tmp (withFaults f E) = e_tmp E" "e_stateParse (withFaults f E) = e_stateParse E"
    by (simp_all add: withFaults_def)
qed

lemma snapshotDocOf_withFaults [simp]: "snapshotDocOf (withFaults f E) = snapshotDocOf E"
  by (rule ext) (simp only: snapshotDocOf_def withFaults_digests)

lemma restorable_withFaults [simp]: "restorable (withFaults f E) = restorable E"
  by (simp add: fun_eq_iff restorable_def)

lemma recoverAttempts_keeps:
  assumes "restoring j target newObjs old oldObjs d" "decides E j target old"
  shows "restoring j target newObjs old oldObjs (recoverAttempts E fs d)"
    "w_state_json (dd_world (recoverAttempts E fs d)) = w_state_json (dd_world d)"
    "strayFree d \<Longrightarrow> strayFree (recoverAttempts E fs d)"
proof -
  have "restoring j target newObjs old oldObjs (recoverAttempts E fs d) \<and>
    w_state_json (dd_world (recoverAttempts E fs d)) = w_state_json (dd_world d) \<and>
    (strayFree d \<longrightarrow> strayFree (recoverAttempts E fs d))"
    using assms(1)
  proof (induction fs arbitrary: d)
    case Nil
    then show ?case by (simp add: recoverAttempts_def)
  next
    case (Cons f fs)
    let ?d1 = "snd (recoverNow (withFaults f E) d)"
    have "restoring j target newObjs old oldObjs ?d1"
      by (rule recover_restoring(1) [OF Cons.prems, of "withFaults f E" "fst (recoverNow (withFaults f E) d)"])
        (simp_all add: assms(2))
    from Cons.IH [OF this] recover_meta [OF metaSame_refl, of d "withFaults f E" "diskFile (dd_world d)"]
      stray_recover [of d "withFaults f E" "diskFile (dd_world d)"]
    show ?case by (simp add: recoverAttempts_def metaSame_def)
  qed
  then show "restoring j target newObjs old oldObjs (recoverAttempts E fs d)"
    "w_state_json (dd_world (recoverAttempts E fs d)) = w_state_json (dd_world d)"
    "strayFree d \<Longrightarrow> strayFree (recoverAttempts E fs d)" by blast+
qed

section \<open>The outcome of a load\<close>

text \<open>The journal a load would write; the invariant holds whether it was written or not.\<close>

lemma LoadSnapshot_restoring:
  assumes run: "LoadSnapshot E name d = (r, d')" and set: "settled d" and rs: "restorable E name s data target d"
  obtains j i k where "j = newJournal E (''.objects-backup-'' @ e_tmp E i) (''.snapshot-restore-'' @ e_tmp E k) target"
    "decides E j target (w_state_json (dd_world d))"
    "restoring j target (restoredObjects s data) (w_state_json (dd_world d)) (w_objects (dd_world d)) d'"
    "\<forall>info. r = Inr info \<longrightarrow> generation (Some target) (restoredObjects s data) d' \<and> liveAs data (Some target) d'"
    "\<forall>e. r = Inl e \<longrightarrow> liveAs (w_data (dd_world d)) (w_state_json (dd_world d)) d'"
  using run set rs
proof (cases rule: LoadSnapshot_cases)
  case (1 e')
  let ?j = "newJournal E (''.objects-backup-'' @ e_tmp E 0) (''.snapshot-restore-'' @ e_tmp E 0) target"
  show ?thesis
    by (rule that [OF refl, of 0 0]) (use 1 restorable_decides [OF _ rs] set in
      \<open>auto simp: settled_def unchanged_def restoring_def\<close>)
next
  case (2 backup stage i k l)
  show ?thesis
    by (rule that [OF refl, of i k]) (use 2 restorable_decides [OF _ rs] set in
      \<open>auto simp: settled_def installed_def\<close>)
qed

lemma recovered_cases:
  assumes run: "LoadSnapshot E name d = (r, d')" and set: "settled d" and rs: "restorable E name s data target d"
    and rec: "recoverNow (withFaults f E) (recoverAttempts E fs d') = (Inr (), d'')"
  shows "dd_journal d'' = None"
    and "generation (w_state_json (dd_world d)) (w_objects (dd_world d)) d'' \<or>
      generation (Some target) (restoredObjects s data) d''"
    and "r = Inr info \<Longrightarrow> generation (Some target) (restoredObjects s data) d''"
proof -
  obtain j i k where j: "decides E j target (w_state_json (dd_world d))"
    "restoring j target (restoredObjects s data) (w_state_json (dd_world d)) (w_objects (dd_world d)) d'"
    "\<forall>info. r = Inr info \<longrightarrow> generation (Some target) (restoredObjects s data) d' \<and> liveAs data (Some target) d'"
    by (rule LoadSnapshot_restoring [OF run set rs])
  note k = recoverAttempts_keeps [OF j(2,1), of fs]
  have dec: "decides (withFaults f E) j target (w_state_json (dd_world d))" using j(1) by simp
  note r = recover_restoring [OF k(1) dec rec]
  show none: "dd_journal d'' = None" using r(2) by simp
  with r(1) show "generation (w_state_json (dd_world d)) (w_objects (dd_world d)) d'' \<or>
      generation (Some target) (restoredObjects s data) d''" by (simp add: restoring_def)
  assume "r = Inr info"
  with j(3) have "w_state_json (dd_world d') = Some target" by (simp add: generation_def)
  moreover have "w_state_json (dd_world d'') = w_state_json (dd_world (recoverAttempts E fs d'))"
    using recover_meta [OF metaSame_refl, of "recoverAttempts E fs d'" "withFaults f E"] rec by (simp add: metaSame_def) (metis snd_conv)
  ultimately have s: "w_state_json (dd_world d'') = Some target" using k(2) by simp
  have "canonicalDigest E (Some target) \<noteq> None"
    using rs canonicalDigest_encoded [of data target E] by (simp add: restorable_def)
  with restoring_committed [OF r(1) j(1) _ s] show "generation (Some target) (restoredObjects s data) d''" by blast
qed


section \<open>Opening after an interrupted load\<close>

text \<open>\<open>lockOnly\<close>: besides supplies of the environment only the lock has changed.\<close>

definition lockOnly :: "datadir \<Rightarrow> datadir \<Rightarrow> bool" where
  "lockOnly d d' \<longleftrightarrow> (\<exists>l ow. sysOnly (d\<lparr>dd_locked := l, dd_owner := ow\<rparr>) d')"

lemma lockOnly_frame:
  assumes "lockOnly d d'"
  shows "restoring j t n old oldObjs d' = restoring j t n old oldObjs d" "strayFree d' = strayFree d"
    "w_state_json (dd_world d') = w_state_json (dd_world d)" "diskFile (dd_world d') = diskFile (dd_world d)"
    "w_ids (dd_world d') = w_ids (dd_world d)"
proof -
  obtain l ow where s: "sysOnly (d\<lparr>dd_locked := l, dd_owner := ow\<rparr>) d'" using assms by (auto simp: lockOnly_def)
  have "restoring j t n old oldObjs (d\<lparr>dd_locked := l, dd_owner := ow\<rparr>) = restoring j t n old oldObjs d"
    by (simp add: restoring_def generation_def pending_def split: option.split)
  then show "restoring j t n old oldObjs d' = restoring j t n old oldObjs d" by (simp add: restoring_sysOnly [OF s])
  show "strayFree d' = strayFree d" by (simp add: strayFree_sysOnly [OF s]) (simp add: strayFree_def)
  show "w_state_json (dd_world d') = w_state_json (dd_world d)" "diskFile (dd_world d') = diskFile (dd_world d)"
    "w_ids (dd_world d') = w_ids (dd_world d)" by (simp_all add: sysOnly_world [OF s])
qed

lemma now_sysOnly: "sysOnly d (snd (onWorld (now E) d))"
proof -
  have "d\<lparr>dd_world := (dd_world d)\<lparr>w_clock := c\<rparr>\<rparr> =
      inWorld (\<lambda>w. w\<lparr>w_sys := w_sys w, w_tmps := w_tmps w, w_clock := c\<rparr>) d" for c by simp
  then have "sysOnly d (d\<lparr>dd_world := (dd_world d)\<lparr>w_clock := c\<rparr>\<rparr>)" for c unfolding sysOnly_def by blast
  then show ?thesis by (simp add: onWorld_def now_def)
qed

lemma sysOnly_lock_update:
  "sysOnly d d' \<Longrightarrow> sysOnly (d\<lparr>dd_locked := l\<rparr>) (d'\<lparr>dd_locked := l\<rparr>)"
  "sysOnly d d' \<Longrightarrow> sysOnly (d\<lparr>dd_owner := ow\<rparr>) (d'\<lparr>dd_owner := ow\<rparr>)"
  by (cases d; clarsimp simp: sysOnly_def; blast)+

text \<open>Without faults a free lock is taken.\<close>

lemma acquire_no_fault:
  assumes nf: "\<forall>n. \<not> e_fault E n" and free: "\<not> dd_locked d"
  shows "fst (acquireDataDirLock E dir pid d) = Inr ()" "lockOnly d (snd (acquireDataDirLock E dir pid d))"
proof -
  obtain d1 where 1: "sysD E [Open] d = (Inr (), d1)" using sysD_no_fault [OF nf] by (metis prod.collapse)
  obtain d2 where 2: "sysD E [Chmod] d1 = (Inr (), d2)" using sysD_no_fault [OF nf] by (metis prod.collapse)
  obtain d3 where 3: "sysD E [Flock] d2 = (Inr (), d3)" using sysD_no_fault [OF nf] by (metis prod.collapse)
  obtain t d4 where 4: "onWorld (now E) (d3\<lparr>dd_locked := True\<rparr>) = (t, d4)" by fastforce
  obtain d5 where 5: "sysD E [Truncate] d4 = (Inr (), d5)" using sysD_no_fault [OF nf] by (metis prod.collapse)
  obtain d6 where 6: "sysD E [Seek] (d5\<lparr>dd_owner := None\<rparr>) = (Inr (), d6)" using sysD_no_fault [OF nf] by (metis prod.collapse)
  obtain d7 where 7: "sysD E [Write] d6 = (Inr (), d7)" using sysD_no_fault [OF nf] by (metis prod.collapse)
  let ?ow = "Some \<lparr>lo_PID = pid, lo_StartedAt = t\<rparr>"
  obtain d8 where 8: "sysD E [Sync] (d7\<lparr>dd_owner := ?ow\<rparr>) = (Inr (), d8)" using sysD_no_fault [OF nf] by (metis prod.collapse)
  have s3: "sysOnly d d3" using sysD_D [OF 1] sysD_D [OF 2] sysD_D [OF 3] sysOnly_trans by blast
  have "\<not> dd_locked d3" using free by (simp add: sysOnly_dirs [OF s3])
  then have a: "acquireDataDirLock E dir pid d = (Inr (), d8)"
    using 1 2 3 4 5 6 7 8 by (simp add: acquireDataDirLock_def)
  then show "fst (acquireDataDirLock E dir pid d) = Inr ()" by simp
  have "sysOnly (d3\<lparr>dd_locked := True\<rparr>) d4" using now_sysOnly [of "d3\<lparr>dd_locked := True\<rparr>" E] 4 by simp
  from sysOnly_trans [OF sysOnly_trans [OF sysOnly_lock_update(1) [OF s3] this] sysD_D [OF 5]]
  have "sysOnly (d\<lparr>dd_locked := True\<rparr>) d5" .
  from sysOnly_trans [OF sysOnly_trans [OF sysOnly_lock_update(2) [OF this] sysD_D [OF 6]] sysD_D [OF 7]]
  have "sysOnly (d\<lparr>dd_locked := True, dd_owner := None\<rparr>) d7" .
  from sysOnly_trans [OF sysOnly_lock_update(2) [OF this, of ?ow] sysD_D [OF 8]]
  have "sysOnly (d\<lparr>dd_locked := True, dd_owner := ?ow\<rparr>) d8" by simp
  then show "lockOnly d (snd (acquireDataDirLock E dir pid d))" using a by (auto simp: lockOnly_def)
qed

lemma lockOnly_sysOnly: "sysOnly d d1 \<Longrightarrow> lockOnly d1 d' \<Longrightarrow> lockOnly d d'"
  unfolding lockOnly_def
  using sysOnly_lock_update sysOnly_trans by meson

text \<open>
  The world a recovery leaves, as the store had committed it: the identifiers already drawn are the
  only thing a new process does not forget.
\<close>

lemma generation_holds_old:
  assumes h: "ok.holds E S w" and g: "generation (w_state_json w) (w_objects w) d"
    and ids: "w_ids w \<le> w_ids (dd_world d)"
  shows "\<exists>m c. ok.holds E S (openedWith (dd_world d) m (w_data w) c)"
proof -
  have same: "durable (openedWith (dd_world d) (w_integrityMode w) (w_data w) (w_committedRaw w)) = durable w"
    using g by (simp add: durable_def diskState_def diskDoc_def generation_def)
  have "storeOK E S (w_ids (dd_world d)) (w_objects w) (w_data w)"
    using h ids ok.inv_ids by (auto simp: ok.holds_def)
  with h g same have "ok.holds E S (openedWith (dd_world d) (w_integrityMode w) (w_data w) (w_committedRaw w))"
    by (simp add: ok.holds_def generation_def)
  then show ?thesis by blast
qed

lemma generation_holds_new:
  assumes enc: "encodeSnapshot data = Some target" and clean: "dynamo_clean data"
    and ok: "storeOK E S n objs data" and n: "n \<le> w_ids (dd_world d)" and g: "generation (Some target) objs d"
  shows "\<exists>m c. ok.holds E S (openedWith (dd_world d) m data c)"
proof -
  have "durable (openedWith (dd_world d) IntegrityModeStrict data (Some target))"
    using g decode_encode [OF enc clean] enc clean
    by (simp add: durable_def diskState_def diskDoc_def generation_def)
  moreover have "storeOK E S (w_ids (dd_world d)) objs data" using ok n by (rule ok.inv_ids)
  ultimately have "ok.holds E S (openedWith (dd_world d) IntegrityModeStrict data (Some target))"
    using g by (simp add: ok.holds_def generation_def)
  then show ?thesis by blast
qed

lemma openData_generation:
  assumes h: "ok.holds E S (openedWith w m data c)" and nf: "\<forall>i. \<not> e_fault E i"
    and sz: "e_stateSize E (diskDoc w) \<le> maxPersistentStateSize"
  shows "\<exists>w'. openData E mode (diskFile w) w = (Inr (), w') \<and> ok.holds E S w' \<and> sameLive (w_data w') data"
proof -
  let ?w = "openedWith w m data c"
  have w: "w = openedWith ?w (w_integrityMode w) (w_data w) (w_committedRaw w)" by simp
  have f: "diskFile ?w = diskFile w" "diskDoc ?w = diskDoc w" by (simp_all add: diskFile_def diskDoc_def)
  from open_succeeds [OF h nf _ w] sz f obtain w' where run: "openData E mode (diskFile ?w) w = (Inr (), w')" by auto
  note r = open_committed [OF h w run]
  have "sameLive (w_data w') data" using r(2) sameLive_disk [OF h] by simp
  with run r(1) f show ?thesis by auto
qed


text \<open>A load draws no identifiers.\<close>

definition idsAre :: "nat \<Rightarrow> datadir \<Rightarrow> bool" where
  "idsAre n d \<longleftrightarrow> w_ids (dd_world d) = n"

named_theorems ids_rules \<open>steps that draw no identifier\<close>

lemma idsAre_sysOnly: "sysOnly d d' \<Longrightarrow> idsAre n d' = idsAre n d"
  by (simp add: idsAre_def sysOnly_same)

lemma idsAre_meta: "metaSame d d' \<Longrightarrow> idsAre n d' = idsAre n d"
  by (simp add: idsAre_def metaSame_def)

lemma andThen_ids [ids_rules]:
  "idsAre n (snd m) \<Longrightarrow> (\<And>x d1. idsAre n d1 \<Longrightarrow> idsAre n (snd (f x d1))) \<Longrightarrow> idsAre n (snd (andThen m f))"
  by (rule andThen_snd) auto

lemma ids_steps [ids_rules]:
  assumes "idsAre n d"
  shows "idsAre n (snd (sysD E cs d))" "idsAre n (snd (syncDirectory E d))"
    "idsAre n (snd (readSnapshot E name d))" "idsAre n (snd (mkdirTemp E pattern taken d))"
    "idsAre n (snd (recoverSnapshotRestore E file d))" "idsAre n (snd (removeAllStage E stage d))"
    "idsAre n (snd (renameObjectsToBackup E backup d))" "idsAre n (snd (renameStagedObjects E stage d))"
  using assms idsAre_sysOnly [OF sysD_sysOnly] idsAre_sysOnly [OF readSnapshot_sysOnly] idsAre_sysOnly [OF mkdirTemp_sysOnly]
    idsAre_meta [OF recover_meta [OF metaSame_refl]] idsAre_meta [OF meta_frames(1) [OF metaSame_refl]]
    idsAre_meta [OF meta_renames(2) [OF metaSame_refl]] idsAre_meta [OF meta_renames(3) [OF metaSame_refl]]
  by (simp_all add: syncDirectory_def)

lemma idsAre_dirs [simp]:
  "idsAre n (d\<lparr>dd_stages := x\<rparr>) = idsAre n d" "idsAre n (d\<lparr>dd_backups := y\<rparr>) = idsAre n d"
  "idsAre n (d\<lparr>dd_journal := z\<rparr>) = idsAre n d" "idsAre n (inWorld (\<lambda>w. w\<lparr>w_data := v\<rparr>) d) = idsAre n d"
  by (simp_all add: idsAre_def)

lemma ids_saveD [ids_rules]: "idsAre n d \<Longrightarrow> idsAre n (snd (saveD E d))"
proof -
  obtain r w where s: "saveLocked E (dd_world d) = (r, w)" by fastforce
  then have "w_ids w = w_ids (dd_world d)" by (cases rule: saveLocked_cases) auto
  with s show "idsAre n d \<Longrightarrow> idsAre n (snd (saveD E d))" by (cases r) (simp_all add: saveD_def idsAre_def)
qed

lemma ids_orRecover [ids_rules]:
  assumes "idsAre n (snd m)" and "\<And>d1. idsAre n d1 \<Longrightarrow> idsAre n (snd (f d1))"
  shows "idsAre n (snd (orRecover E m f))"
proof -
  obtain r d1 where m: "m = (r, d1)" by fastforce
  have "idsAre n (snd (recoverNow E d1))" using assms(1) m by (intro ids_steps) simp
  with assms m show ?thesis by (cases r) (auto simp: orRecover_def split: prod.splits sum.splits)
qed

lemma ids_restore:
  assumes "idsAre n d"
  shows "idsAre n (snd (restoreFromStage E l stage d))"
proof -
  have reserve: "idsAre n (snd (reserveBackup E d))"
  proof -
    obtain r d1 where "reserveBackup E d = (r, d1)" by fastforce
    with reserveBackup_cases(2) [OF this] assms show ?thesis by (auto simp: idsAre_sysOnly)
  qed
  have journal: "idsAre n (snd (writeSnapshotRestoreJournal E j d1))" if "idsAre n d1" for j d1
    unfolding writeSnapshotRestoreJournal_def using that by (auto intro!: ids_rules)
  have install: "idsAre n (snd (installSnapshot E l stage backup d1))" if "idsAre n d1" for backup d1
    unfolding installSnapshot_def using that by (auto intro!: ids_rules)
  show ?thesis unfolding restoreFromStage_def
  proof (rule andThen_ids [OF reserve])
    fix backup d1
    assume s: "idsAre n d1"
    have "idsAre n (snd (recoverNow E d2))" if "idsAre n d2" for d2 using that by (rule ids_steps)
    with s journal [OF s] install show "idsAre n (snd (case encodeSnapshot (ls_data l) of
         None \<Rightarrow> (Inl marshalError, d1)
       | Some target \<Rightarrow>
          (case writeSnapshotRestoreJournal E (newJournal E backup stage target) d1 of
             (Inl e, d1) \<Rightarrow> (Inl e, snd (recoverNow E d1))
           | (Inr _, d1) \<Rightarrow> installSnapshot E l stage backup d1)))"
      by (auto split: option.split prod.split sum.split) (metis snd_conv)+
  qed
qed

lemma ids_load:
  assumes "idsAre n d"
  shows "idsAre n (snd (LoadSnapshot E name d))"
proof -
  have fill: "idsAre n (snd (fillStage E l stage d1))" if "idsAre n d1" for l stage d1
  proof -
    obtain r d2 where "fillStage E l stage d1 = (r, d2)" by fastforce
    with fillStage_cases(1) [OF this] that show ?thesis by (auto simp: idsAre_sysOnly)
  qed
  have "idsAre n (snd (andThen (fillStage E l stage d1) (\<lambda>_ d. restoreFromStage E l stage d)))"
    if "idsAre n d1" for l stage d1
    using that by (intro andThen_ids ids_restore fill)
  then have removed: "idsAre n (snd (removeAllStage E stage (snd (andThen (fillStage E l stage d1) (\<lambda>_ d. restoreFromStage E l stage d)))))"
    if "idsAre n d1" for l stage d1
    using that by (intro ids_steps(6))
  show ?thesis unfolding LoadSnapshot_def
    by (rule andThen_ids, rule ids_steps(5), rule assms, rule andThen_ids, rule ids_steps(3), assumption,
        rule andThen_ids, rule ids_steps(4), assumption)
      (simp only: split_beta snd_conv removed)
qed


text \<open>The part of \<open>OpenWithOptions\<close> after the arguments, without faults and with a free lock.\<close>

lemma open_restoring:
  assumes nf: "\<forall>n. \<not> e_fault E n" and inv: "restoring j target newObjs old oldObjs d"
    and dec: "decides E j target old" and stray: "strayFree d"
    and j: "validateSnapshotRestoreJournal j = None" "journalSize j \<le> 16384"
    and rd: "readableState E (w_state_json (dd_world d))" and dir: "dir \<noteq> ''''" and mode: "ParseIntegrityMode mode = Inr m"
  obtains d2 where "dd_journal d2 = None" "generation old oldObjs d2 \<or> generation (Some target) newObjs d2"
    "w_state_json (dd_world d2) = w_state_json (dd_world d)" "w_ids (dd_world d2) = w_ids (dd_world d)"
    "OpenWithOptions E dir mode pid (diskFile (dd_world d)) (d\<lparr>dd_locked := False\<rparr>) =
      (case onWorld (openData E m (diskFile (dd_world d2))) d2 of
         (Inl e, d3) \<Rightarrow> (Inl e, snd (releaseDataDirLock E d3)) | (Inr _, d3) \<Rightarrow> (Inr (), d3))"
proof -
  let ?d0 = "d\<lparr>dd_locked := False\<rparr>"
  let ?f = "diskFile (dd_world d)"
  obtain d1 where 1: "sysD E [Mkdir] ?d0 = (Inr (), d1)" using sysD_no_fault [OF nf] by (metis prod.collapse)
  note s1 = sysD_D [OF 1]
  have free: "\<not> dd_locked d1" by (simp add: sysOnly_dirs [OF s1])
  obtain d2 where 2: "acquireDataDirLock E dir pid d1 = (Inr (), d2)" using acquire_no_fault(1) [OF nf free] by (metis prod.collapse)
  have "lockOnly d1 d2" using acquire_no_fault(2) [OF nf free, of dir pid] 2 by simp
  from lockOnly_sysOnly [OF s1 this] have "lockOnly ?d0 d2" .
  then have "lockOnly d d2" by (simp add: lockOnly_def)
  note l = lockOnly_frame [OF this]
  have inv2: "restoring j target newObjs old oldObjs d2" "strayFree d2" "readableState E (w_state_json (dd_world d2))"
    using inv stray rd l by simp_all
  obtain d3 where 3: "recoverNow E d2 = (Inr (), d3)"
    using recover_no_fault [OF nf inv2(1) dec inv2(2) j inv2(3)] by (metis prod.collapse)
  note r = recover_restoring [OF inv2(1) dec 3]
  have m: "metaSame d2 d3" using recover_meta [OF metaSame_refl, of d2 E "diskFile (dd_world d2)"] 3 by simp
  have none: "dd_journal d3 = None" using r(2) by simp
  with r(1) have g: "generation old oldObjs d3 \<or> generation (Some target) newObjs d3" by (simp add: restoring_def)
  then have has: "dd_hasObjects d3" by (auto simp: generation_def)
  obtain d4 where 4: "sysD E [Mkdir] d3 = (Inr (), d4)" using sysD_no_fault [OF nf] by (metis prod.collapse)
  note s4 = sysD_D [OF 4]
  have mk: "makeObjects d4 = d4" using has by (simp add: makeObjects_def sysOnly_dirs [OF s4])
  obtain d5 where 5: "sysD E [Lstat] d4 = (Inr (), d5)" using sysD_no_fault [OF nf] by (metis prod.collapse)
  have s5: "sysOnly d3 d5" using s4 sysD_D [OF 5] by (rule sysOnly_trans)
  have st: "w_state_json (dd_world d5) = w_state_json (dd_world d)" "w_ids (dd_world d5) = w_ids (dd_world d)"
    using m l by (simp_all add: sysOnly_world [OF s5] metaSame_def)
  then have f: "diskFile (dd_world d5) = ?f" by (simp add: diskFile_def)
  have f2: "diskFile (dd_world d2) = ?f" using l by simp
  have "OpenWithOptions E dir mode pid ?f ?d0 =
      (case onWorld (openData E m (diskFile (dd_world d5))) d5 of
         (Inl e, d3) \<Rightarrow> (Inl e, snd (releaseDataDirLock E d3)) | (Inr _, d3) \<Rightarrow> (Inr (), d3))"
    using dir mode 1 2 3 [unfolded f2] 4 mk 5 f by (simp add: OpenWithOptions_def)
  moreover have "dd_journal d5 = None" "generation old oldObjs d5 \<or> generation (Some target) newObjs d5"
    using none g by (simp_all add: sysOnly_dirs [OF s5] generation_sysOnly [OF s5])
  ultimately show ?thesis using that st by blast
qed

lemma load_then_open:
  assumes h: "ok.holds E S (dd_world d)" and d: "dd_journal d = None" "dd_hasObjects d" "strayFree d"
    and rs: "restorable E name s data target d"
    and new: "storeOK E S (w_ids (dd_world d)) (restoredObjects s data) data"
    and run: "LoadSnapshot (withFaults f E) name d = (r, d')" and nf: "\<forall>n. \<not> e_fault E n" and tmp: "tempNamesOK E"
    and sz: "e_stateSize E (diskDoc (dd_world d)) \<le> maxPersistentStateSize" "e_stateSize E target \<le> maxPersistentStateSize"
    and dir: "dir \<noteq> ''''" and mode: "ParseIntegrityMode mode = Inr m"
  shows "\<exists>d2. OpenWithOptions E dir mode pid (diskFile (dd_world d')) (d'\<lparr>dd_locked := False\<rparr>) = (Inr (), d2) \<and>
    ok.holds E S (dd_world d2) \<and> dd_journal d2 = None \<and>
    (if \<exists>info. r = Inr info then sameLive (w_data (dd_world d2)) data
     else sameLive (w_data (dd_world d2)) (w_data (dd_world d)))"
proof -
  let ?w = "dd_world d"
  have set: "settled d" using h d by (simp add: settled_def ok.holds_def)
  have rs': "restorable (withFaults f E) name s data target d" using rs by simp
  obtain j i k where j: "j = newJournal E (''.objects-backup-'' @ e_tmp E i) (''.snapshot-restore-'' @ e_tmp E k) target"
    and dec: "decides E j target (w_state_json ?w)"
    and inv: "restoring j target (restoredObjects s data) (w_state_json ?w) (w_objects ?w) d'"
    and good: "\<forall>info. r = Inr info \<longrightarrow> generation (Some target) (restoredObjects s data) d' \<and> liveAs data (Some target) d'"
    and bad: "\<forall>e. r = Inl e \<longrightarrow> liveAs (w_data ?w) (w_state_json ?w) d'"
    using LoadSnapshot_restoring [OF run set rs'] by (simp add: withFaults_digests) metis
  have stray: "strayFree d'" using stray_load [OF d(3), of "withFaults f E" name] run by simp
  have ids: "w_ids (dd_world d') = w_ids ?w"
    using ids_load [of "w_ids ?w" d "withFaults f E" name] run by (simp add: idsAre_def)
  have dl: "length (e_sha256 E b) = 32" for b using rs by (simp add: restorable_def)
  have clean: "dynamo_clean data" and enc: "encodeSnapshot data = Some target" using rs by (auto simp: restorable_def)
  have dur: "durable ?w" using h by (simp add: ok.holds_def)
  have old: "readableState E (w_state_json ?w)"
  proof (cases "w_state_json ?w")
    case (Some doc)
    then have doc: "diskDoc ?w = doc" by (simp add: diskDoc_def)
    with dur have "encodeSnapshot (normalizeSnapshot doc) = Some doc" by (simp add: durable_def diskState_def)
    with encode_validates [OF this] Some sz(1) doc show ?thesis by (simp add: readableState_def canonicalDigest_def)
  qed (simp add: readableState_def canonicalDigest_def)
  have target: "readableState E (Some target)"
    using canonicalDigest_encoded [OF enc clean, of E] sz(2) by (simp add: readableState_def)
  have state: "if \<exists>info. r = Inr info then w_state_json (dd_world d') = Some target else w_state_json (dd_world d') = w_state_json ?w"
    using good bad by (cases r) (auto simp: generation_def liveAs_def)
  then have rd: "readableState E (w_state_json (dd_world d'))" using old target by (auto split: if_splits)
  obtain d2 where none: "dd_journal d2 = None"
    and g: "generation (w_state_json ?w) (w_objects ?w) d2 \<or> generation (Some target) (restoredObjects s data) d2"
    and st: "w_state_json (dd_world d2) = w_state_json (dd_world d')" and i2: "w_ids (dd_world d2) = w_ids (dd_world d')"
    and opens: "OpenWithOptions E dir mode pid (diskFile (dd_world d')) (d'\<lparr>dd_locked := False\<rparr>) =
      (case onWorld (openData E m (diskFile (dd_world d2))) d2 of
         (Inl e, d3) \<Rightarrow> (Inl e, snd (releaseDataDirLock E d3)) | (Inr _, d3) \<Rightarrow> (Inr (), d3))"
    by (rule open_restoring [OF nf inv dec stray newJournal_ok [OF tmp dl, of i k target, folded j] rd dir mode, of pid])
  have differ: "w_state_json ?w \<noteq> Some target"
    using dec canonicalDigest_encoded [OF enc clean, of E] by (auto simp: decides_def)
  let ?data = "if \<exists>info. r = Inr info then data else w_data ?w"
  have "\<exists>m c. ok.holds E S (openedWith (dd_world d2) m ?data c)"
  proof (cases "\<exists>info. r = Inr info")
    case True
    with g st state differ have "generation (Some target) (restoredObjects s data) d2" by (auto simp: generation_def)
    from generation_holds_new [OF enc clean new _ this] True i2 ids show ?thesis by simp
  next
    case False
    with g st state differ have "generation (w_state_json ?w) (w_objects ?w) d2" by (auto simp: generation_def)
    from generation_holds_old [OF h this] False i2 ids show ?thesis by simp
  qed
  then obtain m1 c1 where h2: "ok.holds E S (openedWith (dd_world d2) m1 ?data c1)" by blast
  have "e_stateSize E (diskDoc (dd_world d2)) \<le> maxPersistentStateSize"
    using st state sz by (auto simp: diskDoc_def split: if_splits option.splits)
  from openData_generation [OF h2 nf this, of m] obtain w3 where
    "openData E m (diskFile (dd_world d2)) (dd_world d2) = (Inr (), w3)" "ok.holds E S w3" "sameLive (w_data w3) ?data" by blast
  with opens none show ?thesis by (simp add: onWorld_def split: if_splits)
qed

end
