(* ===== verification/Snapshot_Save.thy ===== *)
theory Snapshot_Save
  imports Snapshot_Reopen
begin

text \<open>
  Saving a snapshot: what a saved snapshot holds, and that a save either adds one complete snapshot
  or none, for every schedule of failing system calls.
\<close>

section \<open>Filling the temporary directory\<close>

definition savedFile :: "env \<Rightarrow> state_doc \<Rightarrow> snapshotFile" where
  "savedFile E doc = \<lparr>sf_Name = ''state.json'', sf_Size = e_stateSize E doc, sf_SHA256 = stateDigest E doc\<rparr>"

text \<open>\<open>complete E name data objs m s\<close>: the directory \<open>s\<close> holds the state \<open>data\<close> with its objects.\<close>

definition complete :: "env \<Rightarrow> string \<Rightarrow> snapshot \<Rightarrow> bytes gomap \<Rightarrow> snapshotManifest \<Rightarrow> snapshotDir \<Rightarrow> bool" where
  "complete E name data objs m s \<longleftrightarrow>
     (\<exists>doc names k. encodeSnapshot data = Some doc \<and> referencedObjectFiles data = Inr names \<and>
        (\<forall>f \<in> set names. fmlookup objs f \<noteq> None) \<and>
        m = newManifest name (e_now E k) (savedFile E doc) (map (fileOf E objs) names) \<and>
        sd_manifest s = Some (JsonFile (manifestSize E m) (Some m)) \<and>
        sd_state s = Some (e_stateText E doc) \<and>
        sd_objects s = Some (fmfilter (\<lambda>f. f \<in> set names) objs))"

lemma writeManifest_Inr:
  "writeManifest E m s w = ((Inr m', s'), w') \<Longrightarrow>
     m' = m \<and> s' = s\<lparr>sd_manifest := Some (JsonFile (manifestSize E m) (Some m))\<rparr>"
  by (auto simp: writeManifest_def Let_def split: prod.splits bool.splits simp del: runSys.simps)

lemma fillSnapshotDir_Inr:
  assumes "fillSnapshotDir E name emptySnapshotDir w = ((Inr m, s), w')"
  shows "complete E name (w_data w) (w_objects w) m s"
proof -
  obtain q1 w1 where 1: "runSys E [Chmod, Mkdir] w = (q1, w1)" by fastforce
  obtain k where k: "w1 = w\<lparr>w_sys := k\<rparr>" using runSys_frame [OF 1] by blast
  from assms 1 k obtain doc where q1: "q1" and doc: "encodeSnapshot (w_data w) = Some doc"
    by (cases q1; cases "encodeSnapshot (w_data w)"; simp add: fillSnapshotDir_def Let_def del: runSys.simps)
  obtain q2 st w2 where 2: "writeSnapshotBytes E ''state.json'' (e_stateText E doc) None w1 = ((q2, st), w2)"
    by (metis surj_pair)
  have "sysAhead w1 w2" using writeSnapshotBytes_ahead arg_cong [OF 2, of snd] by (metis snd_conv)
  with k have same: "w_data w2 = w_data w" "w_objects w2 = w_objects w" by (auto simp: sysAhead_def)
  from assms 1 q1 k doc 2 same obtain f names where f: "q2 = Inr f" and names: "referencedObjectFiles (w_data w) = Inr names"
    by (cases q2; cases "referencedObjectFiles (w_data w)"; simp add: fillSnapshotDir_def Let_def del: runSys.simps)
  obtain q3 objs w3 where 3: "copySnapshotFiles E (w_objects w) fmempty names w2 = ((q3, objs), w3)"
    by (metis surj_pair)
  obtain created w4 where 4: "now E w3 = (created, w4)" by fastforce
  let ?s = "emptySnapshotDir\<lparr>sd_objects := Some fmempty, sd_state := st, sd_objects := Some objs\<rparr>"
  from assms 1 q1 k doc 2 same f names 3 4 obtain fs where fs: "q3 = Inr fs"
    and wm: "writeManifest E (newManifest name created f fs) ?s w4 = ((Inr m, s), w')"
    by (cases q3; simp add: fillSnapshotDir_def Let_def del: runSys.simps)
  note n = referencedObjectFiles_Inr(1) [OF names]
  note c = copySnapshotFiles_Inr [OF 3 [unfolded fs] n] copied_to_empty [OF 3 [unfolded fs] n]
  note st = writeSnapshotBytes_Inr [OF 2 [unfolded f]]
  have sf: "f = savedFile E doc" using st by (simp add: savedFile_def stateDigest_def)
  note wm' = writeManifest_Inr [OF wm]
  show ?thesis unfolding complete_def
  proof (intro exI conjI)
    show "encodeSnapshot (w_data w) = Some doc" "referencedObjectFiles (w_data w) = Inr names" by fact+
    show "\<forall>f \<in> set names. fmlookup (w_objects w) f \<noteq> None" using c by blast
    show "m = newManifest name (e_now E (w_clock w3)) (savedFile E doc) (map (fileOf E (w_objects w)) names)"
      using wm' sf c 4 by (simp add: now_def)
    show "sd_manifest s = Some (JsonFile (manifestSize E m) (Some m))" using wm' by simp
    show "sd_state s = Some (e_stateText E doc)" using wm' st by (simp add: emptySnapshotDir_def)
    show "sd_objects s = Some (fmfilter (\<lambda>f. f \<in> set names) (w_objects w))"
      using wm' c by (simp add: emptySnapshotDir_def)
  qed
qed

text \<open>\<open>quiet w w'\<close>: only system calls and the clock have been used.\<close>

definition quiet :: "world \<Rightarrow> world \<Rightarrow> bool" where
  "quiet w w' \<longleftrightarrow> (\<exists>n c. w' = w\<lparr>w_sys := n, w_clock := c\<rparr>)"

lemma quiet_sysAhead: "sysAhead w w' \<Longrightarrow> quiet w w'"
proof -
  assume "sysAhead w w'"
  then obtain n where "w' = w\<lparr>w_sys := n, w_clock := w_clock w\<rparr>" by (auto simp: sysAhead_def)
  then show ?thesis unfolding quiet_def by blast
qed

lemma quiet_trans: "quiet a b \<Longrightarrow> quiet b c \<Longrightarrow> quiet a c"
  by (clarsimp simp: quiet_def) blast

lemma quiet_sysOnly: "quiet (dd_world d) w \<Longrightarrow> sysOnly d (d\<lparr>dd_world := w\<rparr>)"
proof -
  assume "quiet (dd_world d) w"
  then obtain n c where "d\<lparr>dd_world := w\<rparr> = inWorld (\<lambda>w. w\<lparr>w_sys := n, w_tmps := w_tmps w, w_clock := c\<rparr>) d"
    by (auto simp: quiet_def)
  then show ?thesis unfolding sysOnly_def by blast
qed

lemma writeManifest_ahead: "sysAhead w (snd (writeManifest E m s w))"
  unfolding writeManifest_def Let_def
  by (auto dest!: runSys_sysAhead dest: sysAhead_trans split: prod.split bool.split simp del: runSys.simps)

lemma fillSnapshotDir_quiet: "quiet w (snd (fillSnapshotDir E name s w))"
proof -
  obtain q1 w1 where 1: "runSys E [Chmod, Mkdir] w = (q1, w1)" by fastforce
  note a1 = runSys_sysAhead [OF 1]
  show ?thesis
  proof (cases "q1 \<and> encodeSnapshot (w_data w1) \<noteq> None")
    case False
    with 1 quiet_sysAhead [OF a1] show ?thesis
      by (cases q1) (auto simp: fillSnapshotDir_def Let_def simp del: runSys.simps)
  next
    case True
    then obtain doc where doc: "encodeSnapshot (w_data w1) = Some doc" and q1: q1 by blast
    obtain q2 st w2 where 2: "writeSnapshotBytes E ''state.json'' (e_stateText E doc) None w1 = ((q2, st), w2)"
      by (metis surj_pair)
    have a2: "sysAhead w w2"
      using sysAhead_trans [OF a1 writeSnapshotBytes_ahead] arg_cong [OF 2, of snd] by (metis snd_conv)
    show ?thesis
    proof (cases "\<exists>f names. q2 = Inr f \<and> referencedObjectFiles (w_data w2) = Inr names")
      case False
      with 1 q1 doc 2 quiet_sysAhead [OF a2] show ?thesis
        by (cases q2; cases "referencedObjectFiles (w_data w2)") (auto simp: fillSnapshotDir_def Let_def simp del: runSys.simps)
    next
      case True
      then obtain f names where f: "q2 = Inr f" and names: "referencedObjectFiles (w_data w2) = Inr names" by blast
      obtain q3 objs w3 where 3: "copySnapshotFiles E (w_objects w2) fmempty names w2 = ((q3, objs), w3)"
        by (metis surj_pair)
      have a3: "sysAhead w w3"
        using sysAhead_trans [OF a2 copySnapshotFiles_ahead] arg_cong [OF 3, of snd] by (metis snd_conv)
      have q4: "quiet w3 (snd (now E w3))"
      proof -
        have "w3\<lparr>w_clock := c\<rparr> = w3\<lparr>w_sys := w_sys w3, w_clock := c\<rparr>" for c by simp
        then show ?thesis unfolding quiet_def now_def snd_conv by blast
      qed
      have q5: "quiet w (snd (writeManifest E m t (snd (now E w3))))" for m t
        using quiet_trans [OF quiet_trans [OF quiet_sysAhead [OF a3] q4] quiet_sysAhead [OF writeManifest_ahead]] .
      with 1 q1 doc 2 f names 3 quiet_sysAhead [OF a3] show ?thesis
        by (cases q3; cases "now E w3") (simp_all add: fillSnapshotDir_def Let_def del: runSys.simps)
    qed
  qed
qed


section \<open>The outcome of a save\<close>

text \<open>\<open>sameSnapshots\<close>: the same snapshots, temporary directories aside.\<close>

definition sameSnapshots :: "datadir \<Rightarrow> datadir \<Rightarrow> bool" where
  "sameSnapshots d d' \<longleftrightarrow> (\<forall>n. validSnapshotName n \<longrightarrow> snapshotEntry n d' = snapshotEntry n d)"

lemma sameSnapshots_refl [simp]: "sameSnapshots d d"
  by (simp add: sameSnapshots_def)

lemma sameSnapshots_trans: "sameSnapshots a b \<Longrightarrow> sameSnapshots b c \<Longrightarrow> sameSnapshots a c"
  by (simp add: sameSnapshots_def)

lemma sameSnapshots_sysOnly: "sysOnly d d' \<Longrightarrow> sameSnapshots d d'"
  by (simp add: sameSnapshots_def snapshotEntry_def sysOnly_same)

lemma sameSnapshots_world [simp]:
  "sameSnapshots d (d'\<lparr>dd_world := w\<rparr>) = sameSnapshots d d'" "sameSnapshots (d\<lparr>dd_world := w\<rparr>) d' = sameSnapshots d d'"
  by (simp_all add: sameSnapshots_def snapshotEntry_def)

lemma temporary_not_valid: "\<not> validSnapshotName (''.snapshot-'' @ x)"
  by (simp add: validSnapshotName_def isAlnum_def)

lemma sameSnapshots_temporary:
  assumes "\<not> validSnapshotName t" "dd_snapshots d = Some root"
  shows "sameSnapshots d (d\<lparr>dd_snapshots := Some (fmupd t x root)\<rparr>)"
    "sameSnapshots d (d\<lparr>dd_snapshots := Some (putEntry t y root)\<rparr>)"
  using assms by (auto simp: sameSnapshots_def snapshotEntry_def putEntry_def split: option.split)

lemma removeTemporary_same: "\<not> validSnapshotName t \<Longrightarrow> sameSnapshots d (removeTemporary E t d)"
proof -
  assume t: "\<not> validSnapshotName t"
  have "sameSnapshots d (d\<lparr>dd_world := w, dd_snapshots := Some (putEntry t y root)\<rparr>)" if "dd_snapshots d = Some root" for w y root
    using sameSnapshots_temporary(2) [of t "d\<lparr>dd_world := w\<rparr>" root y] t that by simp
  then show ?thesis by (auto simp: removeTemporary_def split: option.split dirent.split prod.split)
qed

lemma ensureSnapshotRoot_same:
  assumes "ensureSnapshotRoot E d = (q, d')"
  shows "sameSnapshots d d'" "q = Inr root \<Longrightarrow> dd_snapshots d' = Some root \<and> snapshotEntry n d = fmlookup root n"
    "\<exists>k. dd_world d' = (dd_world d)\<lparr>w_sys := k\<rparr>"
proof -
  obtain q1 d1 where 1: "sysD E [Mkdir] d = (q1, d1)" by fastforce
  let ?root = "case dd_snapshots d1 of None \<Rightarrow> fmempty | Some m \<Rightarrow> m"
  obtain q2 d2 where 2: "sysD E [Chmod] (d1\<lparr>dd_snapshots := Some ?root\<rparr>) = (q2, d2)" by fastforce
  have sys: "\<exists>k. dd_world y = (dd_world x)\<lparr>w_sys := k\<rparr>" if "sysD E cs x = (q, y)" for cs x q y
    using that by (auto simp: sysD_def split: prod.splits bool.splits dest: runSys_frame simp del: runSys.simps)
  note s1 = sysD_D [OF 1] and s2 = sysD_D [OF 2]
  have run: "ensureSnapshotRoot E d = (case q1 of Inl e \<Rightarrow> (Inl e, d1)
      | Inr _ \<Rightarrow> (case q2 of Inl e \<Rightarrow> (Inl e, d2) | Inr _ \<Rightarrow> (Inr ?root, d2)))"
    using 1 2 by (simp add: ensureSnapshotRoot_def Let_def split: sum.split)
  have a: "sameSnapshots d d1" using s1 by (rule sameSnapshots_sysOnly)
  have "sameSnapshots d1 (d1\<lparr>dd_snapshots := Some ?root\<rparr>)"
    by (simp add: sameSnapshots_def snapshotEntry_def split: option.split)
  with a sameSnapshots_sysOnly [OF s2] have b: "sameSnapshots d d2" using sameSnapshots_trans by blast
  show "sameSnapshots d d'" using run assms a b by (auto split: sum.splits)
  show "q = Inr root \<Longrightarrow> dd_snapshots d' = Some root \<and> snapshotEntry n d = fmlookup root n"
    using run assms sysOnly_dirs(2) [OF s1] sysOnly_dirs(2) [OF s2]
    by (auto simp: snapshotEntry_def split: sum.splits option.splits)
  obtain k1 where "dd_world d1 = (dd_world d)\<lparr>w_sys := k1\<rparr>" using sys [OF 1] by blast
  moreover obtain k2 where "dd_world d2 = (dd_world d1)\<lparr>w_sys := k2\<rparr>" using sys [OF 2] by auto
  ultimately show "\<exists>k. dd_world d' = (dd_world d)\<lparr>w_sys := k\<rparr>"
    using run assms by (auto split: sum.splits)
qed

text \<open>\<open>savedWorld\<close>: the world after the strict check, up to supplies of the environment.\<close>

definition sameWorld :: "world \<Rightarrow> world \<Rightarrow> bool" where
  "sameWorld w w' \<longleftrightarrow> (\<exists>n t c. w' = w\<lparr>w_sys := n, w_tmps := t, w_clock := c\<rparr>)"

lemma sameWorld_sysOnly: "sysOnly d d' \<Longrightarrow> sameWorld w (dd_world d) \<Longrightarrow> sameWorld w (dd_world d')"
  by (clarsimp simp: sysOnly_def sameWorld_def) blast

lemma sameWorld_fields:
  assumes "sameWorld w w'"
  shows "w_data w' = w_data w" "w_objects w' = w_objects w" "w_state_json w' = w_state_json w"
    "w_committedRaw w' = w_committedRaw w" "w_ids w' = w_ids w" "w_integrityMode w' = w_integrityMode w"
  using assms by (auto simp: sameWorld_def)

lemma sameWorld_refl [simp]: "sameWorld w w"
proof -
  have "w = w\<lparr>w_sys := w_sys w, w_tmps := w_tmps w, w_clock := w_clock w\<rparr>" by simp
  then show ?thesis unfolding sameWorld_def by blast
qed

lemma sameWorld_sys: "sameWorld w (w\<lparr>w_sys := k\<rparr>)"
  unfolding sameWorld_def
  by (intro exI [of _ k] exI [of _ "w_tmps w"] exI [of _ "w_clock w"]) simp

lemma sameWorld_quiet:
  assumes "quiet w1 w2" "sameWorld w w1"
  shows "sameWorld w w2"
proof -
  from assms(2) obtain m t k where "w1 = w\<lparr>w_sys := m, w_tmps := t, w_clock := k\<rparr>"
    unfolding sameWorld_def by blast
  moreover from assms(1) obtain n c where "w2 = w1\<lparr>w_sys := n, w_clock := c\<rparr>" unfolding quiet_def by blast
  ultimately have "w2 = w\<lparr>w_sys := n, w_tmps := t, w_clock := c\<rparr>" by simp
  then show ?thesis unfolding sameWorld_def by blast
qed

lemma SaveSnapshot_cases:
  assumes run: "SaveSnapshot E name d = (r, d')"
  obtains e where "r = Inl e" "sameSnapshots d d'"
  | w m s where "strictCheck E (dd_world d) = (Inr (), w)" "sameWorld w (dd_world d')"
      "validSnapshotName name" "snapshotEntry name d = None"
      "complete E name (w_data w) (w_objects w) m s" "r = Inr (manifest_info m)"
      "snapshotEntry name d' = Some (Directory s)"
      "\<And>n. validSnapshotName n \<Longrightarrow> n \<noteq> name \<Longrightarrow> snapshotEntry n d' = snapshotEntry n d"
proof (cases "validSnapshotName name")
  case False
  with run that(1) show ?thesis by (auto simp: SaveSnapshot_def)
next
  case valid: True
  obtain q1 w where 1: "strictCheck E (dd_world d) = (q1, w)" by fastforce
  let ?d1 = "d\<lparr>dd_world := w\<rparr>"
  obtain q2 d2 where 2: "ensureSnapshotRoot E ?d1 = (q2, d2)" by fastforce
  obtain q3 d3 where 3: "sysD E [Lstat] d2 = (q3, d3)" by fastforce
  have same1: "sameSnapshots d ?d1" by simp
  have same2: "sameSnapshots d d2" using ensureSnapshotRoot_same(1) [OF 2] by simp
  have same3: "sameSnapshots d d3" using same2 sameSnapshots_sysOnly [OF sysD_D [OF 3]] by (rule sameSnapshots_trans)
  show ?thesis
  proof (cases "\<exists>root. q1 = Inr () \<and> q2 = Inr root \<and> q3 = Inr () \<and> fmlookup root name = None")
    case False
    then have "(d' = ?d1 \<or> d' = d2 \<or> d' = d3) \<and> (\<exists>e. r = Inl e)"
      using run valid 1 2 3
      by (cases q1; cases q2; cases q3) (auto simp: SaveSnapshot_def onWorld_def split: if_splits)
    with same1 same2 same3 that(1) show ?thesis by blast
  next
    case True
    then obtain root where q: "q1 = Inr ()" "q2 = Inr root" "q3 = Inr ()" "fmlookup root name = None" by blast
    note root = ensureSnapshotRoot_same(2) [OF 2 q(2)]
    have root3: "dd_snapshots d3 = Some root" using root by (simp add: sysOnly_dirs [OF sysD_D [OF 3]])
    obtain k where "dd_world d2 = w\<lparr>w_sys := k\<rparr>" using ensureSnapshotRoot_same(3) [OF 2] by auto
    then have w2: "sameWorld w (dd_world d2)" by (simp add: sameWorld_sys)
    have w3: "sameWorld w (dd_world d3)" using sysD_D [OF 3] w2 by (rule sameWorld_sysOnly)
    obtain q4 d4 where 4: "mkdirTemp E ''.snapshot-'' (fmkeys root) d3 = (q4, d4)" by fastforce
    have s4: "sysOnly d3 d4" using mkdirTemp_sysOnly arg_cong [OF 4, of snd] by (metis snd_conv)
    have same4: "sameSnapshots d d4" using same3 sameSnapshots_sysOnly [OF s4] by (rule sameSnapshots_trans)
    show ?thesis
    proof (cases q4)
      case (Inl e)
      with run valid 1 2 3 q 4 same4 that(1) show ?thesis by (auto simp: SaveSnapshot_def onWorld_def)
    next
      case (Inr t)
      have t: "\<not> validSnapshotName t" using mkdirTemp_Inr [OF 4 [unfolded Inr]] temporary_not_valid by blast
      obtain q5 s w5 where 5: "fillSnapshotDir E name emptySnapshotDir (dd_world d4) = ((q5, s), w5)" by (metis surj_pair)
      let ?d5 = "d4\<lparr>dd_world := w5, dd_snapshots := Some (fmupd t (Directory s) root)\<rparr>"
      have root4: "dd_snapshots d4 = Some root" using root3 by (simp add: sysOnly_dirs [OF s4])
      have same5: "sameSnapshots d ?d5"
        using sameSnapshots_trans [OF _ sameSnapshots_temporary(1) [OF t, of "d4\<lparr>dd_world := w5\<rparr>" root "Directory s"]] same4 root4
        by simp
      obtain q6 d6 where 6: "sysD E [Rename] ?d5 = (q6, d6)" by fastforce
      show ?thesis
      proof (cases "\<exists>m. q5 = Inr m \<and> q6 = Inr ()")
        case False
        have drop: "sameSnapshots d (removeTemporary E t x)" if "sameSnapshots d x" for x
          using that removeTemporary_same [OF t] by (rule sameSnapshots_trans)
        have same7: "sameSnapshots d (snd (sysD E [Lstat] d6))"
          using same5 sameSnapshots_sysOnly [OF sysD_D [OF 6]] sameSnapshots_sysOnly [OF sysD_sysOnly] sameSnapshots_trans by blast
        from False run valid 1 2 3 q 4 Inr 5 6 have "(\<exists>e. r = Inl e) \<and>
            (d' = removeTemporary E t ?d5 \<or> d' = removeTemporary E t (snd (sysD E [Lstat] d6)))"
          by (cases q5; cases q6) (auto simp: SaveSnapshot_def onWorld_def Let_def)
        with drop [OF same5] drop [OF same7] that(1) show ?thesis by blast
      next
        case True
        then obtain m where m: "q5 = Inr m" "q6 = Inr ()" by blast
        let ?d7 = "d6\<lparr>dd_snapshots := Some (fmupd name (Directory s) root)\<rparr>"
        have out: "r = Inr (manifest_info m)" "d' = snd (syncDirectory E ?d7)"
          using run valid 1 2 3 q 4 Inr 5 6 m by (simp_all add: SaveSnapshot_def onWorld_def Let_def)
        have s7: "sysOnly ?d7 d'" using out(2) by (simp add: syncDirectory_def sysD_sysOnly)
        have w4: "sameWorld w (dd_world d4)" using s4 w3 by (rule sameWorld_sysOnly)
        have "quiet (dd_world d4) w5" using fillSnapshotDir_quiet arg_cong [OF 5, of snd] by (metis snd_conv)
        then have w5: "sameWorld w w5" using w4 by (rule sameWorld_quiet)
        then have "sameWorld w (dd_world d6)" using sameWorld_sysOnly [OF sysD_D [OF 6], of w] by simp
        then have w7: "sameWorld w (dd_world d')" using sameWorld_sysOnly [OF s7, of w] by simp
        have entry: "snapshotEntry n d' = (if n = name then Some (Directory s) else fmlookup root n)" for n
          by (simp add: snapshotEntry_def sysOnly_dirs [OF s7])
        have old: "snapshotEntry n d = fmlookup root n" for n
          using ensureSnapshotRoot_same(2) [OF 2 q(2), of n] by (simp add: snapshotEntry_def)
        have c: "complete E name (w_data w) (w_objects w) m s"
          using fillSnapshotDir_Inr [OF 5 [unfolded m]] sameWorld_fields [OF w4] by simp
        show ?thesis
          by (rule that(2) [OF 1 [unfolded q] w7 valid _ c out(1)]) (simp_all add: entry old q(4))
      qed
    qed
  qed
qed

end
