(* ===== verification/Snapshot_Restore.thy ===== *)
theory Snapshot_Restore
  imports Snapshot_Save
begin

text \<open>
  Restoring a saved snapshot without failing system calls: a complete snapshot within the limits of
  the reader is read, staged, installed and committed.
\<close>

section \<open>Reading a complete snapshot\<close>

text \<open>The limits of the readers: 64 MiB of state, 1 MiB of manifest, 1 TiB for an object.\<close>

definition readableSnapshot :: "env \<Rightarrow> snapshotDir \<Rightarrow> bool" where
  "readableSnapshot E s \<longleftrightarrow>
     (\<forall>raw. sd_state s = Some raw \<longrightarrow> int (length raw) \<le> 67108864) \<and>
     (\<forall>sz m. sd_manifest s = Some (JsonFile sz (Some m)) \<longrightarrow> sz \<le> 1048576 \<and> sm_CreatedAt m \<noteq> zeroTime) \<and>
     (\<forall>f b. fmlookup (snapshotFiles s) f = Some b \<longrightarrow> int (length b) \<le> 1099511627776)"

lemma verifySnapshotFile_ok:
  assumes "\<forall>n. \<not> e_fault E n" "int (length b) = sf_Size f" "int (length b) \<le> limit" "sf_SHA256 f = hexEncode (e_sha256 E b)"
  shows "fst (verifySnapshotFile E (Some b) f limit w) = Inr b"
  using assms by (simp add: verifySnapshotFile_def runSys_no_fault del: runSys.simps)

lemma readSnapshotFile_ok:
  assumes "\<forall>n. \<not> e_fault E n" "int (length b) = sf_Size f" "int (length b) \<le> limit" "sf_SHA256 f = hexEncode (e_sha256 E b)"
  shows "fst (readSnapshotFile E (Some b) f limit w) = Inr b"
  using verifySnapshotFile_ok [OF assms, of w] assms(1)
  by (cases "verifySnapshotFile E (Some b) f limit w") (simp add: readSnapshotFile_def runSys_no_fault del: runSys.simps)

lemma checkManifestObjects_ok:
  assumes nf: "\<forall>n. \<not> e_fault E n" and "distinct names" "set names \<inter> set seen = {}" "set names \<subseteq> set expected"
    and "\<forall>f \<in> set names. validSnapshotObjectName f \<and>
      (\<exists>b. fmlookup objs f = Some b \<and> fmlookup source f = Some b \<and> int (length b) \<le> 1099511627776)"
  shows "fst (checkManifestObjects E objs expected seen (map (fileOf E source) names) w) = Inr ()"
  using assms(2-)
proof (induction names arbitrary: seen w)
  case (Cons f names)
  from Cons.prems(4) obtain b where b: "fmlookup objs f = Some b" "fmlookup source f = Some b" "int (length b) \<le> 1099511627776"
    by auto
  obtain r w1 where v: "verifySnapshotFile E (Some b) (fileOf E source f) 1099511627776 w = (r, w1)" by fastforce
  have "r = Inr b" using verifySnapshotFile_ok [OF nf, of b "fileOf E source f" 1099511627776 w] v b by (simp add: fileOf_def)
  moreover have n: "sf_Name (fileOf E source f) = f" by (simp add: fileOf_def Let_def)
  ultimately show ?case using Cons.IH [of "f # seen" w1] Cons.prems v b by auto
qed simp

lemma readSnapshotManifest_ok:
  assumes nf: "\<forall>n. \<not> e_fault E n" and c: "complete E name data objs m s" and lim: "readableSnapshot E s"
  shows "fst (readSnapshotManifest E name s w) = Inr m"
proof -
  from c have m: "sd_manifest s = Some (JsonFile (manifestSize E m) (Some m))"
    and f: "sm_SchemaVersion m = snapshotSchemaVersion" "sm_Name m = name" "sf_Name (sm_State m) = ''state.json''"
    by (auto simp: complete_def newManifest_def savedFile_def)
  from lim m have "manifestSize E m \<le> 1048576" "sm_CreatedAt m \<noteq> zeroTime" by (auto simp: readableSnapshot_def)
  with m f nf show ?thesis by (simp add: readSnapshotManifest_def runSys_no_fault del: runSys.simps)
qed

lemma readSnapshotDir_ok:
  assumes nf: "\<forall>n. \<not> e_fault E n" and c: "complete E name data objs m s" and lim: "readableSnapshot E s"
    and clean: "dynamo_clean data" and parse: "\<And>doc. encodeSnapshot data = Some doc \<Longrightarrow> e_stateParse E (e_stateText E doc) = Some doc"
  shows "\<exists>l. fst (readSnapshotDir E name s w) = Inr l \<and> ls_manifest l = m \<and> ls_data l = data \<and>
    ls_dir l = name \<and> ls_info l = manifest_info m"
proof -
  from c obtain doc names k where enc: "encodeSnapshot data = Some doc" and names: "referencedObjectFiles data = Inr names"
    and present: "\<forall>f \<in> set names. fmlookup objs f \<noteq> None"
    and m: "m = newManifest name (e_now E k) (savedFile E doc) (map (fileOf E objs) names)"
    and s: "sd_manifest s = Some (JsonFile (manifestSize E m) (Some m))" "sd_state s = Some (e_stateText E doc)"
      "sd_objects s = Some (fmfilter (\<lambda>f. f \<in> set names) objs)" unfolding complete_def by blast
  obtain r1 w1 where 1: "readSnapshotManifest E name s w = (r1, w1)" by fastforce
  have r1: "r1 = Inr m" using readSnapshotManifest_ok [OF nf c lim, of w] 1 by simp
  let ?raw = "e_stateText E doc"
  obtain r2 w2 where 2: "readSnapshotFile E (sd_state s) (sm_State m) 67108864 w1 = (r2, w2)" by fastforce
  have "int (length ?raw) \<le> 67108864" using lim s(2) by (simp add: readableSnapshot_def)
  then have r2: "r2 = Inr ?raw"
    using readSnapshotFile_ok [OF nf, of ?raw "sm_State m" 67108864 w1] 2 s(2) m
    by (simp add: newManifest_def savedFile_def stateDigest_def)
  have data: "normalizeSnapshot doc = data" using enc clean by (rule decode_encode)
  note n = referencedObjectFiles_Inr [OF names]
  have files: "snapshotFiles s = fmfilter (\<lambda>f. f \<in> set names) objs" using s(3) by (simp add: snapshotFiles_def)
  have "\<exists>b. fmlookup objs f = Some b \<and> int (length b) \<le> 1099511627776" if "f \<in> set names" for f
    using present that lim files unfolding readableSnapshot_def by (metis fmlookup_filter option.exhaust)
  then have ok: "\<forall>f \<in> set names. validSnapshotObjectName f \<and>
      (\<exists>b. fmlookup (snapshotFiles s) f = Some b \<and> fmlookup objs f = Some b \<and> int (length b) \<le> 1099511627776)"
    using n(3) files by auto
  obtain r3 w3 where 3: "checkManifestObjects E (snapshotFiles s) names [] (map (fileOf E objs) names) w2 = (r3, w3)" by fastforce
  have r3: "r3 = Inr ()" using checkManifestObjects_ok [OF nf n(1) _ subset_refl ok, of "[]" w2] 3 by simp
  have "sm_Objects m = map (fileOf E objs) names"
    "sm_SizeBytes m = sf_Size (sm_State m) + sum_list (map sf_Size (sm_Objects m))" using m by (simp_all add: newManifest_def)
  with 1 r1 2 r2 3 r3 parse [OF enc] encode_validates [OF enc] data names show ?thesis
    by (simp add: readSnapshotDir_def Let_def snapshotFiles_def)
qed

lemma readSnapshot_ok:
  assumes nf: "\<forall>n. \<not> e_fault E n" and c: "complete E name data objs m s" and lim: "readableSnapshot E s"
    and clean: "dynamo_clean data" and parse: "\<And>doc. encodeSnapshot data = Some doc \<Longrightarrow> e_stateParse E (e_stateText E doc) = Some doc"
    and entry: "validSnapshotName name" "snapshotEntry name d = Some (Directory s)"
  shows "\<exists>l. fst (readSnapshot E name d) = Inr l \<and> ls_manifest l = m \<and> ls_data l = data \<and>
    ls_dir l = name \<and> ls_info l = manifest_info m"
proof -
  let ?d1 = "snd (sysD E [Lstat] d)"
  have "snapshotEntry name ?d1 = Some (Directory s)"
    using entry(2) by (simp add: snapshotEntry_def sysOnly_dirs [OF sysD_sysOnly])
  then have "readSnapshot E name d = onWorld (readSnapshotDir E name s) ?d1"
    using entry(1) by (simp add: readSnapshot_def sysD_then_no_fault [OF nf])
  with readSnapshotDir_ok [OF nf c lim clean parse, of "dd_world ?d1"] show ?thesis
    by (auto simp: onWorld_def split: prod.split)
qed

section \<open>Copying and staging\<close>

lemma writeSnapshotBytes_ok:
  "\<forall>n. \<not> e_fault E n \<Longrightarrow> \<exists>f. fst (fst (writeSnapshotBytes E name body None w)) = Inr f"
  by (simp add: writeSnapshotBytes_def runSys_no_fault del: runSys.simps)

lemma copySnapshotFile_ok:
  assumes "\<forall>n. \<not> e_fault E n" "fmlookup source name = Some b" "fmlookup dest name = None"
  shows "\<exists>f. fst (fst (copySnapshotFile E source dest name w)) = Inr f"
  using assms by (simp add: copySnapshotFile_def runSys_no_fault del: runSys.simps)

lemma copySnapshotFiles_ok:
  assumes nf: "\<forall>n. \<not> e_fault E n" and "distinct names"
    and "\<forall>f \<in> set names. fmlookup source f \<noteq> None \<and> fmlookup dest f = None"
  shows "\<exists>fs. fst (fst (copySnapshotFiles E source dest names w)) = Inr fs"
  using assms(2-)
proof (induction names arbitrary: dest w)
  case (Cons name names)
  from Cons.prems(2) obtain b where b: "fmlookup source name = Some b" "fmlookup dest name = None" by auto
  obtain r dest1 w1 where c: "copySnapshotFile E source dest name w = ((r, dest1), w1)" by (metis surj_pair)
  with copySnapshotFile_ok [OF nf b, of w] obtain f where r: "r = Inr f" by auto
  have "\<forall>g \<in> set names. fmlookup source g \<noteq> None \<and> fmlookup dest1 g = None"
    using copySnapshotFile_Inr [OF c [unfolded r]] Cons.prems by auto
  with Cons.IH [of dest1 w1] Cons.prems(1) c r show ?case by (auto split: prod.split sum.split)
qed simp

lemma materialize_ok:
  assumes nf: "\<forall>n. \<not> e_fault E n" and d: "distinct (map sf_Name (sm_Objects (ls_manifest l)))"
    and present: "\<forall>f \<in> set (map sf_Name (sm_Objects (ls_manifest l))). fmlookup source f \<noteq> None"
  shows "fst (fst (materializeLoadedSnapshot E l source emptyTarget w)) = Inr ()"
proof -
  let ?names = "map sf_Name (sm_Objects (ls_manifest l))"
  obtain w1 where 1: "runSys E [Mkdir] w = (True, w1)" using runSys_no_fault [OF nf] by blast
  obtain w2 where 2: "runSys E [Chmod] w1 = (True, w2)" using runSys_no_fault [OF nf] by blast
  obtain f st w3 where 3: "writeSnapshotBytes E ''state.json'' (ls_stateRaw l) None w2 = ((Inr f, st), w3)"
    using writeSnapshotBytes_ok [OF nf, of "''state.json''" "ls_stateRaw l" w2] by (metis prod.collapse)
  obtain fs objs w4 where 4: "copySnapshotFiles E source fmempty ?names w3 = ((Inr fs, objs), w4)"
    using copySnapshotFiles_ok [OF nf d, of source fmempty w3] present by (metis fmempty_lookup prod.collapse)
  show ?thesis
    using 1 2 3 4 by (simp add: materializeLoadedSnapshot_def emptyTarget_def Let_def runSys_no_fault [OF nf] del: runSys.simps)
qed

lemma mkdirTemp_ok:
  assumes nf: "\<forall>n. \<not> e_fault E n" and "\<And>n. pattern @ e_tmp E n \<notin> set taken"
  shows "fst (mkdirTemp E pattern taken d) = Inr (pattern @ e_tmp E (w_tmps (dd_world d)))"
proof -
  have "freeName E pattern taken (Suc 9999) n = Some (pattern @ e_tmp E n, Suc n)" for n
    using assms(2) by (simp only: freeName.simps) (simp add: Let_def)
  then have "freeName E pattern taken 10000 n = Some (pattern @ e_tmp E n, Suc n)" for n by simp
  then show ?thesis by (simp add: mkdirTemp_def sysD_then_no_fault [OF nf])
qed

lemma fillStage_ok:
  assumes nf: "\<forall>n. \<not> e_fault E n" and d: "distinct (map sf_Name (sm_Objects (ls_manifest l)))"
    and present: "\<forall>f \<in> set (map sf_Name (sm_Objects (ls_manifest l))). fmlookup (snapshotObjects (ls_dir l) d) f \<noteq> None"
  shows "fst (fillStage E l stage d) = Inr ()"
proof -
  let ?d0 = "d\<lparr>dd_stages := fmupd stage (Directory emptyTarget) (dd_stages d)\<rparr>"
  let ?d1 = "snd (sysD E [Chmod] ?d0)"
  have "snapshotObjects (ls_dir l) ?d1 = snapshotObjects (ls_dir l) d"
    by (simp add: snapshotObjects_def snapshotEntry_def sysOnly_dirs [OF sysD_sysOnly])
  moreover obtain r t w where m: "materializeLoadedSnapshot E l (snapshotObjects (ls_dir l) d) emptyTarget (dd_world ?d1) = ((r, t), w)"
    by (metis surj_pair)
  moreover have "r = Inr ()" using materialize_ok [OF nf d present, of "dd_world ?d1"] m by simp
  ultimately show ?thesis by (simp add: fillStage_def sysD_then_no_fault [OF nf])
qed


section \<open>Installing\<close>

lemma renames_ok:
  assumes nf: "\<forall>n. \<not> e_fault E n"
  shows "dd_hasObjects d \<Longrightarrow> fst (renameObjectsToBackup E backup d) = Inr ()"
    and "\<not> dd_hasObjects d \<Longrightarrow> fmlookup (dd_stages d) stage = Some (Directory t) \<Longrightarrow> td_objects t = Some m \<Longrightarrow>
      fst (renameStagedObjects E stage d) = Inr ()"
  by (simp_all add: renameObjectsToBackup_def renameStagedObjects_def sysD_then_no_fault [OF nf] sysOnly_dirs [OF sysD_sysOnly])

lemma saveD_ok:
  assumes nf: "\<forall>n. \<not> e_fault E n" and enc: "encodeSnapshot (w_data (dd_world d)) = Some raw"
  shows "\<exists>n. saveD E d = (Inr (), d\<lparr>dd_world := (dd_world d)\<lparr>w_state_json := Some raw, w_committedRaw := Some raw, w_sys := n\<rparr>\<rparr>)"
proof -
  obtain r w where s: "saveLocked E (dd_world d) = (r, w)" by fastforce
  have "r = None" using s enc by (simp add: saveLocked_def runSys_no_fault [OF nf] del: runSys.simps)
  with s enc obtain n where "w = (dd_world d)\<lparr>w_state_json := Some raw, w_committedRaw := Some raw, w_sys := n\<rparr>"
    by (cases rule: saveLocked_cases) auto
  with s \<open>r = None\<close> show ?thesis by (intro exI [of _ n]) (simp add: saveD_def)
qed

lemma orRecover_Inr [simp]: "orRecover E (Inr x, d) f = f d"
  by (simp add: orRecover_def)

text \<open>The directory a load without faults commits, before its last recovery.\<close>

lemma installSnapshot_ok:
  assumes nf: "\<forall>n. \<not> e_fault E n" and d: "dd_hasObjects d" "dd_journal d = Some (journalFile j)" "strayFree d"
    and staged: "fmlookup (dd_stages d) stage = Some (Directory t)" "td_objects t = Some newObjs"
    and enc: "encodeSnapshot (ls_data l) = Some target" and clean: "dynamo_clean (ls_data l)"
  shows "\<exists>d5. installSnapshot E l stage backup d = (Inr (ls_info l), snd (recoverNow E d5)) \<and>
    dd_journal d5 = Some (journalFile j) \<and> generation (Some target) newObjs d5 \<and>
    liveAs (ls_data l) (Some target) d5 \<and> w_data (dd_world d5) = ls_data l \<and> strayFree d5"
proof -
  obtain d1 where 1: "renameObjectsToBackup E backup d = (Inr (), d1)" using renames_ok(1) [OF nf d(1)] by (metis prod.collapse)
  note f1 = renameObjectsToBackup_cases(2) [OF 1 refl]
  obtain d2 where 2: "syncDirectory E d1 = (Inr (), d2)" using sysD_no_fault [OF nf] by (metis prod.collapse syncDirectory_def)
  note s2 = sysOnly_dirs [OF syncDirectory_D [OF 2]]
  have st: "\<not> dd_hasObjects d2" "fmlookup (dd_stages d2) stage = Some (Directory t)" using f1 staged by (simp_all add: s2)
  obtain d3 where 3: "renameStagedObjects E stage d2 = (Inr (), d3)" using renames_ok(2) [OF nf st staged(2)] by (metis prod.collapse)
  note f3 = renameStagedObjects_cases(2) [OF 3 refl st(2) staged(2)]
  obtain d4 where 4: "syncDirectory E d3 = (Inr (), d4)" using sysD_no_fault [OF nf] by (metis prod.collapse syncDirectory_def)
  note s4 = sysOnly_same [OF syncDirectory_D [OF 4]]
  let ?d4 = "inWorld (\<lambda>w. w\<lparr>w_data := ls_data l\<rparr>) d4"
  have "encodeSnapshot (w_data (dd_world ?d4)) = Some target" using enc by simp
  from saveD_ok [OF nf this] obtain n where
    5: "saveD E ?d4 = (Inr (), ?d4\<lparr>dd_world := (dd_world ?d4)\<lparr>w_state_json := Some target, w_committedRaw := Some target, w_sys := n\<rparr>\<rparr>)"
    by blast
  let ?d5 = "?d4\<lparr>dd_world := (dd_world ?d4)\<lparr>w_state_json := Some target, w_committedRaw := Some target, w_sys := n\<rparr>\<rparr>"
  have "installSnapshot E l stage backup d = (Inr (ls_info l), snd (recoverNow E ?d5))"
    unfolding installSnapshot_def 1 orRecover_Inr 2 3 4 5 by simp
  moreover have "strayFree ?d5"
  proof -
    have "strayFree d1" using stray_renames(2) [OF d(3), of E backup] 1 by simp
    then have "strayFree d2" by (simp add: strayFree_sysOnly [OF syncDirectory_D [OF 2]])
    then have "strayFree d3" using stray_renames(3) [of d2 E stage] 3 by simp
    then show ?thesis by (simp add: strayFree_sysOnly [OF syncDirectory_D [OF 4]])
  qed
  moreover have "dd_journal ?d5 = Some (journalFile j)" using f1 f3 d(2) by (simp add: s2 s4)
  moreover have "generation (Some target) newObjs ?d5" using f3 by (simp add: generation_def s4)
  moreover have "liveAs (ls_data l) (Some target) ?d5"
    using decode_encode [OF enc clean] enc clean by (simp add: liveAs_def durable_def diskState_def diskDoc_def)
  ultimately show ?thesis by (intro exI [of _ ?d5]) simp
qed


lemma fmkeys_empty: "fmkeys fmempty = []"
  using set_fmkeys [of fmempty] by simp

lemma reserveBackup_ok:
  assumes nf: "\<forall>n. \<not> e_fault E n" and "dd_backups d = fmempty"
  shows "\<exists>i. fst (reserveBackup E d) = Inr (''.objects-backup-'' @ e_tmp E i)"
proof -
  have e: "fmkeys (dd_backups d) = []" using assms(2) by (simp add: fmkeys_empty)
  obtain d1 where 1: "mkdirTemp E ''.objects-backup-'' [] d = (Inr (''.objects-backup-'' @ e_tmp E (w_tmps (dd_world d))), d1)"
    using mkdirTemp_ok [OF nf, of "''.objects-backup-''" "[]" d] by (metis empty_iff list.set(1) prod.collapse)
  obtain d2 where 2: "sysD E [Remove] d1 = (Inr (), d2)" using sysD_no_fault [OF nf] by (metis prod.collapse)
  show ?thesis using 1 2 by (intro exI [of _ "w_tmps (dd_world d)"]) (simp add: reserveBackup_def e)
qed

lemma writeJournal_ok:
  assumes nf: "\<forall>n. \<not> e_fault E n" and "dd_journal d = None"
  shows "fst (writeSnapshotRestoreJournal E j d) = Inr ()"
  using assms(2) by (simp add: writeSnapshotRestoreJournal_def sysD_then_no_fault [OF nf] sysOnly_dirs [OF sysD_sysOnly]
      syncDirectory_def sysD_no_fault [OF nf])

text \<open>\<open>restored E data target objs r d\<close>: the load has ended with this generation in place.\<close>

definition restored :: "snapshot \<Rightarrow> state_doc \<Rightarrow> bytes gomap \<Rightarrow> datadir \<Rightarrow> bool" where
  "restored data target objs d \<longleftrightarrow>
     settled d \<and> w_data (dd_world d) = data \<and> w_state_json (dd_world d) = Some target \<and> w_objects (dd_world d) = objs"

lemma recover_committed:
  assumes nf: "\<forall>n. \<not> e_fault E n" and tmp: "tempNamesOK E" and dl: "\<And>b. length (e_sha256 E b) = 32"
    and j: "j = newJournal E (''.objects-backup-'' @ e_tmp E i) (''.snapshot-restore-'' @ e_tmp E k) target"
    and d: "dd_journal d = Some (journalFile j)" "generation (Some target) objs d" "liveAs data (Some target) d"
      "w_data (dd_world d) = data" "strayFree d"
    and enc: "encodeSnapshot data = Some target" and clean: "dynamo_clean data"
    and sz: "e_stateSize E target \<le> maxPersistentStateSize"
  shows "restored data target objs (snd (recoverNow E d))"
proof -
  let ?d = "snd (recoverNow E d)"
  have c: "canonicalDigest E (Some target) = Some (stateDigest E target)" by (rule canonicalDigest_encoded [OF enc clean])
  have tj: "rj_TargetStateSHA256 j = stateDigest E target" using j by (simp add: newJournal_def)
  have "e_sha256 E (e_stateText E target) \<noteq> []" using dl [of "e_stateText E target"] by auto
  then have "\<not> equalFold [] (stateDigest E target)" by (simp add: equalFold_def stateDigest_def toLower_def)
  then have dec: "decides E j target None" using c tj by (simp add: decides_def) (simp add: canonicalDigest_def)
  have inv: "restoring j target objs None fmempty d" using d by (simp add: restoring_def)
  have rd: "readableState E (w_state_json (dd_world d))" using d(2) c sz by (simp add: readableState_def generation_def)
  note jok = newJournal_ok [OF tmp dl, of i k target, folded j]
  have r: "recoverNow E d = (Inr (), ?d)"
    using recover_no_fault [OF nf inv dec d(5) jok rd] by (metis prod.collapse)
  note rr = recover_restoring [OF inv dec r]
  have m: "metaSame d ?d" by (rule recover_meta [OF metaSame_refl])
  have none: "dd_journal ?d = None" using rr(2) by simp
  have st: "w_state_json (dd_world ?d) = Some target" using m d(2) by (simp add: metaSame_def generation_def)
  from restoring_committed [OF rr(1) dec _ st] c have g: "generation (Some target) objs ?d" by simp
  have "liveAs data (Some target) ?d" using d(3) by (simp add: recover_liveAs)
  with g none m d(4) show ?thesis by (simp add: restored_def settled_def generation_def liveAs_def metaSame_def)
qed

lemma restoreFromStage_ok:
  assumes nf: "\<forall>n. \<not> e_fault E n" and tmp: "tempNamesOK E" and dl: "\<And>b. length (e_sha256 E b) = 32"
    and d: "settled d" "dd_backups d = fmempty" "strayFree d"
    and staged: "fmlookup (dd_stages d) (''.snapshot-restore-'' @ e_tmp E k) = Some (Directory t)" "td_objects t = Some objs"
    and enc: "encodeSnapshot (ls_data l) = Some target" and clean: "dynamo_clean (ls_data l)"
    and sz: "e_stateSize E target \<le> maxPersistentStateSize"
  shows "\<exists>d'. restoreFromStage E l (''.snapshot-restore-'' @ e_tmp E k) d = (Inr (ls_info l), d') \<and>
    restored (ls_data l) target objs d'"
proof -
  let ?stage = "''.snapshot-restore-'' @ e_tmp E k"
  obtain i d1 where 1: "reserveBackup E d = (Inr (''.objects-backup-'' @ e_tmp E i), d1)"
    using reserveBackup_ok [OF nf d(2)] by (metis prod.collapse)
  let ?backup = "''.objects-backup-'' @ e_tmp E i"
  let ?j = "newJournal E ?backup ?stage target"
  have s1: "sysOnly d d1" using reserveBackup_cases(1) [OF 1 refl] by blast
  have "dd_journal d1 = None" using d(1) by (simp add: settled_def sysOnly_dirs [OF s1])
  note jr = this
  obtain d2 where 2: "writeSnapshotRestoreJournal E ?j d1 = (Inr (), d2)" using writeJournal_ok [OF nf jr] by (metis prod.collapse)
  have s2: "sysOnly (d1\<lparr>dd_journal := Some (journalFile ?j)\<rparr>) d2" using journal_cases(1) [OF 2 jr] by simp
  have d2: "dd_hasObjects d2" "dd_journal d2 = Some (journalFile ?j)" "fmlookup (dd_stages d2) ?stage = Some (Directory t)"
    using d(1) staged by (simp_all add: sysOnly_dirs [OF s2] sysOnly_dirs [OF s1] settled_def)
  have st2: "strayFree d2" using d(3) by (simp add: strayFree_sysOnly [OF s2] strayFree_sysOnly [OF s1])
  obtain d5 where 3: "installSnapshot E l ?stage ?backup d2 = (Inr (ls_info l), snd (recoverNow E d5))"
    and d5: "dd_journal d5 = Some (journalFile ?j)" "generation (Some target) objs d5" "liveAs (ls_data l) (Some target) d5"
      "w_data (dd_world d5) = ls_data l" "strayFree d5"
    using installSnapshot_ok [OF nf d2(1,2) st2 d2(3) staged(2) enc clean, of ?backup] by blast
  from recover_committed [OF nf tmp dl refl d5 enc clean sz] 1 2 3 enc show ?thesis
    by (simp add: restoreFromStage_def)
qed


section \<open>Loading a complete snapshot\<close>

text \<open>Nothing is left of earlier saves and restores that were interrupted.\<close>

definition tidy :: "datadir \<Rightarrow> bool" where
  "tidy d \<longleftrightarrow> dd_stages d = fmempty \<and> dd_backups d = fmempty \<and> (\<forall>k. snapshotEntry k d \<noteq> None \<longrightarrow> validSnapshotName k)"

lemma tidy_strayFree: "tidy d \<Longrightarrow> strayFree d"
  by (simp add: tidy_def strayFree_def)

lemma restored_removeAllStage: "restored data target objs d \<Longrightarrow> restored data target objs (snd (removeAllStage E stage d))"
  using meta_frames(1) [OF metaSame_refl, of d E stage] removeAllStage_keeps(2) [of "Some target" objs E stage d]
    removeAllStage_keeps(4) [of E stage d] liveAs_meta [of d "snd (removeAllStage E stage d)" data "Some target"]
  by (auto simp: restored_def settled_def generation_def liveAs_def metaSame_def)

lemma LoadSnapshot_ok:
  assumes nf: "\<forall>n. \<not> e_fault E n" and tmp: "tempNamesOK E" and dl: "\<And>b. length (e_sha256 E b) = 32"
    and parse: "\<And>doc. encodeSnapshot data = Some doc \<Longrightarrow> e_stateParse E (e_stateText E doc) = Some doc"
    and entry: "validSnapshotName name" "snapshotEntry name d = Some (Directory s)"
    and c: "complete E name data objs m s" and lim: "readableSnapshot E s" and clean: "dynamo_clean data"
    and d: "settled d" "tidy d"
  shows "\<exists>d' target names. LoadSnapshot E name d = (Inr (manifest_info m), d') \<and> encodeSnapshot data = Some target \<and>
    referencedObjectFiles data = Inr names \<and> restored data target (fmfilter (\<lambda>f. f \<in> set names) objs) d'"
proof -
  from c obtain target names k0 where enc: "encodeSnapshot data = Some target" and names: "referencedObjectFiles data = Inr names"
    and present: "\<forall>f \<in> set names. fmlookup objs f \<noteq> None"
    and m: "m = newManifest name (e_now E k0) (savedFile E target) (map (fileOf E objs) names)"
    and s: "sd_state s = Some (e_stateText E target)" "sd_objects s = Some (fmfilter (\<lambda>f. f \<in> set names) objs)"
    unfolding complete_def by blast
  let ?objs = "fmfilter (\<lambda>f. f \<in> set names) objs"
  obtain d1 where 1: "recoverNow E d = (Inr (), d1)"
    using d(1) by (cases "recoverNow E d") (auto simp: settled_def recoverSnapshotRestore_def sysD_then_no_fault [OF nf] sysOnly_dirs [OF sysD_sysOnly])
  have s1: "sysOnly d d1" using recover_without_journal [of d E "diskFile (dd_world d)"] d(1) 1 by (simp add: settled_def)
  have entry1: "snapshotEntry name d1 = Some (Directory s)" using entry(2) by (simp add: snapshotEntry_def sysOnly_dirs [OF s1])
  from readSnapshot_ok [OF nf c lim clean parse entry(1) entry1] obtain l d2 where
    2: "readSnapshot E name d1 = (Inr l, d2)" and l: "ls_manifest l = m" "ls_data l = data" "ls_dir l = name" "ls_info l = manifest_info m"
    by (metis prod.collapse)
  have s2: "sysOnly d d2" using sysOnly_trans [OF s1 readSnapshot_sysOnly [of d1 E name]] 2 by simp
  have taken: "fmkeys (dd_stages d2) = []" using d(2) by (simp add: tidy_def sysOnly_dirs [OF s2] fmkeys_empty)
  obtain k d3 where 3: "mkdirTemp E ''.snapshot-restore-'' [] d2 = (Inr (''.snapshot-restore-'' @ e_tmp E k), d3)"
    using mkdirTemp_ok [OF nf, of "''.snapshot-restore-''" "[]" d2] by (metis empty_iff list.set(1) prod.collapse)
  let ?stage = "''.snapshot-restore-'' @ e_tmp E k"
  have s3: "sysOnly d d3" using sysOnly_trans [OF s2 mkdirTemp_sysOnly [of d2 E "''.snapshot-restore-''" "[]"]] 3 by simp
  have mo: "map sf_Name (sm_Objects (ls_manifest l)) = names" using m l(1) by (simp add: newManifest_def comp_def fileOf_def Let_def)
  have src: "snapshotObjects (ls_dir l) d3 = ?objs" using entry(2) s(2) l(3)
    by (simp add: snapshotObjects_def snapshotEntry_def sysOnly_dirs [OF s3])
  have dist: "distinct (map sf_Name (sm_Objects (ls_manifest l)))" using referencedObjectFiles_Inr(1) [OF names] mo by simp
  have "\<forall>f \<in> set (map sf_Name (sm_Objects (ls_manifest l))). fmlookup (snapshotObjects (ls_dir l) d3) f \<noteq> None"
    unfolding mo src using present by simp
  from fillStage_ok [OF nf dist this] obtain d4 where 4: "fillStage E l ?stage d3 = (Inr (), d4)" by (metis prod.collapse)
  note f4 = fillStage_cases [OF 4]
  from f4(1) obtain x where s4: "sysOnly (d3\<lparr>dd_stages := x\<rparr>) d4" by blast
  from f4(2) [OF refl dist] obtain t where t: "fmlookup (dd_stages d4) ?stage = Some (Directory t)" "td_objects t = Some ?objs"
    unfolding mo src by (auto simp: fmfilter_comp)
  have d4: "settled d4" "dd_backups d4 = fmempty"
    using d by (simp_all add: settled_def tidy_def sysOnly_same [OF s4] sysOnly_same [OF s3])
  have "strayFree d3" using tidy_strayFree [OF d(2)] by (simp add: strayFree_sysOnly [OF s3])
  from stray_fillStage [OF this, of E l ?stage] 4 have st4: "strayFree d4" by simp
  have sz: "e_stateSize E target \<le> maxPersistentStateSize"
    using lim s(1) by (simp add: readableSnapshot_def maxPersistentStateSize_def)
  obtain d5 where 5: "restoreFromStage E l ?stage d4 = (Inr (ls_info l), d5)" and r: "restored data target ?objs d5"
    using restoreFromStage_ok [OF nf tmp dl d4 st4 t, of l target] enc clean l(2) sz by auto
  let ?d = "snd (removeAllStage E ?stage d5)"
  have "LoadSnapshot E name d = (Inr (manifest_info m), ?d)"
    using 1 2 3 4 5 taken l(4) by (simp add: LoadSnapshot_def)
  with enc names restored_removeAllStage [OF r] show ?thesis by blast
qed


section \<open>Saving a store that satisfies its invariant\<close>

lemma referenced_refFiles: "set (bucketFiles d) \<union> set (uploadFiles d) \<union> set (gcsFiles d) = refFiles d"
proof (intro set_eqI iffI)
  fix f
  assume "f \<in> refFiles d"
  then obtain ns ow k n h c where "fileRef d ns ow k f n h c" by (auto simp: refFiles_def)
  then show "f \<in> set (bucketFiles d) \<union> set (uploadFiles d) \<union> set (gcsFiles d)"
    by cases (simp_all add: bucketFiles_def uploadFiles_def gcsFiles_def set_fmvalues, blast+)
next
  fix f
  assume "f \<in> set (bucketFiles d) \<union> set (uploadFiles d) \<union> set (gcsFiles d)"
  then consider b bk k x where "fmlookup (Buckets d) b = Some bk" "fmlookup (bk_Objects bk) k = Some x" "f = obj_File x"
    | u up i p where "fmlookup (MultipartUploads d) u = Some up" "fmlookup (mu_Parts up) i = Some p" "f = mp_File p"
    | b gb k y where "fmlookup (GCSBuckets d) b = Some gb" "fmlookup (gb_Objects gb) k = Some y" "f = go_File y"
    by (auto simp: bucketFiles_def uploadFiles_def gcsFiles_def set_fmvalues)
  then show "f \<in> refFiles d"
    unfolding refFiles_def by cases (blast intro: fileRef.intros)+
qed

lemma refFiles_intact:
  assumes dig: "digests_ok E S" and b: "bodiesOK E S d objs" and f: "f \<in> refFiles d"
  shows "validSnapshotObjectName f" "fmlookup objs f \<noteq> None"
proof -
  from f obtain ns ow k n h c where "fileRef d ns ow k f n h c" by (auto simp: refFiles_def)
  then obtain r where "r \<in> set (objectRefs d)" "or_file r = f" unfolding objectRefs_fileRef [symmetric] by blast
  with bodiesOK_refIntact(1) [OF dig b this(1)] show "validSnapshotObjectName f" "fmlookup objs f \<noteq> None"
    by (auto simp: refIntact_def)
qed

lemma referencedObjectFiles_valid:
  assumes "\<forall>f \<in> refFiles d. validSnapshotObjectName f"
  shows "\<exists>names. referencedObjectFiles d = Inr names \<and> set names = refFiles d"
proof -
  have "list_all validSnapshotObjectName (bucketFiles d @ uploadFiles d @ gcsFiles d)"
    using assms referenced_refFiles [of d] by (auto simp: list_all_iff)
  then obtain names where n: "referencedObjectFiles d = Inr names" by (simp add: referencedObjectFiles_def)
  with referencedObjectFiles_Inr(2) [OF n] referenced_refFiles [of d] show ?thesis by simp
qed

lemma referencedObjectFiles_ok:
  assumes "digests_ok E S" "bodiesOK E S d objs"
  shows "\<exists>names. referencedObjectFiles d = Inr names \<and> set names = refFiles d"
  using referencedObjectFiles_valid refFiles_intact(1) [OF assms] by blast

lemma fillSnapshotDir_ok:
  assumes nf: "\<forall>n. \<not> e_fault E n" and enc: "encodeSnapshot (w_data w) = Some doc"
    and names: "referencedObjectFiles (w_data w) = Inr names" and present: "\<forall>f \<in> set names. fmlookup (w_objects w) f \<noteq> None"
  shows "\<exists>m. fst (fst (fillSnapshotDir E name emptySnapshotDir w)) = Inr m"
proof -
  obtain w1 where 1: "runSys E [Chmod, Mkdir] w = (True, w1)" using runSys_no_fault [OF nf] by blast
  obtain k where k: "w1 = w\<lparr>w_sys := k\<rparr>" using runSys_frame [OF 1] by blast
  obtain f st w2 where 2: "writeSnapshotBytes E ''state.json'' (e_stateText E doc) None w1 = ((Inr f, st), w2)"
    using writeSnapshotBytes_ok [OF nf] by (metis prod.collapse)
  have "sysAhead w1 w2" using writeSnapshotBytes_ahead [of w1 E "''state.json''" "e_stateText E doc" None] 2 by simp
  with k have same: "w_data w2 = w_data w" "w_objects w2 = w_objects w" by (auto simp: sysAhead_def)
  have "\<forall>f \<in> set names. fmlookup (w_objects w) f \<noteq> None \<and> fmlookup fmempty f = None" using present by simp
  from copySnapshotFiles_ok [OF nf referencedObjectFiles_Inr(1) [OF names] this] obtain fs objs w3 where
    3: "copySnapshotFiles E (w_objects w2) fmempty names w2 = ((Inr fs, objs), w3)" unfolding same by (metis prod.collapse)
  obtain created w4 where 4: "now E w3 = (created, w4)" by fastforce
  have wm: "\<exists>m. fst (fst (writeManifest E m' s' w4)) = Inr m" for m' s'
    by (simp add: writeManifest_def Let_def runSys_no_fault [OF nf] del: runSys.simps)
  show ?thesis
    using 1 k enc 2 same names 3 4 wm by (simp add: fillSnapshotDir_def Let_def del: runSys.simps)
qed

lemma strictCheck_ok:
  assumes h: "ok.holds E S w" and nf: "\<forall>n. \<not> e_fault E n"
  shows "\<exists>w'. strictCheck E w = (Inr (), w') \<and> w_data w' = w_data w \<and> bodiesOK E S (w_data w) (w_objects w') \<and>
    (\<forall>f \<in> refFiles (w_data w). fmlookup (w_objects w') f = fmlookup (w_objects w) f)"
proof (cases "w_integrityMode w = IntegrityModeStrict")
  case False
  with h show ?thesis by (auto simp: strictCheck_def ok.holds_def storeOK_def)
next
  case True
  have b: "bodiesOK E S (w_data w) (w_objects w)" using h by (simp add: ok.holds_def storeOK_def)
  obtain w1 where v: "validateAndCleanupObjectState E (w_data w) w = (Inr (w_data w, False), w1)" "objectsOnly w w1"
    "w_objects w1 = fmfilter (\<lambda>g. g \<in> refFiles (w_data w)) (w_objects w)"
    by (rule validateAndCleanup_complete [OF nf holds_env [OF h] b])
  have "strictCheck E w = (Inr (), w1)" using True v(1,2) by (simp add: strictCheck_def objectsOnly_def)
  with v(2,3) bodiesOK_cleanup [OF b] show ?thesis by (auto simp: objectsOnly_def)
qed


lemma SaveSnapshot_ok:
  assumes nf: "\<forall>n. \<not> e_fault E n" and d: "tidy d" "validSnapshotName name" "snapshotEntry name d = None"
    and strict: "strictCheck E (dd_world d) = (Inr (), w)" and enc: "encodeSnapshot (w_data w) = Some doc"
    and names: "referencedObjectFiles (w_data w) = Inr names" "\<forall>f \<in> set names. fmlookup (w_objects w) f \<noteq> None"
  shows "\<exists>info. fst (SaveSnapshot E name d) = Inr info"
proof -
  let ?d1 = "d\<lparr>dd_world := w\<rparr>"
  obtain root d2 where 2: "ensureSnapshotRoot E ?d1 = (Inr root, d2)"
    by (simp add: ensureSnapshotRoot_def Let_def sysD_then_no_fault [OF nf])
  note r = ensureSnapshotRoot_same(2) [OF 2 refl]
  obtain k where k: "dd_world d2 = w\<lparr>w_sys := k\<rparr>" using ensureSnapshotRoot_same(3) [OF 2] by auto
  have entry: "snapshotEntry n d = fmlookup root n" for n using r [of n] by (simp add: snapshotEntry_def)
  obtain d3 where 3: "sysD E [Lstat] d2 = (Inr (), d3)" using sysD_no_fault [OF nf] by (metis prod.collapse)
  have "''.snapshot-'' @ e_tmp E n \<notin> set (fmkeys root)" for n
    using d(1) temporary_not_valid [of "e_tmp E n"] by (auto simp: tidy_def entry in_fmkeys)
  from mkdirTemp_ok [OF nf this] obtain t d4 where 4: "mkdirTemp E ''.snapshot-'' (fmkeys root) d3 = (Inr t, d4)"
    by (metis prod.collapse)
  have s4: "sysOnly d2 d4" using sysOnly_trans [OF sysD_D [OF 3] mkdirTemp_sysOnly] 4 by (metis snd_conv)
  have w4: "w_data (dd_world d4) = w_data w" "w_objects (dd_world d4) = w_objects w" by (simp_all add: sysOnly_world [OF s4] k)
  obtain m s w5 where 5: "fillSnapshotDir E name emptySnapshotDir (dd_world d4) = ((Inr m, s), w5)"
    using fillSnapshotDir_ok [OF nf, of "dd_world d4" doc names name] enc names unfolding w4 by (metis prod.collapse)
  obtain d6 where 6: "sysD E [Rename] (d4\<lparr>dd_world := w5, dd_snapshots := Some (fmupd t (Directory s) root)\<rparr>) = (Inr (), d6)"
    using sysD_no_fault [OF nf] by (metis prod.collapse)
  have "fmlookup root name = None" using d(3) by (simp add: entry)
  with 2 3 4 5 6 strict d(2) show ?thesis by (simp add: SaveSnapshot_def onWorld_def Let_def)
qed

lemma save_then_load:
  assumes h: "ok.holds E S (dd_world d)" and nf: "\<forall>n. \<not> e_fault E n" and tmp: "tempNamesOK E"
    and parse: "e_stateParse E (e_stateText E doc) = Some doc"
    and d: "tidy d" "validSnapshotName name" "snapshotEntry name d = None"
    and enc: "encodeSnapshot (w_data (dd_world d)) = Some doc"
  obtains info d1 s where "SaveSnapshot E name d = (Inr info, d1)" "snapshotEntry name d1 = Some (Directory s)"
    "w_data (dd_world d1) = w_data (dd_world d)"
    "\<And>d2. snapshotEntry name d2 = Some (Directory s) \<Longrightarrow> settled d2 \<Longrightarrow> tidy d2 \<Longrightarrow> readableSnapshot E s \<Longrightarrow>
       \<exists>d3. LoadSnapshot E name d2 = (Inr info, d3) \<and> restored (w_data (dd_world d)) doc
         (fmfilter (\<lambda>f. f \<in> refFiles (w_data (dd_world d))) (w_objects (dd_world d))) d3"
proof -
  let ?w = "dd_world d"
  obtain w where w: "strictCheck E ?w = (Inr (), w)" "w_data w = w_data ?w" "bodiesOK E S (w_data ?w) (w_objects w)"
    "\<forall>f \<in> refFiles (w_data ?w). fmlookup (w_objects w) f = fmlookup (w_objects ?w) f" using strictCheck_ok [OF h nf] by blast
  have dig: "digests_ok E S" by (rule holds_env [OF h])
  obtain names where names: "referencedObjectFiles (w_data ?w) = Inr names" "set names = refFiles (w_data ?w)"
    using referencedObjectFiles_ok [OF dig w(3)] by blast
  have present: "\<forall>f \<in> set names. fmlookup (w_objects w) f \<noteq> None" using refFiles_intact(2) [OF dig w(3)] names(2) by blast
  obtain info d1 where run: "SaveSnapshot E name d = (Inr info, d1)"
    using SaveSnapshot_ok [OF nf d w(1), of doc names] enc names present w(2) by (metis prod.collapse)
  have clean: "dynamo_clean (w_data ?w)" using h by (simp add: ok.holds_def durable_def)
  have dl: "length (e_sha256 E b) = 32" for b using dig by (simp add: digests_ok_def)
  from run show ?thesis
  proof (cases rule: SaveSnapshot_cases)
    case (1 e)
    then show ?thesis by simp
  next
    case (2 w' m s)
    with w have same: "w' = w" "sameWorld w (dd_world d1)" "info = manifest_info m" by simp_all
    have c: "complete E name (w_data ?w) (w_objects w) m s" using 2(5) same(1) w(2) by simp
    have objs: "fmfilter (\<lambda>f. f \<in> set names) (w_objects w) = fmfilter (\<lambda>f. f \<in> refFiles (w_data ?w)) (w_objects ?w)"
      by (rule fmap_ext) (use names(2) w(4) in auto)
    show ?thesis
    proof (rule that [OF run 2(7)])
      show "w_data (dd_world d1) = w_data ?w" using sameWorld_fields [OF same(2)] w(2) by simp
    next
      fix d2
      assume d2: "snapshotEntry name d2 = Some (Directory s)" "settled d2" "tidy d2" "readableSnapshot E s"
      have ps: "e_stateParse E (e_stateText E x) = Some x" if "encodeSnapshot (w_data ?w) = Some x" for x
        using that parse enc by simp
      from LoadSnapshot_ok [OF nf tmp dl ps d(2) d2(1) c d2(4) clean d2(2,3)] enc names(1) objs same(3)
      show "\<exists>d3. LoadSnapshot E name d2 = (Inr info, d3) \<and> restored (w_data ?w) doc
         (fmfilter (\<lambda>f. f \<in> refFiles (w_data ?w)) (w_objects ?w)) d3" by auto
    qed
  qed
qed

end
