(* ===== verification/Snapshot_Samples.thy ===== *)
theory Snapshot_Samples
  imports Snapshot_Restore
begin

text \<open>
  A concrete data directory for the theorems on snapshots: a live store with one object and a saved
  snapshot of the empty store; and the evaluation of a load in which one system call fails, the
  first one after the commit.
\<close>

section \<open>The environment\<close>

text \<open>Two documents are told apart by their text: whether there is a bucket.\<close>

definition snapshotEnv :: env where
  "snapshotEnv = sampleEnv\<lparr>
     e_tmp := (\<lambda>_. ''0''),
     e_stateText := (\<lambda>doc. case doc_Buckets doc of
        None \<Rightarrow> ''e'' | Some m \<Rightarrow> if fmnull m then ''e'' else sampleBody),
     e_stateParse := (\<lambda>t. if t = sampleBody then Some (snapshotDoc (w_data sampleObjectWorld))
        else if t = ''e'' then Some (snapshotDoc emptySnapshot) else None)\<rparr>"

lemma snapshotEnv_simps [simp]:
  "e_fault snapshotEnv n = False" "e_sha256 snapshotEnv = e_sha256 sampleEnv" "e_crc32c snapshotEnv = e_crc32c sampleEnv"
  "mint snapshotEnv = mint sampleEnv" "parseRedrivePolicy snapshotEnv = parseRedrivePolicy sampleEnv"
  "e_tmp snapshotEnv = (\<lambda>_. ''0'')" "e_now snapshotEnv = e_now sampleEnv" "e_timeText snapshotEnv t = ''''"
  by (simp_all add: snapshotEnv_def sampleEnv_def fun_eq_iff mint_def parseRedrivePolicy_def)

lemma holds_snapshotEnv [simp]: "ok.holds snapshotEnv S w = ok.holds sampleEnv S w"
  using storeOK_cong [of snapshotEnv sampleEnv S] by (simp add: ok.holds_def)

lemma emptyDoc_simps [simp]:
  "normalizeSnapshot (snapshotDoc emptySnapshot) = emptySnapshot"
  "validateSnapshotStructure (snapshotDoc emptySnapshot) = None"
  "doc_Buckets (snapshotDoc emptySnapshot) = Some fmempty"
  "referencedObjectFiles emptySnapshot = Inr []"
  "e_stateText snapshotEnv (snapshotDoc emptySnapshot) = ''e''"
  "e_stateParse snapshotEnv ''e'' = Some (snapshotDoc emptySnapshot)"
proof -
  show b: "doc_Buckets (snapshotDoc emptySnapshot) = Some fmempty"
    by (simp add: snapshotDoc_def emptySnapshot_def doc_map_def)
  show "normalizeSnapshot (snapshotDoc emptySnapshot) = emptySnapshot" by (rule decode_encode [OF encode_empty dynamo_clean_empty])
  show "validateSnapshotStructure (snapshotDoc emptySnapshot) = None" by (rule encode_validates [OF encode_empty])
  show "referencedObjectFiles emptySnapshot = Inr []" by code_simp
  show "e_stateText snapshotEnv (snapshotDoc emptySnapshot) = ''e''"
    by (simp add: snapshotEnv_def b fmnull_lookup)
  show "e_stateParse snapshotEnv ''e'' = Some (snapshotDoc emptySnapshot)"
    by (simp add: snapshotEnv_def sampleBody_def)
qed

lemma snapshot_tempNamesOK: "tempNamesOK snapshotEnv"
  by (simp add: tempNamesOK_def)

section \<open>The directory\<close>

definition savedManifest :: snapshotManifest where
  "savedManifest = newManifest ''base'' (e_now snapshotEnv 1) (savedFile snapshotEnv (snapshotDoc emptySnapshot)) []"

definition savedDir :: snapshotDir where
  "savedDir = \<lparr>sd_manifest = Some (JsonFile (manifestSize snapshotEnv savedManifest) (Some savedManifest)),
     sd_state = Some ''e'', sd_objects = Some fmempty\<rparr>"

definition sampleDataDir :: datadir where
  "sampleDataDir = \<lparr>dd_world = sampleObjectWorld, dd_hasObjects = True,
     dd_snapshots = Some (fmupd ''base'' (Directory savedDir) fmempty), dd_stages = fmempty, dd_backups = fmempty,
     dd_journal = None, dd_locked = True, dd_owner = None\<rparr>"

lemma savedManifest_small: "manifestSize snapshotEnv savedManifest \<le> 1048576"
  by code_simp

lemma saved_complete: "complete snapshotEnv ''base'' emptySnapshot fmempty savedManifest savedDir"
proof -
  have "savedManifest = newManifest ''base'' (e_now snapshotEnv 1) (savedFile snapshotEnv (snapshotDoc emptySnapshot)) (map (fileOf snapshotEnv fmempty) [])"
    by (simp add: savedManifest_def)
  moreover have "sd_objects savedDir = Some (fmfilter (\<lambda>f. f \<in> set []) fmempty)" by (simp add: savedDir_def)
  ultimately show ?thesis unfolding complete_def
    by (intro exI [of _ "snapshotDoc emptySnapshot"] exI [of _ "[]"] exI [of _ 1]) (simp add: savedDir_def)
qed

lemma saved_readable: "readableSnapshot snapshotEnv savedDir"
  using savedManifest_small
  by (simp add: readableSnapshot_def savedDir_def snapshotFiles_def) (simp add: savedManifest_def newManifest_def zeroTime_def)

lemma base_name: "validSnapshotName ''base''"
  by code_simp

lemma sample_sha256_e [simp]: "e_sha256 sampleEnv ''e'' = sampleDigest 0"
proof -
  have "length (filePreimage ns ow k h) > 1" for ns ow k h by (simp add: filePreimage_def)
  then have "''e'' \<noteq> filePreimage ns ow k h" for ns ow k h by (metis One_nat_def length_Cons less_irrefl list.size(3))
  then show ?thesis by (simp add: sampleEnv_def sampleBody_def samplePreimage_def samplePartPreimage_def)
qed

lemma sampleObject_text: "e_stateText snapshotEnv (snapshotDoc (w_data sampleObjectWorld)) = sampleBody"
  by (simp add: snapshotEnv_def snapshotDoc_def sampleObjectWorld_def doc_map_def fmnull_lookup)

lemma sample_settled: "settled sampleDataDir" "tidy sampleDataDir"
proof -
  show "settled sampleDataDir" using sampleObjectWorld_holds by (simp add: settled_def sampleDataDir_def ok.holds_def)
  show "tidy sampleDataDir" using base_name by (simp add: tidy_def sampleDataDir_def snapshotEntry_def)
qed

lemma sample_restorable:
  "restorable snapshotEnv ''base'' savedDir emptySnapshot (snapshotDoc emptySnapshot) sampleDataDir"
proof -
  note sample_sha256_e
  moreover have "diskDoc (dd_world sampleDataDir) = snapshotDoc (w_data sampleObjectWorld)"
    by (simp add: sampleDataDir_def diskDoc_def sampleObjectWorld_def)
  ultimately have "stateDigest snapshotEnv (snapshotDoc emptySnapshot) \<noteq> stateDigest snapshotEnv (diskDoc (dd_world sampleDataDir))"
    by (simp add: stateDigest_def sampleObject_text hexEncode_inj sampleDigest_inj)
  with sample_digests_ok show ?thesis
    by (simp add: restorable_def snapshotEntry_def sampleDataDir_def snapshotDocOf_def savedDir_def digests_ok_def)
qed


section \<open>A load whose clean-up fails\<close>

text \<open>The first system call of the last recovery, which \<open>LoadSnapshot\<close> makes after its commit, is the 49th.\<close>

definition cleanupFails :: "nat \<Rightarrow> bool" where
  "cleanupFails n \<longleftrightarrow> n = 48"

definition leftJournal :: snapshotRestoreJournal where
  "leftJournal = newJournal snapshotEnv ''.objects-backup-0'' ''.snapshot-restore-0'' (snapshotDoc emptySnapshot)"

abbreviation failingEnv :: env where
  "failingEnv \<equiv> withFaults cleanupFails snapshotEnv"

lemma savedManifest_simps [simp]:
  "sm_SchemaVersion savedManifest = snapshotSchemaVersion" "sm_Name savedManifest = ''base''" "sm_CreatedAt savedManifest = 1000000000"
  "sm_State savedManifest = savedFile snapshotEnv (snapshotDoc emptySnapshot)" "sm_Objects savedManifest = []"
  "sm_SizeBytes savedManifest = 1"
  by (simp_all add: savedManifest_def newManifest_def savedFile_def)

lemma failing_runSys:
  "w_sys w + length cs \<le> 48 \<Longrightarrow> runSys failingEnv cs w = (True, w\<lparr>w_sys := w_sys w + length cs\<rparr>)"
  by (induction cs arbitrary: w) (auto simp: cleanupFails_def)

lemma failing_sysD:
  "w_sys (dd_world d) + length cs \<le> 48 \<Longrightarrow>
     sysD failingEnv cs d = (Inr (), d\<lparr>dd_world := (dd_world d)\<lparr>w_sys := w_sys (dd_world d) + length cs\<rparr>\<rparr>)"
  by (simp add: sysD_def failing_runSys del: runSys.simps)

lemma freeName_first: "freeName E pattern [] 10000 n = Some (pattern @ e_tmp E n, Suc n)"
proof -
  have "freeName E pattern [] (Suc 9999) n = Some (pattern @ e_tmp E n, Suc n)"
    by (simp only: freeName.simps) (simp add: Let_def)
  then show ?thesis by simp
qed

lemmas failing_simps = failing_runSys failing_sysD

lemma failing_read:
  "w_sys w = 2 \<Longrightarrow> readSnapshotDir failingEnv ''base'' savedDir w =
    (Inr \<lparr>ls_info = manifest_info savedManifest, ls_manifest = savedManifest, ls_data = emptySnapshot,
          ls_stateRaw = ''e'', ls_dir = ''base''\<rparr>, w\<lparr>w_sys := 7\<rparr>)"
  using savedManifest_small
  by (simp add: readSnapshotDir_def readSnapshotManifest_def savedDir_def snapshotSchemaVersion_def zeroTime_def savedFile_def
    failing_simps readSnapshotFile_def verifySnapshotFile_def stateDigest_def del: runSys.simps)

lemma load_with_failed_cleanup:
  "\<exists>d. LoadSnapshot failingEnv ''base'' sampleDataDir = (Inr (manifest_info savedManifest), d) \<and>
     dd_journal d = Some (journalFile leftJournal) \<and>
     fmlookup (dd_backups d) ''.objects-backup-0'' = Some (Directory (w_objects sampleObjectWorld)) \<and>
     w_state_json (dd_world d) = Some (snapshotDoc emptySnapshot)"
  apply (simp add: LoadSnapshot_def recoverSnapshotRestore_def failing_simps sampleDataDir_def sampleObjectWorld_def sampleWorld_def del: runSys.simps)
  apply (simp add: readSnapshot_def failing_simps base_name snapshotEntry_def onWorld_def failing_read del: runSys.simps)
  apply (simp add: mkdirTemp_def freeName_first failing_simps fmkeys_empty del: runSys.simps)
  apply (simp add: fillStage_def failing_simps materializeLoadedSnapshot_def emptyTarget_def writeSnapshotBytes_def snapshotObjects_def snapshotEntry_def del: runSys.simps)
  apply (simp add: restoreFromStage_def reserveBackup_def mkdirTemp_def freeName_first failing_simps fmkeys_empty writeSnapshotRestoreJournal_def syncDirectory_def del: runSys.simps)
  apply (simp add: installSnapshot_def renameObjectsToBackup_def renameStagedObjects_def failing_simps syncDirectory_def saveD_def saveLocked_def sysDone_def del: runSys.simps)
  apply (simp add: recoverSnapshotRestore_def sysD_def cleanupFails_def)
  apply (simp add: removeAllStage_def removeTarget_def removeObjectTree_def removeEntry_def cleanupFails_def leftJournal_def)
  done


section \<open>What the theorems assume of the sample\<close>

lemma sample_dir: "dd_journal sampleDataDir = None" "dd_hasObjects sampleDataDir"
  by (simp_all add: sampleDataDir_def)

lemma sample_dir_holds: "ok.holds snapshotEnv sampleInputs (dd_world sampleDataDir)"
  using sampleObjectWorld_holds by (simp add: sampleDataDir_def)

lemma sample_new:
  "storeOK snapshotEnv sampleInputs (w_ids (dd_world sampleDataDir)) (restoredObjects savedDir emptySnapshot) emptySnapshot"
  using sample_digests_ok storeOK_cong [of snapshotEnv sampleEnv] by simp

lemma sample_sizes:
  "e_stateSize snapshotEnv (diskDoc (dd_world sampleDataDir)) \<le> maxPersistentStateSize"
  "e_stateSize snapshotEnv (snapshotDoc emptySnapshot) \<le> maxPersistentStateSize"
  using sampleObject_text
  by (simp_all add: sampleDataDir_def diskDoc_def sampleObjectWorld_def maxPersistentStateSize_def sampleBody_def)

lemma sample_options: "''data'' \<noteq> ''''" "ParseIntegrityMode ''strict'' = Inr IntegrityModeStrict"
  by simp code_simp

end
