(* ===== verification/Snapshot_Theorems.thy ===== *)
theory Snapshot_Theorems
  imports Snapshot_Samples
begin

text \<open>
  The properties of snapshots and of the lock of the data directory: restoring is all or nothing
  under every schedule of failing calls, an interrupted restore opens again, a saved snapshot is
  restored exactly, a save adds one complete snapshot or none, a directory has one owner; and two
  defects.
\<close>

section \<open>Restoring\<close>






section \<open>Saving\<close>






lemma decimalSize_small [simp]: "decimalSize 2 = 1" "decimalSize 4 = 1"
  by code_simp+






section \<open>The lock\<close>

lemma acquire_locks:
  assumes "acquireDataDirLock E dir pid d = (Inr (), d1)"
  shows "dd_locked d1"
proof -
  obtain q1 d1' where 1: "sysD E [Open] d = (q1, d1')" by fastforce
  obtain q2 d2 where 2: "sysD E [Chmod] d1' = (q2, d2)" by fastforce
  obtain q3 d3 where 3: "sysD E [Flock] d2 = (q3, d3)" by fastforce
  obtain t d4 where 4: "onWorld (now E) (d3\<lparr>dd_locked := True\<rparr>) = (t, d4)" by fastforce
  obtain q5 d5 where 5: "sysD E [Truncate] d4 = (q5, d5)" by fastforce
  obtain q6 d6 where 6: "sysD E [Seek] (d5\<lparr>dd_owner := None\<rparr>) = (q6, d6)" by fastforce
  obtain q7 d7 where 7: "sysD E [Write] d6 = (q7, d7)" by fastforce
  obtain q8 d8 where 8: "sysD E [Sync] (d7\<lparr>dd_owner := Some \<lparr>lo_PID = pid, lo_StartedAt = t\<rparr>\<rparr>) = (q8, d8)" by fastforce
  have l4: "dd_locked d4" using 4 by (auto simp: onWorld_def split: prod.splits)
  have l8: "dd_locked d8"
    using l4 sysOnly_dirs(6) [OF sysD_D [OF 5]] sysOnly_dirs(6) [OF sysD_D [OF 6]]
      sysOnly_dirs(6) [OF sysD_D [OF 7]] sysOnly_dirs(6) [OF sysD_D [OF 8]] by simp
  have "d1 = d8"
    using assms 1 2 3 4 5 6 7 8
    by (cases q1; cases q2; cases q3; cases q5; cases q6; cases q7; cases q8)
      (auto simp: acquireDataDirLock_def split: prod.splits if_splits)
  with l8 show ?thesis by simp
qed

lemma acquire_locked:
  assumes "dd_locked d"
  shows "\<exists>e d1. acquireDataDirLock E dir pid d = (Inl e, d1) \<and> sysOnly d d1"
proof -
  obtain q1 d1 where 1: "sysD E [Open] d = (q1, d1)" by fastforce
  obtain q2 d2 where 2: "sysD E [Chmod] d1 = (q2, d2)" by fastforce
  obtain q3 d3 where 3: "sysD E [Flock] d2 = (q3, d3)" by fastforce
  obtain ow d4 where 4: "readDataDirLockOwner E d3 = (ow, d4)" by fastforce
  note s1 = sysD_D [OF 1]
  have s2: "sysOnly d d2" using s1 sysD_D [OF 2] by (rule sysOnly_trans)
  have s3: "sysOnly d d3" using s2 sysD_D [OF 3] by (rule sysOnly_trans)
  have "sysOnly d3 d4" using 4 sysD_sysOnly [of d3 E "[Seek, ReadFile]"]
    by (auto simp: readDataDirLockOwner_def split: prod.splits sum.splits option.splits if_splits)
  with s3 have s4: "sysOnly d d4" by (rule sysOnly_trans)
  have close: "sysOnly d (snd (sysD E [Close] x))" if "sysOnly d x" for x
    using that sysD_sysOnly by (rule sysOnly_trans)
  have "dd_locked d3" using assms by (simp add: sysOnly_dirs [OF s3])
  with s1 close [OF s2] close [OF s4] 1 2 3 4 show ?thesis
    by (cases q1; cases q2; cases q3) (auto simp: acquireDataDirLock_def)
qed


text \<open>An opened store holds the lock.\<close>

lemma open_locks:
  assumes "OpenWithOptions E dir mode pid st d = (Inr (), d1)"
  shows "dd_locked d1"
proof -
  obtain m where m: "dir \<noteq> ''''" "ParseIntegrityMode mode = Inr m"
    using assms by (cases "dir = ''''"; cases "ParseIntegrityMode mode") (auto simp: OpenWithOptions_def)
  obtain q1 d2 where 1: "sysD E [Mkdir] d = (q1, d2)" by fastforce
  obtain q2 d3 where 2: "acquireDataDirLock E dir pid d2 = (q2, d3)" by fastforce
  obtain q3 d4 where 3: "recoverSnapshotRestore E st d3 = (q3, d4)" by fastforce
  obtain q4 d5 where 4: "sysD E [Mkdir] d4 = (q4, d5)" by fastforce
  obtain q5 d6 where 5: "sysD E [Lstat] (makeObjects d5) = (q5, d6)" by fastforce
  obtain q6 d7 where 6: "onWorld (openData E m st) d6 = (q6, d7)" by fastforce
  from assms m 1 2 3 4 5 6 have q: "q1 = Inr ()" "q2 = Inr ()" and d1: "d1 = d7"
    by (cases q1; cases q2; cases q3; cases q4; cases q5; cases q6; simp add: OpenWithOptions_def)+
  have "dd_locked d3" using acquire_locks 2 q(2) by blast
  moreover have "dd_locked d4 = dd_locked d3"
    using recover_meta [OF metaSame_refl, of d3 E st] 3 by (simp add: metaSame_def)
  moreover have "dd_locked d6 = dd_locked d4"
    using sysOnly_dirs(6) [OF sysD_D [OF 4]] sysOnly_dirs(6) [OF sysD_D [OF 5]] by (simp add: makeObjects_def)
  moreover have "dd_locked d7 = dd_locked d6" using 6 by (auto simp: onWorld_def split: prod.splits)
  ultimately show ?thesis using d1 by simp
qed

text \<open>
  C22. A data directory has one owner. While a store has it open, every further attempt to open it, by any
  process, with any options and any failing calls, fails and changes nothing on disk or in memory: the
  lock, its recorded owner, the state, the objects, the snapshots and a restore journal stay as they are.
\<close>

theorem second_open_refused:
  assumes "OpenWithOptions E dir mode pid st d = (Inr (), d1)"
    and "OpenWithOptions E' dir' mode' pid' st' d1 = (r, d2)"
  shows "(\<exists>e. r = Inl e) \<and> sysOnly d1 d2"
proof -
  obtain q d3 where 1: "sysD E' [Mkdir] d1 = (q, d3)" by fastforce
  note s = sysD_D [OF 1]
  have "dd_locked d3" using open_locks [OF assms(1)] by (simp add: sysOnly_dirs [OF s])
  from acquire_locked [OF this] obtain e d4 where 2: "acquireDataDirLock E' dir' pid' d3 = (Inl e, d4)" "sysOnly d3 d4"
    by blast
  have "sysOnly d1 d4" using s 2(2) by (rule sysOnly_trans)
  with assms(2) 1 2(1) s show ?thesis
    by (cases "dir' = ''''"; cases "ParseIntegrityMode mode'"; cases q) (auto simp: OpenWithOptions_def)
qed

theorem second_open_refused_witness:
  "\<exists>d d1 e d2. OpenWithOptions snapshotEnv ''data'' ''strict'' 7 (diskFile (dd_world d)) (d\<lparr>dd_locked := False\<rparr>) = (Inr (), d1) \<and>
     OpenWithOptions snapshotEnv ''data'' ''startup'' 8 (diskFile (dd_world d1)) d1 = (Inl e, d2) \<and> sysOnly d1 d2"
proof -
  have nf: "\<forall>n. \<not> e_fault snapshotEnv n" by simp
  obtain r d where load: "LoadSnapshot (withFaults (\<lambda>_. True) snapshotEnv) ''base'' sampleDataDir = (r, d)" by fastforce
  obtain d1 where 1: "OpenWithOptions snapshotEnv ''data'' ''strict'' 7 (diskFile (dd_world d)) (d\<lparr>dd_locked := False\<rparr>) = (Inr (), d1)"
    using load_then_open [OF sample_dir_holds sample_dir tidy_strayFree [OF sample_settled(2)] sample_restorable
        sample_new load nf snapshot_tempNamesOK sample_sizes sample_options] by blast
  obtain r2 d2 where 2: "OpenWithOptions snapshotEnv ''data'' ''startup'' 8 (diskFile (dd_world d1)) d1 = (r2, d2)" by fastforce
  from second_open_refused [OF 1 2] 1 2 show ?thesis by blast
qed


section \<open>A failed clean-up\<close>




end
