(* ===== verification/Snapshot_Limits.thy ===== *)
theory Snapshot_Limits
  imports Snapshot_Samples
begin

text \<open>
  The limit of the manifest reader, which the writer does not know: a snapshot with many objects is
  saved, but cannot be read, and makes the listing of all snapshots fail.
\<close>

section \<open>The size of a manifest\<close>

lemma quotedSize_ge: "2 + int (length s) \<le> quotedSize s"
proof -
  have "1 \<le> escapedSize c" for c by (simp add: escapedSize_def Let_def)
  then have "int (length s) \<le> sum_list (map escapedSize s)" by (induction s) (auto intro: order_trans [OF _ add_mono])
  then show ?thesis by (simp add: quotedSize_def)
qed

lemma decimalSize_ge: "0 \<le> decimalSize i"
  by (simp add: decimalSize_def)

lemma fileSize_ge:
  assumes "sf_Name f \<noteq> ''''" "length (sf_SHA256 f) = 64"
  shows "125 \<le> fileSize 4 f"
proof -
  have "length (sf_Name f) \<ge> 1" using assms(1) by (cases "sf_Name f") auto
  then have "3 \<le> quotedSize (sf_Name f)" using quotedSize_ge [of "sf_Name f"] by simp
  moreover have "66 \<le> quotedSize (sf_SHA256 f)" using quotedSize_ge [of "sf_SHA256 f"] assms(2) by simp
  moreover have "quotedSize ''name'' = 6" "quotedSize ''size'' = 6" "quotedSize ''sha256'' = 8" by code_simp+
  ultimately show ?thesis using decimalSize_ge [of "sf_Size f"] by (simp add: fileSize_def memberSize_def)
qed

lemma fileListSize_ge:
  assumes "\<forall>f \<in> set fs. sf_Name f \<noteq> '''' \<and> length (sf_SHA256 f) = 64"
  shows "131 * int (length fs) \<le> fileListSize fs"
proof -
  have "130 * int (length fs) \<le> sum_list (map (\<lambda>f. 1 + 4 + fileSize 4 f) fs)"
    using assms
  proof (induction fs)
    case (Cons f fs)
    then show ?case using fileSize_ge [of f] by simp
  qed simp
  then show ?thesis by (simp add: fileListSize_def)
qed

lemma fileSize_pos: "0 \<le> fileSize 2 f"
  using quotedSize_ge decimalSize_ge [of "sf_Size f"]
  unfolding fileSize_def memberSize_def
  by (smt (verit) of_nat_0_le_iff)

lemma manifestSize_ge: "fileListSize (sm_Objects m) \<le> manifestSize E m"
proof -
  have q: "0 \<le> quotedSize s" for s using quotedSize_ge [of s] by simp
  show ?thesis unfolding manifestSize_def memberSize_def
    using fileSize_pos [of "sm_State m"] decimalSize_ge [of "sm_SizeBytes m"] q
    by (smt (verit))
qed

section \<open>A manifest the reader refuses\<close>

text \<open>The snapshot \<open>s\<close> has a manifest beyond the limit.\<close>

definition tooLarge :: "snapshotDir \<Rightarrow> bool" where
  "tooLarge s \<longleftrightarrow> (\<exists>sz m. sd_manifest s = Some (JsonFile sz m) \<and> sz > 1048576)"

lemma tooLarge_manifest: "tooLarge s \<Longrightarrow> \<exists>e w'. readSnapshotManifest E name s w = (Inl e, w')"
  by (cases "runSys E [ReadFile] w"; cases "fst (runSys E [ReadFile] w)")
    (auto simp: tooLarge_def readSnapshotManifest_def simp del: runSys.simps)

lemma tooLarge_list:
  "(name, Directory s) \<in> set entries \<Longrightarrow> validSnapshotName name \<Longrightarrow> tooLarge s \<Longrightarrow>
     \<exists>e w'. readManifests E entries w = (Inl e, w')"
proof (induction entries arbitrary: w)
  case (Cons x entries)
  obtain n y where x: "x = (n, y)" by fastforce
  show ?case
  proof (cases "x = (name, Directory s)")
    case True
    with tooLarge_manifest [OF Cons.prems(3), of E name w] Cons.prems(2) show ?thesis by auto
  next
    case False
    then have "(name, Directory s) \<in> set entries" using Cons.prems(1) by auto
    note ih = Cons.IH [OF this Cons.prems(2,3)]
    show ?thesis
    proof (cases y)
      case (Directory s')
      obtain r w1 where m: "readSnapshotManifest E n s' w = (r, w1)" by fastforce
      with ih [of w] ih [of w1] x Directory show ?thesis by (cases r) auto
    qed (use ih [of w] x in simp)
  qed
qed simp

lemma tooLarge_ListSnapshots:
  assumes "snapshotEntry name d = Some (Directory s)" "validSnapshotName name" "tooLarge s"
  shows "\<exists>e d'. ListSnapshots E d = (Inl e, d')"
proof -
  from assms(1) obtain root where root: "dd_snapshots d = Some root" "fmlookup root name = Some (Directory s)"
    by (auto simp: snapshotEntry_def split: option.splits)
  obtain q d1 where q: "sysD E [ReadDir] d = (q, d1)" by fastforce
  have "dd_snapshots d1 = Some root" using root by (simp add: sysOnly_dirs [OF sysD_D [OF q]])
  moreover have "(name, Directory s) \<in> set (sorted_list_of_fmap root)"
    using root(2) by (auto simp: sorted_list_of_fmap_def image_iff intro!: bexI [of _ name] fmdomI)
  from tooLarge_list [OF this assms(2,3), of E "dd_world d1"] obtain e w where
    "readManifests E (sorted_list_of_fmap root) (dd_world d1) = (Inl e, w)" by blast
  ultimately show ?thesis using q by (cases q) (auto simp: ListSnapshots_def onWorld_def)
qed

lemma tooLarge_LoadSnapshot:
  assumes "snapshotEntry name d = Some (Directory s)" "tooLarge s"
  shows "\<exists>e d'. LoadSnapshot E name d = (Inl e, d')"
proof -
  obtain q1 d1 where 1: "recoverNow E d = (q1, d1)" by fastforce
  obtain q2 d2 where 2: "sysD E [Lstat] d1 = (q2, d2)" by fastforce
  have "dd_snapshots d1 = dd_snapshots d"
    using recover_meta [OF metaSame_refl, of d E "diskFile (dd_world d)"] 1 by (simp add: metaSame_def)
  then have entry: "snapshotEntry name d2 = Some (Directory s)"
    using assms(1) by (simp add: snapshotEntry_def sysOnly_dirs [OF sysD_D [OF 2]])
  obtain e w where m: "readSnapshotManifest E name s (dd_world d2) = (Inl e, w)" using tooLarge_manifest [OF assms(2)] by blast
  have "\<exists>e d'. readSnapshot E name d1 = (Inl e, d')"
    using 2 entry m by (cases q2) (auto simp: readSnapshot_def onWorld_def readSnapshotDir_def)
  with 1 show ?thesis by (cases q1) (auto simp: LoadSnapshot_def)
qed

text \<open>
  C39. A defect: \<open>SaveSnapshot\<close> writes manifests of any size, but the reader refuses one of more than
  1 MiB. A save of a store with 8192 or more referenced bodies succeeds; from then on that snapshot can never
  be loaded, and no snapshot can be listed, whatever other snapshots there are.
\<close>

theorem many_objects_break_listing:
  assumes "SaveSnapshot E name d = (Inr info, d1)" "\<forall>b. length (e_sha256 E b) = 32"
    and "8192 \<le> card (refFiles (w_data (dd_world d1)))"
  shows "(\<exists>e d2. ListSnapshots E' d1 = (Inl e, d2)) \<and> (\<exists>e d2. LoadSnapshot E' name d1 = (Inl e, d2))"
  using assms(1)
proof (cases rule: SaveSnapshot_cases)
  case (1 e)
  then show ?thesis by simp
next
  case (2 w m s)
  have data: "w_data (dd_world d1) = w_data w" using sameWorld_fields [OF 2(2)] by simp
  from 2(5) obtain doc names k where n: "referencedObjectFiles (w_data w) = Inr names"
    and m: "m = newManifest name (e_now E k) (savedFile E doc) (map (fileOf E (w_objects w)) names)"
    and s: "sd_manifest s = Some (JsonFile (manifestSize E m) (Some m))" unfolding complete_def by blast
  note r = referencedObjectFiles_Inr [OF n]
  have "length names = card (refFiles (w_data w))"
    using distinct_card [OF r(1)] r(2) referenced_refFiles by simp
  with assms(3) data have len: "8192 \<le> length names" by simp
  have "\<forall>f \<in> set (sm_Objects m). sf_Name f \<noteq> '''' \<and> length (sf_SHA256 f) = 64"
    using r(3) assms(2) m by (auto simp: newManifest_def fileOf_def Let_def validSnapshotObjectName_def)
  from fileListSize_ge [OF this] manifestSize_ge [of m E] len m have "manifestSize E m > 1048576"
    by (simp add: newManifest_def)
  with s have "tooLarge s" by (auto simp: tooLarge_def)
  with tooLarge_ListSnapshots [OF 2(7,3)] tooLarge_LoadSnapshot [OF 2(7)] show ?thesis by blast
qed


text \<open>The sample: one bucket with 8192 objects, whose files have names of four digits.\<close>

definition manyFile :: "nat \<Rightarrow> string" where
  "manyFile i = hexEncode [char_of (i div 256), char_of i]"

definition manyObjects :: "Object gomap" where
  "manyObjects = fmap_of_list (map (\<lambda>i. (manyFile i, sampleObject\<lparr>obj_File := manyFile i\<rparr>)) [0..<8192])"

definition manyData :: snapshot where
  "manyData = emptySnapshot\<lparr>Buckets := fmupd ''b''
     \<lparr>bk_Name = ''b'', bk_CreatedAt = 0, bk_Objects = manyObjects, bk_Notifications = []\<rparr> fmempty\<rparr>"

definition manyWorld :: world where
  "manyWorld = (sampleWorld 0 (fmap_of_list (map (\<lambda>i. (manyFile i, sampleBody)) [0..<8192])) manyData)
     \<lparr>w_integrityMode := IntegrityModeStartup\<rparr>"

lemma manyFile_inj: "i < 65536 \<Longrightarrow> k < 65536 \<Longrightarrow> manyFile i = manyFile k \<longleftrightarrow> i = k"
proof -
  assume b: "i < 65536" "k < 65536"
  have "i div 256 = k div 256 \<and> i mod 256 = k mod 256" if "manyFile i = manyFile k"
    using that b by (auto simp: manyFile_def hexEncode_inj dest!: arg_cong [where f = "of_char :: char \<Rightarrow> nat"])
  then show ?thesis by (metis div_mult_mod_eq)
qed

lemma many_lookup:
  "fmlookup (fmap_of_list (map (\<lambda>i. (manyFile i, g i)) [0..<8192])) f = Some y \<longleftrightarrow> (\<exists>i < 8192. f = manyFile i \<and> y = g i)"
proof -
  have "inj_on manyFile {0..<8192}" by (auto simp: inj_on_def manyFile_inj)
  then have "distinct (map fst (map (\<lambda>i. (manyFile i, g i)) [0..<8192]))"
    by (simp add: comp_def distinct_map)
  from map_of_eq_Some_iff [OF this] show ?thesis by (auto simp: fmlookup_of_list)
qed

lemma many_refFiles: "refFiles (w_data manyWorld) = manyFile ` {0..<8192}"
proof (intro set_eqI iffI)
  fix f
  assume "f \<in> refFiles (w_data manyWorld)"
  then show "f \<in> manyFile ` {0..<8192}"
    by (auto simp: refFiles_def manyWorld_def manyData_def manyObjects_def emptySnapshot_def many_lookup
        elim!: fileRefE split: if_splits)
next
  fix f
  assume "f \<in> manyFile ` {0..<8192}"
  then obtain i where i: "i < 8192" "f = manyFile i" by auto
  have b: "fmlookup (Buckets (w_data manyWorld)) ''b'' =
      Some \<lparr>bk_Name = ''b'', bk_CreatedAt = 0, bk_Objects = manyObjects, bk_Notifications = []\<rparr>"
    by (simp add: manyWorld_def manyData_def)
  have "fmlookup manyObjects f = Some (sampleObject\<lparr>obj_File := f\<rparr>)"
    unfolding manyObjects_def many_lookup using i by blast
  then have "fmlookup (bk_Objects \<lparr>bk_Name = ''b'', bk_CreatedAt = 0, bk_Objects = manyObjects, bk_Notifications = []\<rparr>) f =
      Some (sampleObject\<lparr>obj_File := f\<rparr>)" by simp
  from fileRef.s3 [OF b this]
  have "fileRef (w_data manyWorld) ''s3'' ''b'' f f (obj_Size sampleObject) (obj_SHA256 sampleObject) ''''" by simp
  then show "f \<in> refFiles (w_data manyWorld)" unfolding refFiles_def by blast
qed

theorem many_objects_break_listing_witness:
  "\<exists>info d1 e d2. SaveSnapshot snapshotEnv ''now'' (sampleDataDir\<lparr>dd_world := manyWorld\<rparr>) = (Inr info, d1) \<and>
     ListSnapshots snapshotEnv d1 = (Inl e, d2)"
proof -
  let ?d = "sampleDataDir\<lparr>dd_world := manyWorld\<rparr>"
  have nf: "\<forall>n. \<not> e_fault snapshotEnv n" by simp
  have tidy: "tidy ?d" using sample_settled(2) by (simp add: tidy_def snapshotEntry_def)
  have name: "validSnapshotName ''now''" by code_simp
  have none: "snapshotEntry ''now'' ?d = None" by (simp add: snapshotEntry_def sampleDataDir_def)
  have strict: "strictCheck snapshotEnv (dd_world ?d) = (Inr (), manyWorld)" by (simp add: strictCheck_def manyWorld_def)
  have enc: "encodeSnapshot (w_data manyWorld) = Some (snapshotDoc (w_data manyWorld))"
    by (rule encode_no_tables) (simp add: manyWorld_def manyData_def emptySnapshot_def)
  have "validSnapshotObjectName (manyFile i)" for i
    unfolding manyFile_def by (rule validName_hex) (auto dest: hexEncode_chars)
  then obtain names where names: "referencedObjectFiles (w_data manyWorld) = Inr names" "set names = refFiles (w_data manyWorld)"
    using referencedObjectFiles_valid [of "w_data manyWorld"] many_refFiles by auto
  have "fmlookup (w_objects manyWorld) f = Some sampleBody" if "f \<in> set names" for f
    unfolding manyWorld_def using that names(2) by (simp add: many_refFiles many_lookup) auto
  then have present: "\<forall>f \<in> set names. fmlookup (w_objects manyWorld) f \<noteq> None" by simp
  obtain info d1 where 1: "SaveSnapshot snapshotEnv ''now'' ?d = (Inr info, d1)"
    using SaveSnapshot_ok [OF nf tidy name none strict enc names(1) present] by (metis prod.collapse)
  have "w_data (dd_world d1) = w_data manyWorld"
    using 1
  proof (cases rule: SaveSnapshot_cases)
    case (2 w m s)
    with strict sameWorld_fields [OF 2(2)] show ?thesis by simp
  qed simp
  moreover have "card (refFiles (w_data manyWorld)) = 8192"
    unfolding many_refFiles by (subst card_image) (auto simp: inj_on_def manyFile_inj)
  moreover have "\<forall>b. length (e_sha256 snapshotEnv b) = 32" using sample_digests_ok by (simp add: digests_ok_def)
  ultimately show ?thesis using many_objects_break_listing [OF 1, of snapshotEnv] 1 by auto
qed

end
