(* ===== verification/Sqs_Urls.thy ===== *)
theory Sqs_Urls
  imports SQS
begin

text \<open>
  Queue URLs (\<^verbatim>\<open>internal/server/sqs.go\<close>: \<open>queueURL\<close>, \<open>queueName\<close>) and the part of
  \<^verbatim>\<open>net/url\<close> they use: percent-encoding of a path segment, and the path of a parsed URL. Which authorities
  (\<open>user@host:port\<close>) \<open>url.Parse\<close> accepts is a parameter: its rules differ between Go releases, and the
  theorems hold for every choice.
\<close>

section \<open>Percent-encoding\<close>

definition isLetter :: "char \<Rightarrow> bool" where
  "isLetter c = (let n = (of_char c :: nat) in 65 \<le> n \<and> n \<le> 90 \<or> 97 \<le> n \<and> n \<le> 122)"

definition isDigit :: "char \<Rightarrow> bool" where
  "isDigit c = (digitVal c \<noteq> None)"

definition shouldEscape :: "char \<Rightarrow> bool" where
  "shouldEscape c \<longleftrightarrow> \<not> isLetter c \<and> \<not> isDigit c \<and> c \<notin> set ''-_.~$&+:=@''"

definition upperHex :: "nat \<Rightarrow> char" where
  "upperHex d = (if d < 10 then char_of (48 + d) else char_of (55 + d))"

definition escapeByte :: "char \<Rightarrow> string" where
  "escapeByte c =
     (if shouldEscape c then (let n = (of_char c :: nat) in [CHR ''%'', upperHex (n div 16), upperHex (n mod 16)]) else [c])"

definition PathEscape :: "string \<Rightarrow> string" where
  "PathEscape s = concat (map escapeByte s)"

text \<open>\<open>unescape\<close> in the modes of a path and a fragment; \<open>None\<close> is a malformed escape.\<close>

fun PathUnescape :: "string \<Rightarrow> string option" where
  "PathUnescape [] = Some []"
| "PathUnescape (c # s) =
     (if c = CHR ''%'' then
        (case s of
           a # b # r \<Rightarrow>
             (case (hexVal a, hexVal b) of
                (Some x, Some y) \<Rightarrow> map_option (Cons (char_of (16 * x + y))) (PathUnescape r)
              | _ \<Rightarrow> None)
         | _ \<Rightarrow> None)
      else map_option (Cons c) (PathUnescape s))"

section \<open>The path of a URL\<close>

text \<open>\<open>before c s\<close> and \<open>after c s\<close> are the two results of \<open>strings.Cut\<close>.\<close>

definition before :: "char \<Rightarrow> string \<Rightarrow> string" where
  "before c s = takeWhile ((\<noteq>) c) s"

definition after :: "char \<Rightarrow> string \<Rightarrow> string" where
  "after c s = drop 1 (dropWhile ((\<noteq>) c) s)"

text \<open>\<open>getScheme raw acc s\<close>: the bytes \<open>acc\<close> of \<open>raw\<close> have been read, \<open>s\<close> is left.\<close>

fun getScheme :: "string \<Rightarrow> string \<Rightarrow> string \<Rightarrow> (string \<times> string) option" where
  "getScheme raw acc [] = Some ('''', raw)"
| "getScheme raw acc (c # s) =
     (if isLetter c then getScheme raw (acc @ [c]) s
      else if isDigit c \<or> c \<in> set ''+-.'' then (if acc = [] then Some ('''', raw) else getScheme raw (acc @ [c]) s)
      else if c = CHR '':'' then (if acc = [] then None else Some (acc, s))
      else Some ('''', raw))"

definition isControl :: "char \<Rightarrow> bool" where
  "isControl c = (let n = (of_char c :: nat) in n < 32 \<or> n = 127)"

definition parseRest :: "(string \<Rightarrow> bool) \<Rightarrow> string \<Rightarrow> string \<Rightarrow> string option" where
  "parseRest A scheme rest =
     (if \<not> hasPrefix rest ''/'' \<and> scheme \<noteq> '''' then Some ''''
      else if \<not> hasPrefix rest ''/'' \<and> CHR '':'' \<in> set (before (CHR ''/'') rest) then None
      else if (scheme \<noteq> '''' \<or> \<not> hasPrefix rest ''///'') \<and> hasPrefix rest ''//'' then
        (if A (before (CHR ''/'') (drop 2 rest)) then PathUnescape (dropWhile ((\<noteq>) (CHR ''/'')) (drop 2 rest)) else None)
      else PathUnescape rest)"

definition parseURL :: "(string \<Rightarrow> bool) \<Rightarrow> string \<Rightarrow> string option" where
  "parseURL A u =
     (if list_ex isControl u then None
      else if u = ''*'' then Some ''*''
      else case getScheme u [] u of None \<Rightarrow> None | Some (scheme, rest) \<Rightarrow> parseRest A scheme (before (CHR ''?'') rest))"

text \<open>The \<open>Path\<close> of \<open>url.Parse\<close>; \<open>None\<close> when the URL is refused.\<close>

definition urlPath :: "(string \<Rightarrow> bool) \<Rightarrow> string \<Rightarrow> string option" where
  "urlPath A raw =
     (case parseURL A (before (CHR ''#'') raw) of
        None \<Rightarrow> None
      | Some p \<Rightarrow> if PathUnescape (after (CHR ''#'') raw) = None then None else Some p)"

section \<open>Queue URLs\<close>

text \<open>What the handler reads of a request; the body is what \<open>io.ReadAll\<close> returned.\<close>

record sqsRequest =
  rq_Method :: string
  rq_Target :: string
  rq_TLS :: bool
  rq_ForwardedProto :: string
  rq_Host :: string
  rq_Body :: "error + string"

definition urlScheme :: "sqsRequest \<Rightarrow> string" where
  "urlScheme rq =
     (if rq_ForwardedProto rq \<noteq> '''' then hd (splitOn (CHR '','') (rq_ForwardedProto rq))
      else if rq_TLS rq then ''https'' else ''http'')"

definition queueURL :: "sqsRequest \<Rightarrow> string \<Rightarrow> string" where
  "queueURL rq name = urlScheme rq @ ''://'' @ rq_Host rq @ ''/'' @ defaultAccountID @ ''/'' @ PathEscape name"

definition queueName :: "(string \<Rightarrow> bool) \<Rightarrow> string \<Rightarrow> string" where
  "queueName A url =
     (let path = (case urlPath A url of Some p \<Rightarrow> p | None \<Rightarrow> url);
          parts = splitOn (CHR ''/'') (trimChar (CHR ''/'') path)
      in case PathUnescape (last parts) of Some name \<Rightarrow> name | None \<Rightarrow> '''')"

section \<open>Which names a URL addresses\<close>

lemma of_char_bounds: "(of_char c :: nat) div 16 < 16" "(of_char c :: nat) mod 16 < 16"
  using of_char_div_16 [of c] by auto

lemma hexVal_upperHex: "d < 16 \<Longrightarrow> hexVal (upperHex d) = Some d"
  by (auto simp: hexVal_def upperHex_def)

lemma escape_percent: "isLetter (CHR ''%'') = False" "isDigit (CHR ''%'') = False"
  by code_simp+

lemma PathUnescape_escapeByte: "PathUnescape (escapeByte c @ s) = map_option (Cons c) (PathUnescape s)"
  using of_char_bounds [of c] by (auto simp: escapeByte_def Let_def hexVal_upperHex shouldEscape_def escape_percent)

lemma PathUnescape_PathEscape [simp]: "PathUnescape (PathEscape s) = Some s"
  by (induction s) (simp_all add: PathEscape_def PathUnescape_escapeByte)

lemma PathUnescape_plain [simp]: "CHR ''%'' \<notin> set s \<Longrightarrow> PathUnescape s = Some s"
  by (induction s) auto

lemma PathUnescape_append: "CHR ''%'' \<notin> set s \<Longrightarrow> PathUnescape (s @ t) = map_option ((@) s) (PathUnescape t)"
  by (cases "PathUnescape t"; induction s) auto

lemma PathUnescape_shorter: "PathUnescape s = Some t \<Longrightarrow> length t \<le> length s \<and> (CHR ''%'' \<in> set s \<longrightarrow> length t < length s)"
  by (induction s arbitrary: t rule: PathUnescape.induct)
    (fastforce split: if_splits list.splits option.splits)+

text \<open>The bytes that do not end a path segment.\<close>

definition segmentChar :: "char \<Rightarrow> bool" where
  "segmentChar c \<longleftrightarrow> \<not> isControl c \<and> c \<notin> {CHR ''/'', CHR ''?'', CHR ''#''}"

lemma upperHex_segment: "d < 16 \<Longrightarrow> segmentChar (upperHex d)"
  by (auto simp: segmentChar_def isControl_def upperHex_def char_of_eq_iff take_bit_eq_mod)

lemma unescaped_segment: "\<not> shouldEscape c \<Longrightarrow> segmentChar c"
proof -
  have "isLetter x \<Longrightarrow> segmentChar x" "isDigit x \<Longrightarrow> segmentChar x" for x
    by (auto simp: isLetter_def isDigit_def digitVal_def segmentChar_def isControl_def Let_def split: if_splits)
  moreover have "\<forall>x \<in> set ''-_.~$&+:=@''. segmentChar x" by code_simp
  ultimately show "\<not> shouldEscape c \<Longrightarrow> segmentChar c" unfolding shouldEscape_def by blast
qed

lemma PathEscape_segment: "c \<in> set (PathEscape s) \<Longrightarrow> segmentChar c"
proof -
  have "segmentChar (CHR ''%'')" by code_simp
  then have "x \<in> set (escapeByte b) \<Longrightarrow> segmentChar x" for x b
    using of_char_bounds [of b] by (auto simp: escapeByte_def Let_def upperHex_segment unescaped_segment split: if_splits)
  then show "c \<in> set (PathEscape s) \<Longrightarrow> segmentChar c" by (auto simp: PathEscape_def)
qed

lemma last_splitOn: "c \<notin> set t \<Longrightarrow> last (splitOn c (s @ c # t)) = t"
proof (induction s)
  case Nil
  have "splitOn c t = [t]" using Nil by (induction t) auto
  then show ?case by simp
next
  case (Cons x s)
  have "length (splitOn c (u @ c # t)) \<ge> 2" for u
    by (induction u) (auto split: list.splits simp: Suc_le_eq)
  from this [of s] obtain p q ps where "splitOn c (s @ c # t) = p # q # ps"
    by (metis One_nat_def Suc_1 Suc_le_length_iff)
  with Cons show ?case by auto
qed

lemma last_splitOn_length: "length (last (splitOn c s)) + (if c \<in> set s then 1 else 0) \<le> length s"
proof (cases "c \<in> set s")
  case True
  then obtain a b where "s = a @ c # b" "c \<notin> set b" by (meson split_list_last)
  then show ?thesis by (simp add: last_splitOn)
next
  case False
  then have "splitOn c s = [s]" by (induction s) auto
  with False show ?thesis by simp
qed

text \<open>The scheme and the host of a request from which a URL can be built.\<close>

definition schemeChar :: "char \<Rightarrow> bool" where
  "schemeChar c \<longleftrightarrow> isLetter c \<or> isDigit c \<or> c \<in> set ''+-.''"

definition addressable :: "sqsRequest \<Rightarrow> bool" where
  "addressable rq \<longleftrightarrow> urlScheme rq \<noteq> '''' \<and> isLetter (hd (urlScheme rq)) \<and> list_all schemeChar (urlScheme rq) \<and>
     list_all segmentChar (rq_Host rq)"

lemma schemeChar_not: "schemeChar c \<Longrightarrow> c \<noteq> CHR '':'' \<and> segmentChar c"
proof -
  have "isLetter x \<Longrightarrow> x \<noteq> CHR '':'' \<and> segmentChar x" "isDigit x \<Longrightarrow> x \<noteq> CHR '':'' \<and> segmentChar x" for x
    by (auto simp: isLetter_def isDigit_def digitVal_def segmentChar_def isControl_def Let_def split: if_splits)
  moreover have "\<forall>x \<in> set ''+-.''. x \<noteq> CHR '':'' \<and> segmentChar x" by code_simp
  ultimately show "schemeChar c \<Longrightarrow> c \<noteq> CHR '':'' \<and> segmentChar c" unfolding schemeChar_def by blast
qed

lemma getScheme_stop:
  assumes "list_all schemeChar s" "acc \<noteq> [] \<or> s \<noteq> [] \<and> isLetter (hd s)"
  shows "getScheme raw acc (s @ CHR '':'' # r) = Some (acc @ s, r)"
  using assms
proof (induction s arbitrary: acc)
  case Nil
  have "isLetter (CHR '':'') = False" "isDigit (CHR '':'') = False" by code_simp+
  with Nil show ?case by simp
next
  case (Cons c s)
  from Cons.prems have "getScheme raw (acc @ [c]) (s @ CHR '':'' # r) = Some ((acc @ [c]) @ s, r)"
    by (intro Cons.IH) simp_all
  with Cons.prems show ?case by (auto simp: schemeChar_def)
qed

lemma before_append: "c \<notin> set s \<Longrightarrow> before c (s @ t) = s @ before c t"
  by (induction s) (auto simp: before_def)

lemma before_absent: "c \<notin> set s \<Longrightarrow> before c s = s"
  using before_append [of c s "[]"] by (simp add: before_def)

lemma after_absent: "c \<notin> set s \<Longrightarrow> after c s = []"
  by (induction s) (auto simp: after_def)

lemma account_text: "defaultAccountID = ''000000000000''" "CHR ''/'' \<notin> set defaultAccountID" "CHR ''%'' \<notin> set defaultAccountID"
    "list_all segmentChar defaultAccountID" "defaultAccountID \<noteq> ''''"
  by code_simp+

lemma urlPath_queueURL:
  assumes "addressable rq"
  shows "urlPath A (queueURL rq name) = (if A (rq_Host rq) then Some (''/'' @ defaultAccountID @ ''/'' @ name) else None)"
proof -
  let ?tail = "''/'' @ defaultAccountID @ ''/'' @ PathEscape name"
  let ?rest = "''//'' @ rq_Host rq @ ?tail"
  have url: "queueURL rq name = urlScheme rq @ CHR '':'' # ?rest" by (simp add: queueURL_def)
  have seg: "list_all segmentChar (PathEscape name)" using PathEscape_segment by (auto simp: list_all_iff)
  have scheme: "list_all segmentChar (urlScheme rq)"
    using assms schemeChar_not by (auto simp: addressable_def list_all_iff)
  have host: "list_all segmentChar (rq_Host rq)" using assms by (simp add: addressable_def)
  have no: "CHR ''/'' \<notin> set s \<and> CHR ''?'' \<notin> set s \<and> CHR ''#'' \<notin> set s \<and> \<not> list_ex isControl s" if "list_all segmentChar s" for s
    using that by (auto simp: list_all_iff list_ex_iff segmentChar_def)
  note parts = no [OF seg] no [OF scheme] no [OF host] no [OF account_text(4)]
  have ctl: "isControl (CHR '':'') = False" "isControl (CHR ''/'') = False" by code_simp+
  have hash: "CHR ''#'' \<notin> set (queueURL rq name)" using parts by (simp add: url)
  note cut = before_absent [OF hash] after_absent [OF hash]
  have star: "queueURL rq name \<noteq> ''*''" by (simp add: url append_eq_Cons_conv)
  have q: "before (CHR ''?'') ?rest = ?rest" using parts by (intro before_absent) simp
  have get: "getScheme (queueURL rq name) [] (queueURL rq name) = Some (urlScheme rq, ?rest)"
    unfolding url by (subst getScheme_stop) (use assms in \<open>simp_all add: addressable_def\<close>)
  have auth: "before (CHR ''/'') (rq_Host rq @ ?tail) = rq_Host rq" "dropWhile ((\<noteq>) (CHR ''/'')) (rq_Host rq @ ?tail) = ?tail"
    using parts by (simp add: before_append) (simp add: before_def, use parts in \<open>auto simp: dropWhile_append\<close>)
  have path: "PathUnescape ?tail = Some (''/'' @ defaultAccountID @ ''/'' @ name)"
    using account_text(3) by (simp add: PathUnescape_append)
  have "parseRest A (urlScheme rq) ?rest = (if A (rq_Host rq) then Some (''/'' @ defaultAccountID @ ''/'' @ name) else None)"
    using assms auth path by (simp add: parseRest_def addressable_def hasPrefix_def)
  moreover have "\<not> list_ex isControl (queueURL rq name)" using parts ctl by (simp add: url)
  ultimately have "parseURL A (queueURL rq name) = (if A (rq_Host rq) then Some (''/'' @ defaultAccountID @ ''/'' @ name) else None)"
    unfolding parseURL_def get option.case prod.case q using star by (simp only: if_False)
  then show ?thesis unfolding urlPath_def cut by simp
qed

lemma trimChar_none: "s \<noteq> [] \<Longrightarrow> hd s \<noteq> c \<Longrightarrow> last s \<noteq> c \<Longrightarrow> trimChar c s = s"
proof -
  assume a: "s \<noteq> []" "hd s \<noteq> c" "last s \<noteq> c"
  have d: "t \<noteq> [] \<Longrightarrow> hd t \<noteq> c \<Longrightarrow> dropWhile ((=) c) t = t" for t by (cases t) auto
  from d [of s] d [of "rev s"] a show "trimChar c s = s" by (simp add: trimChar_def hd_rev)
qed

lemma queueName_refused:
  assumes "addressable rq" "\<not> A (rq_Host rq)" "name \<noteq> ''''"
  shows "queueName A (queueURL rq name) = name"
proof -
  let ?u = "queueURL rq name" and ?s = "CHR ''/''"
  have no: "?s \<notin> set (PathEscape name)" using PathEscape_segment by (auto simp: segmentChar_def)
  have ne: "PathEscape name \<noteq> []" using assms(3) by (cases name) (auto simp: PathEscape_def escapeByte_def Let_def)
  have hd: "hd ?u \<noteq> ?s" "?u \<noteq> []" using assms(1) schemeChar_not
    by (auto simp: addressable_def queueURL_def list_all_iff segmentChar_def hd_append)
  have "last ?u = last (PathEscape name)" using ne by (simp add: queueURL_def)
  then have "last ?u \<noteq> ?s" using no last_in_set [OF ne] by metis
  with hd have "trimChar ?s ?u = ?u" by (intro trimChar_none) simp_all
  moreover have "last (splitOn ?s ?u) = PathEscape name"
    using last_splitOn [OF no, of "urlScheme rq @ ''://'' @ rq_Host rq @ ''/'' @ defaultAccountID"] by (simp add: queueURL_def)
  ultimately show ?thesis using urlPath_queueURL [OF assms(1)] assms(2) by (simp add: queueName_def)
qed

text \<open>Trailing slashes of a name, and those around a path.\<close>

definition trimTrailing :: "char \<Rightarrow> string \<Rightarrow> string" where
  "trimTrailing c s = rev (dropWhile ((=) c) (rev s))"

lemma trimTrailing_append: "trimTrailing c (s @ t) = (if set t \<subseteq> {c} then trimTrailing c s else s @ trimTrailing c t)"
proof (cases "set t \<subseteq> {c}")
  case True
  then have "dropWhile ((=) c) (rev t @ rev s) = dropWhile ((=) c) (rev s)" by (intro dropWhile_append2) auto
  with True show ?thesis by (simp add: trimTrailing_def)
next
  case False
  then obtain x where "x \<in> set (rev t)" "\<not> c = x" by auto
  then show ?thesis using False by (simp add: trimTrailing_def dropWhile_append1 del: set_rev)
qed

lemma trimTrailing_shorter: "length (trimTrailing c s) \<le> length s" "c \<in> set s \<Longrightarrow> c \<notin> set (trimTrailing c s) \<Longrightarrow> length (trimTrailing c s) < length s"
proof -
  have "rev s = takeWhile ((=) c) (rev s) @ rev (trimTrailing c s)" by (simp add: trimTrailing_def)
  then have eq: "s = trimTrailing c s @ rev (takeWhile ((=) c) (rev s))"
    by (metis rev_append rev_rev_ident)
  then show "length (trimTrailing c s) \<le> length s" by (metis length_append le_add1)
  assume "c \<in> set s" "c \<notin> set (trimTrailing c s)"
  with eq have "takeWhile ((=) c) (rev s) \<noteq> []" by (metis append_Nil2 rev.simps(1))
  with eq show "length (trimTrailing c s) < length s"
    by (metis length_append length_greater_0_conv less_add_same_cancel1 length_rev)
qed

text \<open>What is read from the URL of a queue whose host is accepted.\<close>

lemma queueName_accepted:
  assumes "addressable rq" "A (rq_Host rq)"
  shows "queueName A (queueURL rq name) =
    (if set name \<subseteq> {CHR ''/''} then defaultAccountID
     else case PathUnescape (last (splitOn (CHR ''/'') (defaultAccountID @ ''/'' @ trimTrailing (CHR ''/'') name))) of
            Some n \<Rightarrow> n | None \<Rightarrow> '''')"
proof -
  let ?s = "CHR ''/''"
  have hd: "dropWhile ((=) ?s) (''/'' @ defaultAccountID @ ''/'' @ name) = defaultAccountID @ ''/'' @ name"
    by (simp add: account_text(1))
  have trim: "trimChar ?s (''/'' @ defaultAccountID @ ''/'' @ name) = trimTrailing ?s (defaultAccountID @ ''/'' @ name)"
    unfolding trimChar_def hd trimTrailing_def ..
  have acct: "trimTrailing ?s defaultAccountID = defaultAccountID" by code_simp
  have split: "splitOn ?s defaultAccountID = [defaultAccountID]" by code_simp
  show ?thesis
  proof (cases "set name \<subseteq> {?s}")
    case True
    then have "trimTrailing ?s (defaultAccountID @ ''/'' @ name) = defaultAccountID"
      using trimTrailing_append [of ?s defaultAccountID "''/'' @ name"] acct by simp
    with True show ?thesis using urlPath_queueURL [OF assms(1)] assms(2) account_text(3)
      by (simp add: queueName_def trim [simplified] split)
  next
    case False
    then have "trimTrailing ?s (defaultAccountID @ ''/'' @ name) = defaultAccountID @ ''/'' @ trimTrailing ?s name"
      using trimTrailing_append [of ?s "defaultAccountID @ ''/''" name] by simp
    with False show ?thesis using urlPath_queueURL [OF assms(1)] assms(2)
      by (simp add: queueName_def trim [simplified])
  qed
qed

text \<open>
  C26. The URL that \<open>CreateQueue\<close>, \<open>GetQueueUrl\<close> and \<open>ListQueues\<close> return addresses the queue it was
  built for exactly when the name is not empty and contains neither a slash nor a percent sign. Other names, which
  \<open>CreateQueue\<close> accepts, get a URL that every other operation resolves to a different queue.
\<close>

theorem queue_url_round_trip:
  assumes "addressable rq" and "A (rq_Host rq)"
  shows "queueName A (queueURL rq name) = name \<longleftrightarrow> name \<noteq> '''' \<and> CHR ''/'' \<notin> set name \<and> CHR ''%'' \<notin> set name"
proof
  let ?s = "CHR ''/''" and ?u = "queueName A (queueURL rq name)"
  note q = queueName_accepted [of rq A name, OF assms]
  have last_length: "length (last (splitOn ?s (defaultAccountID @ ''/'' @ t))) + (if ?s \<in> set t then 1 else 0) \<le> length t" for t
  proof (cases "?s \<in> set t")
    case True
    then obtain a b where t: "t = a @ ?s # b" and b: "?s \<notin> set b" by (meson split_list_last)
    from last_splitOn [OF b, of "defaultAccountID @ ''/'' @ a"] show ?thesis by (simp add: t)
  next
    case False
    from last_splitOn [OF this, of defaultAccountID] False show ?thesis by simp
  qed
  assume eq: "?u = name"
  have slash: False if "set name \<subseteq> {?s}"
  proof -
    have "defaultAccountID \<noteq> []" "\<not> set defaultAccountID \<subseteq> {?s}" by (simp_all add: account_text(1))
    with q eq that show False by (metis (full_types))
  qed
  then have ne: "name \<noteq> ''''" by auto
  define t where "t = trimTrailing ?s name"
  from q eq slash have "(case PathUnescape (last (splitOn ?s (defaultAccountID @ ''/'' @ t))) of Some n \<Rightarrow> n | None \<Rightarrow> '''') = name"
    by (simp add: t_def split: if_splits)
  with ne have n: "PathUnescape (last (splitOn ?s (defaultAccountID @ ''/'' @ t))) = Some name"
    by (simp split: option.splits)
  have "?s \<notin> set t" "length t = length name"
    using PathUnescape_shorter [OF n] last_length [of t] trimTrailing_shorter(1) [of ?s name] by (auto simp: t_def split: if_splits)
  moreover from this have no: "?s \<notin> set name" using trimTrailing_shorter(2) [of ?s name] by (auto simp: t_def)
  then have "trimTrailing ?s name = name" by (cases "rev name") (auto simp: trimTrailing_def rev_swap)
  with no have tn: "t = name" "?s \<notin> set name" by (simp_all add: t_def)
  have "last (splitOn ?s (defaultAccountID @ ''/'' @ name)) = name" using last_splitOn [OF tn(2), of defaultAccountID] by simp
  with n tn PathUnescape_shorter [of name name] have "CHR ''%'' \<notin> set name" by auto
  with ne tn show "name \<noteq> '''' \<and> ?s \<notin> set name \<and> CHR ''%'' \<notin> set name" by simp
next
  let ?s = "CHR ''/''"
  assume a: "name \<noteq> '''' \<and> ?s \<notin> set name \<and> CHR ''%'' \<notin> set name"
  then have "trimTrailing ?s name = name" by (cases "rev name") (auto simp: trimTrailing_def rev_swap)
  with a last_splitOn [of ?s name defaultAccountID] show "queueName A (queueURL rq name) = name"
    by (auto simp: queueName_accepted [of rq A name, OF assms] subset_singleton_iff)
qed

definition sampleRequest :: sqsRequest where
  "sampleRequest = \<lparr>rq_Method = ''POST'', rq_Target = ''AmazonSQS.SendMessage'', rq_TLS = False, rq_ForwardedProto = '''',
     rq_Host = ''localhost:4566'', rq_Body = Inr ''{}''\<rparr>"

lemma sampleRequest_addressable: "addressable sampleRequest"
  by code_simp

theorem queue_url_round_trip_witness:
  "queueName (\<lambda>_. True) (queueURL sampleRequest ''jobs.fifo'') = ''jobs.fifo'' \<and>
   queueName (\<lambda>_. True) (queueURL sampleRequest ''a/b'') \<noteq> ''a/b'' \<and>
   queueName (\<lambda>_. True) (queueURL sampleRequest ''a%41'') \<noteq> ''a%41''"
  using queue_url_round_trip [OF sampleRequest_addressable, of "\<lambda>_. True"] by simp

end
