(* ===== verification/Sqs_Handlers.thy ===== *)
theory Sqs_Handlers
  imports Sqs_Urls
begin

text \<open>
  The SQS protocol handler (\<^verbatim>\<open>internal/server/sqs.go\<close>): the operations a client can name in
  \<^verbatim>\<open>X-Amz-Target\<close>, from the request to the reply, over the queue store. A reply is the JSON document the
  handler writes, as a datatype with one constructor per shape. What \<open>json.Unmarshal\<close> makes of a body is a parameter
  (\<open>decode\<close>), and so are the authorities \<open>url.Parse\<close> accepts (\<open>A\<close>).

  A long poll repeats \<open>ReceiveMessages\<close> until there is a message or the deadline has passed. It is a partial function:
  \<open>None\<close> is a poll that does not return.
\<close>

section \<open>Requests\<close>

record sqsBatchEntry =
  be_ID :: string
  be_MessageBody :: string
  be_DelaySeconds :: "int option"
  be_MessageGroupID :: string
  be_MessageDeduplicationID :: string
  be_ReceiptHandle :: string
  be_MessageAttributes :: "MessageAttribute gomap"

record sqsInput =
  in_QueueName :: string
  in_QueueUrl :: string
  in_QueueNamePrefix :: string
  in_MessageBody :: string
  in_ReceiptHandle :: string
  in_MaxNumberOfMessages :: int
  in_VisibilityTimeout :: "int option"
  in_WaitTimeSeconds :: int
  in_DelaySeconds :: "int option"
  in_MessageGroupID :: string
  in_MessageDeduplicationID :: string
  in_Attributes :: strmap
  in_MessageAttributes :: "MessageAttribute gomap"
  in_AttributeNames :: "string list"
  in_MessageAttributeNames :: "string list"
  in_Entries :: "sqsBatchEntry list"

text \<open>The zero value, which an empty body and the body \<^verbatim>\<open>{}\<close> leave.\<close>

definition emptyInput :: sqsInput where
  "emptyInput = \<lparr>in_QueueName = '''', in_QueueUrl = '''', in_QueueNamePrefix = '''', in_MessageBody = '''', in_ReceiptHandle = '''',
     in_MaxNumberOfMessages = 0, in_VisibilityTimeout = None, in_WaitTimeSeconds = 0, in_DelaySeconds = None,
     in_MessageGroupID = '''', in_MessageDeduplicationID = '''', in_Attributes = fmempty, in_MessageAttributes = fmempty,
     in_AttributeNames = [], in_MessageAttributeNames = [], in_Entries = []\<rparr>"

section \<open>Replies\<close>

text \<open>The message of an error: a text, the text of an error of the store, or the text that names an unknown operation.\<close>

datatype sqsMessage = Text string | ErrorText error | NotImplemented string

record sentMessage =
  sent_MD5OfMessageBody :: string
  sent_MessageId :: string
  sent_MD5OfMessageAttributes :: "string option"
  sent_SequenceNumber :: "string option"

text \<open>The attributes of a received message come with their digest, when there are any.\<close>

record receivedMessage =
  rm_MessageId :: string
  rm_ReceiptHandle :: string
  rm_MD5OfBody :: string
  rm_Body :: string
  rm_Attributes :: strmap
  rm_MessageAttributes :: "(MessageAttribute gomap \<times> string) option"

record batchFailure =
  bf_Id :: string
  bf_Code :: string
  bf_Message :: error
  bf_SenderFault :: bool

text \<open>
  An error carries the HTTP status, the error code (also the \<^verbatim>\<open>x-amzn-ErrorType\<close> header) and the message. The two
  batch replies list the entries that succeeded (with what was sent) and the entries that failed.
\<close>

datatype sqsReply =
    SqsError int string sqsMessage
  | QueueUrlReply string
  | QueueUrlsReply "string list"
  | DoneReply
  | SentReply sentMessage
  | MessagesReply "receivedMessage list"
  | SendBatchReply "(string \<times> sentMessage) list" "batchFailure list"
  | DeleteBatchReply "string list" "batchFailure list"
  | QueueAttributesReply strmap

definition sqsError :: "int \<Rightarrow> string \<Rightarrow> sqsMessage \<Rightarrow> sqsReply" where
  "sqsError status code message = SqsError status code message"

definition sqsQueueNotFound :: sqsReply where
  "sqsQueueNotFound = sqsError 400 ''AWS.SimpleQueueService.NonExistentQueue'' (Text ''The specified queue does not exist'')"

definition sqsInternalError :: "error \<Rightarrow> sqsReply" where
  "sqsInternalError e = sqsError 500 ''InternalError'' (ErrorText e)"

text \<open>
  The error branches of the operations: a missing queue, then the errors the operation names with their codes, then
  everything else.
\<close>

definition sqsFailure :: "(error \<times> string) list \<Rightarrow> error \<Rightarrow> sqsReply" where
  "sqsFailure named e =
     (if errors_Is e ErrQueueNotFound then sqsQueueNotFound
      else case find (\<lambda>(sentinel, _). errors_Is e sentinel) named of
             Some (_, code) \<Rightarrow> sqsError 400 code (ErrorText e) | None \<Rightarrow> sqsInternalError e)"

definition sqsReplyOf :: "(error \<times> string) list \<Rightarrow> ('a \<Rightarrow> sqsReply) \<Rightarrow> 'a result \<Rightarrow> sqsReply \<times> world" where
  "sqsReplyOf named f = (\<lambda>(r, w). (case r of Inl e \<Rightarrow> sqsFailure named e | Inr x \<Rightarrow> f x, w))"

section \<open>Digest of message attributes\<close>

definition bigEndian32 :: "32 word \<Rightarrow> bytes" where
  "bigEndian32 n = map (\<lambda>k. char_of (unat (drop_bit k n) mod 256)) [24, 16, 8, 0]"

definition writeSQSMD5Field :: "bytes \<Rightarrow> bytes" where
  "writeSQSMD5Field value = bigEndian32 (of_nat (length value)) @ value"

definition attributeBytes :: "string \<Rightarrow> MessageAttribute \<Rightarrow> bytes" where
  "attributeBytes name a =
     writeSQSMD5Field name @ writeSQSMD5Field (ma_DataType a) @
     (if hasPrefix (ma_DataType a) ''Binary'' then char_of (2 :: nat) # writeSQSMD5Field (ma_BinaryValue a)
      else char_of (1 :: nat) # writeSQSMD5Field (ma_StringValue a))"

text \<open>The bytes written to the digest, in the order of the sorted names.\<close>

definition digestInput :: "MessageAttribute gomap \<Rightarrow> bytes" where
  "digestInput attrs = concat (map (\<lambda>(name, a). attributeBytes name a) (sorted_list_of_fmap attrs))"

definition sqsMessageAttributesMD5 :: "env \<Rightarrow> MessageAttribute gomap \<Rightarrow> string" where
  "sqsMessageAttributesMD5 E attrs = (if fmnull attrs then '''' else hexEncode (e_md5 E (digestInput attrs)))"

section \<open>Sending\<close>

definition sqsDelay :: "int option \<Rightarrow> int \<times> bool" where
  "sqsDelay v = (case v of None \<Rightarrow> (-1, False) | Some d \<Rightarrow> (d, True))"

definition nonEmpty :: "string \<Rightarrow> string option" where
  "nonEmpty s = (if s = '''' then None else Some s)"

text \<open>The call of \<open>SendMessageWithOptions\<close> that \<open>SendMessage\<close> and \<open>SendMessageBatch\<close> make.\<close>

definition sendFrom :: "env \<Rightarrow> string \<Rightarrow> string \<Rightarrow> MessageAttribute gomap \<Rightarrow> int option \<Rightarrow> string \<Rightarrow> string \<Rightarrow> world \<Rightarrow> Message result" where
  "sendFrom E name body attrs delaySeconds groupID dedupID w =
     (let (delay, specified) = sqsDelay delaySeconds
      in SendMessageWithOptions E name body attrs delay
           \<lparr>so_MessageGroupID = groupID, so_MessageDeduplicationID = dedupID, so_DelaySpecified = specified\<rparr> w)"

definition sentOf :: "env \<Rightarrow> MessageAttribute gomap \<Rightarrow> Message \<Rightarrow> sentMessage" where
  "sentOf E attrs m =
     \<lparr>sent_MD5OfMessageBody = msg_MD5OfBody m, sent_MessageId = msg_MessageID m,
      sent_MD5OfMessageAttributes = nonEmpty (sqsMessageAttributesMD5 E attrs),
      sent_SequenceNumber = nonEmpty (msg_SequenceNumber m)\<rparr>"

definition sqsSendError :: "error \<Rightarrow> string \<times> bool" where
  "sqsSendError e =
     (if errors_Is e ErrQueueNotFound then (''AWS.SimpleQueueService.NonExistentQueue'', True)
      else if errors_Is e ErrMissingMessageParameter then (''MissingParameter'', True)
      else if errors_Is e ErrInvalidMessageParameter then (''InvalidParameterValue'', True)
      else (''InternalError'', False))"

definition sendEntry :: "env \<Rightarrow> string \<Rightarrow> sqsBatchEntry \<Rightarrow> world \<Rightarrow> Message result" where
  "sendEntry E name e w =
     sendFrom E name (be_MessageBody e) (be_MessageAttributes e) (be_DelaySeconds e) (be_MessageGroupID e)
       (be_MessageDeduplicationID e) w"

fun sendBatch :: "env \<Rightarrow> string \<Rightarrow> sqsBatchEntry list \<Rightarrow> (string \<times> sentMessage) list \<Rightarrow> batchFailure list \<Rightarrow> world
    \<Rightarrow> sqsReply \<times> world" where
  "sendBatch E name [] successful failed w = (SendBatchReply successful failed, w)"
| "sendBatch E name (e # es) successful failed w =
     (case sendEntry E name e w of
        (Inl err, w1) \<Rightarrow>
          (let (code, senderFault) = sqsSendError err
           in sendBatch E name es successful
                (failed @ [\<lparr>bf_Id = be_ID e, bf_Code = code, bf_Message = err, bf_SenderFault = senderFault\<rparr>]) w1)
      | (Inr m, w1) \<Rightarrow>
          sendBatch E name es (successful @ [(be_ID e, sentOf E (be_MessageAttributes e) m)]) failed w1)"

definition handleSendBatch :: "env \<Rightarrow> (string \<Rightarrow> bool) \<Rightarrow> sqsInput \<Rightarrow> world \<Rightarrow> sqsReply \<times> world" where
  "handleSendBatch E A i w = sendBatch E (queueName A (in_QueueUrl i)) (in_Entries i) [] [] w"

section \<open>Deleting\<close>

fun deleteBatch :: "env \<Rightarrow> string \<Rightarrow> sqsBatchEntry list \<Rightarrow> string list \<Rightarrow> batchFailure list \<Rightarrow> world \<Rightarrow> sqsReply \<times> world" where
  "deleteBatch E name [] successful failed w = (DeleteBatchReply successful failed, w)"
| "deleteBatch E name (e # es) successful failed w =
     (case DeleteMessage E name (be_ReceiptHandle e) w of
        (Inl err, w1) \<Rightarrow>
          deleteBatch E name es successful
            (failed @ [\<lparr>bf_Id = be_ID e, bf_Code = ''ReceiptHandleIsInvalid'', bf_Message = err, bf_SenderFault = True\<rparr>]) w1
      | (Inr _, w1) \<Rightarrow> deleteBatch E name es (successful @ [be_ID e]) failed w1)"

definition handleDeleteBatch :: "env \<Rightarrow> (string \<Rightarrow> bool) \<Rightarrow> sqsInput \<Rightarrow> world \<Rightarrow> sqsReply \<times> world" where
  "handleDeleteBatch E A i w = deleteBatch E (queueName A (in_QueueUrl i)) (in_Entries i) [] [] w"

section \<open>Receiving\<close>

definition withNonEmpty :: "string \<Rightarrow> string \<Rightarrow> strmap \<Rightarrow> strmap" where
  "withNonEmpty k v m = (if v = '''' then m else fmupd k v m)"

definition unixMilli :: "time \<Rightarrow> int" where
  "unixMilli t = t div 1000000"

definition receivedItem :: "env \<Rightarrow> time \<Rightarrow> Message \<Rightarrow> receivedMessage" where
  "receivedItem E t m =
     (let base = fmap_of_list [(''SenderId'', defaultAccountID), (''SentTimestamp'', showInt (unixMilli (msg_SentAt m))),
                   (''ApproximateReceiveCount'', showInt (msg_ReceiveCount m)),
                   (''ApproximateFirstReceiveTimestamp'', showInt (unixMilli t))];
          attrs = withNonEmpty ''SequenceNumber'' (msg_SequenceNumber m)
                    (withNonEmpty ''MessageDeduplicationId'' (msg_MessageDeduplicationID m)
                      (withNonEmpty ''MessageGroupId'' (msg_MessageGroupID m) base))
      in \<lparr>rm_MessageId = msg_MessageID m, rm_ReceiptHandle = msg_ReceiptHandle m, rm_MD5OfBody = msg_MD5OfBody m,
          rm_Body = msg_Body m, rm_Attributes = attrs,
          rm_MessageAttributes =
            (if fmnull (msg_MessageAttributes m) then None
             else Some (msg_MessageAttributes m, sqsMessageAttributesMD5 E (msg_MessageAttributes m)))\<rparr>)"

text \<open>The loop that builds the reply reads the clock once per message.\<close>

fun receivedItems :: "env \<Rightarrow> Message list \<Rightarrow> world \<Rightarrow> receivedMessage list \<times> world" where
  "receivedItems E [] w = ([], w)"
| "receivedItems E (m # ms) w =
     (let (t, w1) = now E w; (items, w2) = receivedItems E ms w1 in (receivedItem E t m # items, w2))"

definition answerMessages :: "env \<Rightarrow> Message list \<Rightarrow> world \<Rightarrow> sqsReply \<times> world" where
  "answerMessages E messages w = (let (items, w1) = receivedItems E messages w in (MessagesReply items, w1))"

partial_function (option) receivePoll ::
  "env \<Rightarrow> string \<Rightarrow> int \<Rightarrow> int \<Rightarrow> time \<Rightarrow> world \<Rightarrow> (sqsReply \<times> world) option" where
  "receivePoll E name maxN visibility deadline w =
     (case ReceiveMessages E name maxN visibility w of
        (Inl e, w1) \<Rightarrow> Some (sqsFailure [] e, w1)
      | (Inr messages, w1) \<Rightarrow>
         (if messages \<noteq> [] then Some (answerMessages E messages w1)
          else (let (t, w2) = now E w1
                in if t < deadline then receivePoll E name maxN visibility deadline w2
                   else Some (answerMessages E [] w2))))"

definition receiveMessages :: "env \<Rightarrow> (string \<Rightarrow> bool) \<Rightarrow> sqsInput \<Rightarrow> world \<Rightarrow> (sqsReply \<times> world) option" where
  "receiveMessages E A i w =
     (let visibility = (case in_VisibilityTimeout i of None \<Rightarrow> -1 | Some v \<Rightarrow> v);
          (t, w1) = now E w
      in receivePoll E (queueName A (in_QueueUrl i)) (in_MaxNumberOfMessages i) visibility
           (t + duration_s (in_WaitTimeSeconds i)) w1)"

section \<open>Attributes and dispatch\<close>

definition selectAttributes :: "strmap \<Rightarrow> string list \<Rightarrow> strmap" where
  "selectAttributes attrs names =
     (if names = [] then fmempty
      else if ''All'' \<in> set names then attrs
      else fold (\<lambda>name result. case fmlookup attrs name of Some v \<Rightarrow> fmupd name v result | None \<Rightarrow> result) names fmempty)"

definition createQueueFailure :: "error \<Rightarrow> sqsReply" where
  "createQueueFailure e =
     (if errors_Is e ErrInvalidQueueAttribute then sqsError 400 ''InvalidAttributeValue'' (ErrorText e) else sqsInternalError e)"

text \<open>Every operation but \<open>ReceiveMessage\<close>.\<close>

definition sqsOperation :: "env \<Rightarrow> (string \<Rightarrow> bool) \<Rightarrow> sqsRequest \<Rightarrow> string \<Rightarrow> sqsInput \<Rightarrow> world \<Rightarrow> sqsReply \<times> world" where
  "sqsOperation E A rq operation i w =
     (let url = queueName A (in_QueueUrl i)
      in if operation = ''CreateQueue'' then
           (case CreateQueue E (in_QueueName i) (in_Attributes i) w of
              (Inl e, w1) \<Rightarrow> (createQueueFailure e, w1) | (Inr q, w1) \<Rightarrow> (QueueUrlReply (queueURL rq (q_Name q)), w1))
         else if operation = ''GetQueueUrl'' then
           sqsReplyOf [] (\<lambda>_. QueueUrlReply (queueURL rq (in_QueueName i))) (Queue_get (in_QueueName i) w)
         else if operation = ''ListQueues'' then
           (QueueUrlsReply (map (\<lambda>q. queueURL rq (q_Name q)) (ListQueues (in_QueueNamePrefix i) w)), w)
         else if operation = ''DeleteQueue'' then sqsReplyOf [] (\<lambda>_. DoneReply) (DeleteQueue E url w)
         else if operation = ''PurgeQueue'' then sqsReplyOf [] (\<lambda>_. DoneReply) (PurgeQueue E url w)
         else if operation = ''SendMessage'' then
           sqsReplyOf [(ErrMissingMessageParameter, ''MissingParameter''), (ErrInvalidMessageParameter, ''InvalidParameterValue'')]
             (\<lambda>m. SentReply (sentOf E (in_MessageAttributes i) m))
             (sendFrom E url (in_MessageBody i) (in_MessageAttributes i) (in_DelaySeconds i) (in_MessageGroupID i)
               (in_MessageDeduplicationID i) w)
         else if operation = ''SendMessageBatch'' then handleSendBatch E A i w
         else if operation = ''DeleteMessage'' then
           sqsReplyOf [(ErrReceiptInvalid, ''ReceiptHandleIsInvalid'')] (\<lambda>_. DoneReply) (DeleteMessage E url (in_ReceiptHandle i) w)
         else if operation = ''DeleteMessageBatch'' then handleDeleteBatch E A i w
         else if operation = ''ChangeMessageVisibility'' then
           sqsReplyOf [(ErrReceiptInvalid, ''ReceiptHandleIsInvalid'')] (\<lambda>_. DoneReply)
             (ChangeVisibility E url (in_ReceiptHandle i) (case in_VisibilityTimeout i of None \<Rightarrow> 0 | Some v \<Rightarrow> v) w)
         else if operation = ''GetQueueAttributes'' then
           sqsReplyOf [] (\<lambda>attrs. QueueAttributesReply (selectAttributes attrs (in_AttributeNames i))) (QueueAttributes E url w)
         else if operation = ''SetQueueAttributes'' then
           sqsReplyOf [(ErrInvalidQueueAttribute, ''InvalidAttributeValue'')] (\<lambda>_. DoneReply) (SetQueueAttributes E url (in_Attributes i) w)
         else (sqsError 400 ''UnsupportedOperation'' (NotImplemented operation), w))"

definition sqsTargetPrefix :: string where
  "sqsTargetPrefix = ''AmazonSQS.''"

definition sqsTarget :: "sqsRequest \<Rightarrow> string" where
  "sqsTarget rq =
     (if hasPrefix (rq_Target rq) sqsTargetPrefix then drop (length sqsTargetPrefix) (rq_Target rq) else rq_Target rq)"

definition decodeInput :: "(string \<Rightarrow> error + sqsInput) \<Rightarrow> string \<Rightarrow> error + sqsInput" where
  "decodeInput decode raw = (if raw = '''' \<or> raw = ''{}'' then Inr emptyInput else decode raw)"

definition handleSQS ::
  "env \<Rightarrow> (string \<Rightarrow> bool) \<Rightarrow> (string \<Rightarrow> error + sqsInput) \<Rightarrow> sqsRequest \<Rightarrow> world \<Rightarrow> (sqsReply \<times> world) option" where
  "handleSQS E A decode rq w =
     (if rq_Method rq \<noteq> ''POST'' then
        Some (sqsError 405 ''UnsupportedOperation'' (Text ''SQS operations require POST''), w)
      else case rq_Body rq of
        Inl e \<Rightarrow> Some (sqsError 400 ''InvalidRequest'' (ErrorText e), w)
      | Inr raw \<Rightarrow>
         (case decodeInput decode raw of
            Inl e \<Rightarrow> Some (sqsError 400 ''InvalidRequest'' (ErrorText e), w)
          | Inr i \<Rightarrow>
              if sqsTarget rq = ''ReceiveMessage'' then receiveMessages E A i w
              else Some (sqsOperation E A rq (sqsTarget rq) i w)))"

end
