(* ===== verification/Sqs_Service.thy ===== *)
theory Sqs_Service
  imports Handlers Sqs_Handlers SQS_Theorems
begin

text \<open>
  The SQS handler over the store: every request is answered safely, a long poll returns once its deadline has
  passed and hands out receipts the queue knows, a batch of sends appends its successful entries in order, and the
  digest of message attributes is computed over an unambiguous encoding.
\<close>

section \<open>Safety of every request\<close>

fun isSqsError :: "sqsReply \<Rightarrow> bool" where
  "isSqsError (SqsError status code message) = True"
| "isSqsError _ = False"

interpretation sqs: error_reply "sqsFailure named" isSqsError for named
  by unfold_locales (simp add: sqsFailure_def sqsQueueNotFound_def sqsInternalError_def sqsError_def split: option.split)

interpretation sqsCreate: error_reply createQueueFailure isSqsError
  by unfold_locales (simp add: createQueueFailure_def sqsInternalError_def sqsError_def)

lemma sqsReplyOf_safe:
  assumes "ok.outcome E S w out" "\<And>x. \<not> isSqsError (f x)"
  shows "sqs.safe E S w (sqsReplyOf named f out)"
  using sqs.safe_store [OF assms(1), of f] assms(2) by (simp add: sqsReplyOf_def split_beta)

lemma sendFrom_outcome: "ok.holds E S w \<Longrightarrow> ok.outcome E S w (sendFrom E name body attrs d g i w)"
  by (simp add: sendFrom_def SendMessageWithOptions_outcome split: prod.split)

lemma Queue_get_outcome: "ok.holds E S w \<Longrightarrow> ok.outcome E S w (Queue_get name w)"
  by (auto simp: Queue_get_def intro: ok.outcome_return split: option.split)

lemma outcome_holds: "ok.holds E S w \<Longrightarrow> ok.outcome E S w out \<Longrightarrow> out = (r, w') \<Longrightarrow> ok.holds E S w'"
  by (simp add: ok.outcome_def)

lemma sendBatch_safe: "ok.holds E S w \<Longrightarrow> sqs.safe E S w0 (sendBatch E name es ok failed w)"
proof (induction es arbitrary: ok failed w)
  case Nil
  then show ?case by (simp add: sqs.safe_def)
next
  case (Cons e es)
  obtain r w1 where r: "sendEntry E name e w = (r, w1)" by fastforce
  have "ok.outcome E S w (sendEntry E name e w)" unfolding sendEntry_def by (rule sendFrom_outcome [OF Cons.prems])
  from Cons.IH [OF outcome_holds [OF Cons.prems this r]] r show ?case
    by (simp split: sum.split prod.split)
qed

lemma deleteBatch_safe: "ok.holds E S w \<Longrightarrow> sqs.safe E S w0 (deleteBatch E name es ok failed w)"
proof (induction es arbitrary: ok failed w)
  case Nil
  then show ?case by (simp add: sqs.safe_def)
next
  case (Cons e es)
  obtain r w1 where r: "DeleteMessage E name (be_ReceiptHandle e) w = (r, w1)" by fastforce
  from Cons.IH [OF outcome_holds [OF Cons.prems DeleteMessage_outcome [OF Cons.prems] r]] r show ?case
    by (simp split: sum.split)
qed

lemmas sqs_outcomes = DeleteQueue_outcome PurgeQueue_outcome sendFrom_outcome DeleteMessage_outcome ChangeVisibility_outcome
  QueueAttributes_outcome SetQueueAttributes_outcome Queue_get_outcome

lemma createQueue_safe:
  assumes "ok.holds E S w"
  shows "sqs.safe E S w (case CreateQueue E name attrs w of
    (Inl e, w1) \<Rightarrow> (createQueueFailure e, w1) | (Inr q, w1) \<Rightarrow> (QueueUrlReply (queueURL rq (q_Name q)), w1))"
  using sqsCreate.safe_store [OF CreateQueue_outcome [OF assms, of name attrs], where f = "\<lambda>q. QueueUrlReply (queueURL rq (q_Name q))"]
  by (simp add: split_beta split: sum.splits)

lemma safe_if: "sqs.safe E S w x \<Longrightarrow> sqs.safe E S w y \<Longrightarrow> sqs.safe E S w (if b then x else y)"
  by simp

lemma sqsOperation_safe: "ok.holds E S w \<Longrightarrow> sqs.safe E S w (sqsOperation E A rq operation i w)"
  unfolding sqsOperation_def Let_def handleSendBatch_def handleDeleteBatch_def
  by (intro safe_if createQueue_safe sqsReplyOf_safe sendBatch_safe deleteBatch_safe sqs.safe_return sqs_outcomes) simp_all

section \<open>Long polling\<close>

lemma holds_now: "ok.holds E S w \<Longrightarrow> now E w = (t, w1) \<Longrightarrow> ok.holds E S w1"
  by (auto simp: now_def ok.holds_def)

lemma receivedItems_world: "receivedItems E ms w = (items, w') \<Longrightarrow> w' = w\<lparr>w_clock := w_clock w + length ms\<rparr>"
proof (induction ms arbitrary: w items w')
  case (Cons m ms)
  from Cons.prems obtain items' where "receivedItems E ms (w\<lparr>w_clock := Suc (w_clock w)\<rparr>) = (items', w')"
    by (auto simp: now_def Let_def split: prod.splits)
  from Cons.IH [OF this] show ?case by simp
qed simp

lemma receivedItems_receipts: "receivedItems E ms w = (items, w') \<Longrightarrow> map rm_ReceiptHandle items = map msg_ReceiptHandle ms"
  by (induction ms arbitrary: w items w') (auto simp: now_def Let_def receivedItem_def split: prod.splits)

lemma saveThen_clock: "saveThen E v w = (r, w') \<Longrightarrow> w_clock w' = w_clock w"
proof -
  assume a: "saveThen E v w = (r, w')"
  obtain x w1 where s: "saveLocked E w = (x, w1)" by fastforce
  from s have "w_clock w1 = w_clock w" by (cases rule: saveLocked_cases) simp_all
  with a s show "w_clock w' = w_clock w" by (simp add: saveThen_def split: option.splits)
qed

lemma ReceiveMessages_clock: "ReceiveMessages E name maxN vis w = (r, w') \<Longrightarrow> w_clock w \<le> w_clock w'"
  by (auto simp: ReceiveMessages_def now_def Let_def dest!: saveThen_clock split: option.splits if_splits)

text \<open>What one turn of the poll hands out.\<close>

definition handed :: "int \<Rightarrow> string list \<Rightarrow> Queue option \<Rightarrow> bool" where
  "handed maxN receipts q \<longleftrightarrow> int (length receipts) \<le> clampMax maxN \<and>
     (\<exists>q'. q = Some q' \<and> set receipts \<subseteq> msg_ReceiptHandle ` set (q_Messages q'))"

lemma ReceiveMessages_handed:
  assumes "ok.holds E S w" "ReceiveMessages E name maxN vis w = (Inr ms, w')"
  shows "handed maxN (map msg_ReceiptHandle ms) (fmlookup (Queues (w_data w')) name)"
proof (rule ReceiveMessages_success [OF assms])
  fix q s
  assume s: "s = recvRun E w q maxN vis" "ms = rv_result s" "Queues (w_data w') = recvQueues E name q s (Queues (w_data w))"
  obtain mr vis' dlq ids where loop: "s = loopRun E (e_now E (w_clock w)) (clampMax maxN) vis' (queueIsFIFO q) mr (q_Messages q) dlq ids"
    using recvRun_loop [of E w q maxN vis] s(1) by blast
  have "int (length ms) \<le> clampMax maxN" unfolding s(2) loop by (rule recv_result_bound) (simp add: clampMax_def)
  moreover have "set ms \<subseteq> set (rv_remaining s)" unfolding s(2) loop using recv_delivered by fastforce
  ultimately show ?thesis using s(3) by (auto simp: handed_def recvQueues_def)
qed

lemma receivePoll_holds:
  assumes ret: "receivePoll E name maxN vis deadline w = Some out"
  shows "ok.holds E S w \<longrightarrow> ok.holds E S (snd out) \<and> (\<forall>items. fst out = MessagesReply items \<longrightarrow>
     handed maxN (map rm_ReceiptHandle items) (fmlookup (Queues (w_data (snd out))) name) \<and>
     (items = [] \<longrightarrow> deadline \<le> e_now E (w_clock (snd out) - 1)))"
proof (rule receivePoll.raw_induct [where P = "\<lambda>E name maxN vis deadline w out. ok.holds E S w \<longrightarrow> ok.holds E S (snd out) \<and>
    (\<forall>items. fst out = MessagesReply items \<longrightarrow>
     handed maxN (map rm_ReceiptHandle items) (fmlookup (Queues (w_data (snd out))) name) \<and>
     (items = [] \<longrightarrow> deadline \<le> e_now E (w_clock (snd out) - 1)))", OF _ ret], rule impI)
  fix f E name maxN vis deadline w out
  let ?P = "\<lambda>E name maxN deadline out. ok.holds E S (snd out) \<and> (\<forall>items. fst out = MessagesReply items \<longrightarrow>
     handed maxN (map rm_ReceiptHandle items) (fmlookup (Queues (w_data (snd out))) name) \<and>
     (items = [] \<longrightarrow> deadline \<le> e_now E (w_clock (snd out) - 1)))"
  assume IH: "\<And>E name maxN vis deadline w out. f E name maxN vis deadline w = Some out \<Longrightarrow> ok.holds E S w \<longrightarrow> ?P E name maxN deadline out"
    and eq: "(case ReceiveMessages E name maxN vis w of (Inl e, w1) \<Rightarrow> Some (sqsFailure [] e, w1)
      | (Inr messages, w1) \<Rightarrow> if messages \<noteq> [] then Some (answerMessages E messages w1)
         else (let (t, w2) = now E w1 in if t < deadline then f E name maxN vis deadline w2 else Some (answerMessages E [] w2))) = Some out"
    and h: "ok.holds E S w"
  obtain r w1 where run: "ReceiveMessages E name maxN vis w = (r, w1)" by fastforce
  have h1: "ok.holds E S w1" by (rule outcome_holds [OF h ReceiveMessages_outcome [OF h] run])
  show "?P E name maxN deadline out"
  proof (cases r)
    case (Inl e)
    have "\<not> isSqsError (MessagesReply items)" for items by simp
    with Inl eq run h1 sqs.writeError_isError [of "[]" e] show ?thesis by (auto simp del: isSqsError.simps)
  next
    case (Inr ms)
    note hd = ReceiveMessages_handed [OF h run [unfolded Inr]]
    show ?thesis
    proof (cases "ms = []")
      case True
      show ?thesis
      proof (cases "e_now E (w_clock w1) < deadline")
        case True
        with eq run Inr \<open>ms = []\<close> have "f E name maxN vis deadline (w1\<lparr>w_clock := Suc (w_clock w1)\<rparr>) = Some out" by (simp add: now_def)
        from IH [OF this] h1 show ?thesis by (simp add: ok.holds_def)
      next
        case False
        with eq run Inr \<open>ms = []\<close> have "out = (MessagesReply [], w1\<lparr>w_clock := Suc (w_clock w1)\<rparr>)" by (simp add: now_def answerMessages_def)
        with False h1 hd \<open>ms = []\<close> show ?thesis by (simp add: ok.holds_def)
      qed
    next
      case False
      obtain items w2 where it: "receivedItems E ms w1 = (items, w2)" by fastforce
      from receivedItems_receipts [OF it] False have "items \<noteq> []" by auto
      moreover from eq run Inr False it have "out = (MessagesReply items, w2)" by (simp add: answerMessages_def)
      ultimately show ?thesis using receivedItems_receipts [OF it] receivedItems_world [OF it] hd h1 by (simp add: ok.holds_def)
    qed
  qed
qed

lemma receivePoll_returns:
  assumes "mono (e_now E)" "deadline \<le> e_now E n"
  shows "\<exists>out. receivePoll E name maxN vis deadline w = Some out"
proof (induction "n - w_clock w" arbitrary: w rule: less_induct)
  case less
  obtain r w1 where run: "ReceiveMessages E name maxN vis w = (r, w1)" by fastforce
  note unfold = receivePoll.simps [of E name maxN vis deadline w]
  show ?case
  proof (cases "r = Inr [] \<and> e_now E (w_clock w1) < deadline")
    case True
    then have "w_clock w1 < n" using assms by (metis linorder_not_le monoD order.strict_trans2 order_less_irrefl)
    then have "n - w_clock (w1\<lparr>w_clock := Suc (w_clock w1)\<rparr>) < n - w_clock w" using ReceiveMessages_clock [OF run] by simp
    from less [OF this] True run show ?thesis by (subst unfold) (simp add: now_def)
  next
    case False
    then show ?thesis by (subst unfold) (auto simp: run now_def split: sum.split)
  qed
qed

text \<open>
  C24. Every SQS request that returns leaves the store invariant intact, whichever system calls fail. One that is answered with
  an error has changed nothing, in memory or on disk, unless it is a long poll (an earlier turn of which may have
  moved messages to a dead-letter queue). \<open>ListQueues\<close> and \<open>GetQueueUrl\<close> never change anything.
\<close>

theorem sqs_requests_safe:
  assumes h: "ok.holds E S w" and run: "handleSQS E A decode rq w = Some (reply, w')"
  shows "ok.holds E S w' \<and>
    (isSqsError reply \<and> sqsTarget rq \<noteq> ''ReceiveMessage'' \<longrightarrow> sameLive (w_data w') (w_data w) \<and> diskState w' = diskState w) \<and>
    (sqsTarget rq \<in> {''ListQueues'', ''GetQueueUrl''} \<longrightarrow> w' = w)"
proof -
  note ret = sqs.safe_return [OF h]
  consider "(reply, w') = (reply, w)"
    | i where "sqsTarget rq = ''ReceiveMessage''" "receiveMessages E A i w = Some (reply, w')"
    | i where "sqsTarget rq \<noteq> ''ReceiveMessage''" "sqsOperation E A rq (sqsTarget rq) i w = (reply, w')"
    using run by (auto simp: handleSQS_def split: if_splits sum.splits)
  then show ?thesis
  proof cases
    case 1
    with h show ?thesis by simp
  next
    case (2 i)
    then obtain v where poll: "receivePoll E (queueName A (in_QueueUrl i)) (in_MaxNumberOfMessages i) v
        (e_now E (w_clock w) + duration_s (in_WaitTimeSeconds i)) (w\<lparr>w_clock := Suc (w_clock w)\<rparr>) = Some (reply, w')"
      by (auto simp: receiveMessages_def now_def)
    have "ok.holds E S (w\<lparr>w_clock := Suc (w_clock w)\<rparr>)" using h by (simp add: ok.holds_def)
    with receivePoll_holds [OF poll] have "ok.holds E S w'" by simp
    with 2 show ?thesis by simp
  next
    case (3 i)
    have "sqs.safe E S w (reply, w')" using sqsOperation_safe [OF h, of A rq "sqsTarget rq" i] 3(2) by simp
    note s = sqs.safeD [OF this]
    have "w' = w" if "sqsTarget rq = ''ListQueues'' \<or> sqsTarget rq = ''GetQueueUrl''"
      using that 3(2) by (elim disjE) (auto simp: sqsOperation_def sqsReplyOf_def Queue_get_def split: option.splits)
    with s show ?thesis by blast
  qed
qed

text \<open>
  C25. A long poll ends. On a clock that does not go backwards and reaches the deadline, \<open>ReceiveMessage\<close> returns: with
  an error, or with at most ten messages (and at most the number asked for), each with a receipt handle that a message
  of the queue carries, so that it can be deleted with it. It returns no message only after the deadline.
\<close>

theorem long_poll_returns:
  assumes h: "ok.holds E S w" and clock: "mono (e_now E)"
    and deadline: "e_now E (w_clock w) + duration_s (in_WaitTimeSeconds i) \<le> e_now E n"
  shows "\<exists>reply w'. receiveMessages E A i w = Some (reply, w') \<and> ok.holds E S w' \<and>
    (\<forall>items. reply = MessagesReply items \<longrightarrow> int (length items) \<le> clampMax (in_MaxNumberOfMessages i) \<and>
       (\<exists>q. fmlookup (Queues (w_data w')) (queueName A (in_QueueUrl i)) = Some q \<and>
          rm_ReceiptHandle ` set items \<subseteq> msg_ReceiptHandle ` set (q_Messages q)) \<and>
       (items = [] \<longrightarrow> e_now E (w_clock w) + duration_s (in_WaitTimeSeconds i) \<le> e_now E (w_clock w' - 1)))"
proof -
  let ?w = "w\<lparr>w_clock := Suc (w_clock w)\<rparr>" and ?d = "e_now E (w_clock w) + duration_s (in_WaitTimeSeconds i)"
  let ?v = "case in_VisibilityTimeout i of None \<Rightarrow> -1 | Some v \<Rightarrow> v" and ?name = "queueName A (in_QueueUrl i)"
  obtain reply w' where run: "receivePoll E ?name (in_MaxNumberOfMessages i) ?v ?d ?w = Some (reply, w')"
    using receivePoll_returns [OF clock deadline] by (metis prod.exhaust)
  then have "receiveMessages E A i w = Some (reply, w')" by (simp add: receiveMessages_def now_def)
  moreover have "ok.holds E S ?w" using h by (simp add: ok.holds_def)
  with receivePoll_holds [OF run] have "ok.holds E S w' \<and> (\<forall>items. reply = MessagesReply items \<longrightarrow>
      handed (in_MaxNumberOfMessages i) (map rm_ReceiptHandle items) (fmlookup (Queues (w_data w')) ?name) \<and>
      (items = [] \<longrightarrow> ?d \<le> e_now E (w_clock w' - 1)))" by simp
  ultimately show ?thesis by (auto simp: handed_def)
qed

section \<open>Batches\<close>

lemma sameLive_messages:
  assumes "sameLive d' d" "fmlookup (Queues d) name = Some q"
  obtains q' where "fmlookup (Queues d') name = Some q'" "q_Messages q' = q_Messages q" "queueIsFIFO q' = queueIsFIFO q"
proof -
  obtain q' where q': "fmlookup (Queues d') name = Some q'" "q'\<lparr>q_Deduplication := fmempty\<rparr> = q\<lparr>q_Deduplication := fmempty\<rparr>"
    using sameLive_queue [OF assms(1), of name] assms(2) by auto
  from arg_cong [OF q'(2), of q_Messages] arg_cong [OF q'(2), of queueIsFIFO] show thesis
    by (intro that [OF q'(1)]) simp_all
qed

lemma sendEntry_step:
  assumes h: "ok.holds E S w" and q: "fmlookup (Queues (w_data w)) name = Some q" "\<not> queueIsFIFO q"
    and run: "sendEntry E name e w = (r, w')"
  obtains q' where "ok.holds E S w'" "fmlookup (Queues (w_data w')) name = Some q'" "\<not> queueIsFIFO q'"
    "case r of Inl _ \<Rightarrow> q_Messages q' = q_Messages q
     | Inr m \<Rightarrow> q_Messages q' = q_Messages q @ [m] \<and> msg_Body m = be_MessageBody e"
proof -
  have out: "ok.outcome E S w (sendEntry E name e w)" unfolding sendEntry_def by (rule sendFrom_outcome [OF h])
  note h' = outcome_holds [OF h out run]
  show thesis
  proof (cases r)
    case (Inl err)
    with out run have "sameLive (w_data w') (w_data w)" by (simp add: ok.outcome_def)
    then obtain q' where "fmlookup (Queues (w_data w')) name = Some q'" "q_Messages q' = q_Messages q" "queueIsFIFO q' = queueIsFIFO q"
      by (rule sameLive_messages [OF _ q(1)])
    with q(2) Inl show thesis by (intro that [OF h', of q']) simp_all
  next
    case (Inr m)
    obtain d s where "sqsDelay (be_DelaySeconds e) = (d, s)" by fastforce
    with run Inr have "SendMessageWithOptions E name (be_MessageBody e) (be_MessageAttributes e) d
        \<lparr>so_MessageGroupID = be_MessageGroupID e, so_MessageDeduplicationID = be_MessageDeduplicationID e, so_DelaySpecified = s\<rparr> w =
        (Inr m, w')" by (simp add: sendEntry_def sendFrom_def)
    then show thesis
    proof (rule SendMessage_success [OF h q(1)])
      fix q'
      assume a: "w_data w' = (w_data w)\<lparr>Queues := fmupd name q' (Queues (w_data w))\<rparr>" "q_Attributes q' = q_Attributes q"
        "q_Name q' = q_Name q"
      assume "wasDuplicate E (e_now E (w_clock w)) (be_MessageBody e) \<lparr>so_MessageGroupID = be_MessageGroupID e,
            so_MessageDeduplicationID = be_MessageDeduplicationID e, so_DelaySpecified = s\<rparr> q q' m \<and> w_state_json w' = w_state_json w \<or>
          wasAppended E (e_now E (w_clock w)) (be_MessageBody e) \<lparr>so_MessageGroupID = be_MessageGroupID e,
            so_MessageDeduplicationID = be_MessageDeduplicationID e, so_DelaySpecified = s\<rparr> (w_ids w) q q' m \<and> w_data w' = diskState w'"
      then have "q_Messages q' = q_Messages q @ [m] \<and> msg_Body m = be_MessageBody e"
        using q(2) by (auto simp: wasDuplicate_def wasAppended_def)
      with a q(2) Inr show thesis by (intro that [OF h', of q']) (simp_all add: queueIsFIFO_def)
    qed
  qed
qed

lemma sendBatch_appends:
  assumes "ok.holds E S w" "fmlookup (Queues (w_data w)) name = Some q" "\<not> queueIsFIFO q"
    and "sendBatch E name es ok0 failed0 w = (reply, w')"
  shows "\<exists>good bad ok failed ms q'. reply = SendBatchReply (ok0 @ ok) (failed0 @ failed) \<and> es \<in> shuffles good bad \<and>
    map fst ok = map be_ID good \<and> map bf_Id failed = map be_ID bad \<and>
    fmlookup (Queues (w_data w')) name = Some q' \<and> q_Messages q' = q_Messages q @ ms \<and>
    map msg_Body ms = map be_MessageBody good \<and> map msg_MessageID ms = map (\<lambda>r. sent_MessageId (snd r)) ok"
  using assms
proof (induction es arbitrary: ok0 failed0 w q)
  case Nil
  then show ?case by (intro exI [of _ "[]"]) simp
next
  case (Cons e es)
  obtain r w1 where run: "sendEntry E name e w = (r, w1)" by fastforce
  obtain q1 where q1: "ok.holds E S w1" "fmlookup (Queues (w_data w1)) name = Some q1" "\<not> queueIsFIFO q1"
    and app: "case r of Inl _ \<Rightarrow> q_Messages q1 = q_Messages q
     | Inr m \<Rightarrow> q_Messages q1 = q_Messages q @ [m] \<and> msg_Body m = be_MessageBody e"
    by (rule sendEntry_step [OF Cons.prems(1-3) run])
  show ?case
  proof (cases r)
    case (Inl err)
    define x where "x = \<lparr>bf_Id = be_ID e, bf_Code = fst (sqsSendError err), bf_Message = err, bf_SenderFault = snd (sqsSendError err)\<rparr>"
    have "sendBatch E name es ok0 (failed0 @ [x]) w1 = (reply, w')"
      using Cons.prems(4) run Inl by (simp add: x_def split_beta)
    from Cons.IH [OF q1 this] obtain good bad ok failed ms q' where ih: "reply = SendBatchReply (ok0 @ ok) ((failed0 @ [x]) @ failed)"
      "es \<in> shuffles good bad" "map fst ok = map be_ID good" "map bf_Id failed = map be_ID bad"
      "fmlookup (Queues (w_data w')) name = Some q'" "q_Messages q' = q_Messages q1 @ ms"
      "map msg_Body ms = map be_MessageBody good" "map msg_MessageID ms = map (\<lambda>r. sent_MessageId (snd r)) ok" by blast
    have "e # es \<in> shuffles good (e # bad)" using ih(2) by (rule Cons_in_shuffles_rightI)
    with ih app Inl show ?thesis
      by (intro exI [of _ good] exI [of _ "e # bad"] exI [of _ ok] exI [of _ "x # failed"] exI [of _ ms] exI [of _ q'])
        (simp add: x_def)
  next
    case (Inr m)
    define x where "x = (be_ID e, sentOf E (be_MessageAttributes e) m)"
    have "sendBatch E name es (ok0 @ [x]) failed0 w1 = (reply, w')"
      using Cons.prems(4) run Inr by (simp add: x_def)
    from Cons.IH [OF q1 this] obtain good bad ok failed ms q' where ih: "reply = SendBatchReply ((ok0 @ [x]) @ ok) (failed0 @ failed)"
      "es \<in> shuffles good bad" "map fst ok = map be_ID good" "map bf_Id failed = map be_ID bad"
      "fmlookup (Queues (w_data w')) name = Some q'" "q_Messages q' = q_Messages q1 @ ms"
      "map msg_Body ms = map be_MessageBody good" "map msg_MessageID ms = map (\<lambda>r. sent_MessageId (snd r)) ok" by blast
    have "e # es \<in> shuffles (e # good) bad" using ih(2) by (rule Cons_in_shuffles_leftI)
    with ih app Inr show ?thesis
      by (intro exI [of _ "e # good"] exI [of _ bad] exI [of _ "x # ok"] exI [of _ failed] exI [of _ "m # ms"] exI [of _ q'])
        (simp add: x_def sentOf_def)
  qed
qed

text \<open>
  C27. \<open>SendMessageBatch\<close> on a standard queue accounts for every entry once and in order: the entries split into those
  reported as sent and those reported as failed; the queue has grown at its end by one message per entry reported as sent,
  with that entry's body and the message identifier of the reply, in the order of the entries, and by nothing else,
  even when a commit fails in the middle of the batch.
\<close>

theorem send_batch_appends_in_order:
  assumes "ok.holds E S w" and "fmlookup (Queues (w_data w)) (queueName A (in_QueueUrl i)) = Some q" and "\<not> queueIsFIFO q"
    and "handleSendBatch E A i w = (reply, w')"
  shows "\<exists>good bad ok failed ms q'. reply = SendBatchReply ok failed \<and> in_Entries i \<in> shuffles good bad \<and>
    map fst ok = map be_ID good \<and> map bf_Id failed = map be_ID bad \<and>
    fmlookup (Queues (w_data w')) (queueName A (in_QueueUrl i)) = Some q' \<and> q_Messages q' = q_Messages q @ ms \<and>
    map msg_Body ms = map be_MessageBody good \<and> map msg_MessageID ms = map (\<lambda>r. sent_MessageId (snd r)) ok"
  using sendBatch_appends [OF assms(1-3)] assms(4) by (fastforce simp: handleSendBatch_def)

section \<open>The digest of message attributes\<close>

lemma bigEndian32_length [simp]: "length (bigEndian32 n) = 4"
  by (simp add: bigEndian32_def)

lemma four_bytes:
  assumes "(x :: nat) < 2 ^ 32"
  shows "x = 16777216 * (x div 16777216 mod 256) + 65536 * (x div 65536 mod 256) + 256 * (x div 256 mod 256) + x mod 256"
proof -
  define y where "y = x div 256"
  define z where "z = y div 256"
  have eq: "x div 65536 = z" "x div 16777216 = z div 256" by (simp_all add: y_def z_def div_mult2_eq [symmetric])
  have "z div 256 < 256" using assms by (simp add: y_def z_def div_mult2_eq [symmetric] less_mult_imp_div_less)
  then have "z div 256 mod 256 = z div 256" by simp
  moreover have "x = 256 * y + x mod 256" "y = 256 * z + y mod 256" "z = 256 * (z div 256) + z mod 256"
    by (simp_all add: y_def z_def)
  ultimately show ?thesis unfolding eq y_def [symmetric] by linarith
qed

lemma bigEndian32_inj:
  assumes "bigEndian32 m = bigEndian32 n"
  shows "m = n"
proof -
  have "unat k < 2 ^ LENGTH(32)" for k :: "32 word" by (rule unsigned_less)
  then have lt: "unat k < 2 ^ 32" for k :: "32 word" by simp
  have "unat (drop_bit k m) mod 256 = unat (drop_bit k n) mod 256" if "k \<in> {24, 16, 8, 0}" for k
    using assms that unfolding bigEndian32_def by (auto simp del: drop_bit_0)
  note bytes = this [of 24] this [of 16] this [of 8] this [of 0]
  have "unat m div 16777216 mod 256 = unat n div 16777216 mod 256" "unat m div 65536 mod 256 = unat n div 65536 mod 256"
    "unat m div 256 mod 256 = unat n div 256 mod 256" "unat m mod 256 = unat n mod 256"
    using bytes by (simp_all only: unat_drop_bit_eq) (simp_all add: drop_bit_eq_div)
  then have "unat m = unat n" using four_bytes [OF lt [of m]] four_bytes [OF lt [of n]] by linarith
  then show ?thesis by (simp only: word_unat_eq_iff)
qed

text \<open>What the digest covers of an attribute: its type and the value of that type.\<close>

definition isBinary :: "MessageAttribute \<Rightarrow> bool" where
  "isBinary a = hasPrefix (ma_DataType a) ''Binary''"

definition transported :: "MessageAttribute \<Rightarrow> string \<times> bytes" where
  "transported a = (ma_DataType a, if isBinary a then ma_BinaryValue a else ma_StringValue a)"

text \<open>Lengths are written in 32 bits.\<close>

definition fits :: "bytes \<Rightarrow> bool" where
  "fits b \<longleftrightarrow> length b < 2 ^ 32"

definition fieldsFit :: "MessageAttribute gomap \<Rightarrow> bool" where
  "fieldsFit m \<longleftrightarrow> fmpred (\<lambda>n a. fits n \<and> fits (fst (transported a)) \<and> fits (snd (transported a))) m"

lemma writeSQSMD5Field_inj:
  assumes "fits u" "fits v" "writeSQSMD5Field u @ s = writeSQSMD5Field v @ t"
  shows "u = v \<and> s = t"
proof -
  from assms(3) have "bigEndian32 (of_nat (length u)) = bigEndian32 (of_nat (length v))" and eq: "u @ s = v @ t"
    by (simp_all add: writeSQSMD5Field_def append_eq_append_conv)
  then have "(of_nat (length u) :: 32 word) = of_nat (length v)" by (blast dest: bigEndian32_inj)
  then have "unat (of_nat (length u) :: 32 word) = unat (of_nat (length v) :: 32 word)" by simp
  then have "length u = length v" using assms(1,2) by (simp add: fits_def unat_of_nat take_bit_eq_mod)
  with eq show ?thesis by simp
qed

definition wireBytes :: "string \<Rightarrow> string \<times> bytes \<Rightarrow> bytes" where
  "wireBytes n x = writeSQSMD5Field n @ writeSQSMD5Field (fst x) @
     char_of (if hasPrefix (fst x) ''Binary'' then 2 else 1 :: nat) # writeSQSMD5Field (snd x)"

lemma attributeBytes_wire: "attributeBytes n a = wireBytes n (transported a)"
  by (simp add: attributeBytes_def wireBytes_def transported_def isBinary_def)

lemma wireBytes_inj:
  assumes "fits m" "fits (fst x)" "fits (snd x)" "fits n" "fits (fst y)" "fits (snd y)" "wireBytes m x @ s = wireBytes n y @ t"
  shows "m = n \<and> x = y \<and> s = t"
proof -
  let ?tail = "\<lambda>x s. char_of (if hasPrefix (fst x) ''Binary'' then 2 else 1 :: nat) # writeSQSMD5Field (snd x) @ s"
  from assms(7) have "writeSQSMD5Field m @ writeSQSMD5Field (fst x) @ ?tail x s = writeSQSMD5Field n @ writeSQSMD5Field (fst y) @ ?tail y t"
    by (simp add: wireBytes_def)
  from writeSQSMD5Field_inj [OF assms(1,4) this] have "m = n"
    and "writeSQSMD5Field (fst x) @ ?tail x s = writeSQSMD5Field (fst y) @ ?tail y t" by simp_all
  with writeSQSMD5Field_inj [OF assms(2,5) this(2)] have "fst x = fst y" "writeSQSMD5Field (snd x) @ s = writeSQSMD5Field (snd y) @ t"
    by simp_all
  with writeSQSMD5Field_inj [OF assms(3,6) this(2)] \<open>m = n\<close> show ?thesis by (simp add: prod_eq_iff)
qed

lemma wireBytes_not_Nil [simp]: "wireBytes n x \<noteq> []"
  by (simp add: wireBytes_def)

abbreviation wiresFit :: "(string \<times> string \<times> bytes) list \<Rightarrow> bool" where
  "wiresFit xs \<equiv> \<forall>(n, x) \<in> set xs. fits n \<and> fits (fst x) \<and> fits (snd x)"

lemma wires_inj:
  "wiresFit xs \<Longrightarrow> wiresFit ys \<Longrightarrow> concat (map (\<lambda>(n, x). wireBytes n x) xs) = concat (map (\<lambda>(n, x). wireBytes n x) ys) \<Longrightarrow> xs = ys"
proof (induction xs arbitrary: ys)
  case Nil
  then show ?case by (cases ys) auto
next
  case (Cons a xs)
  obtain m x where a: "a = (m, x)" by (cases a)
  show ?case
  proof (cases ys)
    case Nil
    then show ?thesis using Cons.prems(3) by (simp add: a)
  next
    case (Cons b zs)
    obtain n y where b: "b = (n, y)" by (cases b)
    have "wireBytes m x @ concat (map (\<lambda>(n, x). wireBytes n x) xs) = wireBytes n y @ concat (map (\<lambda>(n, x). wireBytes n x) zs)"
      using Cons.prems(3) Cons a b by simp
    from wireBytes_inj [OF _ _ _ _ _ _ this] Cons.prems(1,2) Cons a b
    have "m = n" "x = y" "concat (map (\<lambda>(n, x). wireBytes n x) xs) = concat (map (\<lambda>(n, x). wireBytes n x) zs)" by auto
    with Cons.IH [of zs] Cons.prems(1,2) Cons a b show ?thesis by simp
  qed
qed

definition wires :: "MessageAttribute gomap \<Rightarrow> (string \<times> string \<times> bytes) list" where
  "wires m = map (\<lambda>(n, a). (n, transported a)) (sorted_list_of_fmap m)"

lemma digestInput_wires: "digestInput m = concat (map (\<lambda>(n, x). wireBytes n x) (wires m))"
  by (simp add: digestInput_def wires_def attributeBytes_wire comp_def case_prod_unfold)

lemma map_of_wires: "map_of (wires m) n = map_option transported (fmlookup m n)"
  by (simp add: wires_def map_of_map)

lemma wires_keys: "wires m = map (\<lambda>n. (n, the (map_of (wires m) n))) (fmkeys m)"
  unfolding map_of_wires by (auto simp: wires_def fmkeys_eq sorted_list_of_fmap_def comp_def sorted_list_of_fset.rep_eq fmlookup_dom_iff)

lemma wires_eq_iff: "wires a = wires b \<longleftrightarrow> (\<forall>n. map_option transported (fmlookup a n) = map_option transported (fmlookup b n))"
proof
  assume "wires a = wires b"
  then show "\<forall>n. map_option transported (fmlookup a n) = map_option transported (fmlookup b n)" by (metis map_of_wires)
next
  assume eq: "\<forall>n. map_option transported (fmlookup a n) = map_option transported (fmlookup b n)"
  have "fmdom a = fmdom b"
  proof (rule fset_eqI)
    fix n
    show "n |\<in>| fmdom a \<longleftrightarrow> n |\<in>| fmdom b" using eq [rule_format, of n]
      by (cases "fmlookup a n"; cases "fmlookup b n") (simp_all add: fmlookup_dom_iff)
  qed
  then have "fmkeys a = fmkeys b" by (simp add: fmkeys_eq)
  moreover have "map_of (wires a) = map_of (wires b)" using eq by (simp add: fun_eq_iff map_of_wires)
  ultimately show "wires a = wires b" by (metis wires_keys)
qed

lemma fieldsFit_wires: "fieldsFit m \<Longrightarrow> wiresFit (wires m)"
proof -
  assume f: "fieldsFit m"
  have "fmlookup m n = Some a" if "(n, a) \<in> set (sorted_list_of_fmap m)" for n a
    using that by (auto simp: sorted_list_of_fmap_def sorted_list_of_fset.rep_eq fmlookup_dom_iff)
  with f show "wiresFit (wires m)" by (auto simp: wires_def fieldsFit_def fmpred_iff)
qed

text \<open>
  C28. The bytes that are hashed for the attributes of a message encode them unambiguously: two sets of attributes, each
  field shorter than four gigabytes, are hashed from the same bytes exactly when they have the same names, and under
  each name the same type and the same value of that type. So the digest a client verifies distinguishes them as far as MD5 does.
\<close>

theorem attribute_digest_unambiguous:
  assumes "fieldsFit a" and "fieldsFit b"
  shows "digestInput a = digestInput b \<longleftrightarrow> (\<forall>n. map_option transported (fmlookup a n) = map_option transported (fmlookup b n))"
  unfolding wires_eq_iff [symmetric]
  using wires_inj [OF fieldsFit_wires [OF assms(1)] fieldsFit_wires [OF assms(2)]] by (auto simp: digestInput_wires)

definition sampleAttribute :: "string \<Rightarrow> MessageAttribute gomap" where
  "sampleAttribute v = fmupd ''n'' \<lparr>ma_DataType = ''String'', ma_StringValue = v, ma_BinaryValue = []\<rparr> fmempty"

theorem attribute_digest_unambiguous_witness:
  "digestInput (sampleAttribute ''x'') \<noteq> digestInput (sampleAttribute ''y'') \<and> fieldsFit (sampleAttribute ''x'')"
proof -
  have fit: "fieldsFit (sampleAttribute [c])" for c
    by (simp add: fieldsFit_def sampleAttribute_def fmpred_iff fits_def transported_def isBinary_def)
  have differ: "map_option transported (fmlookup (sampleAttribute ''x'') ''n'') \<noteq> map_option transported (fmlookup (sampleAttribute ''y'') ''n'')"
    by (simp add: sampleAttribute_def transported_def isBinary_def hasPrefix_def)
  have "digestInput (sampleAttribute ''x'') \<noteq> digestInput (sampleAttribute ''y'')"
    unfolding attribute_digest_unambiguous [OF fit fit] using differ by blast
  with fit show ?thesis by blast
qed

section \<open>Sample requests\<close>

definition sampleInput :: sqsInput where
  "sampleInput = emptyInput\<lparr>in_QueueUrl := ''http://localhost:4566/000000000000/q'', in_ReceiptHandle := ''unknown'',
     in_WaitTimeSeconds := 2\<rparr>"

lemma sampleInput_simps [simp]:
  "queueName (\<lambda>_. True) (in_QueueUrl sampleInput) = ''q''" "in_ReceiptHandle sampleInput = ''unknown''"
  "in_WaitTimeSeconds sampleInput = 2"
  by (code_simp, simp_all add: sampleInput_def)

lemma sample_queue_holds: "ok.holds sampleEnv sampleInputs (sampleQueueWorld ''q'' [])"
  by (intro sampleQueueWorld_holds) (simp_all add: receiptsBelow_def liveReceipts_def)

theorem sqs_requests_safe_witness:
  "\<exists>reply w'. handleSQS sampleEnv (\<lambda>_. True) (\<lambda>_. Inr sampleInput)
       (sampleRequest\<lparr>rq_Target := ''AmazonSQS.DeleteMessage'', rq_Body := Inr ''body''\<rparr>) (sampleQueueWorld ''q'' []) = Some (reply, w') \<and>
     isSqsError reply \<and> diskState w' = diskState (sampleQueueWorld ''q'' [])"
proof -
  let ?rq = "sampleRequest\<lparr>rq_Target := ''AmazonSQS.DeleteMessage'', rq_Body := Inr ''body''\<rparr>" and ?w = "sampleQueueWorld ''q'' []"
  have target: "sqsTarget ?rq = ''DeleteMessage''" by code_simp
  have "DeleteMessage sampleEnv ''q'' ''unknown'' ?w = (Inl ErrReceiptInvalid, ?w)" by (simp add: DeleteMessage_def)
  then have op: "sqsOperation sampleEnv (\<lambda>_. True) ?rq ''DeleteMessage'' sampleInput ?w = (sqsFailure [(ErrReceiptInvalid, ''ReceiptHandleIsInvalid'')] ErrReceiptInvalid, ?w)"
    by (simp add: sqsOperation_def sqsReplyOf_def)
  have run: "handleSQS sampleEnv (\<lambda>_. True) (\<lambda>_. Inr sampleInput) ?rq ?w = Some (sqsFailure [(ErrReceiptInvalid, ''ReceiptHandleIsInvalid'')] ErrReceiptInvalid, ?w)"
  proof -
    have "rq_Method ?rq = ''POST''" "rq_Body ?rq = Inr ''body''" by (simp_all add: sampleRequest_def)
    then show ?thesis unfolding handleSQS_def target by (simp add: decodeInput_def op)
  qed
  have err: "isSqsError (sqsFailure [(ErrReceiptInvalid, ''ReceiptHandleIsInvalid'')] ErrReceiptInvalid)" by (rule sqs.writeError_isError)
  from sqs_requests_safe [OF sample_queue_holds run] err target run show ?thesis by auto
qed

theorem long_poll_returns_witness:
  "\<exists>reply w'. receiveMessages sampleEnv (\<lambda>_. True) sampleInput (sampleQueueWorld ''q'' []) = Some (reply, w') \<and>
     ok.holds sampleEnv sampleInputs w'"
proof -
  have clock: "mono (e_now sampleEnv)" by (simp add: mono_def)
  have "e_now sampleEnv (w_clock (sampleQueueWorld ''q'' [])) + duration_s (in_WaitTimeSeconds sampleInput) \<le> e_now sampleEnv 102"
    by (simp add: duration_s_small)
  from long_poll_returns [OF sample_queue_holds clock this, of "\<lambda>_. True"] show ?thesis by blast
qed

definition sampleEntry :: "string \<Rightarrow> int option \<Rightarrow> sqsBatchEntry" where
  "sampleEntry n delay = \<lparr>be_ID = n, be_MessageBody = n, be_DelaySeconds = delay, be_MessageGroupID = '''', be_MessageDeduplicationID = '''',
     be_ReceiptHandle = '''', be_MessageAttributes = fmempty\<rparr>"

theorem send_batch_appends_in_order_witness:
  "\<exists>ok failed w' q' good bad. handleSendBatch sampleEnv (\<lambda>_. True) (sampleInput\<lparr>in_Entries := [sampleEntry ''a'' None, sampleEntry ''b'' (Some 901)]\<rparr>)
       (sampleQueueWorld ''q'' []) = (SendBatchReply ok failed, w') \<and> fmlookup (Queues (w_data w')) ''q'' = Some q' \<and>
     [sampleEntry ''a'' None, sampleEntry ''b'' (Some 901)] \<in> shuffles good bad \<and> map msg_Body (q_Messages q') = map be_MessageBody good \<and>
     map bf_Id failed = map be_ID bad"
proof -
  let ?i = "sampleInput\<lparr>in_Entries := [sampleEntry ''a'' None, sampleEntry ''b'' (Some 901)]\<rparr>" and ?w = "sampleQueueWorld ''q'' []"
  obtain reply w' where run: "handleSendBatch sampleEnv (\<lambda>_. True) ?i ?w = (reply, w')" by fastforce
  have q: "fmlookup (Queues (w_data ?w)) (queueName (\<lambda>_. True) (in_QueueUrl ?i)) = Some (sampleQueue ''q'' [])" by simp
  have name: "queueName (\<lambda>_. True) (in_QueueUrl ?i) = ''q''" "in_Entries ?i = [sampleEntry ''a'' None, sampleEntry ''b'' (Some 901)]" by simp_all
  obtain good bad ok failed ms q' where r: "reply = SendBatchReply ok failed" "[sampleEntry ''a'' None, sampleEntry ''b'' (Some 901)] \<in> shuffles good bad"
    "map bf_Id failed = map be_ID bad" "fmlookup (Queues (w_data w')) ''q'' = Some q'" "q_Messages q' = q_Messages (sampleQueue ''q'' []) @ ms"
    "map msg_Body ms = map be_MessageBody good"
    using send_batch_appends_in_order [OF sample_queue_holds q sample_fifo_attributes(2) run] unfolding name by blast
  have "map msg_Body (q_Messages q') = map be_MessageBody good" using r(5,6) by simp
  with run r(1-4) show ?thesis by blast
qed

end
