(* ===== verification/Spec2Isabelle.thy ===== *)
theory Spec2Isabelle
  imports Store_Runs Samples SQS_Theorems S3_Theorems GCS_Theorems PubSub_Theorems DynamoDB_Theorems Services_Theorems
    Dynamo_Numbers Dynamo_Service Snapshot_Theorems Snapshot_Limits Sqs_Service
begin

text \<open>
  FCP, a local emulator of cloud services written in Go: its state engine, verified.

  \<^bold>\<open>The program.\<close> FCP serves the HTTP protocols of S3, SQS, DynamoDB, Cloud Storage, Pub/Sub, Firestore,
  Secret Manager, Cloud KMS, IAM credentials, FCM and Vertex AI from one process. The protocol handlers
  (\<^verbatim>\<open>src/internal/server\<close>) decode requests and call one shared engine, the \<open>Store\<close> of
  \<^verbatim>\<open>src/internal/state\<close>. The engine keeps all metadata in one structure in memory (\<open>snapshot\<close>),
  guards it with one mutex, writes it as a JSON file through a temporary file, a sync and a rename after
  every change, and keeps object bodies as files of their own, named by a digest of their place and
  content. Components meet in this structure: an object put enqueues messages, a receive moves messages
  between queues, a pull forwards messages to the subscriptions of another topic, deleting a bucket looks
  at the uploads, opening the store checks the bodies of three services against one directory.

  \<^bold>\<open>Theories and what they model.\<close>
  \<^item> \<open>Prelude\<close>, \<open>Base64\<close>: the parts of Go and its standard library the code uses (strings as byte lists,
    maps as finite maps, 64-bit wrap-around, hexadecimal, base64 and decimal text, sorting), and the
    lemma collections.
  \<^item> \<open>State_Types\<close>: the error values, one record per Go struct, the \<open>snapshot\<close>.
    \<open>Dynamo_Values\<close>: attribute values and their JSON form. \<open>Documents\<close>: the state file as a document
    (\<open>encodeSnapshot\<close>, \<open>normalizeSnapshot\<close>, \<open>validateSnapshotStructure\<close>).
  \<^item> \<open>World\<close>: the fields of \<open>Store\<close> together with its directory; a schedule of failing system calls; the
    commit \<open>saveLocked\<close> with \<open>rollbackSaveLocked\<close>; the locales \<open>live_invariant\<close> (what an invariant of the
    live data gives over a commit) and \<open>store_operation\<close> (the contract of an operation: it keeps the
    invariant, and on error it has changed nothing).
  \<^item> \<open>Object_Files\<close>: names, publication, reading and verification of object bodies
    (\<^verbatim>\<open>integrity.go\<close> and the file part of \<open>PutObject\<close>).
  \<^item> \<open>S3\<close>, \<open>SQS\<close> (\<^verbatim>\<open>store.go\<close>), \<open>GCS\<close>, \<open>PubSub\<close> (\<^verbatim>\<open>gcp.go\<close>), \<open>DynamoDB\<close> (\<^verbatim>\<open>dynamodb.go\<close>),
    \<open>Services\<close> (\<^verbatim>\<open>gcp_services.go\<close>, \<^verbatim>\<open>kms.go\<close>, \<^verbatim>\<open>iam.go\<close>, \<^verbatim>\<open>fcm.go\<close>, \<^verbatim>\<open>vertex.go\<close>): one definition per
    operation, under the name of the Go method. An operation takes a \<open>world\<close> and returns a result
    (\<open>Inl\<close> an error, \<open>Inr\<close> a value) and the world after it, file operations and compensations included.
  \<^item> \<open>Lifecycle\<close>: opening (\<open>openData\<close>), \<open>validateAndCleanupObjectState\<close>, \<open>Reset\<close>,
    \<open>ResetWorkloadData\<close>.
  \<^item> \<open>Store_Invariant\<close>, \<open>Bodies\<close> and the theories \<open>X_Correct\<close>: the invariant of the store, and for every
    operation an interpretation of \<open>store_operation\<close>. \<open>Store_Runs\<close>: one step relation over all
    operations and restarts, with reachability.
  \<^item> \<open>Samples\<close> and the theories \<open>X_Theorems\<close>: concrete worlds and the properties of each component.
  \<^item> \<open>Snapshots\<close>: saved snapshots of the directory (\<^verbatim>\<open>snapshot.go\<close>: save, list, read, load with its journal
    and recovery, delete, materialize), the lock of the directory (\<^verbatim>\<open>lock.go\<close> and its Unix and Windows parts)
    and \<open>OpenWithOptions\<close>, over \<open>datadir\<close>: a \<open>world\<close> with the other entries of the data directory.
    \<open>Snapshot_Recovery\<close> (the invariant \<open>restoring\<close> of an interrupted restore), \<open>Snapshot_Load\<close> (what a load
    can leave), \<open>Snapshot_Progress\<close> (a recovery without faults succeeds), \<open>Snapshot_Reopen\<close>,
    \<open>Snapshot_Save\<close>, \<open>Snapshot_Restore\<close> (saving and loading without faults), \<open>Snapshot_Samples\<close>,
    \<open>Snapshot_Theorems\<close>, \<open>Snapshot_Limits\<close>.
  \<^item> \<open>Dynamo_Expressions\<close>, \<open>Dynamo_Handlers\<close>: the DynamoDB protocol handler
    (\<^verbatim>\<open>src/internal/server/dynamodb.go\<close>): the expression language (tokenizer, parser, evaluators, updates,
    number arithmetic) and every request, from its decoded body to a reply. A reply is a datatype with one
    constructor per shape of answer; the maps of batch requests are association lists, in the order Go
    happens to iterate. The parameter \<open>R\<close> stands for \<open>big.Rat.SetString\<close>. \<open>Handlers\<close> holds the contract of a
    handler as a locale (\<open>error_reply\<close>), \<open>Dynamo_Service\<close> its interpretation; \<open>Dynamo_Conditions\<close>,
    \<open>Dynamo_Numbers\<close> and \<open>Dynamo_Paging\<close> relate the code to a grammar of conditions, to rational numbers
    and to unlimited reads.
  \<^item> \<open>Sqs_Urls\<close>, \<open>Sqs_Handlers\<close>: the SQS protocol handler (\<^verbatim>\<open>src/internal/server/sqs.go\<close>), from a request to its
    reply: every operation, the batches, the long poll (a partial function over the clock), queue URLs with the part
    of \<^verbatim>\<open>net/url\<close> they use, and the digest of message attributes. Parameters: \<open>decode\<close>, what \<open>json.Unmarshal\<close> makes of a
    body, and \<open>A\<close>, the authorities \<open>url.Parse\<close> accepts. \<open>Sqs_Service\<close> holds the theorems and interprets \<open>error_reply\<close>.
  \<^bold>\<open>What the theorems show.\<close> For the engine as a whole (this theory): along every run of operations,
  faults and restarts the state on disk is the live state and the invariant holds; a failed call has
  changed nothing; a process that dies at any system call leaves a directory that opens with the state
  before or after the call; opening accepts only intact bodies; a restart keeps the state; the state file
  decodes to what was encoded. For the components: reading back what was put (S3, Cloud Storage,
  DynamoDB, secrets), the object store as a refinement of a map, multipart completion, pages of listings,
  notifications, conservation and order of messages, FIFO deduplication, exactness of deletes and
  acknowledgements, all-or-nothing transactions. Some theorems prove defects of the code: a state file
  over 256 MiB is written and can never be read; an empty receipt handle or acknowledgement identifier
  removes messages nobody received; dead-lettering to the own topic loses messages; the encoding of
  composite DynamoDB keys is ambiguous.
  For snapshots: save and load is a round trip; a save adds one complete snapshot or none; a load replaces
  the whole store or nothing, whatever calls fail in it and in the recoveries after it, and leaves a
  directory that opens; a directory has one owner. For the DynamoDB handler: every request is safe, the
  text of a condition means what its grammar says, updates touch what they name, limited reads followed to
  their end are complete, sums are exact to 38 decimals. Further defects: \<open>LoadSnapshot\<close> ignores a failed
  clean-up, after which the next recovery puts the old objects back; a snapshot with many objects breaks the
  listing of all snapshots; \<open>>\<close> and \<open>>=\<close> ignore types; a deleted start key ends a paged read.
  For the SQS handler: every request is safe; a long poll returns once its deadline has passed, with receipts the queue
  knows; a batch of sends appends its successful entries in order; the digest of attributes is over an unambiguous
  encoding; a queue URL addresses its queue exactly when the name has no slash and no percent sign and is not empty,
  which \<open>CreateQueue\<close> does not check.
  \<^bold>\<open>Environment.\<close> The record \<open>env\<close> supplies what comes from outside the code: the clock, random bytes,
  names of temporary files, which system calls fail, the digests (SHA-256, MD5, CRC-32C), JSON text and
  its parsing, the text of times, and the text of an encoded state with its parsing. Hypotheses about it are named:
  \<open>digests_ok E S\<close> (digests have 32 bytes and SHA-256 does not collide on the inputs \<open>S\<close> that occur), \<open>hashable\<close> (the inputs of this
  call are among \<open>S\<close>), \<open>fresh_ids\<close> (no random identifier has repeated), where they are needed. Faults
  are arbitrary: a crash at system call \<open>n\<close> is the schedule in which all calls from \<open>n\<close> on fail.

  \<^bold>\<open>Modelling choices.\<close> Strings and byte slices are byte lists. A nil map or slice is the empty one,
  except in documents, where the code tells them apart. Case folding and white space are ASCII.
  \<open>sort.Slice\<close> is modelled by a stable sort; the code sorts by unique keys or by keys whose order among
  equals does not matter. A state file is its document, not its text. Sizes stay below \<open>2 ^ 63\<close>. The
  object directory holds regular files only. Operations run one at a time, as the mutex of the store
  makes them. Deduplication records that have expired may be dropped by a call that then fails, so
  "unchanged" is \<open>sameLive\<close>: equal up to deduplication records. No loop of the code needs fuel: all are over
  finite data, except the long poll, which is proved to return when the clock reaches its deadline, and \<open>freeName\<close>, which tries 10000 names as \<open>os.MkdirTemp\<close> does. \<open>followPages\<close>, a client
  that reads on, has a number of pages, and one more than the items of the table is proved to be enough.
  \<open>os.RemoveAll\<close> removes one entry after the other, so that a fault leaves a part. The theorems on
  interrupted loads take a snapshot whose state has another digest than the state on disk
  (\<open>restorable\<close>); loading the state that is already there is covered by the round trip.

  \<^bold>\<open>Not modelled.\<close> \<open>newID\<close>'s fallback when no random bytes can be read; symbolic links and special files in
  the data directory; the protocol handlers other than DynamoDB and SQS, which decode requests, call the operations
  above and format their results; the dispatch of requests, \<open>Summary\<close> and the dashboard; the command line and
  the start of processes; the compatibility catalogue and the reliability report, which are tables and text.
\<close>

section \<open>Runs of the whole store\<close>





text \<open>
  C4. An operation that returns an error has changed nothing: the live state is as before (up to
  expired deduplication records), the state file is as before, and a restart gives the same state.
\<close>

theorem failed_call_changes_nothing:
  assumes "ok.holds E S w" and "store_call E S w (Some e) w'"
  shows "sameLive (w_data w') (w_data w) \<and> diskState w' = diskState w \<and> ok.holds E S w'"
  using store_call_outcome [OF assms(2,1)] by (simp add: diskState_def diskDoc_def)

theorem failed_call_changes_nothing_witness:
  "ok.holds sampleEnv sampleInputs freshWorld \<and>
   store_call sampleEnv sampleInputs freshWorld (Some ErrBucketNotFound) freshWorld \<and>
   diskState freshWorld = diskState freshWorld"
proof -
  have h: "ok.holds sampleEnv sampleInputs freshWorld" by (rule freshWorld_holds [OF sample_digests_ok])
  have "DeleteBucket sampleEnv ''b'' freshWorld = (Inl ErrBucketNotFound, freshWorld)"
    by (simp add: DeleteBucket_def freshWorld_def emptySnapshot_def)
  from store_call.intros(2) [OF this]
  have c: "store_call sampleEnv sampleInputs freshWorld (Some ErrBucketNotFound) freshWorld"
    by (simp add: failure_def)
  show ?thesis using h c failed_call_changes_nothing [OF h c] by blast
qed





text \<open>
  C19. Whatever the directory holds, and whichever system calls fail: if a store opens, then every
  body its state refers to is present with the recorded size, SHA-256 and CRC-32C, and the object
  directory holds nothing else.
\<close>

theorem open_validates:
  assumes "openData E mode sf w0 = (Inr (), w')"
  shows "(\<forall>ns ow k f n h c. fileRef (w_data w') ns ow k f n h c \<longrightarrow> bodyMatches E (w_objects w') f n h c) \<and>
    fset (fmdom (w_objects w')) = refFiles (w_data w')"
  using openData_sound [OF assms] by blast

theorem open_validates_witness:
  "\<exists>w'. openData sampleEnv IntegrityModeStrict NoFile freshWorld = (Inr (), w') \<and>
    fset (fmdom (w_objects w')) = refFiles (w_data w')"
proof -
  have h: "ok.holds sampleEnv sampleInputs freshWorld" by (rule freshWorld_holds [OF sample_digests_ok])
  have "e_stateSize sampleEnv (diskDoc freshWorld) \<le> maxPersistentStateSize"
    by (simp add: sampleEnv_def maxPersistentStateSize_def)
  from open_succeeds [OF h _ this openedWith_self, of IntegrityModeStrict] obtain w' where
    "openData sampleEnv IntegrityModeStrict NoFile freshWorld = (Inr (), w')"
    by (auto simp: diskFile_def freshWorld_def)
  with open_validates [OF this] show ?thesis by blast
qed

text \<open>
  C40. A save has no size limit but the reader has one: a state whose encoding exceeds 256 MiB is
  committed successfully and can then never be opened again.
\<close>

theorem oversized_state_cannot_reopen:
  assumes "saveLocked E w = (None, w')" and "encodeSnapshot (w_data w) = Some raw"
    and "e_stateSize E raw > maxPersistentStateSize"
  shows "\<exists>e w2. openData E mode (diskFile w') w' = (Inl e, w2)"
proof -
  from assms(1) have "w_state_json w' = Some raw"
    by (cases rule: saveLocked_cases) (use assms(2) in auto)
  from reopen_too_large [OF this assms(3)] show ?thesis .
qed

theorem oversized_state_cannot_reopen_witness:
  "\<exists>w' e w2. saveLocked (sampleEnv\<lparr>e_stateText := \<lambda>_. replicate 268435457 (CHR 0x20)\<rparr>) freshWorld = (None, w') \<and>
     openData (sampleEnv\<lparr>e_stateText := \<lambda>_. replicate 268435457 (CHR 0x20)\<rparr>) IntegrityModeStartup (diskFile w') w' = (Inl e, w2)"
proof -
  let ?E = "sampleEnv\<lparr>e_stateText := \<lambda>_. replicate 268435457 (CHR 0x20)\<rparr>"
  have en: "encodeSnapshot (w_data freshWorld) = Some (snapshotDoc emptySnapshot)" by (simp add: freshWorld_def)
  then obtain w' where s: "saveLocked ?E freshWorld = (None, w')"
    by (simp add: saveLocked_def)
  have "e_stateSize ?E (snapshotDoc emptySnapshot) > maxPersistentStateSize" by (simp add: maxPersistentStateSize_def)
  from oversized_state_cannot_reopen [OF s en this, of IntegrityModeStartup] s show ?thesis by blast
qed

text \<open>
  C18. The commit protocol under every schedule of faults. A save of new data over a durable world
  leaves a durable world: either it succeeded and disk and memory hold the new data, or it failed
  and disk and memory hold the old (up to deduplication records). It touches no object file.
\<close>

theorem save_commits_or_rolls_back:
  assumes "durable w0" and "dynamo_clean d" and "saveLocked E (w0\<lparr>w_data := d\<rparr>) = (r, w')"
  shows "durable w' \<and> w_objects w' = w_objects w0 \<and>
    (case r of None \<Rightarrow> w_data w' = d \<and> diskState w' = d
     | Some e \<Rightarrow> sameLive (w_data w') (w_data w0) \<and> diskState w' = diskState w0)"
  using saveLocked_commit [OF assms(1) refl assms(2,3)]
  by (auto simp: diskState_def diskDoc_def split: option.split)

theorem save_commits_or_rolls_back_witness:
  "\<exists>r w'. saveLocked (diesAt 2 sampleEnv) freshWorld = (r, w') \<and> r \<noteq> None \<and> durable w'"
proof -
  have d: "durable freshWorld" using freshWorld_holds [OF sample_digests_ok] by (rule ok.holds_durable)
  obtain r w' where s: "saveLocked (diesAt 2 sampleEnv) freshWorld = (r, w')" by fastforce
  then have "saveLocked (diesAt 2 sampleEnv) (freshWorld\<lparr>w_data := emptySnapshot\<rparr>) = (r, w')"
    by (simp add: freshWorld_def)
  from save_commits_or_rolls_back [OF d dynamo_clean_empty this] have "durable w'" by blast
  moreover have "fst (saveLocked (diesAt 2 sampleEnv) freshWorld) \<noteq> None"
    by (simp add: saveLocked_def rollbackSaveLocked_def freshWorld_def diesAt_def)
  ultimately show ?thesis using s by auto
qed



end
